(* ===== verification/AppErrors.thy ===== *)
theory AppErrors
  imports Prelude
begin

section \<open>Application error codes (src/lib/app-error.ts, src/lib/errors.ts)\<close>

text \<open>
  The closed set of application error codes with the HTTP status each one is sent with, and
  the three errors of the render capacity controller. A thrown \<open>AppError\<close> is its code: the
  status is a function of it and the message is prose.
\<close>

datatype app_error_code =
    PROJECT_NOT_FOUND
  | PROJECT_SLUG_CONFLICT
  | DOMAIN_NOT_FOUND
  | DOMAIN_ALREADY_EXISTS
  | DOMAIN_NOT_VERIFIED
  | DOMAIN_VERIFICATION_FAILED
  | DOMAIN_VERIFICATION_RATE_LIMITED
  | DOMAIN_VERIFICATION_IN_PROGRESS
  | VERIFICATION_TOKEN_INVALID
  | SITEMAP_SOURCE_NOT_FOUND
  | SITEMAP_NOT_FOUND
  | SITEMAP_FETCH_FAILED
  | SITEMAP_TOO_LARGE
  | SITEMAP_PARSE_FAILED
  | SITEMAP_LIMIT_EXCEEDED
  | URL_DOMAIN_MISMATCH
  | INVALID_DOMAIN
  | INVALID_RENDER_URL
  | DATABASE_UNAVAILABLE
  | UNAUTHENTICATED
  | FORBIDDEN
  | FORBIDDEN_ROLE
  | ORGANIZATION_NOT_FOUND
  | MEMBER_NOT_FOUND
  | ENDPOINT_MIGRATED
  | CSRF_ORIGIN_REJECTED
  | INVITATION_NOT_FOUND
  | INVITATION_EXPIRED
  | INVITATION_ALREADY_USED
  | INVITATION_EMAIL_MISMATCH
  | ACCOUNT_ALREADY_EXISTS
  | RATE_LIMITED
  | API_KEY_INVALID
  | API_KEY_EXPIRED
  | API_KEY_REVOKED
  | API_KEY_NOT_FOUND
  | API_KEY_METADATA_INVALID
  | ORGANIZATION_SUSPENDED
  | PROJECT_SUSPENDED

fun status_by_code :: "app_error_code \<Rightarrow> nat" where
  "status_by_code PROJECT_NOT_FOUND = 404"
| "status_by_code PROJECT_SLUG_CONFLICT = 409"
| "status_by_code DOMAIN_NOT_FOUND = 404"
| "status_by_code DOMAIN_ALREADY_EXISTS = 409"
| "status_by_code DOMAIN_NOT_VERIFIED = 409"
| "status_by_code DOMAIN_VERIFICATION_FAILED = 422"
| "status_by_code DOMAIN_VERIFICATION_RATE_LIMITED = 429"
| "status_by_code DOMAIN_VERIFICATION_IN_PROGRESS = 409"
| "status_by_code VERIFICATION_TOKEN_INVALID = 422"
| "status_by_code SITEMAP_SOURCE_NOT_FOUND = 404"
| "status_by_code SITEMAP_NOT_FOUND = 404"
| "status_by_code SITEMAP_FETCH_FAILED = 422"
| "status_by_code SITEMAP_TOO_LARGE = 422"
| "status_by_code SITEMAP_PARSE_FAILED = 422"
| "status_by_code SITEMAP_LIMIT_EXCEEDED = 422"
| "status_by_code URL_DOMAIN_MISMATCH = 400"
| "status_by_code INVALID_DOMAIN = 400"
| "status_by_code INVALID_RENDER_URL = 400"
| "status_by_code DATABASE_UNAVAILABLE = 503"
| "status_by_code UNAUTHENTICATED = 401"
| "status_by_code FORBIDDEN = 404"
| "status_by_code FORBIDDEN_ROLE = 403"
| "status_by_code ORGANIZATION_NOT_FOUND = 404"
| "status_by_code MEMBER_NOT_FOUND = 404"
| "status_by_code ENDPOINT_MIGRATED = 410"
| "status_by_code CSRF_ORIGIN_REJECTED = 403"
| "status_by_code INVITATION_NOT_FOUND = 404"
| "status_by_code INVITATION_EXPIRED = 410"
| "status_by_code INVITATION_ALREADY_USED = 410"
| "status_by_code INVITATION_EMAIL_MISMATCH = 403"
| "status_by_code ACCOUNT_ALREADY_EXISTS = 409"
| "status_by_code RATE_LIMITED = 429"
| "status_by_code API_KEY_INVALID = 401"
| "status_by_code API_KEY_EXPIRED = 401"
| "status_by_code API_KEY_REVOKED = 401"
| "status_by_code API_KEY_NOT_FOUND = 404"
| "status_by_code API_KEY_METADATA_INVALID = 401"
| "status_by_code ORGANIZATION_SUSPENDED = 403"
| "status_by_code PROJECT_SUSPENDED = 403"

datatype capacity_error = RENDER_QUEUE_FULL | RENDER_QUEUE_TIMEOUT | RENDER_CAPACITY_CLOSED

text \<open>
  A rejected promise of the render path carries a capacity error, an application error, or
  any other error (\<open>isCapacityError\<close> and \<open>isAppError\<close> tell them apart by class).
\<close>

datatype thrown = Capacity_Error capacity_error | App_Error app_error_code | Other_Error string

fun isCapacityError :: "thrown \<Rightarrow> bool" where
  "isCapacityError (Capacity_Error _) = True"
| "isCapacityError _ = False"

fun isAppError :: "thrown \<Rightarrow> bool" where
  "isAppError (App_Error _) = True"
| "isAppError _ = False"

lemma status_is_error: "400 \<le> status_by_code c \<and> status_by_code c < 600"
  by (cases c) simp_all

lemma status_cross_tenant:
  "status_by_code FORBIDDEN = status_by_code ORGANIZATION_NOT_FOUND"
  "status_by_code FORBIDDEN = status_by_code PROJECT_NOT_FOUND"
  "status_by_code FORBIDDEN = status_by_code DOMAIN_NOT_FOUND"
  by simp_all

end
