(* ===== verification/RenderCapacity.thy ===== *)
theory RenderCapacity
  imports AppErrors "HOL-Library.Multiset"
begin

section \<open>The render capacity controller (src/services/render-capacity.ts)\<close>

text \<open>
  \<open>createCapacityController\<close> bounds the renders in progress and queues the rest. The model
  is its closure state as a record, one function per operation of the closure, and a step
  relation whose steps are what the event loop can run: a call of \<open>run\<close>, the settling of a
  task's promise, the firing of a queue timer, a call of \<open>close\<close>. Callbacks of one step run
  to completion, as they do on one JavaScript thread.

  The fields after \<open>timers\<close> record what happened: which tasks were submitted, started, are
  running or settled (and how), and the values given to the metrics client. A task is named
  by a number; its function is called in \<open>executeEntry\<close>, returns a promise, and does not throw
  synchronously (the only caller passes an \<open>async\<close> function).
\<close>

datatype 'v settlement = Resolved 'v | Rejected thrown

record queue_entry =
  entryId :: nat
  enqueuedAt :: time_ms

record cap_snapshot =
  snapActive :: nat
  snapQueued :: nat
  snapMaxConcurrent :: nat
  snapMaxQueued :: nat
  snapClosed :: bool

record 'v capacity =
  maxConcurrent :: nat
  maxQueued :: nat
  queueTimeoutMs :: int
  active :: nat
  closed :: bool
  queue :: "queue_entry list"
  cancelled :: "nat set"
  timers :: "nat set"
  submitted :: "nat list"
  started :: "nat list"
  running :: "nat list"
  settled :: "(nat \<times> 'v settlement) list"
  snapshots :: "(nat \<times> nat) list"
  queueWaits :: "int list"

definition getSnapshot :: "'v capacity \<Rightarrow> cap_snapshot" where
  "getSnapshot c =
     \<lparr>snapActive = active c, snapQueued = length (queue c), snapMaxConcurrent = maxConcurrent c,
      snapMaxQueued = maxQueued c, snapClosed = closed c\<rparr>"

definition reportSnapshot :: "'v capacity \<Rightarrow> 'v capacity" where
  "reportSnapshot c = c\<lparr>snapshots := snapshots c @ [(active c, length (queue c))]\<rparr>"

definition observeQueueWait :: "'v capacity \<Rightarrow> int \<Rightarrow> 'v capacity" where
  "observeQueueWait c ms = c\<lparr>queueWaits := queueWaits c @ [max 0 ms]\<rparr>"

definition settle :: "'v capacity \<Rightarrow> nat \<Rightarrow> 'v settlement \<Rightarrow> 'v capacity" where
  "settle c i r = c\<lparr>settled := settled c @ [(i, r)]\<rparr>"

definition createCapacityController :: "nat \<Rightarrow> nat \<Rightarrow> int \<Rightarrow> 'v capacity" where
  "createCapacityController mc mq qt =
     reportSnapshot
       \<lparr>maxConcurrent = mc, maxQueued = mq, queueTimeoutMs = qt, active = 0, closed = False,
        queue = [], cancelled = {}, timers = {}, submitted = [], started = [], running = [],
        settled = [], snapshots = [], queueWaits = []\<rparr>"

definition executeEntry :: "'v capacity \<Rightarrow> queue_entry \<Rightarrow> time_ms \<Rightarrow> 'v capacity" where
  "executeEntry c e now =
     (let c1 = c\<lparr>active := active c + 1\<rparr>;
          c2 = observeQueueWait c1 (now - enqueuedAt e);
          c3 = reportSnapshot c2
      in c3\<lparr>started := started c3 @ [entryId e], running := running c3 @ [entryId e]\<rparr>)"

lemma executeEntry_simps [simp]:
  "maxConcurrent (executeEntry c e now) = maxConcurrent c"
  "maxQueued (executeEntry c e now) = maxQueued c"
  "active (executeEntry c e now) = Suc (active c)"
  "closed (executeEntry c e now) = closed c"
  "queue (executeEntry c e now) = queue c"
  "cancelled (executeEntry c e now) = cancelled c"
  "timers (executeEntry c e now) = timers c"
  "submitted (executeEntry c e now) = submitted c"
  "started (executeEntry c e now) = started c @ [entryId e]"
  "running (executeEntry c e now) = running c @ [entryId e]"
  "settled (executeEntry c e now) = settled c"
  "snapshots (executeEntry c e now) = snapshots c @ [(Suc (active c), length (queue c))]"
  by (simp_all add: executeEntry_def observeQueueWait_def reportSnapshot_def Let_def)

lemma reportSnapshot_simps [simp]:
  "maxConcurrent (reportSnapshot c) = maxConcurrent c"
  "maxQueued (reportSnapshot c) = maxQueued c"
  "active (reportSnapshot c) = active c"
  "closed (reportSnapshot c) = closed c"
  "queue (reportSnapshot c) = queue c"
  "cancelled (reportSnapshot c) = cancelled c"
  "timers (reportSnapshot c) = timers c"
  "submitted (reportSnapshot c) = submitted c"
  "started (reportSnapshot c) = started c"
  "running (reportSnapshot c) = running c"
  "settled (reportSnapshot c) = settled c"
  "snapshots (reportSnapshot c) = snapshots c @ [(active c, length (queue c))]"
  by (simp_all add: reportSnapshot_def)

lemma settle_simps [simp]:
  "maxConcurrent (settle c i r) = maxConcurrent c"
  "maxQueued (settle c i r) = maxQueued c"
  "active (settle c i r) = active c"
  "closed (settle c i r) = closed c"
  "queue (settle c i r) = queue c"
  "cancelled (settle c i r) = cancelled c"
  "timers (settle c i r) = timers c"
  "submitted (settle c i r) = submitted c"
  "started (settle c i r) = started c"
  "running (settle c i r) = running c"
  "settled (settle c i r) = settled c @ [(i, r)]"
  "snapshots (settle c i r) = snapshots c"
  by (simp_all add: settle_def)

text \<open>The \<open>while\<close> loop of \<open>tryRunNext\<close>: every iteration shifts one entry off the queue.\<close>

function drainQueue :: "'v capacity \<Rightarrow> time_ms \<Rightarrow> 'v capacity" where
  "drainQueue c now =
     (if active c < maxConcurrent c
      then (case queue c of
              [] \<Rightarrow> c
            | e # q \<Rightarrow>
                (let c1 = c\<lparr>queue := q, timers := timers c - {entryId e}\<rparr>
                 in if entryId e \<in> cancelled c then drainQueue c1 now
                    else drainQueue (executeEntry c1 e now) now))
      else c)"
  by pat_completeness auto
termination
  by (relation "measure (\<lambda>(c, now). length (queue c))") auto

declare drainQueue.simps [simp del]

definition tryRunNext :: "'v capacity \<Rightarrow> time_ms \<Rightarrow> 'v capacity" where
  "tryRunNext c now = reportSnapshot (drainQueue c now)"

text \<open>\<open>releaseSlot\<close>, then \<open>resolve\<close> or \<open>reject\<close>: the two handlers on the task's promise.\<close>

definition taskSettled :: "'v capacity \<Rightarrow> nat \<Rightarrow> thrown + 'v \<Rightarrow> time_ms \<Rightarrow> 'v capacity" where
  "taskSettled c i r now =
     (let released = tryRunNext (c\<lparr>active := active c - 1, running := remove1 i (running c)\<rparr>) now
      in settle released i (case r of Inl err \<Rightarrow> Rejected err | Inr v \<Rightarrow> Resolved v))"

definition cap_run :: "'v capacity \<Rightarrow> nat \<Rightarrow> time_ms \<Rightarrow> 'v capacity" where
  "cap_run c i now =
     (let c0 = c\<lparr>submitted := submitted c @ [i]\<rparr>; e = \<lparr>entryId = i, enqueuedAt = now\<rparr>
      in if closed c then settle c0 i (Rejected (Capacity_Error RENDER_CAPACITY_CLOSED))
         else if active c < maxConcurrent c then executeEntry c0 e now
         else if length (queue c) \<ge> maxQueued c
         then settle c0 i (Rejected (Capacity_Error RENDER_QUEUE_FULL))
         else reportSnapshot (c0\<lparr>queue := queue c @ [e], timers := insert i (timers c)\<rparr>))"

definition queueTimeout :: "'v capacity \<Rightarrow> nat \<Rightarrow> time_ms \<Rightarrow> 'v capacity" where
  "queueTimeout c i now =
     (let enq = (case find (\<lambda>e. entryId e = i) (queue c) of None \<Rightarrow> now | Some e \<Rightarrow> enqueuedAt e);
          c1 = c\<lparr>cancelled := insert i (cancelled c), timers := timers c - {i},
                 queue := filter (\<lambda>e. entryId e \<noteq> i) (queue c)\<rparr>
      in settle (reportSnapshot (observeQueueWait c1 (now - enq))) i
           (Rejected (Capacity_Error RENDER_QUEUE_TIMEOUT)))"

definition cap_close :: "'v capacity \<Rightarrow> 'v capacity" where
  "cap_close c =
     (if closed c then c
      else let pending = map entryId (queue c);
               c1 = c\<lparr>closed := True, queue := [], timers := timers c - set pending,
                      cancelled := cancelled c \<union> set pending\<rparr>;
               c2 = foldl (\<lambda>d i. settle d i (Rejected (Capacity_Error RENDER_CAPACITY_CLOSED))) c1 pending
           in reportSnapshot c2)"

text \<open>\<open>createRenderService\<close> (src/services/render-service.ts) hands every call to the controller.\<close>

definition render_service_renderUrl :: "'v capacity \<Rightarrow> nat \<Rightarrow> time_ms \<Rightarrow> 'v capacity" where
  "render_service_renderUrl c i now = cap_run c i now"

subsection \<open>The event loop\<close>

inductive cap_step :: "'v capacity \<Rightarrow> 'v capacity \<Rightarrow> bool" where
  step_run: "i \<notin> set (submitted c) \<Longrightarrow> cap_step c (cap_run c i now)"
| step_settled: "i \<in> set (running c) \<Longrightarrow> cap_step c (taskSettled c i r now)"
| step_timeout: "i \<in> timers c \<Longrightarrow> cap_step c (queueTimeout c i now)"
| step_close: "cap_step c (cap_close c)"

inductive_cases cap_stepE: "cap_step c d"

definition cap_init :: "nat \<Rightarrow> nat \<Rightarrow> int \<Rightarrow> 'v capacity \<Rightarrow> bool" where
  "cap_init mc mq qt c \<longleftrightarrow> c = createCapacityController mc mq qt"

text \<open>The states a controller created with the given options can be in.\<close>

definition cap_reachable :: "nat \<Rightarrow> nat \<Rightarrow> int \<Rightarrow> 'v capacity \<Rightarrow> bool" where
  "cap_reachable mc mq qt c \<longleftrightarrow> rtranclp cap_step (createCapacityController mc mq qt) c"

subsection \<open>The invariant\<close>

text \<open>
  Everything but work conservation, which \<open>releaseSlot\<close> breaks until \<open>tryRunNext\<close> restores it.
\<close>

definition cap_base :: "'v capacity \<Rightarrow> bool" where
  "cap_base c \<longleftrightarrow>
     active c = length (running c) \<and> active c \<le> maxConcurrent c
     \<and> length (queue c) \<le> maxQueued c
     \<and> (closed c \<longrightarrow> queue c = [])
     \<and> timers c = entryId ` set (queue c)
     \<and> cancelled c \<inter> entryId ` set (queue c) = {}
     \<and> cancelled c \<subseteq> set (submitted c)
     \<and> distinct (submitted c)
     \<and> subseq (started c @ map entryId (queue c)) (submitted c)
     \<and> (\<forall>s \<in> set (snapshots c). fst s \<le> maxConcurrent c \<and> snd s \<le> maxQueued c)"

text \<open>Every submitted task is in exactly one place: queued, running or settled once.\<close>

definition accounted :: "'v capacity \<Rightarrow> nat multiset" where
  "accounted c = mset (map entryId (queue c)) + mset (running c) + mset (map fst (settled c))"

definition work_conserving :: "'v capacity \<Rightarrow> bool" where
  "work_conserving c \<longleftrightarrow> (queue c \<noteq> [] \<longrightarrow> active c = maxConcurrent c)"

definition cap_inv :: "'v capacity \<Rightarrow> bool" where
  "cap_inv c \<longleftrightarrow> cap_base c \<and> work_conserving c \<and> accounted c = mset (submitted c)"

lemma cap_base_queue_submitted: "cap_base c \<Longrightarrow> entryId ` set (queue c) \<subseteq> set (submitted c)"
proof -
  assume "cap_base c"
  then have "subseq (started c @ map entryId (queue c)) (submitted c)"
    by (simp add: cap_base_def)
  from subseq_set [OF this] show ?thesis by simp
qed

lemma cap_base_distinct_queue: "cap_base c \<Longrightarrow> distinct (map entryId (queue c))"
  unfolding cap_base_def by (metis distinct_append subseq_distinct)

lemma cap_inv_init: "cap_inv (createCapacityController mc mq qt)"
  by (simp add: cap_inv_def cap_base_def work_conserving_def accounted_def createCapacityController_def)

text \<open>One iteration of the loop: the head of the queue starts.\<close>

definition startHead :: "'v capacity \<Rightarrow> queue_entry \<Rightarrow> queue_entry list \<Rightarrow> time_ms \<Rightarrow> 'v capacity" where
  "startHead c e q now = executeEntry (c\<lparr>queue := q, timers := timers c - {entryId e}\<rparr>) e now"

lemma startHead_base:
  assumes "cap_base c" "queue c = e # q" "active c < maxConcurrent c"
  shows "cap_base (startHead c e q now)"
  using assms cap_base_distinct_queue [OF assms(1)]
  by (auto simp: cap_base_def startHead_def)

lemma startHead_accounted:
  "queue c = e # q \<Longrightarrow> accounted (startHead c e q now) = accounted c"
  by (simp add: accounted_def startHead_def)

lemma drainQueue_head:
  assumes "cap_base c"
  shows "drainQueue c now =
     (case queue c of [] \<Rightarrow> c
      | e # q \<Rightarrow> (if active c < maxConcurrent c then drainQueue (startHead c e q now) now else c))"
  using assms
  by (subst drainQueue.simps) (auto simp: cap_base_def startHead_def Let_def split: list.splits)

lemma drainQueue_inv:
  assumes "cap_base c"
  shows "cap_base (drainQueue c now) \<and> work_conserving (drainQueue c now)
    \<and> accounted (drainQueue c now) = accounted c \<and> submitted (drainQueue c now) = submitted c
    \<and> maxConcurrent (drainQueue c now) = maxConcurrent c \<and> closed (drainQueue c now) = closed c"
  using assms
proof (induction "length (queue c)" arbitrary: c)
  case 0
  then show ?case by (simp add: drainQueue_head work_conserving_def)
next
  case (Suc n)
  then obtain e q where q: "queue c = e # q" by (cases "queue c") auto
  show ?case
  proof (cases "active c < maxConcurrent c")
    case False
    with Suc.prems q show ?thesis
      by (simp add: drainQueue_head work_conserving_def) (simp add: cap_base_def)
  next
    case True
    let ?d = "startHead c e q now"
    have "length (queue ?d) = n" using Suc.hyps(2) q by (simp add: startHead_def)
    with Suc.hyps(1) [of ?d] startHead_base [OF Suc.prems q True]
    have "cap_base (drainQueue ?d now) \<and> work_conserving (drainQueue ?d now)
      \<and> accounted (drainQueue ?d now) = accounted ?d \<and> submitted (drainQueue ?d now) = submitted ?d
      \<and> maxConcurrent (drainQueue ?d now) = maxConcurrent ?d \<and> closed (drainQueue ?d now) = closed ?d"
      by simp
    moreover have "drainQueue c now = drainQueue ?d now"
      using q True by (simp add: drainQueue_head [OF Suc.prems])
    ultimately show ?thesis
      using startHead_accounted [OF q] by (simp add: startHead_def)
  qed
qed


lemmas cap_inv_defs = cap_inv_def cap_base_def work_conserving_def accounted_def

lemma cap_base_report: "cap_base c \<Longrightarrow> cap_base (reportSnapshot c)"
  by (auto simp: cap_base_def)

lemma tryRunNext_inv:
  assumes "cap_base c" "accounted c + {#i#} = mset (submitted c)"
  shows "cap_base (tryRunNext c now) \<and> work_conserving (tryRunNext c now)
    \<and> accounted (tryRunNext c now) + {#i#} = mset (submitted (tryRunNext c now))"
proof -
  note d = drainQueue_inv [OF assms(1), of now]
  from d have "cap_base (tryRunNext c now)"
    unfolding tryRunNext_def by (blast intro: cap_base_report)
  with d assms(2) show ?thesis
    by (simp add: tryRunNext_def work_conserving_def accounted_def)
qed

lemma multiset_regroup:
  "A + {#i#} = B \<Longrightarrow> Q + B + S = M \<Longrightarrow> Q + A + S + {#i#} = (M :: 'a multiset)"
  "A + {#i#} = B \<Longrightarrow> B + R + S = M \<Longrightarrow> A + R + (S + {#i#}) = (M :: 'a multiset)"
  by (auto simp: ac_simps)

lemma cap_inv_settle:
  assumes "cap_base d" "work_conserving d" "accounted d + {#i#} = mset (submitted d)"
  shows "cap_inv (settle d i r)"
  using assms by (simp add: cap_inv_def cap_base_def work_conserving_def accounted_def)

lemma cap_inv_settled [inv_intros]:
  assumes "cap_inv c" "i \<in> set (running c)"
  shows "cap_inv (taskSettled c i r now)"
proof -
  let ?c = "c\<lparr>active := active c - 1, running := remove1 i (running c)\<rparr>"
  have "cap_base ?c"
    using assms by (auto simp: cap_inv_def cap_base_def length_remove1)
  moreover have "mset (remove1 i (running c)) + {#i#} = mset (running c)"
    using assms(2) by simp
  from multiset_regroup(1) [OF this] have "accounted ?c + {#i#} = mset (submitted ?c)"
    using assms(1) unfolding cap_inv_def accounted_def by fastforce
  ultimately have "cap_base (tryRunNext ?c now) \<and> work_conserving (tryRunNext ?c now)
    \<and> accounted (tryRunNext ?c now) + {#i#} = mset (submitted (tryRunNext ?c now))"
    by (rule tryRunNext_inv)
  then show ?thesis
    unfolding taskSettled_def Let_def by (blast intro: cap_inv_settle)
qed

lemma subseq_snoc: "subseq xs ys \<Longrightarrow> subseq xs (ys @ [z])"
  by (metis append_Nil2 list_emb_Nil list_emb_append_mono)

lemma subseq_take_left: "subseq (xs @ ys) zs \<Longrightarrow> subseq xs zs"
  by (meson prefixI prefix_imp_subseq subseq_order.trans)

lemma subseq_snoc_same: "subseq xs ys \<Longrightarrow> subseq (xs @ [z]) (ys @ [z])"
  by (simp add: list_emb_append_mono)

lemma cap_inv_run [inv_intros]:
  assumes "cap_inv c" "i \<notin> set (submitted c)"
  shows "cap_inv (cap_run c i now)"
proof -
  have idle: "queue c = []" if "active c < maxConcurrent c"
    using assms(1) that by (auto simp: cap_inv_def work_conserving_def)
  have fresh: "i \<notin> entryId ` set (queue c)"
    using assms by (auto simp: cap_inv_def accounted_def dest!: arg_cong [of _ _ set_mset])
  show ?thesis
    using assms idle
    by (auto simp: cap_run_def Let_def cap_inv_defs subseq_snoc
        intro: subseq_snoc_same [of "_ @ _", simplified])
qed

lemma filter_not_id_mset:
  assumes "distinct (map entryId q)" "i \<in> entryId ` set q"
  shows "mset (map entryId (filter (\<lambda>e. entryId e \<noteq> i) q)) + {#i#} = mset (map entryId q)"
  using assms
proof (induction q)
  case (Cons e q)
  show ?case
  proof (cases "entryId e = i")
    case True
    with Cons.prems(1) have "filter (\<lambda>e. entryId e \<noteq> i) q = q"
      by (auto simp: filter_id_conv image_iff)
    with True show ?thesis by simp
  next
    case False
    with Cons show ?thesis by auto
  qed
qed simp

lemma cap_inv_timeout [inv_intros]:
  assumes "cap_inv c" "i \<in> timers c"
  shows "cap_inv (queueTimeout c i now)"
proof -
  let ?q = "filter (\<lambda>e. entryId e \<noteq> i) (queue c)"
  have base: "cap_base c" and iq: "i \<in> entryId ` set (queue c)"
    using assms by (auto simp: cap_inv_def cap_base_def)
  have ms: "mset (map entryId ?q) + {#i#} = mset (map entryId (queue c))"
    by (rule filter_not_id_mset [OF cap_base_distinct_queue [OF base] iq])
  have "subseq (started c @ map entryId ?q) (started c @ map entryId (queue c))"
    by (simp add: subseq_append' subseq_map)
  then have "subseq (started c @ map entryId ?q) (submitted c)"
    using base subseq_order.trans unfolding cap_base_def by blast
  moreover have "length ?q \<le> maxQueued c"
    using base by (metis cap_base_def le_trans length_filter_le)
  moreover have "queue c \<noteq> []" using iq by auto
  moreover have "mset (map entryId ?q) + mset (running c) + (mset (map fst (settled c)) + {#i#})
      = mset (submitted c)"
    using multiset_regroup(2) [OF ms] assms(1) unfolding cap_inv_def accounted_def by blast
  moreover have "i \<in> set (submitted c)"
    using iq cap_base_queue_submitted [OF base] by auto
  ultimately show ?thesis
    using assms(1)
    by (auto simp: queueTimeout_def Let_def cap_inv_defs observeQueueWait_def)
qed

lemma foldl_settle:
  "foldl (\<lambda>d i. settle d i r) c is = c\<lparr>settled := settled c @ map (\<lambda>i. (i, r)) is\<rparr>"
  by (induction "is" arbitrary: c) (simp_all add: settle_def)

lemma cap_inv_close [inv_intros]:
  assumes "cap_inv c"
  shows "cap_inv (cap_close c)"
proof (cases "closed c")
  case False
  have "accounted (cap_close c) = accounted c"
    using False
    by (simp add: accounted_def cap_close_def Let_def foldl_settle comp_def ac_simps
        flip: mset_map)
  with False show ?thesis
    using assms cap_base_queue_submitted [of c]
    by (auto simp: cap_inv_def cap_base_def work_conserving_def cap_close_def Let_def foldl_settle
        dest: subseq_take_left)
qed (use assms in \<open>simp add: cap_close_def\<close>)

lemma cap_step_inv: "cap_step c d \<Longrightarrow> cap_inv c \<Longrightarrow> cap_inv d"
  by (auto elim!: cap_stepE intro: inv_intros)

interpretation cap: step_system "cap_init mc mq qt" cap_step cap_inv
  by unfold_locales (auto simp: cap_init_def intro: cap_inv_init cap_step_inv)

lemma cap_reachable_inv: "cap_reachable mc mq qt c \<Longrightarrow> cap_inv c"
  by (rule cap.reachable_inv) (auto simp: cap_reachable_def cap_init_def)

lemma cap_reachable_start: "cap_reachable mc mq qt (createCapacityController mc mq qt)"
  by (simp add: cap_reachable_def)

lemma cap_reachable_step: "cap_reachable mc mq qt c \<Longrightarrow> cap_step c d \<Longrightarrow> cap_reachable mc mq qt d"
  by (simp add: cap_reachable_def)

lemma cap_reachable_run:
  "cap_reachable mc mq qt c \<Longrightarrow> i \<notin> set (submitted c) \<Longrightarrow> cap_reachable mc mq qt (cap_run c i now)"
  by (blast intro: cap_reachable_step step_run)

lemma cap_reachable_settled:
  "cap_reachable mc mq qt c \<Longrightarrow> i \<in> set (running c) \<Longrightarrow> cap_reachable mc mq qt (taskSettled c i r now)"
  by (blast intro: cap_reachable_step step_settled)

subsection \<open>The options never change\<close>

lemma drainQueue_options:
  "maxConcurrent (drainQueue c now) = maxConcurrent c \<and> maxQueued (drainQueue c now) = maxQueued c
   \<and> closed (drainQueue c now) = closed c"
proof (induction c now rule: drainQueue.induct)
  case (1 c now)
  then show ?case
    by (auto simp: drainQueue.simps [of c now] Let_def split: list.splits)
qed

lemma cap_close_eq:
  "\<not> closed c \<Longrightarrow> cap_close c =
     reportSnapshot (c\<lparr>closed := True, queue := [],
       timers := timers c - set (map entryId (queue c)),
       cancelled := cancelled c \<union> set (map entryId (queue c)),
       settled := settled c
         @ map (\<lambda>i. (i, Rejected (Capacity_Error RENDER_CAPACITY_CLOSED))) (map entryId (queue c))\<rparr>)"
  by (simp add: cap_close_def Let_def foldl_settle)

lemma cap_step_options [frame_simps]:
  "cap_step c d \<Longrightarrow> maxConcurrent d = maxConcurrent c \<and> maxQueued d = maxQueued c"
  by (erule cap_stepE)
    (auto simp: cap_run_def taskSettled_def tryRunNext_def queueTimeout_def observeQueueWait_def
      Let_def drainQueue_options cap_close_def foldl_settle)

lemma cap_reachable_options:
  assumes "cap_reachable mc mq qt c"
  shows "maxConcurrent c = mc \<and> maxQueued c = mq"
  using assms unfolding cap_reachable_def
  by (induction rule: rtranclp_induct)
    (auto simp: createCapacityController_def dest: cap_step_options)

lemma drainQueue_head_started:
  assumes "cap_base c" "queue c = e # q" "active c < maxConcurrent c" "Suc (active c) = maxConcurrent c"
  shows "drainQueue c now = startHead c e q now"
proof -
  have "drainQueue c now = drainQueue (startHead c e q now) now"
    using assms(2,3) by (simp add: drainQueue_head [OF assms(1)])
  moreover have "\<not> active (startHead c e q now) < maxConcurrent (startHead c e q now)"
    using assms(4) by (simp add: startHead_def)
  ultimately show ?thesis by (simp add: drainQueue.simps [of "startHead c e q now"])
qed

subsection \<open>What the controller promises\<close>

text \<open>
  C10. Backpressure. In every state the controller can reach, at most \<open>maxConcurrent\<close> tasks are
  running, the slot counter counts exactly the running tasks, at most \<open>maxQueued\<close> callers wait,
  and every snapshot given to the metrics client was within both limits.
\<close>

theorem capacity_bounds:
  assumes "cap_reachable mc mq qt c"
  shows "active c = length (running c) \<and> length (running c) \<le> mc \<and> length (queue c) \<le> mq
    \<and> (\<forall>s \<in> set (snapshots c). fst s \<le> mc \<and> snd s \<le> mq)"
  using cap_reachable_inv [OF assms] cap_reachable_options [OF assms]
  by (auto simp: cap_inv_def cap_base_def)

text \<open>
  C11. No promise is lost or settled twice. The tasks that were ever submitted are, with
  multiplicity, the tasks that wait, run, or were settled; no task is in two of these.
\<close>

theorem capacity_exactly_once:
  assumes "cap_reachable mc mq qt c"
  shows "mset (map entryId (queue c)) + mset (running c) + mset (map fst (settled c)) = mset (submitted c)
    \<and> distinct (map entryId (queue c) @ running c @ map fst (settled c))"
proof -
  have inv: "cap_inv c" using assms by (rule cap_reachable_inv)
  then have eq: "mset (map entryId (queue c) @ running c @ map fst (settled c)) = mset (submitted c)"
    by (simp add: cap_inv_def accounted_def ac_simps)
  have "distinct (submitted c)" using inv by (simp add: cap_inv_def cap_base_def)
  with mset_eq_imp_distinct_iff [OF eq] inv show ?thesis
    by (simp add: cap_inv_def accounted_def)
qed

text \<open>
  C15. First come, first served. The tasks that were started, followed by those that still wait,
  are in the order in which they were submitted.
\<close>

theorem capacity_fifo:
  assumes "cap_reachable mc mq qt c"
  shows "subseq (started c @ map entryId (queue c)) (submitted c)"
  using cap_reachable_inv [OF assms] by (simp add: cap_inv_def cap_base_def)

text \<open>
  C14. No lost wakeup. If somebody waits, every slot is taken; and when a task settles while
  others wait, the slot goes at once to the one at the head of the queue.
\<close>

theorem capacity_no_lost_wakeup:
  assumes reach: "cap_reachable mc mq qt c" and wait: "queue c = e # q"
  shows "length (running c) = mc
    \<and> (\<forall>i r now. i \<in> set (running c) \<longrightarrow>
          started (taskSettled c i r now) = started c @ [entryId e]
        \<and> queue (taskSettled c i r now) = q
        \<and> running (taskSettled c i r now) = remove1 i (running c) @ [entryId e])"
proof -
  have inv: "cap_inv c" using reach by (rule cap_reachable_inv)
  have full: "active c = maxConcurrent c" "maxConcurrent c = mc" "active c = length (running c)"
    using inv wait cap_reachable_options [OF reach]
    by (auto simp: cap_inv_def work_conserving_def cap_base_def)
  have "drainQueue (c\<lparr>active := active c - 1, running := remove1 i (running c)\<rparr>) now
      = startHead (c\<lparr>active := active c - 1, running := remove1 i (running c)\<rparr>) e q now"
    if "i \<in> set (running c)" for i now
  proof (rule drainQueue_head_started)
    have "0 < active c" using that full(3) by (cases "running c") auto
    then show "active (c\<lparr>active := active c - 1, running := remove1 i (running c)\<rparr>)
        < maxConcurrent (c\<lparr>active := active c - 1, running := remove1 i (running c)\<rparr>)"
      "Suc (active (c\<lparr>active := active c - 1, running := remove1 i (running c)\<rparr>))
        = maxConcurrent (c\<lparr>active := active c - 1, running := remove1 i (running c)\<rparr>)"
      using full(1) by auto
    show "cap_base (c\<lparr>active := active c - 1, running := remove1 i (running c)\<rparr>)"
      using inv that by (auto simp: cap_inv_def cap_base_def length_remove1)
  qed (simp add: wait)
  with full show ?thesis
    by (simp add: taskSettled_def tryRunNext_def Let_def startHead_def)
qed

text \<open>
  Nothing is stranded. With at least one slot, once no task runs, nobody waits and every
  task ever submitted has been resolved or rejected.
\<close>

theorem capacity_quiescent:
  assumes "cap_reachable mc mq qt c" "0 < mc" "running c = []"
  shows "queue c = [] \<and> mset (map fst (settled c)) = mset (submitted c)"
  using cap_reachable_inv [OF assms(1)] cap_reachable_options [OF assms(1)] assms(2,3)
  by (auto simp: cap_inv_def work_conserving_def accounted_def cap_base_def)

lemma closed_step:
  assumes "cap_inv c" "closed c" "cap_step c d"
  shows "closed d \<and> started d = started c"
proof -
  have idle: "queue c = []" "timers c = {}"
    using assms(1,2) by (auto simp: cap_inv_def cap_base_def)
  have drain: "drainQueue (c\<lparr>active := a, running := rs\<rparr>) now = c\<lparr>active := a, running := rs\<rparr>" for a rs now
    using idle by (subst drainQueue.simps) simp
  from assms(3) show ?thesis
    using assms(2) idle
    by cases (auto simp: cap_run_def Let_def taskSettled_def tryRunNext_def drain cap_close_def)
qed

text \<open>
  C16. Shutdown. Closing rejects everyone who waits, leaves the running tasks alone, and from
  then on, whatever happens, nothing new is ever started.
\<close>

theorem capacity_shutdown:
  assumes "cap_reachable mc mq qt c" "rtranclp cap_step (cap_close c) d"
  shows "running (cap_close c) = running c \<and> queue (cap_close c) = []
    \<and> settled (cap_close c) = (if closed c then settled c else settled c
        @ map (\<lambda>e. (entryId e, Rejected (Capacity_Error RENDER_CAPACITY_CLOSED))) (queue c))
    \<and> closed d \<and> started d = started c"
proof -
  have inv: "cap_inv c" using assms(1) by (rule cap_reachable_inv)
  have cl: "closed (cap_close c) \<and> started (cap_close c) = started c"
    by (cases "closed c") (simp_all add: cap_close_eq, simp add: cap_close_def)
  have "closed d \<and> started d = started c"
    using cl by (intro cap.stable_along [where P = "\<lambda>x. closed x \<and> started x = started c",
          OF _ assms(2) cap_inv_close [OF inv]]) (auto dest: closed_step)
  moreover have "queue c = []" if "closed c" using inv that by (simp add: cap_inv_def cap_base_def)
  ultimately show ?thesis
    by (cases "closed c") (simp_all add: cap_close_eq comp_def, simp_all add: cap_close_def)
qed

subsection \<open>A run with one slot and one place in the queue\<close>

text \<open>Task 1 runs, task 2 waits; task 1 settles, and task 2 takes the slot.\<close>

definition demo_waiting :: "nat capacity" where
  "demo_waiting = cap_run (cap_run (createCapacityController 1 1 1000) 1 0) 2 5"

definition demo_done :: "nat capacity" where
  "demo_done = taskSettled (taskSettled demo_waiting 1 (Inr 42) 10) 2 (Inr 43) 20"

lemmas demo_simps = demo_waiting_def demo_done_def cap_run_def Let_def createCapacityController_def
  executeEntry_def observeQueueWait_def reportSnapshot_def settle_def taskSettled_def tryRunNext_def
  drainQueue.simps

lemma demo_waiting_reachable: "cap_reachable 1 1 1000 demo_waiting"
  unfolding demo_waiting_def
  by (intro cap_reachable_run cap_reachable_start) (simp_all add: demo_simps)

lemma demo_waiting_state:
  "queue demo_waiting = [\<lparr>entryId = 2, enqueuedAt = 5\<rparr>]" "running demo_waiting = [1]"
  "submitted demo_waiting = [1, 2]" "started demo_waiting = [1]" "\<not> closed demo_waiting"
  by (simp_all add: demo_simps)

lemma demo_done_reachable: "cap_reachable 1 1 1000 demo_done"
  unfolding demo_done_def
  by (intro cap_reachable_settled demo_waiting_reachable) (simp_all add: demo_simps)

theorem capacity_bounds_witness: "length (running demo_waiting) \<le> 1 \<and> length (queue demo_waiting) \<le> 1"
  using capacity_bounds [OF demo_waiting_reachable] by simp

theorem capacity_exactly_once_witness:
  "mset (map entryId (queue demo_waiting)) + mset (running demo_waiting)
     + mset (map fst (settled demo_waiting)) = {#1, 2#}"
  using capacity_exactly_once [OF demo_waiting_reachable] by (simp add: demo_waiting_state)

theorem capacity_fifo_witness: "subseq ([1] @ [2]) (submitted demo_waiting)"
  using capacity_fifo [OF demo_waiting_reachable] by (simp add: demo_waiting_state)

theorem capacity_no_lost_wakeup_witness:
  "running (taskSettled demo_waiting 1 (Inr 42) 10) = [2]"
  using capacity_no_lost_wakeup [OF demo_waiting_reachable demo_waiting_state(1)]
  by (simp add: demo_waiting_state)

theorem capacity_quiescent_witness: "mset (map fst (settled demo_done)) = {#1, 2#}"
  using capacity_quiescent [OF demo_done_reachable] by (simp add: demo_simps)

theorem capacity_shutdown_witness:
  "settled (cap_close demo_waiting) = [(2, Rejected (Capacity_Error RENDER_CAPACITY_CLOSED))]
   \<and> started (cap_run (cap_close demo_waiting) 3 30) = [1]"
proof -
  have "cap_step (cap_close demo_waiting) (cap_run (cap_close demo_waiting) 3 30)"
    by (rule step_run) (simp add: cap_close_eq demo_waiting_state)
  then have "rtranclp cap_step (cap_close demo_waiting) (cap_run (cap_close demo_waiting) 3 30)"
    by simp
  from capacity_shutdown [OF demo_waiting_reachable this] show ?thesis
    by (simp add: demo_waiting_state) (simp add: demo_simps)
qed

end
