(* ===== verification/CacheKeys.thy ===== *)
theory CacheKeys
  imports Prelude
begin

section \<open>Cache keys: storage keys, cache identities and render profiles\<close>

text \<open>
  src/lib/cache-storage-key.ts (building and parsing the object-storage key),
  src/lib/cache-identity.ts (the hashed identity of a cached page) and
  src/lib/render-profile.ts (the canonical serialisation of a render profile). SHA-256 is
  an argument \<open>sha\<close>: the hex digest of a string's UTF-8 bytes. The regular expressions are
  written as the parsers they stand for; both are anchored and every field they separate
  excludes its separator, so there is one way to match.
\<close>

subsection \<open>Field checks\<close>

datatype cache_encoding = Br | Gzip | Identity

datatype storage_key_error =
    Invalid_Segment string
  | Invalid_Hex64 string
  | Invalid_Generation
  | Invalid_Format
  | Prefix_Mismatch
  | Unrecognized_Extension
  | Metadata_Mismatch

record cache_object_key =
  ckOrganizationId :: string
  ckProjectId :: string
  ckDomainId :: string
  ckCacheKeyHash :: string
  ckGeneration :: int
  ckContentHash :: string
  ckContentEncoding :: cache_encoding

record build_key_params =
  bpOrganizationId :: string
  bpProjectId :: string
  bpDomainId :: string
  bpCacheKeyHash :: string
  bpGeneration :: int
  bpContentHash :: string
  bpContentEncoding :: "cache_encoding option"

definition safe_char :: "char \<Rightarrow> bool" where
  "safe_char c \<longleftrightarrow> is_upper c \<or> is_lower c \<or> is_digit c \<or> c = CHR ''_'' \<or> c = CHR ''-''"

definition SAFE_SEGMENT_RE :: "string \<Rightarrow> bool" where
  "SAFE_SEGMENT_RE s \<longleftrightarrow> 1 \<le> length s \<and> length s \<le> 64 \<and> list_all safe_char s"

definition HEX64_RE :: "string \<Rightarrow> bool" where
  "HEX64_RE s \<longleftrightarrow> length s = 64 \<and> list_all is_hex s"

definition assertSafeSegment :: "string \<Rightarrow> string \<Rightarrow> storage_key_error + unit" where
  "assertSafeSegment v label = guard_or (SAFE_SEGMENT_RE v) (Invalid_Segment label)"

definition assertHex64 :: "string \<Rightarrow> string \<Rightarrow> storage_key_error + unit" where
  "assertHex64 v label = guard_or (HEX64_RE v) (Invalid_Hex64 label)"

definition assertPositiveInteger :: "int \<Rightarrow> storage_key_error + unit" where
  "assertPositiveInteger n = guard_or (1 \<le> n) Invalid_Generation"

fun extensionFor :: "cache_encoding option \<Rightarrow> string" where
  "extensionFor (Some Br) = ''.html.br''"
| "extensionFor (Some Gzip) = ''.html.gz''"
| "extensionFor (Some Identity) = ''.html''"
| "extensionFor None = ''.html''"

definition encodingForExtension :: "string \<Rightarrow> cache_encoding option" where
  "encodingForExtension ext =
     (if ext = ''.html.br'' then Some Br
      else if ext = ''.html.gz'' then Some Gzip
      else if ext = ''.html'' then Some Identity
      else None)"

lemma encodingForExtension_extensionFor [simp]:
  "encodingForExtension (extensionFor e) = Some (case e of None \<Rightarrow> Identity | Some x \<Rightarrow> x)"
  by (cases e rule: extensionFor.cases) (simp_all add: encodingForExtension_def)

lemma extensionFor_encodingForExtension:
  "encodingForExtension ext = Some e \<Longrightarrow> extensionFor (Some e) = ext"
  by (auto simp: encodingForExtension_def split: if_splits)

subsection \<open>Building a key\<close>

definition key_file_name :: "int \<Rightarrow> string \<Rightarrow> cache_encoding option \<Rightarrow> string" where
  "key_file_name g h e = CHR ''g'' # show_nat (nat g) @ CHR ''-'' # h @ extensionFor e"

definition buildCacheObjectKey :: "build_key_params \<Rightarrow> storage_key_error + string" where
  "buildCacheObjectKey p =
     and_then (assertSafeSegment (bpOrganizationId p) ''organizationId'') (\<lambda>_.
     and_then (assertSafeSegment (bpProjectId p) ''projectId'') (\<lambda>_.
     and_then (assertSafeSegment (bpDomainId p) ''domainId'') (\<lambda>_.
     and_then (assertHex64 (bpCacheKeyHash p) ''cacheKeyHash'') (\<lambda>_.
     and_then (assertPositiveInteger (bpGeneration p)) (\<lambda>_.
     and_then (assertHex64 (bpContentHash p) ''contentHash'') (\<lambda>_.
       Inr (js_join CHR ''/''
         [''cache'', ''v1'', bpOrganizationId p, bpProjectId p, bpDomainId p,
          take 2 (bpCacheKeyHash p), bpCacheKeyHash p,
          key_file_name (bpGeneration p) (bpContentHash p) (bpContentEncoding p)])))))))"

subsection \<open>Parsing a key\<close>

text \<open>
  \<open>Number.parseInt\<close> of a string of digits: the number itself below \<open>2 ^ 53\<close>; above, the
  nearest double, ties to even; \<open>Infinity\<close> (\<open>None\<close>) from \<open>2 ^ 1024\<close> on.
\<close>

fun bit_length :: "nat \<Rightarrow> nat" where
  "bit_length n = (if n = 0 then 0 else Suc (bit_length (n div 2)))"

declare bit_length.simps [simp del]

definition js_integer :: "nat \<Rightarrow> nat option" where
  "js_integer n =
     (if n < 2 ^ 53 then Some n
      else let e = bit_length n - 53; q = n div 2 ^ e; r = n mod 2 ^ e; half = 2 ^ (e - 1);
               m = (if half < r \<or> (r = half \<and> odd q) then q + 1 else q) * 2 ^ e
           in if m < 2 ^ 1024 then Some m else None)"

definition key_file_parts :: "string \<Rightarrow> (string \<times> string \<times> string) option" where
  "key_file_parts f =
     (case f of
        [] \<Rightarrow> None
      | c # r \<Rightarrow>
          (let ds = takeWhile is_digit r; r1 = dropWhile is_digit r;
               h = take 64 (drop 1 r1); ext = drop 64 (drop 1 r1)
           in if c = CHR ''g'' \<and> ds \<noteq> [] \<and> take 1 r1 = ''-'' \<and> HEX64_RE h
                 \<and> ext \<in> {''.html'', ''.html.br'', ''.html.gz''}
              then Some (ds, h, ext) else None))"

record key_match =
  kmOrg :: string
  kmProject :: string
  kmDomain :: string
  kmPrefix :: string
  kmHash :: string
  kmGeneration :: string
  kmContentHash :: string
  kmExt :: string

definition KEY_RE :: "string \<Rightarrow> key_match option" where
  "KEY_RE key =
     (case js_split CHR ''/'' key of
        [a, b, org, proj, dmn, pre, h, fname] \<Rightarrow>
          (case key_file_parts fname of
             None \<Rightarrow> None
           | Some (g, c, ext) \<Rightarrow>
               (if a = ''cache'' \<and> b = ''v1'' \<and> SAFE_SEGMENT_RE org \<and> SAFE_SEGMENT_RE proj
                   \<and> SAFE_SEGMENT_RE dmn \<and> length pre = 2 \<and> list_all is_hex pre \<and> HEX64_RE h
                then Some \<lparr>kmOrg = org, kmProject = proj, kmDomain = dmn, kmPrefix = pre, kmHash = h,
                           kmGeneration = g, kmContentHash = c, kmExt = ext\<rparr>
                else None))
      | _ \<Rightarrow> None)"

definition parseCacheObjectKey :: "string \<Rightarrow> storage_key_error + cache_object_key" where
  "parseCacheObjectKey key =
     (case KEY_RE key of
        None \<Rightarrow> Inl Invalid_Format
      | Some m \<Rightarrow>
          and_then (guard_or (starts_with (kmHash m) (kmPrefix m)) Prefix_Mismatch) (\<lambda>_.
          (case js_integer (read_nat (kmGeneration m)) of
             None \<Rightarrow> Inl Invalid_Generation
           | Some g \<Rightarrow>
               and_then (assertPositiveInteger (int g)) (\<lambda>_.
               (case encodingForExtension (kmExt m) of
                  None \<Rightarrow> Inl Unrecognized_Extension
                | Some e \<Rightarrow>
                    Inr \<lparr>ckOrganizationId = kmOrg m, ckProjectId = kmProject m, ckDomainId = kmDomain m,
                         ckCacheKeyHash = kmHash m, ckGeneration = int g,
                         ckContentHash = kmContentHash m, ckContentEncoding = e\<rparr>)))))"

fun encoding_name :: "cache_encoding \<Rightarrow> string" where
  "encoding_name Br = ''br''"
| "encoding_name Gzip = ''gzip''"
| "encoding_name Identity = ''identity''"

lemma encoding_name_inject [simp]: "encoding_name a = encoding_name b \<longleftrightarrow> a = b"
  by (cases a; cases b) auto

text \<open>The expected encoding comes from a database column: any string.\<close>

definition assertCacheObjectKeyMatches ::
  "string \<Rightarrow> string \<Rightarrow> int \<Rightarrow> string \<Rightarrow> string \<Rightarrow> storage_key_error + unit" where
  "assertCacheObjectKeyMatches key h g c e =
     and_then (parseCacheObjectKey key) (\<lambda>p.
       guard_or (ckCacheKeyHash p = h \<and> ckGeneration p = g \<and> ckContentHash p = c
                 \<and> encoding_name (ckContentEncoding p) = e) Metadata_Mismatch)"

subsection \<open>What the fields exclude\<close>

lemma safe_char_not: "\<not> safe_char CHR ''/''" "\<not> safe_char CHR ''.''"
  by (simp_all add: safe_char_def is_upper_def is_lower_def is_digit_def)

lemma is_hex_not: "\<not> is_hex CHR ''/''" "\<not> is_hex CHR ''-''" "\<not> is_hex CHR ''.''"
  by (simp_all add: is_hex_def)

lemma is_digit_not: "\<not> is_digit CHR ''/''" "\<not> is_digit CHR ''-''"
  by (simp_all add: is_digit_def)

lemma safe_segment_no_slash: "SAFE_SEGMENT_RE s \<Longrightarrow> CHR ''/'' \<notin> set s"
  by (auto simp: SAFE_SEGMENT_RE_def safe_char_not list_all_iff)

lemma hex64_no_slash: "HEX64_RE s \<Longrightarrow> CHR ''/'' \<notin> set s"
  by (auto simp: HEX64_RE_def is_hex_not list_all_iff)

lemma show_nat_no_slash: "CHR ''/'' \<notin> set (show_nat n)"
  using list_all_notin [OF show_nat_digits is_digit_not(1)] .

lemma extensionFor_no_slash: "CHR ''/'' \<notin> set (extensionFor e)"
  by (cases e rule: extensionFor.cases) auto

lemma extensionFor_in: "extensionFor e \<in> {''.html'', ''.html.br'', ''.html.gz''}"
  by (cases e rule: extensionFor.cases) auto

lemma key_file_name_no_slash: "HEX64_RE h \<Longrightarrow> CHR ''/'' \<notin> set (key_file_name g h e)"
  by (simp add: key_file_name_def hex64_no_slash show_nat_no_slash extensionFor_no_slash)

lemma key_file_parts_span:
  assumes "HEX64_RE h" "list_all is_digit ds" "ds \<noteq> []"
  shows "key_file_parts (CHR ''g'' # ds @ CHR ''-'' # h @ extensionFor e) = Some (ds, h, extensionFor e)"
proof -
  let ?r = "ds @ CHR ''-'' # h @ extensionFor e"
  have "takeWhile is_digit ?r = ds"
    using assms(2) is_digit_not(2) by (rule takeWhile_span)
  moreover have "dropWhile is_digit ?r = CHR ''-'' # h @ extensionFor e"
    using assms(2) is_digit_not(2) by (rule dropWhile_span)
  moreover have "length h = 64" using assms(1) by (simp add: HEX64_RE_def)
  ultimately show ?thesis
    using assms extensionFor_in [of e] by (simp add: key_file_parts_def Let_def)
qed

lemma key_file_parts_name:
  "HEX64_RE h \<Longrightarrow> key_file_parts (key_file_name g h e) = Some (show_nat (nat g), h, extensionFor e)"
  unfolding key_file_name_def by (rule key_file_parts_span [OF _ show_nat_digits show_nat_not_Nil])

subsection \<open>Round trip\<close>

definition valid_build :: "build_key_params \<Rightarrow> bool" where
  "valid_build p \<longleftrightarrow> SAFE_SEGMENT_RE (bpOrganizationId p) \<and> SAFE_SEGMENT_RE (bpProjectId p)
     \<and> SAFE_SEGMENT_RE (bpDomainId p) \<and> HEX64_RE (bpCacheKeyHash p) \<and> 1 \<le> bpGeneration p
     \<and> HEX64_RE (bpContentHash p)"

definition built_segments :: "build_key_params \<Rightarrow> string list" where
  "built_segments p =
     [''cache'', ''v1'', bpOrganizationId p, bpProjectId p, bpDomainId p,
      take 2 (bpCacheKeyHash p), bpCacheKeyHash p,
      key_file_name (bpGeneration p) (bpContentHash p) (bpContentEncoding p)]"

lemma buildCacheObjectKey_iff:
  "buildCacheObjectKey p = Inr k \<longleftrightarrow> valid_build p \<and> k = js_join CHR ''/'' (built_segments p)"
  unfolding buildCacheObjectKey_def and_then_Inr_iff assertSafeSegment_def assertHex64_def
    assertPositiveInteger_def guard_or_Inr_iff valid_build_def built_segments_def
  by (auto simp del: js_join.simps)

lemma built_segments_split:
  assumes "valid_build p"
  shows "js_split CHR ''/'' (js_join CHR ''/'' (built_segments p)) = built_segments p"
proof (rule js_split_join)
  show "built_segments p \<noteq> []" by (simp add: built_segments_def)
  have "CHR ''/'' \<notin> set (take 2 (bpCacheKeyHash p))"
    using assms hex64_no_slash [of "bpCacheKeyHash p"] by (auto simp: valid_build_def dest: in_set_takeD)
  then show "\<forall>w \<in> set (built_segments p). CHR ''/'' \<notin> set w"
    using assms by (auto simp: built_segments_def valid_build_def safe_segment_no_slash hex64_no_slash
        key_file_name_no_slash)
qed

definition parsed_of :: "build_key_params \<Rightarrow> cache_object_key" where
  "parsed_of p =
     \<lparr>ckOrganizationId = bpOrganizationId p, ckProjectId = bpProjectId p, ckDomainId = bpDomainId p,
      ckCacheKeyHash = bpCacheKeyHash p, ckGeneration = bpGeneration p,
      ckContentHash = bpContentHash p,
      ckContentEncoding = (case bpContentEncoding p of None \<Rightarrow> Identity | Some e \<Rightarrow> e)\<rparr>"

lemma list_all_take: "list_all P xs \<Longrightarrow> list_all P (take n xs)"
  by (auto simp: list_all_iff dest: in_set_takeD)

lemma KEY_RE_built:
  assumes "valid_build p"
  shows "KEY_RE (js_join CHR ''/'' (built_segments p)) =
    Some \<lparr>kmOrg = bpOrganizationId p, kmProject = bpProjectId p, kmDomain = bpDomainId p,
          kmPrefix = take 2 (bpCacheKeyHash p), kmHash = bpCacheKeyHash p,
          kmGeneration = show_nat (nat (bpGeneration p)), kmContentHash = bpContentHash p,
          kmExt = extensionFor (bpContentEncoding p)\<rparr>"
  unfolding KEY_RE_def built_segments_split [OF assms]
  using assms
  by (auto simp: built_segments_def valid_build_def key_file_parts_name HEX64_RE_def list_all_take
      simp del: js_join.simps)

lemma parse_built:
  assumes "valid_build p" "bpGeneration p < 2 ^ 53"
  shows "parseCacheObjectKey (js_join CHR ''/'' (built_segments p)) = Inr (parsed_of p)"
proof -
  have "nat (bpGeneration p) < 2 ^ 53" using assms(2) by (simp add: nat_less_iff)
  then have "js_integer (nat (bpGeneration p)) = Some (nat (bpGeneration p))"
    by (simp add: js_integer_def)
  then show ?thesis
    using assms(1)
    by (simp add: parseCacheObjectKey_def KEY_RE_built take_is_prefix assertPositiveInteger_def
        parsed_of_def valid_build_def)
qed

subsection \<open>What an accepted key looks like\<close>

lemma js_split_8:
  "(case js_split c s of [a, b, d, e, f, g, h, i] \<Rightarrow> P a b d e f g h i | _ \<Rightarrow> None) = Some m \<Longrightarrow>
   \<exists>a b d e f g h i. js_split c s = [a, b, d, e, f, g, h, i] \<and> P a b d e f g h i = Some m"
  by (auto split: list.splits)

lemma KEY_RE_Some:
  assumes "KEY_RE key = Some m"
  obtains fname where
    "js_split CHR ''/'' key = [''cache'', ''v1'', kmOrg m, kmProject m, kmDomain m, kmPrefix m, kmHash m, fname]"
    "key_file_parts fname = Some (kmGeneration m, kmContentHash m, kmExt m)"
    "SAFE_SEGMENT_RE (kmOrg m)" "SAFE_SEGMENT_RE (kmProject m)" "SAFE_SEGMENT_RE (kmDomain m)"
    "length (kmPrefix m) = 2" "list_all is_hex (kmPrefix m)" "HEX64_RE (kmHash m)"
  using js_split_8 [OF assms [unfolded KEY_RE_def]]
  by (fastforce split: option.splits if_splits)

lemma key_file_parts_Some:
  assumes "key_file_parts f = Some (ds, h, ext)"
  shows "f = CHR ''g'' # ds @ CHR ''-'' # h @ ext \<and> list_all is_digit ds \<and> ds \<noteq> [] \<and> HEX64_RE h
    \<and> ext \<in> {''.html'', ''.html.br'', ''.html.gz''}"
proof -
  from assms obtain c r where f: "f = c # r" by (cases f) (auto simp: key_file_parts_def)
  let ?r1 = "dropWhile is_digit r"
  from assms f have eqs: "c = CHR ''g''" "ds = takeWhile is_digit r" "ds \<noteq> []" "take 1 ?r1 = ''-''"
    "h = take 64 (drop 1 ?r1)" "ext = drop 64 (drop 1 ?r1)" "HEX64_RE h"
    "ext \<in> {''.html'', ''.html.br'', ''.html.gz''}"
    by (auto simp: key_file_parts_def Let_def split: if_splits)
  have "drop 1 ?r1 = h @ ext" unfolding eqs(5,6) by (rule append_take_drop_id [symmetric])
  then have "?r1 = CHR ''-'' # h @ ext" using eqs(4) by (cases ?r1) auto
  then have "r = ds @ CHR ''-'' # h @ ext"
    unfolding eqs(2) using takeWhile_dropWhile_id [of is_digit r] by simp
  moreover have "list_all is_digit ds"
    unfolding eqs(2) by (auto simp: list_all_iff dest: set_takeWhileD)
  ultimately show ?thesis using f eqs by simp
qed

definition well_formed_key :: "cache_object_key \<Rightarrow> bool" where
  "well_formed_key p \<longleftrightarrow> SAFE_SEGMENT_RE (ckOrganizationId p) \<and> SAFE_SEGMENT_RE (ckProjectId p)
     \<and> SAFE_SEGMENT_RE (ckDomainId p) \<and> HEX64_RE (ckCacheKeyHash p) \<and> 1 \<le> ckGeneration p
     \<and> HEX64_RE (ckContentHash p)"

definition match_parts :: "key_match \<Rightarrow> nat \<Rightarrow> cache_encoding \<Rightarrow> cache_object_key" where
  "match_parts m g e =
     \<lparr>ckOrganizationId = kmOrg m, ckProjectId = kmProject m, ckDomainId = kmDomain m,
      ckCacheKeyHash = kmHash m, ckGeneration = int g, ckContentHash = kmContentHash m,
      ckContentEncoding = e\<rparr>"

lemma parse_steps:
  assumes "parseCacheObjectKey key = Inr p"
  shows "\<exists>m g e. KEY_RE key = Some m \<and> prefix (kmPrefix m) (kmHash m)
    \<and> js_integer (read_nat (kmGeneration m)) = Some g \<and> 1 \<le> int g
    \<and> encodingForExtension (kmExt m) = Some e \<and> p = match_parts m g e"
  using assms
  by (auto simp: parseCacheObjectKey_def and_then_Inr_iff assertPositiveInteger_def match_parts_def
      split: option.splits)

lemma parse_Inr:
  assumes "parseCacheObjectKey key = Inr p"
  obtains ds ext where
    "well_formed_key p"
    "js_split CHR ''/'' key = [''cache'', ''v1'', ckOrganizationId p, ckProjectId p, ckDomainId p,
       take 2 (ckCacheKeyHash p), ckCacheKeyHash p, CHR ''g'' # ds @ CHR ''-'' # ckContentHash p @ ext]"
    "list_all is_digit ds" "ds \<noteq> []" "js_integer (read_nat ds) = Some (nat (ckGeneration p))"
    "ext = extensionFor (Some (ckContentEncoding p))"
proof -
  obtain m g e where m: "KEY_RE key = Some m" and pre: "prefix (kmPrefix m) (kmHash m)"
    and g: "js_integer (read_nat (kmGeneration m)) = Some g" "1 \<le> int g"
    and e: "encodingForExtension (kmExt m) = Some e" and P: "p = match_parts m g e"
    using parse_steps [OF assms] by metis
  obtain fname where K:
    "js_split CHR ''/'' key = [''cache'', ''v1'', kmOrg m, kmProject m, kmDomain m, kmPrefix m, kmHash m, fname]"
    "key_file_parts fname = Some (kmGeneration m, kmContentHash m, kmExt m)"
    "SAFE_SEGMENT_RE (kmOrg m)" "SAFE_SEGMENT_RE (kmProject m)" "SAFE_SEGMENT_RE (kmDomain m)"
    "length (kmPrefix m) = 2" "HEX64_RE (kmHash m)"
    using KEY_RE_Some [OF m] by metis
  note F = key_file_parts_Some [OF K(2)]
  have pre': "kmPrefix m = take 2 (kmHash m)" using pre K(6) by (metis append_eq_conv_conj prefixE)
  note pf = P match_parts_def
  show ?thesis
  proof (rule that)
    show "well_formed_key p"
      using K(3-5,7) F g(2) by (simp add: well_formed_key_def pf)
    show "js_split CHR ''/'' key = [''cache'', ''v1'', ckOrganizationId p, ckProjectId p, ckDomainId p,
       take 2 (ckCacheKeyHash p), ckCacheKeyHash p,
       CHR ''g'' # kmGeneration m @ CHR ''-'' # ckContentHash p @ kmExt m]"
      unfolding K(1) using F pre' by (simp add: pf)
    show "js_integer (read_nat (kmGeneration m)) = Some (nat (ckGeneration p))"
      using g by (simp add: pf)
    show "kmExt m = extensionFor (Some (ckContentEncoding p))"
      using extensionFor_encodingForExtension [OF e] by (simp add: pf)
  qed (use F in blast)+
qed

lemma safe_segment_no_dot: "SAFE_SEGMENT_RE s \<Longrightarrow> CHR ''.'' \<notin> set s \<and> s \<noteq> []"
  by (auto simp: SAFE_SEGMENT_RE_def safe_char_not list_all_iff)

lemma hex64_no_dot: "HEX64_RE s \<Longrightarrow> CHR ''.'' \<notin> set s \<and> take 2 s \<noteq> []"
  by (auto simp: HEX64_RE_def is_hex_not list_all_iff)

lemma parsed_path_segments:
  assumes "parseCacheObjectKey key = Inr p"
  shows "\<forall>seg \<in> set (js_split CHR ''/'' key). seg \<notin> {'''', ''.'', ''..''}"
proof -
  obtain ds ext where P: "well_formed_key p"
    "js_split CHR ''/'' key = [''cache'', ''v1'', ckOrganizationId p, ckProjectId p, ckDomainId p,
       take 2 (ckCacheKeyHash p), ckCacheKeyHash p, CHR ''g'' # ds @ CHR ''-'' # ckContentHash p @ ext]"
    using parse_Inr [OF assms] by metis
  have seg: "seg \<notin> {'''', ''.'', ''..''}" if "CHR ''.'' \<notin> set seg \<and> seg \<noteq> []" for seg
    using that by auto
  have "CHR ''.'' \<notin> set (take 2 (ckCacheKeyHash p)) \<and> take 2 (ckCacheKeyHash p) \<noteq> []"
    "CHR ''.'' \<notin> set (ckCacheKeyHash p) \<and> ckCacheKeyHash p \<noteq> []"
    using P(1) hex64_no_dot [of "ckCacheKeyHash p"]
    by (auto simp: well_formed_key_def dest: in_set_takeD)
  moreover have "SAFE_SEGMENT_RE (ckOrganizationId p)" "SAFE_SEGMENT_RE (ckProjectId p)"
    "SAFE_SEGMENT_RE (ckDomainId p)"
    using P(1) by (simp_all add: well_formed_key_def)
  ultimately show ?thesis
    unfolding P(2) by (simp add: seg safe_segment_no_dot del: insert_iff) simp
qed

subsection \<open>What the storage keys promise\<close>

lemma built_inject:
  assumes "valid_build p" "valid_build q"
    and "js_join CHR ''/'' (built_segments p) = js_join CHR ''/'' (built_segments q)"
  shows "parsed_of p = parsed_of q"
proof -
  have segs: "built_segments p = built_segments q"
    using assms built_segments_split by metis
  have "key_file_parts (key_file_name (bpGeneration p) (bpContentHash p) (bpContentEncoding p))
      = key_file_parts (key_file_name (bpGeneration q) (bpContentHash q) (bpContentEncoding q))"
    using segs by (simp add: built_segments_def)
  then have parts: "nat (bpGeneration p) = nat (bpGeneration q)" "bpContentHash p = bpContentHash q"
    "extensionFor (bpContentEncoding p) = extensionFor (bpContentEncoding q)"
    using assms(1,2) by (simp_all add: key_file_parts_name valid_build_def)
  from parts(3) have "(case bpContentEncoding p of None \<Rightarrow> Identity | Some x \<Rightarrow> x)
      = (case bpContentEncoding q of None \<Rightarrow> Identity | Some x \<Rightarrow> x)"
    using encodingForExtension_extensionFor by (metis option.inject)
  with parts segs assms(1,2) show ?thesis
    by (simp add: parsed_of_def built_segments_def valid_build_def)
qed


definition demo_key_params :: build_key_params where
  "demo_key_params =
     \<lparr>bpOrganizationId = ''org_1'', bpProjectId = ''p-1'', bpDomainId = ''d-1'',
      bpCacheKeyHash = replicate 64 CHR ''a'', bpGeneration = 7,
      bpContentHash = replicate 64 CHR ''b'', bpContentEncoding = Some Br\<rparr>"

lemma demo_key_valid: "valid_build demo_key_params"
  by (simp add: valid_build_def demo_key_params_def SAFE_SEGMENT_RE_def HEX64_RE_def safe_char_def
      is_upper_def is_lower_def is_digit_def is_hex_def list_all_iff)


text \<open>
  An accepted key names only what it may. Whatever string is parsed (it may come from the
  database), if it is accepted its parts are valid, no path segment is empty, \<open>.\<close> or \<open>..\<close>,
  and the parts are exactly the segments of the key: rebuilding from them gives the key up to
  the spelling of the generation's digits.
\<close>

theorem storage_key_parse_sound:
  assumes "parseCacheObjectKey key = Inr p"
  shows "well_formed_key p
    \<and> (\<forall>seg \<in> set (js_split CHR ''/'' key). seg \<notin> {'''', ''.'', ''..''})
    \<and> (\<exists>ds. list_all is_digit ds \<and> js_integer (read_nat ds) = Some (nat (ckGeneration p))
         \<and> key = js_join CHR ''/''
             [''cache'', ''v1'', ckOrganizationId p, ckProjectId p, ckDomainId p,
              take 2 (ckCacheKeyHash p), ckCacheKeyHash p,
              CHR ''g'' # ds @ CHR ''-'' # ckContentHash p @ extensionFor (Some (ckContentEncoding p))])"
  using parsed_path_segments [OF assms] parse_Inr [OF assms] js_join_split by metis

theorem storage_key_parse_sound_witness:
  "\<exists>p. well_formed_key p \<and> ckGeneration p = 7"
proof -
  have "parseCacheObjectKey (js_join CHR ''/'' (built_segments demo_key_params)) = Inr (parsed_of demo_key_params)"
    by (rule parse_built [OF demo_key_valid]) (simp add: demo_key_params_def)
  from storage_key_parse_sound [OF this] show ?thesis
    by (intro exI [of _ "parsed_of demo_key_params"]) (simp add: parsed_of_def demo_key_params_def)
qed

lemma parse_of_parts:
  assumes "SAFE_SEGMENT_RE a" "SAFE_SEGMENT_RE b" "SAFE_SEGMENT_RE d" "HEX64_RE h" "HEX64_RE c"
    and "list_all is_digit ds" "ds \<noteq> []" "js_integer (read_nat ds) = Some g" "1 \<le> g"
  shows "parseCacheObjectKey (js_join CHR ''/'' [''cache'', ''v1'', a, b, d, take 2 h, h,
      CHR ''g'' # ds @ CHR ''-'' # c @ extensionFor e])
    = Inr \<lparr>ckOrganizationId = a, ckProjectId = b, ckDomainId = d, ckCacheKeyHash = h,
        ckGeneration = int g, ckContentHash = c,
        ckContentEncoding = (case e of None \<Rightarrow> Identity | Some x \<Rightarrow> x)\<rparr>"
proof -
  let ?segs = "[''cache'', ''v1'', a, b, d, take 2 h, h, CHR ''g'' # ds @ CHR ''-'' # c @ extensionFor e]"
  have "CHR ''/'' \<notin> set (take 2 h)" using hex64_no_slash [OF assms(4)] by (auto dest: in_set_takeD)
  then have "js_split CHR ''/'' (js_join CHR ''/'' ?segs) = ?segs"
    using assms(1-6) list_all_notin [OF assms(6) is_digit_not(1)]
    by (intro js_split_join) (simp_all add: safe_segment_no_slash hex64_no_slash extensionFor_no_slash)
  then have "KEY_RE (js_join CHR ''/'' ?segs) =
      Some \<lparr>kmOrg = a, kmProject = b, kmDomain = d, kmPrefix = take 2 h, kmHash = h,
          kmGeneration = ds, kmContentHash = c, kmExt = extensionFor e\<rparr>"
    using assms by (simp add: KEY_RE_def key_file_parts_span list_all_take HEX64_RE_def del: js_join.simps)
  with assms(8,9) show ?thesis
    by (simp add: parseCacheObjectKey_def take_is_prefix assertPositiveInteger_def)
qed

lemma bit_length_range: "2 ^ k \<le> n \<Longrightarrow> n < 2 ^ Suc k \<Longrightarrow> bit_length n = Suc k"
proof (induction k arbitrary: n)
  case 0
  then have "n = 1" by simp
  then show ?case by (simp add: bit_length.simps [of "Suc 0"] bit_length.simps [of 0])
next
  case (Suc k)
  have "bit_length (n div 2) = Suc k" using Suc.prems by (intro Suc.IH) auto
  moreover have "n \<noteq> 0" using Suc.prems by (cases n) auto
  ultimately show ?case by (simp add: bit_length.simps [of n])
qed

lemma js_integer_rounds: "js_integer (2 ^ 53 + 1) = js_integer (2 ^ 53)"
proof -
  have "bit_length (2 ^ 53 + 1) = 54" "bit_length (2 ^ 53) = 54"
    using bit_length_range [of 53 "2 ^ 53 + 1"] bit_length_range [of 53 "2 ^ 53"] by simp_all
  then show ?thesis by (simp add: js_integer_def Let_def)
qed

lemma demo_digits: "list_all is_digit ''007'' \<and> list_all is_digit ''7''
    \<and> js_integer (read_nat ''007'') = Some 7 \<and> js_integer (read_nat ''7'') = Some 7"
  by (simp add: is_digit_def read_nat_def js_integer_def digit_val_def char_code_def)

text \<open>
  The spelling of a key is not unique. The parser takes leading zeros in the generation, and
  above \<open>2 ^ 53\<close> it rounds: keys that \<open>buildCacheObjectKey\<close> never makes are accepted, with the
  same parts as the key it does make.
\<close>

theorem storage_key_parse_not_canonical:
  "parseCacheObjectKey (js_join CHR ''/'' [''cache'', ''v1'', ''o'', ''p'', ''d'', take 2 (replicate 64 CHR ''a''),
       replicate 64 CHR ''a'', CHR ''g'' # ''007'' @ CHR ''-'' # replicate 64 CHR ''b'' @ extensionFor None])
   = parseCacheObjectKey (js_join CHR ''/'' [''cache'', ''v1'', ''o'', ''p'', ''d'', take 2 (replicate 64 CHR ''a''),
       replicate 64 CHR ''a'', CHR ''g'' # ''7'' @ CHR ''-'' # replicate 64 CHR ''b'' @ extensionFor None])
   \<and> js_integer (2 ^ 53 + 1) = js_integer (2 ^ 53)"
proof -
  have v: "SAFE_SEGMENT_RE ''o''" "SAFE_SEGMENT_RE ''p''" "SAFE_SEGMENT_RE ''d''"
    "HEX64_RE (replicate 64 CHR ''a'')" "HEX64_RE (replicate 64 CHR ''b'')"
    by (simp_all add: SAFE_SEGMENT_RE_def HEX64_RE_def safe_char_def is_lower_def is_hex_def list_all_iff)
  have "''007'' \<noteq> []" "''7'' \<noteq> []" "1 \<le> (7 :: nat)" by simp_all
  note p = parse_of_parts [OF v _ _ _ this(3)]
  from p [of "''007''" None] p [of "''7''" None] demo_digits js_integer_rounds
  show ?thesis by (simp del: js_join.simps)
qed

subsection \<open>Cache identities (src/lib/cache-identity.ts)\<close>

definition CACHE_KEY_VERSION :: nat where
  "CACHE_KEY_VERSION = 1"

record cache_identity =
  ciOrganizationId :: string
  ciProjectId :: string
  ciDomainId :: string
  ciNormalizedUrl :: string
  ciRenderProfileHash :: string
  ciCacheKeyVersion :: "nat option"

record cache_key =
  keyVersion :: nat
  keyHash :: string
  keyUrlHash :: string

definition FIELD_SEPARATOR :: char where
  "FIELD_SEPARATOR = char_of (0 :: nat)"

definition identity_version :: "cache_identity \<Rightarrow> nat" where
  "identity_version i = (case ciCacheKeyVersion i of None \<Rightarrow> CACHE_KEY_VERSION | Some v \<Rightarrow> v)"

definition identity_fields :: "cache_identity \<Rightarrow> string list" where
  "identity_fields i =
     [show_nat (identity_version i), ciOrganizationId i, ciProjectId i, ciDomainId i,
      ciNormalizedUrl i, ciRenderProfileHash i]"

definition computeNormalizedUrlHash :: "(string \<Rightarrow> string) \<Rightarrow> string \<Rightarrow> string" where
  "computeNormalizedUrlHash sha url = sha url"

definition computeCacheKey :: "(string \<Rightarrow> string) \<Rightarrow> cache_identity \<Rightarrow> cache_key" where
  "computeCacheKey sha i =
     \<lparr>keyVersion = identity_version i, keyHash = sha (js_join FIELD_SEPARATOR (identity_fields i)),
      keyUrlHash = computeNormalizedUrlHash sha (ciNormalizedUrl i)\<rparr>"

definition no_separator :: "cache_identity \<Rightarrow> bool" where
  "no_separator i \<longleftrightarrow> FIELD_SEPARATOR \<notin> set (ciOrganizationId i) \<and> FIELD_SEPARATOR \<notin> set (ciProjectId i)
     \<and> FIELD_SEPARATOR \<notin> set (ciDomainId i) \<and> FIELD_SEPARATOR \<notin> set (ciNormalizedUrl i)
     \<and> FIELD_SEPARATOR \<notin> set (ciRenderProfileHash i)"

lemma separator_not_digit: "\<not> is_digit FIELD_SEPARATOR"
  unfolding is_digit_def FIELD_SEPARATOR_def by code_simp

lemma identity_fields_no_separator:
  "no_separator i \<Longrightarrow> \<forall>w \<in> set (identity_fields i). FIELD_SEPARATOR \<notin> set w"
  using list_all_notin [OF show_nat_digits separator_not_digit]
  by (simp add: no_separator_def identity_fields_def)

lemma identity_join_inject:
  assumes "no_separator i" "no_separator j"
    and "js_join FIELD_SEPARATOR (identity_fields i) = js_join FIELD_SEPARATOR (identity_fields j)"
  shows "identity_fields i = identity_fields j"
proof -
  have "js_split FIELD_SEPARATOR (js_join FIELD_SEPARATOR (identity_fields x)) = identity_fields x"
    if "no_separator x" for x
    using identity_fields_no_separator [OF that] by (intro js_split_join) (simp_all add: identity_fields_def)
  with assms show ?thesis by metis
qed

text \<open>
  A cached page is never served for another identity. Two identities whose fields hold no
  NUL (as in every URL, id and digest) and whose key hashes agree are the same identity, field
  by field and version by version, unless the digest function itself collides on the two joined strings.
\<close>

theorem cache_identity_separation:
  assumes "no_separator i" "no_separator j"
    and "keyHash (computeCacheKey sha i) = keyHash (computeCacheKey sha j)"
    and "\<not> (\<exists>x y. x \<noteq> y \<and> sha x = sha y
           \<and> x = js_join FIELD_SEPARATOR (identity_fields i) \<and> y = js_join FIELD_SEPARATOR (identity_fields j))"
  shows "keyVersion (computeCacheKey sha i) = keyVersion (computeCacheKey sha j)
    \<and> ciOrganizationId i = ciOrganizationId j \<and> ciProjectId i = ciProjectId j
    \<and> ciDomainId i = ciDomainId j \<and> ciNormalizedUrl i = ciNormalizedUrl j
    \<and> ciRenderProfileHash i = ciRenderProfileHash j"
proof -
  have "js_join FIELD_SEPARATOR (identity_fields i) = js_join FIELD_SEPARATOR (identity_fields j)"
    using assms(3,4) by (auto simp: computeCacheKey_def)
  from identity_join_inject [OF assms(1,2) this] show ?thesis
    by (simp add: identity_fields_def computeCacheKey_def)
qed

definition demo_identity :: cache_identity where
  "demo_identity =
     \<lparr>ciOrganizationId = ''o'', ciProjectId = ''p'', ciDomainId = ''d'', ciNormalizedUrl = ''https://a/'',
      ciRenderProfileHash = ''h'', ciCacheKeyVersion = None\<rparr>"

theorem cache_identity_separation_witness:
  "keyVersion (computeCacheKey (\<lambda>s. s) demo_identity)
     = keyVersion (computeCacheKey (\<lambda>s. s) (demo_identity\<lparr>ciCacheKeyVersion := Some 1\<rparr>))"
proof -
  have "no_separator demo_identity" "no_separator (demo_identity\<lparr>ciCacheKeyVersion := Some 1\<rparr>)"
    by (code_simp, code_simp)
  moreover have "keyHash (computeCacheKey (\<lambda>s. s) demo_identity)
      = keyHash (computeCacheKey (\<lambda>s. s) (demo_identity\<lparr>ciCacheKeyVersion := Some 1\<rparr>))"
    by (simp add: computeCacheKey_def identity_fields_def identity_version_def demo_identity_def
        CACHE_KEY_VERSION_def)
  ultimately show ?thesis
    using cache_identity_separation [of demo_identity "demo_identity\<lparr>ciCacheKeyVersion := Some 1\<rparr>" "\<lambda>s. s"]
    by blast
qed

subsection \<open>Render profiles (src/lib/render-profile.ts)\<close>

definition RENDER_PROFILE_VERSION :: nat where
  "RENDER_PROFILE_VERSION = 1"

text \<open>An input property is \<open>None\<close> when the object does not have it.\<close>

record render_profile_input =
  rpWaitStrategy :: "string option"
  rpTimeoutProfile :: "string option"
  rpUserAgentProfile :: "string option"
  rpJavascriptEnabled :: "bool option"
  rpResourceBlockingProfile :: "string option"

record canonical_render_profile =
  cpVersion :: nat
  cpWaitStrategy :: string
  cpTimeoutProfile :: string
  cpUserAgentProfile :: string
  cpJavascriptEnabled :: bool
  cpResourceBlockingProfile :: string

definition or_default :: "'a option \<Rightarrow> 'a \<Rightarrow> 'a" where
  "or_default v d = (case v of None \<Rightarrow> d | Some x \<Rightarrow> x)"

definition merge_profile :: "render_profile_input \<Rightarrow> canonical_render_profile" where
  "merge_profile i =
     \<lparr>cpVersion = RENDER_PROFILE_VERSION,
      cpWaitStrategy = or_default (rpWaitStrategy i) ''networkidle'',
      cpTimeoutProfile = or_default (rpTimeoutProfile i) ''default'',
      cpUserAgentProfile = or_default (rpUserAgentProfile i) ''default'',
      cpJavascriptEnabled = or_default (rpJavascriptEnabled i) True,
      cpResourceBlockingProfile = or_default (rpResourceBlockingProfile i) ''default''\<rparr>"

text \<open>\<open>JSON.stringify\<close> of a string: the quote, the backslash and the control characters are escaped.\<close>

definition hex_digit :: "nat \<Rightarrow> char" where
  "hex_digit d = (if d < 10 then char_of (48 + d) else char_of (87 + d))"

definition BSLASH :: char where
  "BSLASH = CHR 0x5C"

definition DQUOTE :: char where
  "DQUOTE = CHR 0x22"

definition json_escape_char :: "char \<Rightarrow> string" where
  "json_escape_char c =
     (let n = char_code c
      in if c = DQUOTE then [BSLASH, DQUOTE]
         else if c = BSLASH then [BSLASH, BSLASH]
         else if n = 8 then [BSLASH, CHR ''b'']
         else if n = 9 then [BSLASH, CHR ''t'']
         else if n = 10 then [BSLASH, CHR ''n'']
         else if n = 12 then [BSLASH, CHR ''f'']
         else if n = 13 then [BSLASH, CHR ''r'']
         else if n < 32 then [BSLASH, CHR ''u'', CHR ''0'', CHR ''0'', hex_digit (n div 16), hex_digit (n mod 16)]
         else [c])"

definition json_string :: "string \<Rightarrow> string" where
  "json_string s = DQUOTE # concat (map json_escape_char s) @ [DQUOTE]"

definition json_member :: "string \<Rightarrow> string \<Rightarrow> string" where
  "json_member k v = json_string k @ CHR '':'' # v"

definition canonicalize :: "render_profile_input \<Rightarrow> string" where
  "canonicalize i =
     (let m = merge_profile i
      in CHR ''{'' # js_join CHR '',''
           [json_member ''version'' (show_nat (cpVersion m)),
            json_member ''javascriptEnabled'' (if cpJavascriptEnabled m then ''true'' else ''false''),
            json_member ''resourceBlockingProfile'' (json_string (cpResourceBlockingProfile m)),
            json_member ''timeoutProfile'' (json_string (cpTimeoutProfile m)),
            json_member ''userAgentProfile'' (json_string (cpUserAgentProfile m)),
            json_member ''waitStrategy'' (json_string (cpWaitStrategy m))] @ [CHR ''}''])"

definition computeRenderProfileHash :: "(string \<Rightarrow> string) \<Rightarrow> render_profile_input \<Rightarrow> string" where
  "computeRenderProfileHash sha i = sha (canonicalize i)"

text \<open>The escape sequences are a prefix code that never starts with the closing quote.\<close>

lemma hex_digit_inject:
  assumes "d < 16" "e < 16" "hex_digit d = hex_digit e"
  shows "d = e"
proof -
  have "char_code (hex_digit d) = char_code (hex_digit e)" using assms(3) by simp
  then show ?thesis
    using assms(1,2) by (simp add: hex_digit_def char_code_char_of split: if_splits)
qed

lemma ctrl_inject:
  assumes "char_code c < 32" "char_code d < 32"
    and "hex_digit (char_code c div 16) = hex_digit (char_code d div 16)"
    and "hex_digit (char_code c mod 16) = hex_digit (char_code d mod 16)"
  shows "c = d"
proof -
  have "char_code c div 16 = char_code d div 16"
    using assms(1,2) by (intro hex_digit_inject [OF _ _ assms(3)]) auto
  moreover have "char_code c mod 16 = char_code d mod 16"
    by (rule hex_digit_inject [OF _ _ assms(4)]) auto
  ultimately have "char_code c = char_code d" by (metis div_mult_mod_eq)
  then show ?thesis by simp
qed

lemma char_code_specials:
  "char_code DQUOTE = 34" "char_code BSLASH = 92" "DQUOTE \<noteq> BSLASH"
  "BSLASH \<noteq> CHR ''b''" "BSLASH \<noteq> CHR ''t''" "BSLASH \<noteq> CHR ''n''" "BSLASH \<noteq> CHR ''f''"
  "BSLASH \<noteq> CHR ''r''" "BSLASH \<noteq> CHR ''u''" "DQUOTE \<noteq> CHR ''b''" "DQUOTE \<noteq> CHR ''t''"
  "DQUOTE \<noteq> CHR ''n''" "DQUOTE \<noteq> CHR ''f''" "DQUOTE \<noteq> CHR ''r''" "DQUOTE \<noteq> CHR ''u''"
  by (simp_all add: DQUOTE_def BSLASH_def char_code_def)

lemma json_escape_not_quote: "hd (json_escape_char c) \<noteq> DQUOTE \<and> json_escape_char c \<noteq> []"
  using char_code_specials(3) by (auto simp: json_escape_char_def Let_def)

lemma char_code_eqI: "char_code c = char_code d \<Longrightarrow> c = d"
  by simp

lemma json_escape_prefix_code:
  assumes "json_escape_char c @ x = json_escape_char d @ y"
  shows "c = d \<and> x = y"
  using assms char_code_specials
  by (auto simp: json_escape_char_def Let_def dest: ctrl_inject intro: char_code_eqI split: if_splits)

lemma json_body_inject:
  "concat (map json_escape_char s) @ DQUOTE # x = concat (map json_escape_char t) @ DQUOTE # y
   \<Longrightarrow> s = t \<and> x = y"
proof (induction s arbitrary: t)
  case Nil
  show ?case
  proof (cases t)
    case (Cons d t')
    with Nil.prems show ?thesis
      using json_escape_not_quote [of d] by (cases "json_escape_char d") auto
  qed (use Nil.prems in simp)
next
  case (Cons c s)
  show ?case
  proof (cases t)
    case Nil
    with Cons.prems show ?thesis
      using json_escape_not_quote [of c] by (cases "json_escape_char c") auto
  next
    case (Cons d t')
    with Cons.prems have "json_escape_char c @ (concat (map json_escape_char s) @ DQUOTE # x)
        = json_escape_char d @ (concat (map json_escape_char t') @ DQUOTE # y)" by simp
    from json_escape_prefix_code [OF this] Cons.IH [of t'] Cons show ?thesis by simp
  qed
qed

lemma json_string_inject: "json_string s @ x = json_string t @ y \<Longrightarrow> s = t \<and> x = y"
  using json_body_inject [of s x t y] by (simp add: json_string_def)

lemma json_member_inject:
  "json_member k (json_string s) @ x = json_member k (json_string t) @ y \<Longrightarrow> s = t \<and> x = y"
  by (auto simp: json_member_def dest: json_string_inject)

lemma json_member_inject_last:
  "json_member k (json_string s) = json_member k (json_string t) \<Longrightarrow> s = t"
  using json_member_inject [of k s "[]" t "[]"] by simp

lemma json_bool_inject:
  "(if a then ''true'' else ''false'') @ x = (if b then ''true'' else ''false'') @ y \<Longrightarrow> a = b \<and> x = y"
  by (auto split: if_splits)

lemma canonicalize_merge:
  "canonicalize i = canonicalize j \<Longrightarrow> merge_profile i = merge_profile j"
proof -
  assume eq: "canonicalize i = canonicalize j"
  let ?i = "merge_profile i" and ?j = "merge_profile j"
  have v: "cpVersion ?i = cpVersion ?j" by (simp add: merge_profile_def)
  have "cpJavascriptEnabled ?i = cpJavascriptEnabled ?j \<and>
     CHR '','' # json_member ''resourceBlockingProfile'' (json_string (cpResourceBlockingProfile ?i)) @
     CHR '','' # json_member ''timeoutProfile'' (json_string (cpTimeoutProfile ?i)) @
     CHR '','' # json_member ''userAgentProfile'' (json_string (cpUserAgentProfile ?i)) @
     CHR '','' # json_member ''waitStrategy'' (json_string (cpWaitStrategy ?i)) @ [CHR ''}'']
     = CHR '','' # json_member ''resourceBlockingProfile'' (json_string (cpResourceBlockingProfile ?j)) @
     CHR '','' # json_member ''timeoutProfile'' (json_string (cpTimeoutProfile ?j)) @
     CHR '','' # json_member ''userAgentProfile'' (json_string (cpUserAgentProfile ?j)) @
     CHR '','' # json_member ''waitStrategy'' (json_string (cpWaitStrategy ?j)) @ [CHR ''}'']"
    using eq v
    by (intro json_bool_inject) (simp add: canonicalize_def Let_def json_member_def)
  then show ?thesis
    using v by (auto dest!: json_member_inject json_member_inject_last
        intro!: canonical_render_profile.equality)
qed

text \<open>
  The profile fingerprint is faithful. Two inputs are serialised to the same string, and so
  hashed to the same digest, exactly when they ask for the same rendering once the defaults are
  filled in; leaving a field out is the same as giving its default.
\<close>

theorem render_profile_canonical:
  "(canonicalize i = canonicalize j \<longleftrightarrow> merge_profile i = merge_profile j)
   \<and> (merge_profile i = merge_profile j \<longrightarrow> computeRenderProfileHash sha i = computeRenderProfileHash sha j)"
  using canonicalize_merge [of i j] by (auto simp: canonicalize_def computeRenderProfileHash_def)

definition empty_profile :: render_profile_input where
  "empty_profile =
     \<lparr>rpWaitStrategy = None, rpTimeoutProfile = None, rpUserAgentProfile = None,
      rpJavascriptEnabled = None, rpResourceBlockingProfile = None\<rparr>"

theorem render_profile_canonical_witness:
  "canonicalize empty_profile = canonicalize (empty_profile\<lparr>rpWaitStrategy := Some ''networkidle''\<rparr>)"
  using render_profile_canonical [of empty_profile "empty_profile\<lparr>rpWaitStrategy := Some ''networkidle''\<rparr>"]
  by (simp add: merge_profile_def empty_profile_def or_default_def)

end
