(* ===== verification/CachePolicy.thy ===== *)
theory CachePolicy
  imports CacheKeys "HOL-Library.Word"
begin

section \<open>Cache policy, freshness, content hashes and compression\<close>

text \<open>
  src/lib/cache-policy.ts, src/lib/cache-state.ts, src/lib/cache-object-limits.ts,
  src/lib/html-content-hash.ts and src/lib/html-compression.ts. HTML is a list of Unicode
  scalar values (a JavaScript string without lone surrogates), bytes are \<open>8 word\<close>s, and the
  UTF-8 conversions of \<open>Buffer\<close> are written out, replacement characters included. Brotli and
  gzip are node:zlib; they are the functions of a \<open>zlib\<close> record, with their documented
  round trip as the predicate \<open>zlib_ok\<close>.
\<close>

subsection \<open>UTF-8, as Buffer converts it\<close>

type_synonym byte = "8 word"
type_synonym html_text = "nat list"

definition REPLACEMENT :: nat where
  "REPLACEMENT = 0xFFFD"

definition scalar_value :: "nat \<Rightarrow> bool" where
  "scalar_value c \<longleftrightarrow> c < 0x110000 \<and> \<not> (0xD800 \<le> c \<and> c < 0xE000)"

definition utf8_encode_one :: "nat \<Rightarrow> byte list" where
  "utf8_encode_one c =
     (if c < 0x80 then [of_nat c]
      else if c < 0x800 then [of_nat (0xC0 + c div 64), of_nat (0x80 + c mod 64)]
      else if c < 0x10000 then
        [of_nat (0xE0 + c div 4096), of_nat (0x80 + c div 64 mod 64), of_nat (0x80 + c mod 64)]
      else
        [of_nat (0xF0 + c div 262144), of_nat (0x80 + c div 4096 mod 64),
         of_nat (0x80 + c div 64 mod 64), of_nat (0x80 + c mod 64)])"

definition utf8_encode :: "html_text \<Rightarrow> byte list" where
  "utf8_encode s = concat (map utf8_encode_one s)"

text \<open>The lead byte: how many bytes follow, the range of the first of them, the leading bits.\<close>

definition utf8_lead :: "nat \<Rightarrow> (nat \<times> nat \<times> nat \<times> nat) option" where
  "utf8_lead n =
     (if 0xC2 \<le> n \<and> n \<le> 0xDF then Some (1, 0x80, 0xBF, n - 0xC0)
      else if n = 0xE0 then Some (2, 0xA0, 0xBF, 0)
      else if n = 0xED then Some (2, 0x80, 0x9F, 0xD)
      else if 0xE1 \<le> n \<and> n \<le> 0xEF then Some (2, 0x80, 0xBF, n - 0xE0)
      else if n = 0xF0 then Some (3, 0x90, 0xBF, 0)
      else if 0xF1 \<le> n \<and> n \<le> 0xF3 then Some (3, 0x80, 0xBF, n - 0xF0)
      else if n = 0xF4 then Some (3, 0x80, 0x8F, 4)
      else None)"

fun utf8_cont :: "nat \<Rightarrow> nat \<Rightarrow> nat \<Rightarrow> nat \<Rightarrow> byte list \<Rightarrow> nat option \<times> byte list" where
  "utf8_cont 0 lo hi acc r = (Some acc, r)"
| "utf8_cont (Suc k) lo hi acc [] = (None, [])"
| "utf8_cont (Suc k) lo hi acc (b # r) =
     (if lo \<le> unat b \<and> unat b \<le> hi then utf8_cont k 0x80 0xBF (acc * 64 + unat b mod 64) r
      else (None, b # r))"

lemma utf8_cont_length: "length (snd (utf8_cont k lo hi acc r)) \<le> length r"
  by (induction k lo hi acc r rule: utf8_cont.induct) auto

function utf8_decode :: "byte list \<Rightarrow> html_text" where
  "utf8_decode [] = []"
| "utf8_decode (b # r) =
     (if unat b < 0x80 then unat b # utf8_decode r
      else case utf8_lead (unat b) of
        None \<Rightarrow> REPLACEMENT # utf8_decode r
      | Some (k, lo, hi, acc) \<Rightarrow>
          (case utf8_cont k lo hi acc r of
             (Some c, r') \<Rightarrow> c # utf8_decode r'
           | (None, r') \<Rightarrow> REPLACEMENT # utf8_decode r'))"
  by pat_completeness auto
termination
  by (relation "measure length") (auto, (metis utf8_cont_length le_imp_less_Suc snd_conv)+)

lemma unat_byte: "n < 256 \<Longrightarrow> unat (of_nat n :: byte) = n"
  by (simp add: unat_of_nat)

lemma unat_cont:
  "unat (of_nat (0x80 + m mod 64) :: byte) = 0x80 + m mod 64" "(0x80 + m mod 64) mod 64 = m mod (64 :: nat)"
proof -
  have "m mod 64 < 64" by simp
  then show "unat (of_nat (0x80 + m mod 64) :: byte) = 0x80 + m mod 64"
    by (intro unat_byte) linarith
  have "(m mod 64 + 64 * 2) mod 64 = m mod (64 :: nat)"
    by (simp only: mod_mult_self2 mod_mod_trivial)
  then show "(0x80 + m mod 64) mod 64 = m mod (64 :: nat)" by (simp add: add.commute)
qed

lemma cont_range: "0x80 + m mod 64 \<le> (0xBF :: nat)"
  using mod_less_divisor [of 64 m] by linarith

lemmas cont_simps = unat_cont cont_range

lemma utf8_cont_step:
  "lo \<le> 0x80 + m mod 64 \<Longrightarrow> 0x80 + m mod 64 \<le> hi \<Longrightarrow>
   utf8_cont (Suc k) lo hi acc ((of_nat (0x80 + m mod 64) :: byte) # r)
     = utf8_cont k 0x80 0xBF (acc * 64 + m mod 64) r"
  by (simp only: utf8_cont.simps unat_cont) simp

lemma utf8_decode_lead:
  assumes "n < 256" "utf8_lead n = Some (k, lo, hi, acc)" "utf8_cont k lo hi acc r = (Some c, r')"
  shows "utf8_decode (of_nat n # r) = c # utf8_decode r'"
proof -
  have "\<not> n < 0x80" using assms(2) by (auto simp: utf8_lead_def split: if_splits)
  with assms show ?thesis by (simp add: unat_byte)
qed

lemma utf8_decode_2:
  assumes "0x80 \<le> c" "c < 0x800"
  shows "utf8_decode (utf8_encode_one c @ r) = c # utf8_decode r"
proof -
  have "2 \<le> c div 64" "c div 64 < 32" using assms by linarith+
  then have "utf8_lead (0xC0 + c div 64) = Some (1, 0x80, 0xBF, c div 64)" "0xC0 + c div 64 < 256"
    by (simp_all add: utf8_lead_def)
  moreover have "utf8_cont 1 0x80 0xBF (c div 64) ((of_nat (0x80 + c mod 64)) # r) = (Some c, r)"
    unfolding One_nat_def by (subst utf8_cont_step) (simp_all add: cont_range)
  ultimately have "utf8_decode (of_nat (0xC0 + c div 64) # of_nat (0x80 + c mod 64) # r) = c # utf8_decode r"
    by (intro utf8_decode_lead)
  with assms show ?thesis by (simp add: utf8_encode_one_def del: utf8_decode.simps)
qed

lemma utf8_decode_3:
  assumes "0x800 \<le> c" "c < 0x10000" "\<not> (0xD800 \<le> c \<and> c < 0xE000)"
  shows "utf8_decode (utf8_encode_one c @ r) = c # utf8_decode r"
proof -
  let ?n = "0xE0 + c div 4096" and ?m = "c div 64"
  have q: "c div 4096 < 16" "c div 4096 = ?m div 64" using assms(2) by (linarith, simp add: div_mult2_eq [symmetric])
  have m: "?m div 64 * 64 + ?m mod 64 = ?m" "?m * 64 + c mod 64 = c" by simp_all
  have l: "\<exists>lo hi. utf8_lead ?n = Some (2, lo, hi, c div 4096) \<and> lo \<le> 0x80 + ?m mod 64 \<and> 0x80 + ?m mod 64 \<le> hi"
  proof (cases "c div 4096 = 0")
    case True
    then have "32 \<le> ?m mod 64" using assms(1) m q by linarith
    with True show ?thesis using cont_range [of ?m] by (simp add: utf8_lead_def)
  next
    case False
    show ?thesis
    proof (cases "c div 4096 = 13")
      case True
      then have "?m mod 64 < 32" using assms(3) m q by linarith
      with True show ?thesis by (simp add: utf8_lead_def)
    next
      case F: False
      with False q(1) show ?thesis using cont_range [of ?m] by (auto simp: utf8_lead_def)
    qed
  qed
  then obtain lo hi where l: "utf8_lead ?n = Some (2, lo, hi, c div 4096)"
    "lo \<le> 0x80 + ?m mod 64" "0x80 + ?m mod 64 \<le> hi" by blast
  have "utf8_cont 2 lo hi (c div 4096) (of_nat (0x80 + ?m mod 64) # of_nat (0x80 + c mod 64) # r)
      = utf8_cont 1 0x80 0xBF ?m (of_nat (0x80 + c mod 64) # r)"
    unfolding numeral_2_eq_2 using utf8_cont_step [OF l(2,3), of "Suc 0"] q(2) m(1) by simp
  also have "\<dots> = (Some c, r)"
    unfolding One_nat_def by (subst utf8_cont_step) (simp_all add: cont_range m)
  finally have "utf8_decode (of_nat ?n # of_nat (0x80 + ?m mod 64) # of_nat (0x80 + c mod 64) # r) = c # utf8_decode r"
    using l(1) q(1) by (intro utf8_decode_lead) simp_all
  with assms show ?thesis by (simp add: utf8_encode_one_def del: utf8_decode.simps)
qed

lemma utf8_decode_4:
  assumes "0x10000 \<le> c" "c < 0x110000"
  shows "utf8_decode (utf8_encode_one c @ r) = c # utf8_decode r"
proof -
  let ?n = "0xF0 + c div 262144" and ?m = "c div 4096" and ?k = "c div 64"
  have q: "c div 262144 < 5" "c div 262144 = ?m div 64" "?m = ?k div 64"
    using assms(2) by (linarith, simp_all add: div_mult2_eq [symmetric])
  have m: "?m div 64 * 64 + ?m mod 64 = ?m" "?k div 64 * 64 + ?k mod 64 = ?k" "?k * 64 + c mod 64 = c" by simp_all
  have "\<exists>lo hi. utf8_lead ?n = Some (3, lo, hi, c div 262144) \<and> lo \<le> 0x80 + ?m mod 64 \<and> 0x80 + ?m mod 64 \<le> hi"
  proof (cases "c div 262144 = 0")
    case True
    then have "16 \<le> ?m mod 64" using assms(1) m q by linarith
    with True show ?thesis using cont_range [of ?m] by (simp add: utf8_lead_def)
  next
    case False
    show ?thesis
    proof (cases "c div 262144 = 4")
      case True
      then have "?m mod 64 < 16" using assms(2) m q by linarith
      with True show ?thesis by (simp add: utf8_lead_def)
    next
      case F: False
      with False q(1) show ?thesis using cont_range [of ?m] by (auto simp: utf8_lead_def)
    qed
  qed
  then obtain lo hi where l: "utf8_lead ?n = Some (3, lo, hi, c div 262144)"
    "lo \<le> 0x80 + ?m mod 64" "0x80 + ?m mod 64 \<le> hi" by blast
  have "utf8_cont 3 lo hi (c div 262144)
        (of_nat (0x80 + ?m mod 64) # of_nat (0x80 + ?k mod 64) # of_nat (0x80 + c mod 64) # r)
      = utf8_cont 2 0x80 0xBF ?m (of_nat (0x80 + ?k mod 64) # of_nat (0x80 + c mod 64) # r)"
    unfolding numeral_3_eq_3 numeral_2_eq_2
    using utf8_cont_step [OF l(2,3), of "Suc (Suc 0)"] q(2) m(1) by simp
  also have "\<dots> = utf8_cont 1 0x80 0xBF ?k (of_nat (0x80 + c mod 64) # r)"
    unfolding numeral_2_eq_2 by (subst utf8_cont_step) (simp_all add: cont_range q(3) m(2))
  also have "\<dots> = (Some c, r)"
    unfolding One_nat_def by (subst utf8_cont_step) (simp_all add: cont_range m)
  finally have "utf8_decode (of_nat ?n # of_nat (0x80 + ?m mod 64) # of_nat (0x80 + ?k mod 64)
        # of_nat (0x80 + c mod 64) # r) = c # utf8_decode r"
    using l(1) q(1) by (intro utf8_decode_lead) simp_all
  with assms show ?thesis by (simp add: utf8_encode_one_def del: utf8_decode.simps)
qed

lemma utf8_decode_encode_one:
  assumes "scalar_value c"
  shows "utf8_decode (utf8_encode_one c @ r) = c # utf8_decode r"
proof -
  consider "c < 0x80" | "0x80 \<le> c" "c < 0x800" | "0x800 \<le> c" "c < 0x10000" | "0x10000 \<le> c"
    by linarith
  then show ?thesis
    using assms utf8_decode_2 utf8_decode_3 utf8_decode_4
    by cases (simp_all add: scalar_value_def utf8_encode_one_def unat_byte)
qed

lemma utf8_roundtrip: "list_all scalar_value s \<Longrightarrow> utf8_decode (utf8_encode s) = s"
  by (induction s) (simp_all add: utf8_encode_def utf8_decode_encode_one del: utf8_decode.simps(2))

subsection \<open>Content hashes\<close>

text \<open>\<open>sha\<close> is the hex SHA-256 digest of a byte sequence, an argument of the model.\<close>

definition computeHtmlContentHash :: "(byte list \<Rightarrow> string) \<Rightarrow> html_text \<Rightarrow> string" where
  "computeHtmlContentHash sha html = sha (utf8_encode html)"

definition isValidContentHash :: "string \<Rightarrow> bool" where
  "isValidContentHash v = HEX64_RE v"

definition contentHashesMatch :: "string \<Rightarrow> string \<Rightarrow> bool" where
  "contentHashesMatch a b =
     (if \<not> isValidContentHash a \<or> \<not> isValidContentHash b then False else a = b)"

definition hex_digest :: "(byte list \<Rightarrow> string) \<Rightarrow> bool" where
  "hex_digest sha \<longleftrightarrow> (\<forall>b. HEX64_RE (sha b))"

subsection \<open>Compression\<close>

datatype zlib_error = Err_Buffer_Too_Large | Err_Bad_Data

record zlib =
  brotliCompress :: "byte list \<Rightarrow> byte list"
  brotliDecompress :: "byte list \<Rightarrow> nat \<Rightarrow> zlib_error + byte list"
  gzipCompress :: "byte list \<Rightarrow> byte list"
  gunzip :: "byte list \<Rightarrow> nat \<Rightarrow> zlib_error + byte list"

definition zlib_ok :: "zlib \<Rightarrow> bool" where
  "zlib_ok z \<longleftrightarrow>
     (\<forall>b m. brotliDecompress z (brotliCompress z b) m = (if length b \<le> m then Inr b else Inl Err_Buffer_Too_Large))
   \<and> (\<forall>b m. gunzip z (gzipCompress z b) m = (if length b \<le> m then Inr b else Inl Err_Buffer_Too_Large))
   \<and> (\<forall>d m b. brotliDecompress z d m = Inr b \<longrightarrow> length b \<le> m)
   \<and> (\<forall>d m b. gunzip z d m = Inr b \<longrightarrow> length b \<le> m)"

datatype decompress_error = Decompressed_Size_Limit_Exceeded | Corrupt_Compressed_Data

definition compressHtml :: "zlib \<Rightarrow> html_text \<Rightarrow> cache_encoding \<Rightarrow> byte list" where
  "compressHtml z html e =
     (let input = utf8_encode html
      in case e of Br \<Rightarrow> brotliCompress z input | Gzip \<Rightarrow> gzipCompress z input | Identity \<Rightarrow> input)"

text \<open>The \<open>catch\<close> block: what zlib throws becomes one of the two typed errors.\<close>

definition normalize_zlib :: "zlib_error + byte list \<Rightarrow> decompress_error + html_text" where
  "normalize_zlib r =
     (case r of
        Inr out \<Rightarrow> Inr (utf8_decode out)
      | Inl Err_Buffer_Too_Large \<Rightarrow> Inl Decompressed_Size_Limit_Exceeded
      | Inl Err_Bad_Data \<Rightarrow> Inl Corrupt_Compressed_Data)"

definition decompressHtml :: "zlib \<Rightarrow> byte list \<Rightarrow> cache_encoding \<Rightarrow> nat \<Rightarrow> decompress_error + html_text" where
  "decompressHtml z d e m =
     (case e of
        Br \<Rightarrow> normalize_zlib (brotliDecompress z d m)
      | Gzip \<Rightarrow> normalize_zlib (gunzip z d m)
      | Identity \<Rightarrow> (if length d > m then Inl Decompressed_Size_Limit_Exceeded else Inr (utf8_decode d)))"

lemma decompress_compress:
  assumes "zlib_ok z" "list_all scalar_value html"
  shows "decompressHtml z (compressHtml z html e) e m =
    (if length (utf8_encode html) \<le> m then Inr html else Inl Decompressed_Size_Limit_Exceeded)"
  using assms utf8_roundtrip [OF assms(2)]
  by (cases e) (simp_all add: zlib_ok_def decompressHtml_def compressHtml_def normalize_zlib_def)

subsection \<open>Limits and policy\<close>

record cache_object_limits =
  maxUncompressedHtmlBytes :: int
  maxStoredObjectBytes :: int
  maxDecompressedReadBytes :: int

definition MAX_OBJECT_BYTES_CEILING :: int where
  "MAX_OBJECT_BYTES_CEILING = 50000000"

definition DEFAULT_CACHE_OBJECT_LIMITS :: cache_object_limits where
  "DEFAULT_CACHE_OBJECT_LIMITS =
     \<lparr>maxUncompressedHtmlBytes = 10000000, maxStoredObjectBytes = 10000000,
      maxDecompressedReadBytes = 10000000\<rparr>"

text \<open>The error carries the label of the offending setting. The arguments are integers.\<close>

definition assertBoundedInteger :: "int \<Rightarrow> string \<Rightarrow> int \<Rightarrow> int \<Rightarrow> string + unit" where
  "assertBoundedInteger v label lo hi = guard_or (\<not> (v < lo \<or> v > hi)) label"

definition validateCacheObjectLimits :: "cache_object_limits \<Rightarrow> string + cache_object_limits" where
  "validateCacheObjectLimits l =
     and_then (assertBoundedInteger (maxUncompressedHtmlBytes l) ''maxUncompressedHtmlBytes'' 1 MAX_OBJECT_BYTES_CEILING) (\<lambda>_.
     and_then (assertBoundedInteger (maxStoredObjectBytes l) ''maxStoredObjectBytes'' 1 MAX_OBJECT_BYTES_CEILING) (\<lambda>_.
     and_then (assertBoundedInteger (maxDecompressedReadBytes l) ''maxDecompressedReadBytes'' 1 MAX_OBJECT_BYTES_CEILING) (\<lambda>_.
       Inr l)))"

record cache_policy =
  freshTtlSeconds :: int
  staleTtlSeconds :: int

definition MIN_FRESH_TTL_SECONDS :: int where "MIN_FRESH_TTL_SECONDS = 10"
definition MAX_FRESH_TTL_SECONDS :: int where "MAX_FRESH_TTL_SECONDS = 30 * 24 * 60 * 60"
definition MIN_STALE_TTL_SECONDS :: int where "MIN_STALE_TTL_SECONDS = 0"
definition MAX_STALE_TTL_SECONDS :: int where "MAX_STALE_TTL_SECONDS = 30 * 24 * 60 * 60"

definition DEFAULT_CACHE_POLICY :: cache_policy where
  "DEFAULT_CACHE_POLICY = \<lparr>freshTtlSeconds = 300, staleTtlSeconds = 3600\<rparr>"

definition validateCachePolicy :: "cache_policy \<Rightarrow> string + cache_policy" where
  "validateCachePolicy p =
     and_then (assertBoundedInteger (freshTtlSeconds p) ''freshTtlSeconds'' MIN_FRESH_TTL_SECONDS MAX_FRESH_TTL_SECONDS) (\<lambda>_.
     and_then (assertBoundedInteger (staleTtlSeconds p) ''staleTtlSeconds'' MIN_STALE_TTL_SECONDS MAX_STALE_TTL_SECONDS) (\<lambda>_.
       Inr p))"

record freshness_window =
  freshUntil :: time_ms
  staleUntil :: time_ms

definition computeFreshnessWindow :: "cache_policy \<Rightarrow> time_ms \<Rightarrow> string + freshness_window" where
  "computeFreshnessWindow p renderedAt =
     and_then (validateCachePolicy p) (\<lambda>v.
       let f = renderedAt + freshTtlSeconds v * 1000
       in Inr \<lparr>freshUntil = f, staleUntil = f + staleTtlSeconds v * 1000\<rparr>)"

subsection \<open>The state of a lookup\<close>

datatype cache_status = Pending | Ready | Failed | Invalidated

datatype freshness_state =
    State_Miss | State_Pending | State_Fresh | State_Stale | State_Expired | State_Failed | State_Invalidated

record cache_state_input =
  csStatus :: cache_status
  csFreshUntil :: "time_ms option"
  csStaleUntil :: "time_ms option"

definition before_limit :: "time_ms \<Rightarrow> time_ms option \<Rightarrow> bool" where
  "before_limit now limit = (case limit of None \<Rightarrow> False | Some t \<Rightarrow> now < t)"

definition classifyCacheState :: "cache_state_input option \<Rightarrow> time_ms \<Rightarrow> freshness_state" where
  "classifyCacheState entry now =
     (case entry of
        None \<Rightarrow> State_Miss
      | Some e \<Rightarrow>
          (case csStatus e of
             Pending \<Rightarrow> State_Pending
           | Failed \<Rightarrow> State_Failed
           | Invalidated \<Rightarrow> State_Invalidated
           | Ready \<Rightarrow>
               (if before_limit now (csFreshUntil e) then State_Fresh
                else if before_limit now (csStaleUntil e) then State_Stale
                else State_Expired)))"

lemma validateCachePolicy_Inr:
  "validateCachePolicy p = Inr q \<longleftrightarrow> q = p
     \<and> MIN_FRESH_TTL_SECONDS \<le> freshTtlSeconds p \<and> freshTtlSeconds p \<le> MAX_FRESH_TTL_SECONDS
     \<and> MIN_STALE_TTL_SECONDS \<le> staleTtlSeconds p \<and> staleTtlSeconds p \<le> MAX_STALE_TTL_SECONDS"
  by (auto simp: validateCachePolicy_def assertBoundedInteger_def and_then_Inr_iff)

lemma computeFreshnessWindow_Inr:
  "computeFreshnessWindow p r = Inr w \<Longrightarrow>
     freshUntil w = r + freshTtlSeconds p * 1000 \<and> staleUntil w = freshUntil w + staleTtlSeconds p * 1000
     \<and> r < freshUntil w \<and> freshUntil w \<le> staleUntil w"
  by (auto simp: computeFreshnessWindow_def and_then_Inr_iff validateCachePolicy_Inr Let_def
      MIN_FRESH_TTL_SECONDS_def MIN_STALE_TTL_SECONDS_def)

subsection \<open>What they promise\<close>

text \<open>
  A stored page reads back. With a zlib that inverts itself, every page of Unicode text
  compressed under any encoding decompresses to the same text, unless its UTF-8 form is over the
  read limit, and then the answer is the size error, never a truncated page.
\<close>

theorem compression_roundtrip:
  assumes "zlib_ok z" "list_all scalar_value html"
  shows "decompressHtml z (compressHtml z html e) e m =
    (if length (utf8_encode html) \<le> m then Inr html else Inl Decompressed_Size_Limit_Exceeded)"
  using assms by (rule decompress_compress)

text \<open>A zlib that stores: it marks its output with one byte.\<close>

definition stored_zlib :: zlib where
  "stored_zlib =
     (let dec = (\<lambda>d m. case d of [] \<Rightarrow> Inl Err_Bad_Data
          | x # b \<Rightarrow> (if x \<noteq> 1 then Inl Err_Bad_Data else if length b \<le> m then Inr b else Inl Err_Buffer_Too_Large))
      in \<lparr>brotliCompress = (\<lambda>b. 1 # b), brotliDecompress = dec, gzipCompress = (\<lambda>b. 1 # b), gunzip = dec\<rparr>)"

lemma stored_zlib_ok: "zlib_ok stored_zlib"
  by (auto simp: zlib_ok_def stored_zlib_def Let_def split: list.splits if_splits)

theorem compression_roundtrip_witness:
  "decompressHtml stored_zlib (compressHtml stored_zlib [60, 0xE9, 0x20AC, 0x1F600, 62] Br) Br 100
     = Inr [60, 0xE9, 0x20AC, 0x1F600, 62]"
  using compression_roundtrip [OF stored_zlib_ok, of "[60, 0xE9, 0x20AC, 0x1F600, 62]" Br 100]
  by (simp add: scalar_value_def utf8_encode_def utf8_encode_one_def)

text \<open>
  The freshness timeline. A page rendered at a time under an accepted policy is fresh from
  then until its fresh limit, stale until its stale limit, which is never before the fresh one,
  and expired from there on; and it can never become fresher as time passes.
\<close>

theorem freshness_timeline:
  assumes "computeFreshnessWindow p rendered = Inr w"
    and "e = \<lparr>csStatus = Ready, csFreshUntil = Some (freshUntil w), csStaleUntil = Some (staleUntil w)\<rparr>"
  shows "rendered < freshUntil w \<and> freshUntil w \<le> staleUntil w
    \<and> classifyCacheState (Some e) now =
        (if now < rendered + freshTtlSeconds p * 1000 then State_Fresh
         else if now < rendered + (freshTtlSeconds p + staleTtlSeconds p) * 1000 then State_Stale
         else State_Expired)"
  using computeFreshnessWindow_Inr [OF assms(1)] assms(2)
  by (simp add: classifyCacheState_def before_limit_def distrib_right)

theorem freshness_timeline_witness:
  "classifyCacheState (Some \<lparr>csStatus = Ready, csFreshUntil = Some 300000, csStaleUntil = Some 3900000\<rparr>) 300000
     = State_Stale"
proof -
  have "computeFreshnessWindow DEFAULT_CACHE_POLICY 0 = Inr \<lparr>freshUntil = 300000, staleUntil = 3900000\<rparr>"
    by (simp add: computeFreshnessWindow_def validateCachePolicy_def assertBoundedInteger_def
        DEFAULT_CACHE_POLICY_def MIN_FRESH_TTL_SECONDS_def MAX_FRESH_TTL_SECONDS_def
        MIN_STALE_TTL_SECONDS_def MAX_STALE_TTL_SECONDS_def)
  from freshness_timeline [OF this refl, of 300000] show ?thesis
    by (simp add: DEFAULT_CACHE_POLICY_def)
qed

end
