(* ===== verification/Sql.thy ===== *)
theory Sql
  imports Prelude
begin

section \<open>Tables\<close>

text \<open>
  What the repositories use of PostgreSQL: a table is a list of rows, a statement is atomic,
  \<open>UPDATE ... WHERE ... RETURNING\<close> changes the rows that satisfy the condition and returns them
  changed, and a statement that violates a constraint changes nothing and throws. A unique
  index on some columns is \<open>unique_on\<close> of the function that reads them.
\<close>

datatype db_error = Unique_Violation | Check_Violation | Foreign_Key_Violation

definition select_where :: "('r \<Rightarrow> bool) \<Rightarrow> 'r list \<Rightarrow> 'r list" where
  "select_where P t = filter P t"

definition select_one :: "('r \<Rightarrow> bool) \<Rightarrow> 'r list \<Rightarrow> 'r option" where
  "select_one P t = find P t"

definition update_where :: "('r \<Rightarrow> bool) \<Rightarrow> ('r \<Rightarrow> 'r) \<Rightarrow> 'r list \<Rightarrow> 'r list \<times> 'r list" where
  "update_where P f t = (map f (filter P t), map (\<lambda>r. if P r then f r else r) t)"

definition first_row :: "'r list \<Rightarrow> 'r option" where
  "first_row rs = (case rs of [] \<Rightarrow> None | r # _ \<Rightarrow> Some r)"

definition unique_on :: "('r \<Rightarrow> 'k) \<Rightarrow> 'r list \<Rightarrow> bool" where
  "unique_on key t \<longleftrightarrow> distinct (map key t)"

lemma first_row_filter: "first_row (filter P t) = find P t"
  by (induction t) (simp_all add: first_row_def)

lemma first_row_map: "first_row (map f xs) = map_option f (first_row xs)"
  by (cases xs) (simp_all add: first_row_def)

lemma update_where_first: "first_row (fst (update_where P f t)) = map_option f (find P t)"
  by (simp add: update_where_def first_row_map first_row_filter)

lemma update_where_none: "find P t = None \<Longrightarrow> snd (update_where P f t) = t"
  by (auto simp: update_where_def find_None_iff intro!: map_idI)

lemma update_where_nil: "filter P t = [] \<Longrightarrow> update_where P f t = ([], t)"
  by (induction t) (auto simp: update_where_def split: if_splits)

lemma update_where_one: "filter P t = [r] \<Longrightarrow> update_where P f t = ([f r], snd (update_where P f t))"
  by (simp add: update_where_def)

lemma map_key_update:
  "(\<And>r. key (f r) = key r) \<Longrightarrow> map key (snd (update_where P f t)) = map key t"
  by (simp add: update_where_def)

lemma unique_on_update:
  "(\<And>r. key (f r) = key r) \<Longrightarrow> unique_on key (snd (update_where P f t)) = unique_on key t"
  by (simp add: unique_on_def map_key_update)

lemma unique_on_updateI:
  "(\<And>r. key (f r) = key r) \<Longrightarrow> unique_on key t \<Longrightarrow> unique_on key (snd (update_where P f t))"
  by (simp add: unique_on_update)

lemma unique_on_append: "unique_on key t \<Longrightarrow> key r \<notin> key ` set t \<Longrightarrow> unique_on key (t @ [r])"
  by (simp add: unique_on_def)

lemma unique_onD: "unique_on key t \<Longrightarrow> r \<in> set t \<Longrightarrow> r' \<in> set t \<Longrightarrow> key r = key r' \<Longrightarrow> r = r'"
  unfolding unique_on_def by (metis distinct_map inj_on_eq_iff)

text \<open>Reading a key of a table: the one row a unique index allows.\<close>

definition row_at :: "('r \<Rightarrow> 'k) \<Rightarrow> 'r list \<Rightarrow> 'k \<Rightarrow> 'r option" where
  "row_at key t k = find (\<lambda>r. key r = k) t"

lemma row_at_SomeD: "row_at key t k = Some r \<Longrightarrow> r \<in> set t \<and> key r = k"
  by (auto simp: row_at_def find_Some_iff)

lemma row_at_NoneD: "row_at key t k = None \<Longrightarrow> k \<notin> key ` set t"
  by (auto simp: row_at_def find_None_iff)

lemma unique_on_append_at: "unique_on key t \<Longrightarrow> row_at key t (key r) = None \<Longrightarrow> unique_on key (t @ [r])"
  by (rule unique_on_append) (auto dest: row_at_NoneD)

lemma row_at_mem:
  assumes "unique_on key t" "r \<in> set t"
  shows "row_at key t (key r) = Some r"
proof (cases "row_at key t (key r)")
  case None
  with assms(2) show ?thesis by (auto dest: row_at_NoneD)
next
  case (Some r')
  with row_at_SomeD [OF Some] unique_onD [OF assms(1) _ assms(2)] show ?thesis by metis
qed

lemma row_at_append:
  "row_at key (t @ [r]) k = (case row_at key t k of Some x \<Rightarrow> Some x | None \<Rightarrow> (if key r = k then Some r else None))"
  by (induction t) (auto simp: row_at_def)

lemma row_at_update:
  assumes "\<And>r. key (f r) = key r"
  shows "row_at key (snd (update_where P f t)) k =
    map_option (\<lambda>r. if P r then f r else r) (row_at key t k)"
  using assms by (induction t) (auto simp: row_at_def update_where_def)

text \<open>An update of the one row of a key, when that row satisfies a further condition.\<close>

lemma filter_key_cond:
  assumes "unique_on key t"
  shows "filter (\<lambda>r. key r = k \<and> C r) t = (case row_at key t k of None \<Rightarrow> [] | Some r \<Rightarrow> if C r then [r] else [])"
  using assms
proof (induction t)
  case (Cons x t)
  then have IH: "filter (\<lambda>r. key r = k \<and> C r) t = (case row_at key t k of None \<Rightarrow> [] | Some r \<Rightarrow> if C r then [r] else [])"
    and fresh: "key x \<notin> key ` set t"
    by (auto simp: unique_on_def)
  show ?case
  proof (cases "key x = k")
    case True
    with fresh have "filter (\<lambda>r. key r = k \<and> C r) t = []" by (auto simp: filter_empty_conv image_iff)
    with True show ?thesis by (simp add: row_at_def)
  next
    case False
    with IH show ?thesis by (simp add: row_at_def)
  qed
qed (simp add: row_at_def)

lemma find_key_cond:
  assumes "unique_on key t"
  shows "find (\<lambda>r. key r = k \<and> C r) t = (case row_at key t k of None \<Rightarrow> None | Some r \<Rightarrow> if C r then Some r else None)"
  using filter_key_cond [OF assms, of k C]
  by (auto simp: first_row_def simp flip: first_row_filter split: option.splits)

text \<open>Insertion under a unique index, and its \<open>ON CONFLICT DO NOTHING\<close> form.\<close>

definition insert_unique :: "('r \<Rightarrow> 'k) \<Rightarrow> 'r \<Rightarrow> 'r list \<Rightarrow> db_error + 'r list" where
  "insert_unique key r t = (if row_at key t (key r) \<noteq> None then Inl Unique_Violation else Inr (t @ [r]))"

lemma insert_unique_Inr:
  "insert_unique key r t = Inr t' \<longleftrightarrow> t' = t @ [r] \<and> row_at key t (key r) = None"
  by (auto simp: insert_unique_def)

lemma insert_unique_keeps: "insert_unique key r t = Inr t' \<Longrightarrow> unique_on key t \<Longrightarrow> unique_on key t'"
  by (auto simp: insert_unique_Inr intro!: unique_on_append dest: row_at_NoneD)

end
