(* ===== verification/CacheRepository.thy ===== *)
theory CacheRepository
  imports CachePolicy Sql
begin

section \<open>The cache metadata repository\<close>

text \<open>
  src/repositories/cache-repository.ts (types), the \<open>cache_entries\<close> table of src/db/schema.ts with
  its unique index and CHECK constraints, and the five operations of
  src/repositories/postgres/cache-repository.ts. The contract its clients rely on is the locale
  \<open>generation_store\<close>: a compare-and-swap on the generation has at most one winner.
\<close>

record cache_scope =
  scOrganizationId :: string
  scProjectId :: string
  scDomainId :: string
  scCacheKeyVersion :: nat
  scCacheKeyHash :: string

record cache_entry =
  ceId :: string
  ceOrganizationId :: string
  ceProjectId :: string
  ceDomainId :: string
  ceCacheKeyVersion :: nat
  ceCacheKeyHash :: string
  ceNormalizedUrl :: string
  ceNormalizedUrlHash :: string
  ceRenderProfileHash :: string
  ceStatus :: cache_status
  ceStorageKey :: "string option"
  ceContentHash :: "string option"
  ceContentEncoding :: "string option"
  ceContentBytes :: "int option"
  ceResponseStatus :: "int option"
  ceRenderedAt :: "time_ms option"
  ceFreshUntil :: "time_ms option"
  ceStaleUntil :: "time_ms option"
  ceLastAttemptAt :: "time_ms option"
  ceLastErrorCode :: "string option"
  ceInvalidatedAt :: "time_ms option"
  ceGeneration :: int
  ceCreatedAt :: time_ms
  ceUpdatedAt :: time_ms

record create_pending_input =
  cpScope :: cache_scope
  cpNormalizedUrl :: string
  cpNormalizedUrlHash :: string
  cpRenderProfileHash :: string
  cpNow :: time_ms

record update_ready_input =
  urScope :: cache_scope
  urStorageKey :: string
  urContentHash :: string
  urContentEncoding :: string
  urContentBytes :: int
  urResponseStatus :: int
  urRenderedAt :: time_ms
  urFreshUntil :: time_ms
  urStaleUntil :: time_ms
  urExpectedGeneration :: int
  urNow :: time_ms

record update_failed_input =
  ufScope :: cache_scope
  ufLastErrorCode :: string
  ufExpectedGeneration :: int
  ufNow :: time_ms

record invalidate_input =
  ivScope :: cache_scope
  ivNow :: time_ms

subsection \<open>The table\<close>

definition row_scope :: "cache_entry \<Rightarrow> cache_scope" where
  "row_scope r =
     \<lparr>scOrganizationId = ceOrganizationId r, scProjectId = ceProjectId r, scDomainId = ceDomainId r,
      scCacheKeyVersion = ceCacheKeyVersion r, scCacheKeyHash = ceCacheKeyHash r\<rparr>"

definition identityWhere :: "cache_scope \<Rightarrow> cache_entry \<Rightarrow> bool" where
  "identityWhere s r \<longleftrightarrow> row_scope r = s"

definition hash_format :: "string \<Rightarrow> bool" where
  "hash_format h \<longleftrightarrow> HEX64_RE h"

definition opt_ok :: "('a \<Rightarrow> bool) \<Rightarrow> 'a option \<Rightarrow> bool" where
  "opt_ok P v = (case v of None \<Rightarrow> True | Some x \<Rightarrow> P x)"

text \<open>The CHECK constraints of the table.\<close>

definition cache_checks :: "cache_entry \<Rightarrow> bool" where
  "cache_checks r \<longleftrightarrow>
     ceGeneration r \<ge> 1
   \<and> opt_ok (\<lambda>n. 0 \<le> n) (ceContentBytes r)
   \<and> opt_ok (\<lambda>n. 100 \<le> n \<and> n < 600) (ceResponseStatus r)
   \<and> (case (ceStaleUntil r, ceFreshUntil r) of (Some s, Some f) \<Rightarrow> f \<le> s | _ \<Rightarrow> True)
   \<and> (ceStatus r = Ready \<longrightarrow> ceStorageKey r \<noteq> None \<and> ceContentHash r \<noteq> None \<and> ceRenderedAt r \<noteq> None
        \<and> ceFreshUntil r \<noteq> None \<and> ceStaleUntil r \<noteq> None)
   \<and> (ceStatus r = Pending \<longrightarrow> ceStorageKey r = None \<and> ceContentHash r = None)
   \<and> (ceStatus r = Invalidated \<longrightarrow> ceInvalidatedAt r \<noteq> None)
   \<and> hash_format (ceCacheKeyHash r) \<and> hash_format (ceNormalizedUrlHash r) \<and> hash_format (ceRenderProfileHash r)
   \<and> opt_ok hash_format (ceContentHash r)
   \<and> opt_ok (\<lambda>k. \<not> includes_str k ''..'') (ceStorageKey r)"

datatype cache_repo_error = Db_Error db_error | Cache_Repository_Failed

text \<open>An UPDATE with the table's checks: it applies to all its rows or throws.\<close>

definition cache_update ::
  "(cache_entry \<Rightarrow> bool) \<Rightarrow> (cache_entry \<Rightarrow> cache_entry) \<Rightarrow> cache_entry list
     \<Rightarrow> (cache_repo_error + cache_entry option) \<times> cache_entry list" where
  "cache_update P f t =
     (let (rows, t') = update_where P f t
      in if list_all cache_checks rows then (Inr (first_row rows), t')
         else (Inl (Db_Error Check_Violation), t))"

subsection \<open>The operations\<close>

definition findCacheEntryByIdentity :: "cache_entry list \<Rightarrow> cache_scope \<Rightarrow> cache_entry option" where
  "findCacheEntryByIdentity t s = select_one (identityWhere s) t"

text \<open>\<open>uid\<close> is the generated id; \<open>fk\<close> says whether the composite foreign keys of the scope exist.\<close>

definition pending_row :: "string \<Rightarrow> create_pending_input \<Rightarrow> cache_entry" where
  "pending_row uid i =
     (let s = cpScope i
      in \<lparr>ceId = uid, ceOrganizationId = scOrganizationId s, ceProjectId = scProjectId s,
          ceDomainId = scDomainId s, ceCacheKeyVersion = scCacheKeyVersion s,
          ceCacheKeyHash = scCacheKeyHash s, ceNormalizedUrl = cpNormalizedUrl i,
          ceNormalizedUrlHash = cpNormalizedUrlHash i, ceRenderProfileHash = cpRenderProfileHash i,
          ceStatus = Pending, ceStorageKey = None, ceContentHash = None, ceContentEncoding = None,
          ceContentBytes = None, ceResponseStatus = None, ceRenderedAt = None, ceFreshUntil = None,
          ceStaleUntil = None, ceLastAttemptAt = Some (cpNow i), ceLastErrorCode = None,
          ceInvalidatedAt = None, ceGeneration = 1, ceCreatedAt = cpNow i, ceUpdatedAt = cpNow i\<rparr>)"

definition createPendingCacheEntry ::
  "cache_entry list \<Rightarrow> string \<Rightarrow> bool \<Rightarrow> create_pending_input
     \<Rightarrow> (cache_repo_error + cache_entry) \<times> cache_entry list" where
  "createPendingCacheEntry t uid fk i =
     (let row = pending_row uid i
      in if \<not> cache_checks row then (Inl Cache_Repository_Failed, t)
         else case findCacheEntryByIdentity t (cpScope i) of
           Some existing \<Rightarrow> (Inr existing, t)
         | None \<Rightarrow> (if fk then (Inr row, t @ [row]) else (Inl Cache_Repository_Failed, t)))"

lemma pending_row_scope [simp]: "row_scope (pending_row uid i) = cpScope i"
  by (simp add: row_scope_def pending_row_def Let_def)

definition set_ready :: "update_ready_input \<Rightarrow> cache_entry \<Rightarrow> cache_entry" where
  "set_ready i r = r\<lparr>ceStatus := Ready, ceStorageKey := Some (urStorageKey i),
     ceContentHash := Some (urContentHash i), ceContentEncoding := Some (urContentEncoding i),
     ceContentBytes := Some (urContentBytes i), ceResponseStatus := Some (urResponseStatus i),
     ceRenderedAt := Some (urRenderedAt i), ceFreshUntil := Some (urFreshUntil i),
     ceStaleUntil := Some (urStaleUntil i), ceLastAttemptAt := Some (urNow i), ceLastErrorCode := None,
     ceGeneration := ceGeneration r + 1, ceUpdatedAt := urNow i\<rparr>"

definition updateReadyCacheEntry ::
  "cache_entry list \<Rightarrow> update_ready_input \<Rightarrow> (cache_repo_error + cache_entry option) \<times> cache_entry list" where
  "updateReadyCacheEntry t i =
     cache_update (\<lambda>r. identityWhere (urScope i) r \<and> ceGeneration r = urExpectedGeneration i) (set_ready i) t"

definition set_failed :: "update_failed_input \<Rightarrow> cache_entry \<Rightarrow> cache_entry" where
  "set_failed i r = r\<lparr>ceStatus := Failed, ceLastErrorCode := Some (ufLastErrorCode i),
     ceLastAttemptAt := Some (ufNow i), ceGeneration := ceGeneration r + 1, ceUpdatedAt := ufNow i\<rparr>"

definition updateFailedCacheEntry ::
  "cache_entry list \<Rightarrow> update_failed_input \<Rightarrow> (cache_repo_error + cache_entry option) \<times> cache_entry list" where
  "updateFailedCacheEntry t i =
     cache_update (\<lambda>r. identityWhere (ufScope i) r \<and> ceGeneration r = ufExpectedGeneration i) (set_failed i) t"

definition set_invalidated :: "invalidate_input \<Rightarrow> cache_entry \<Rightarrow> cache_entry" where
  "set_invalidated i r = r\<lparr>ceStatus := Invalidated, ceInvalidatedAt := Some (ivNow i),
     ceGeneration := ceGeneration r + 1, ceUpdatedAt := ivNow i\<rparr>"

definition invalidateCacheEntry ::
  "cache_entry list \<Rightarrow> invalidate_input \<Rightarrow> (cache_repo_error + cache_entry option) \<times> cache_entry list" where
  "invalidateCacheEntry t i = cache_update (identityWhere (ivScope i)) (set_invalidated i) t"

lemma set_scope [simp]:
  "row_scope (set_ready i r) = row_scope r"
  "row_scope (set_failed j r) = row_scope r"
  "row_scope (set_invalidated k r) = row_scope r"
  by (simp_all add: row_scope_def set_ready_def set_failed_def set_invalidated_def)

lemma set_generation [simp]:
  "ceGeneration (set_ready i r) = ceGeneration r + 1"
  "ceGeneration (set_failed j r) = ceGeneration r + 1"
  "ceGeneration (set_invalidated k r) = ceGeneration r + 1"
  by (simp_all add: set_ready_def set_failed_def set_invalidated_def)

subsection \<open>The contract: one winner per generation\<close>

locale generation_store =
  fixes view :: "'t \<Rightarrow> 'k \<Rightarrow> 'r option"
    and gen :: "'r \<Rightarrow> int"
    and exec :: "'t \<Rightarrow> 'op \<Rightarrow> bool \<times> 't"
    and expects :: "'op \<Rightarrow> ('k \<times> int) option"
    and ok :: "'t \<Rightarrow> bool"
  assumes exec_ok: "ok t \<Longrightarrow> ok (snd (exec t x))"
    and exec_grows: "ok t \<Longrightarrow> view t k = Some r \<Longrightarrow>
      \<exists>r'. view (snd (exec t x)) k = Some r' \<and> gen r \<le> gen r' \<and> (gen r' = gen r \<longrightarrow> r' = r)"
    and exec_wins: "ok t \<Longrightarrow> expects x = Some (k, g) \<Longrightarrow> fst (exec t x) \<Longrightarrow>
      \<exists>r r'. view t k = Some r \<and> gen r = g \<and> view (snd (exec t x)) k = Some r' \<and> gen r' = g + 1"
    and exec_loses: "ok t \<Longrightarrow> expects x = Some (k, g) \<Longrightarrow> \<not> fst (exec t x) \<Longrightarrow> snd (exec t x) = t"
begin

primrec execs :: "'t \<Rightarrow> 'op list \<Rightarrow> 't" where
  "execs t [] = t"
| "execs t (x # xs) = execs (snd (exec t x)) xs"

primrec wins :: "'t \<Rightarrow> 'op list \<Rightarrow> 'k \<Rightarrow> int \<Rightarrow> nat" where
  "wins t [] k g = 0"
| "wins t (x # xs) k g =
     (if expects x = Some (k, g) \<and> fst (exec t x) then 1 else 0) + wins (snd (exec t x)) xs k g"

lemma execs_ok: "ok t \<Longrightarrow> ok (execs t xs)"
  by (induction xs arbitrary: t) (auto simp: exec_ok)

lemma execs_grow:
  "ok t \<Longrightarrow> view t k = Some r \<Longrightarrow> \<exists>r'. view (execs t xs) k = Some r' \<and> gen r \<le> gen r' \<and> (gen r' = gen r \<longrightarrow> r' = r)"
proof (induction xs arbitrary: t r)
  case (Cons x xs)
  from exec_grows [OF Cons.prems, of x] obtain r1 where
    r1: "view (snd (exec t x)) k = Some r1" "gen r \<le> gen r1" "gen r1 = gen r \<longrightarrow> r1 = r" by blast
  from Cons.IH [OF exec_ok [OF Cons.prems(1)] r1(1)] r1(2,3) show ?case by fastforce
qed simp

lemma stale_never_wins:
  "ok t \<Longrightarrow> view t k = Some r \<Longrightarrow> g < gen r \<Longrightarrow> wins t xs k g = 0"
proof (induction xs arbitrary: t r)
  case (Cons x xs)
  from exec_grows [OF Cons.prems(1,2), of x] obtain r1 where
    r1: "view (snd (exec t x)) k = Some r1" "gen r \<le> gen r1" by blast
  have "\<not> (expects x = Some (k, g) \<and> fst (exec t x))"
    using exec_wins [OF Cons.prems(1)] Cons.prems(2,3) by fastforce
  with Cons.IH [OF exec_ok [OF Cons.prems(1)] r1(1)] r1(2) Cons.prems(3) show ?case by simp
qed simp

lemma one_winner: "ok t \<Longrightarrow> wins t xs k g \<le> 1"
proof (induction xs arbitrary: t)
  case (Cons x xs)
  show ?case
  proof (cases "expects x = Some (k, g) \<and> fst (exec t x)")
    case True
    with exec_wins [OF Cons.prems, of x k g] obtain r' where
      "view (snd (exec t x)) k = Some r'" "gen r' = g + 1" by blast
    with stale_never_wins [OF exec_ok [OF Cons.prems]] True show ?thesis by simp
  next
    case False
    then show ?thesis using Cons.IH [OF exec_ok [OF Cons.prems]] by auto
  qed
qed simp

end

subsection \<open>The repository as a generation store\<close>

datatype cache_op =
    Create_Pending string bool create_pending_input
  | Update_Ready update_ready_input
  | Update_Failed update_failed_input
  | Invalidate invalidate_input

definition changed_row :: "(cache_repo_error + cache_entry option) \<times> cache_entry list \<Rightarrow> bool \<times> cache_entry list" where
  "changed_row x = ((case fst x of Inr (Some _) \<Rightarrow> True | _ \<Rightarrow> False), snd x)"

text \<open>One operation: whether it changed a row, and the table after it.\<close>

fun cache_exec :: "cache_entry list \<Rightarrow> cache_op \<Rightarrow> bool \<times> cache_entry list" where
  "cache_exec t (Create_Pending uid fk i) = (False, snd (createPendingCacheEntry t uid fk i))"
| "cache_exec t (Update_Ready i) = changed_row (updateReadyCacheEntry t i)"
| "cache_exec t (Update_Failed i) = changed_row (updateFailedCacheEntry t i)"
| "cache_exec t (Invalidate i) = changed_row (invalidateCacheEntry t i)"

fun cache_expects :: "cache_op \<Rightarrow> (cache_scope \<times> int) option" where
  "cache_expects (Update_Ready i) = Some (urScope i, urExpectedGeneration i)"
| "cache_expects (Update_Failed i) = Some (ufScope i, ufExpectedGeneration i)"
| "cache_expects _ = None"

definition cache_table_ok :: "cache_entry list \<Rightarrow> bool" where
  "cache_table_ok t \<longleftrightarrow> unique_on row_scope t \<and> list_all cache_checks t"

lemma find_row_at: "findCacheEntryByIdentity t s = row_at row_scope t s"
  by (simp add: findCacheEntryByIdentity_def select_one_def row_at_def identityWhere_def [abs_def])

text \<open>
  The one shape of every update: some condition on top of the identity, and a change that keeps
  the identity. All statements about the four operations come from this lemma.
\<close>

lemma cache_update_at:
  assumes "cache_table_ok t" "\<And>r. row_scope (f r) = row_scope r" "P = (\<lambda>r. identityWhere s r \<and> C r)"
  shows "cache_update P f t =
    (case findCacheEntryByIdentity t s of
       None \<Rightarrow> (Inr None, t)
     | Some r \<Rightarrow>
         (if \<not> C r then (Inr None, t)
          else if cache_checks (f r) then (Inr (Some (f r)), snd (update_where P f t))
          else (Inl (Db_Error Check_Violation), t)))"
proof -
  have u: "unique_on row_scope t" using assms(1) by (simp add: cache_table_ok_def)
  have P: "P = (\<lambda>r. row_scope r = s \<and> C r)" by (simp add: assms(3) identityWhere_def)
  have one: "filter P t = (case findCacheEntryByIdentity t s of None \<Rightarrow> [] | Some r \<Rightarrow> if C r then [r] else [])"
    unfolding P find_row_at by (rule filter_key_cond [OF u])
  show ?thesis
  proof (cases "findCacheEntryByIdentity t s")
    case None
    with one have "filter P t = []" by simp
    with None show ?thesis by (simp add: cache_update_def update_where_nil first_row_def)
  next
    case (Some r)
    show ?thesis
    proof (cases "C r")
      case False
      with one Some have "filter P t = []" by simp
      with Some False show ?thesis by (simp add: cache_update_def update_where_nil first_row_def)
    next
      case True
      with one Some have "filter P t = [r]" by simp
      then obtain t' where "update_where P f t = ([f r], t')" using update_where_one by metis
      with Some True show ?thesis by (simp add: cache_update_def first_row_def)
    qed
  qed
qed

lemma cache_update_ok:
  assumes "cache_table_ok t" "\<And>r. row_scope (f r) = row_scope r"
  shows "cache_table_ok (snd (cache_update P f t))"
  using assms
  by (auto simp: cache_table_ok_def cache_update_def update_where_def unique_on_def comp_def list_all_iff
      if_distrib [of row_scope] cong: if_cong)

lemma view_after_update:
  assumes "cache_table_ok t" "\<And>r. row_scope (f r) = row_scope r" "P = (\<lambda>r. identityWhere s r \<and> C r)"
  shows "findCacheEntryByIdentity (snd (cache_update P f t)) s' =
    (case findCacheEntryByIdentity t s' of
       None \<Rightarrow> None
     | Some r \<Rightarrow> Some (if s' = s \<and> C r \<and> cache_checks (f r) then f r else r))"
proof -
  have upd: "findCacheEntryByIdentity (snd (update_where P f t)) s' =
      map_option (\<lambda>r. if P r then f r else r) (findCacheEntryByIdentity t s')"
    unfolding find_row_at by (rule row_at_update) (rule assms(2))
  have scope: "row_scope r = s'" if "findCacheEntryByIdentity t s' = Some r" for r
    using that by (auto simp: find_row_at dest: row_at_SomeD)
  show ?thesis
  proof (cases "s' = s")
    case True
    then show ?thesis
      unfolding cache_update_at [OF assms] using upd scope
      by (auto simp: assms(3) identityWhere_def split: option.splits)
  next
    case False
    then show ?thesis
      unfolding cache_update_at [OF assms] using upd scope
      by (auto simp: assms(3) identityWhere_def split: option.splits)
  qed
qed

lemma create_pending_at:
  assumes "cache_table_ok t"
  shows "cache_table_ok (snd (createPendingCacheEntry t uid fk i))"
    and "findCacheEntryByIdentity t s = Some r \<Longrightarrow>
      findCacheEntryByIdentity (snd (createPendingCacheEntry t uid fk i)) s = Some r"
proof -
  show "cache_table_ok (snd (createPendingCacheEntry t uid fk i))"
    using assms
    by (auto simp: createPendingCacheEntry_def Let_def cache_table_ok_def find_row_at
        intro!: unique_on_append dest!: row_at_NoneD split: option.splits)
  show "findCacheEntryByIdentity (snd (createPendingCacheEntry t uid fk i)) s = Some r"
    if "findCacheEntryByIdentity t s = Some r"
    using that by (auto simp: createPendingCacheEntry_def Let_def find_row_at row_at_append split: option.splits)
qed

lemmas cache_updates = updateReadyCacheEntry_def updateFailedCacheEntry_def invalidateCacheEntry_def

lemma invalidate_where: "identityWhere s = (\<lambda>r. identityWhere s r \<and> True)"
  by simp

lemma exec_ok: "cache_table_ok t \<Longrightarrow> cache_table_ok (snd (cache_exec t x))"
  by (cases x) (simp_all add: changed_row_def cache_updates cache_update_ok create_pending_at(1))

text \<open>The same operations on the abstract view: at most one row per identity.\<close>

type_synonym cache_view = "cache_scope \<Rightarrow> cache_entry option"

definition cas_view ::
  "cache_view \<Rightarrow> cache_scope \<Rightarrow> (cache_entry \<Rightarrow> bool) \<Rightarrow> (cache_entry \<Rightarrow> cache_entry) \<Rightarrow> bool \<times> cache_view" where
  "cas_view m s C f =
     (case m s of
        None \<Rightarrow> (False, m)
      | Some r \<Rightarrow> (if C r \<and> cache_checks (f r) then (True, m(s \<mapsto> f r)) else (False, m)))"

fun view_exec :: "cache_view \<Rightarrow> cache_op \<Rightarrow> bool \<times> cache_view" where
  "view_exec m (Create_Pending uid fk i) =
     (False, case fst (createPendingCacheEntry [] uid fk i) of
        Inr row \<Rightarrow> (if m (cpScope i) = None then m(cpScope i \<mapsto> row) else m)
      | Inl _ \<Rightarrow> m)"
| "view_exec m (Update_Ready i) =
     cas_view m (urScope i) (\<lambda>r. ceGeneration r = urExpectedGeneration i) (set_ready i)"
| "view_exec m (Update_Failed i) =
     cas_view m (ufScope i) (\<lambda>r. ceGeneration r = ufExpectedGeneration i) (set_failed i)"
| "view_exec m (Invalidate i) = cas_view m (ivScope i) (\<lambda>r. True) (set_invalidated i)"

lemma cache_update_view:
  assumes "cache_table_ok t" "\<And>r. row_scope (f r) = row_scope r" "P = (\<lambda>r. identityWhere s r \<and> C r)"
  shows "fst (changed_row (cache_update P f t)) = fst (cas_view (findCacheEntryByIdentity t) s C f)"
    and "findCacheEntryByIdentity (snd (cache_update P f t)) = snd (cas_view (findCacheEntryByIdentity t) s C f)"
proof -
  show "fst (changed_row (cache_update P f t)) = fst (cas_view (findCacheEntryByIdentity t) s C f)"
    unfolding cache_update_at [OF assms] by (auto simp: changed_row_def cas_view_def split: option.splits)
  show "findCacheEntryByIdentity (snd (cache_update P f t)) = snd (cas_view (findCacheEntryByIdentity t) s C f)"
    by (rule ext) (auto simp: view_after_update [OF assms] cas_view_def split: option.splits)
qed

lemma create_pending_view:
  "findCacheEntryByIdentity (snd (createPendingCacheEntry t uid fk i)) =
     snd (view_exec (findCacheEntryByIdentity t) (Create_Pending uid fk i))"
  by (rule ext)
    (auto simp: createPendingCacheEntry_def Let_def find_row_at row_at_append row_at_def [of _ "[]"]
      split: option.splits)

lemma exec_view:
  assumes "cache_table_ok t"
  shows "fst (cache_exec t x) = fst (view_exec (findCacheEntryByIdentity t) x)
    \<and> findCacheEntryByIdentity (snd (cache_exec t x)) = snd (view_exec (findCacheEntryByIdentity t) x)"
proof (cases x)
  case (Create_Pending uid fk i)
  then show ?thesis by (simp add: create_pending_view del: view_exec.simps(1)) simp
next
  case (Update_Ready i)
  show ?thesis
    using cache_update_view [OF assms, of "set_ready i" _ "urScope i" "\<lambda>r. ceGeneration r = urExpectedGeneration i"]
    by (simp add: Update_Ready cache_updates) (simp add: changed_row_def)
next
  case (Update_Failed i)
  show ?thesis
    using cache_update_view [OF assms, of "set_failed i" _ "ufScope i" "\<lambda>r. ceGeneration r = ufExpectedGeneration i"]
    by (simp add: Update_Failed cache_updates) (simp add: changed_row_def)
next
  case (Invalidate i)
  show ?thesis
    using cache_update_view [OF assms, of "set_invalidated i" _ "ivScope i" "\<lambda>r. True"]
    by (simp add: Invalidate cache_updates) (simp add: changed_row_def)
qed

lemma cas_view_grows:
  assumes "\<And>r. ceGeneration (f r) = ceGeneration r + 1" "m k = Some r"
  shows "\<exists>r'. snd (cas_view m s C f) k = Some r' \<and> ceGeneration r \<le> ceGeneration r'
    \<and> (ceGeneration r' = ceGeneration r \<longrightarrow> r' = r)"
  using assms by (auto simp: cas_view_def split: option.splits)

lemma cas_view_wins:
  assumes "\<And>r. ceGeneration (f r) = ceGeneration r + 1" "fst (cas_view m s C f)"
  shows "\<exists>r. m s = Some r \<and> C r \<and> snd (cas_view m s C f) s = Some (f r)"
  using assms by (auto simp: cas_view_def split: option.splits if_splits)

lemma cache_update_loses: "\<not> fst (changed_row (cache_update P f t)) \<Longrightarrow> snd (cache_update P f t) = t"
proof -
  assume lost: "\<not> fst (changed_row (cache_update P f t))"
  show ?thesis
  proof (cases "filter P t")
    case Nil
    then show ?thesis by (simp add: cache_update_def update_where_nil)
  next
    case (Cons r rs)
    with lost show ?thesis
      by (auto simp: cache_update_def changed_row_def update_where_def first_row_def split: if_splits)
  qed
qed

interpretation crepo: generation_store findCacheEntryByIdentity ceGeneration cache_exec cache_expects cache_table_ok
proof
  fix t x
  assume ok: "cache_table_ok t"
  note v = exec_view [OF ok, of x]
  show "cache_table_ok (snd (cache_exec t x))" using ok by (rule exec_ok)
  show "\<exists>r'. findCacheEntryByIdentity (snd (cache_exec t x)) k = Some r' \<and> ceGeneration r \<le> ceGeneration r'
      \<and> (ceGeneration r' = ceGeneration r \<longrightarrow> r' = r)"
    if "findCacheEntryByIdentity t k = Some r" for k r
    using that v cas_view_grows [of _ "findCacheEntryByIdentity t" k r]
    by (cases x) (auto split: sum.splits)
  show "\<exists>r r'. findCacheEntryByIdentity t k = Some r \<and> ceGeneration r = g
      \<and> findCacheEntryByIdentity (snd (cache_exec t x)) k = Some r' \<and> ceGeneration r' = g + 1"
    if "cache_expects x = Some (k, g)" "fst (cache_exec t x)" for k g
    using that v cas_view_wins
    by (cases x) (fastforce dest!: cas_view_wins [rotated])+
  show "snd (cache_exec t x) = t" if "cache_expects x = Some (k, g)" "\<not> fst (cache_exec t x)" for k g
    using that by (cases x) (auto simp: cache_updates cache_update_loses changed_row_def [of "(_, _)"]
        dest!: cache_update_loses, simp_all add: changed_row_def)
qed

subsection \<open>What the repository promises\<close>

text \<open>
  C13. One winner. In any sequence of repository operations on a well-formed table, at most one
  compare-and-swap for a given identity and expected generation succeeds; all others, whether
  they record a success or a failure, leave the table as it was.
\<close>

theorem cache_cas_one_winner:
  assumes "cache_table_ok t"
  shows "crepo.wins t ops s g \<le> 1"
  using assms by (rule crepo.one_winner)

definition demo_pending :: create_pending_input where
  "demo_pending =
     \<lparr>cpScope = \<lparr>scOrganizationId = ''o'', scProjectId = ''p'', scDomainId = ''d'', scCacheKeyVersion = 1,
        scCacheKeyHash = replicate 64 CHR ''a''\<rparr>,
      cpNormalizedUrl = ''https://x/'', cpNormalizedUrlHash = replicate 64 CHR ''b'',
      cpRenderProfileHash = replicate 64 CHR ''c'', cpNow = 0\<rparr>"

definition demo_ready :: "string \<Rightarrow> int \<Rightarrow> update_ready_input" where
  "demo_ready h g =
     \<lparr>urScope = cpScope demo_pending, urStorageKey = ''key'', urContentHash = h, urContentEncoding = ''br'',
      urContentBytes = 5, urResponseStatus = 200, urRenderedAt = 10, urFreshUntil = 20, urStaleUntil = 30,
      urExpectedGeneration = g, urNow = 10\<rparr>"

lemma cache_table_ok_empty [simp]: "cache_table_ok []"
  by (simp add: cache_table_ok_def unique_on_def)

definition demo_table :: "cache_entry list" where
  "demo_table = snd (createPendingCacheEntry [] ''id'' True demo_pending)"

lemma demo_table_ok: "cache_table_ok demo_table"
  unfolding demo_table_def by (rule create_pending_at(1)) simp

theorem cache_cas_one_winner_witness:
  "crepo.wins demo_table
     [Update_Ready (demo_ready (replicate 64 CHR ''d'') 1), Update_Ready (demo_ready (replicate 64 CHR ''e'') 1)]
     (cpScope demo_pending) 1 \<le> 1"
  by (rule cache_cas_one_winner [OF demo_table_ok])

text \<open>
  C19. The repository refines a map from identities to rows. Every operation succeeds exactly when
  the corresponding operation on the map does, and leaves the table reading as the updated map;
  so an operation for one organization, project, domain, key version and hash never shows under another.
\<close>

theorem cache_repository_refines_map:
  assumes "cache_table_ok t"
  shows "cache_table_ok (snd (cache_exec t op))
    \<and> fst (cache_exec t op) = fst (view_exec (findCacheEntryByIdentity t) op)
    \<and> findCacheEntryByIdentity (snd (cache_exec t op)) = snd (view_exec (findCacheEntryByIdentity t) op)"
  using exec_ok [OF assms] exec_view [OF assms] by blast

theorem cache_repository_refines_map_witness:
  "cache_table_ok (snd (cache_exec demo_table (Update_Ready (demo_ready (replicate 64 CHR ''d'') 1))))"
  using cache_repository_refines_map [OF demo_table_ok, of "Update_Ready (demo_ready (replicate 64 CHR ''d'') 1)"]
  by (rule conjunct1)

end
