(* ===== verification/ObjectStore.thy ===== *)
theory ObjectStore
  imports CachePolicy
begin

section \<open>HTML object stores\<close>

text \<open>
  src/repositories/html-object-store.ts (the interface, as the locale \<open>html_object_store\<close>) and
  its two implementations: the in-memory store of memory-html-object-store.ts and the
  file-system store of filesystem-html-object-store.ts, over a model of the file system that
  has directories, regular files and symbolic links at paths, which are segment lists. A call
  that the operating system may refuse is in the \<open>faults\<close> of its environment. Symbolic links are
  detected, not followed: what lies beyond one is not modelled.
\<close>

record html_object_metadata =
  metaEncoding :: cache_encoding
  metaBytes :: nat
  metaCreatedAt :: "time_ms option"

record put_object_input =
  putStorageKey :: string
  putBody :: "byte list"
  putContentEncoding :: cache_encoding
  putIfNotExists :: bool

record stored_html_object =
  objBody :: "byte list"
  objMetadata :: html_object_metadata

datatype object_storage_error_code = Not_Found | Already_Exists | Invalid_Key | Size_Limit_Exceeded | Provider_Error

datatype store_error =
    Object_Storage_Error object_storage_error_code
  | Invalid_Cache_Storage_Key_Input storage_key_error
  | Node_Fs_Error

definition valid_key :: "string \<Rightarrow> bool" where
  "valid_key k \<longleftrightarrow> (\<exists>p. parseCacheObjectKey k = Inr p)"

lemma valid_key_cases: "valid_key k \<longleftrightarrow> (case parseCacheObjectKey k of Inl _ \<Rightarrow> False | Inr _ \<Rightarrow> True)"
  by (auto simp: valid_key_def split: sum.splits)

subsection \<open>The interface\<close>

text \<open>
  What a client may rely on. \<open>body s k\<close> is what a read of the key returns when nothing fails;
  the environment \<open>f\<close> is the clock, the random names and the faults of one call.
\<close>

locale html_object_store =
  fixes put :: "'s \<Rightarrow> 'f \<Rightarrow> put_object_input \<Rightarrow> (store_error + html_object_metadata) \<times> 's"
    and body :: "'s \<Rightarrow> string \<Rightarrow> byte list option"
    and remove :: "'s \<Rightarrow> 'f \<Rightarrow> string \<Rightarrow> (store_error + unit) \<times> 's"
    and ok :: "'s \<Rightarrow> bool"
  assumes put_inv: "ok s \<Longrightarrow> ok (snd (put s f i))"
    and remove_inv: "ok s \<Longrightarrow> ok (snd (remove s f k))"
    and put_key: "ok s \<Longrightarrow> fst (put s f i) = Inr m \<Longrightarrow> valid_key (putStorageKey i)"
    and put_stored: "ok s \<Longrightarrow> fst (put s f i) = Inr m \<Longrightarrow>
      body (snd (put s f i)) (putStorageKey i) =
        Some (case body s (putStorageKey i) of None \<Rightarrow> putBody i | Some b \<Rightarrow> b)"
    and put_failed: "ok s \<Longrightarrow> valid_key k \<Longrightarrow> fst (put s f i) = Inl e \<Longrightarrow> body (snd (put s f i)) k = body s k"
    and put_frame: "ok s \<Longrightarrow> valid_key k \<Longrightarrow> k \<noteq> putStorageKey i \<Longrightarrow> body (snd (put s f i)) k = body s k"
    and remove_gone: "ok s \<Longrightarrow> fst (remove s f k) = Inr () \<Longrightarrow> valid_key k \<Longrightarrow> body (snd (remove s f k)) k = None"
    and remove_failed: "ok s \<Longrightarrow> fst (remove s f k) = Inl e \<Longrightarrow> snd (remove s f k) = s"
    and remove_frame: "ok s \<Longrightarrow> valid_key k' \<Longrightarrow> k' \<noteq> k \<Longrightarrow> body (snd (remove s f k)) k' = body s k'"
begin

lemma put_keeps:
  assumes "ok s" "valid_key k" "body s k = Some b"
  shows "body (snd (put s f i)) k = Some b"
proof (cases "fst (put s f i)")
  case (Inl e)
  with assms show ?thesis by (simp add: put_failed)
next
  case (Inr m)
  with assms show ?thesis
    using put_stored [OF assms(1) Inr] put_frame [OF assms(1,2), of i] by (cases "k = putStorageKey i") auto
qed

text \<open>A history of puts and removals of other keys.\<close>

primrec history :: "'s \<Rightarrow> ('f \<times> put_object_input + 'f \<times> string) list \<Rightarrow> 's" where
  "history s [] = s"
| "history s (x # xs) =
     history (case x of Inl (f, i) \<Rightarrow> snd (put s f i) | Inr (f, k) \<Rightarrow> snd (remove s f k)) xs"

lemma history_inv: "ok s \<Longrightarrow> ok (history s xs)"
  by (induction xs arbitrary: s) (auto simp: put_inv remove_inv split: sum.splits)

lemma immutable_until_removed:
  assumes "ok s" "valid_key k" "body s k = Some b" "\<forall>f. Inr (f, k) \<notin> set xs"
  shows "body (history s xs) k = Some b"
  using assms
proof (induction xs arbitrary: s)
  case (Cons x xs)
  show ?case
  proof (cases x)
    case (Inl fi)
    with Cons show ?thesis by (cases fi) (simp add: put_keeps put_inv)
  next
    case (Inr fk)
    then obtain f k' where "x = Inr (f, k')" "k' \<noteq> k"
      using Cons.prems(4) by (cases fk) auto
    with Cons show ?thesis by (simp add: remove_frame remove_inv)
  qed
qed simp

end

text \<open>A store that can be read: when a read does not fail, it returns the body.\<close>

locale readable_store = html_object_store +
  fixes get :: "'a \<Rightarrow> 'b \<Rightarrow> string \<Rightarrow> store_error + stored_html_object option"
  assumes get_body: "ok s \<Longrightarrow> valid_key k \<Longrightarrow> get s f k = Inr x \<Longrightarrow> map_option objBody x = body s k"
begin

lemma get_missing: "ok s \<Longrightarrow> valid_key k \<Longrightarrow> get s f k = Inr None \<Longrightarrow> body s k = None"
  using get_body [of s k f None] by simp

lemma get_found: "ok s \<Longrightarrow> valid_key k \<Longrightarrow> get s f k = Inr (Some ob) \<Longrightarrow> body s k = Some (objBody ob)"
  using get_body [of s k f "Some ob"] by simp

end

subsection \<open>The in-memory store\<close>

type_synonym memory_store = "string \<rightharpoonup> stored_html_object"

text \<open>The failure hooks and the clock of one call.\<close>

record memory_env =
  failNextPut :: bool
  failNextDelete :: bool
  memNow :: time_ms

definition mem_putObject ::
  "memory_store \<Rightarrow> memory_env \<Rightarrow> put_object_input \<Rightarrow> (store_error + html_object_metadata) \<times> memory_store" where
  "mem_putObject st env i =
     (case parseCacheObjectKey (putStorageKey i) of
        Inl e \<Rightarrow> (Inl (Invalid_Cache_Storage_Key_Input e), st)
      | Inr _ \<Rightarrow>
          (if failNextPut env then (Inl (Object_Storage_Error Provider_Error), st)
           else case st (putStorageKey i) of
             Some existing \<Rightarrow>
               (if putIfNotExists i then (Inl (Object_Storage_Error Already_Exists), st)
                else (Inr (objMetadata existing), st))
           | None \<Rightarrow>
               (let metadata = \<lparr>metaEncoding = putContentEncoding i, metaBytes = length (putBody i),
                                metaCreatedAt = Some (memNow env)\<rparr>
                in (Inr metadata, st(putStorageKey i \<mapsto> \<lparr>objBody = putBody i, objMetadata = metadata\<rparr>)))))"

definition mem_getObject :: "memory_store \<Rightarrow> string \<Rightarrow> store_error + stored_html_object option" where
  "mem_getObject st k = Inr (st k)"

definition mem_headObject :: "memory_store \<Rightarrow> string \<Rightarrow> store_error + html_object_metadata option" where
  "mem_headObject st k = Inr (map_option objMetadata (st k))"

definition mem_deleteObject :: "memory_store \<Rightarrow> memory_env \<Rightarrow> string \<Rightarrow> (store_error + unit) \<times> memory_store" where
  "mem_deleteObject st env k =
     (if failNextDelete env then (Inl (Object_Storage_Error Provider_Error), st)
      else (Inr (), st(k := None)))"

definition mem_body :: "memory_store \<Rightarrow> string \<Rightarrow> byte list option" where
  "mem_body st k = map_option objBody (st k)"

definition mem_ok :: "memory_store \<Rightarrow> bool" where
  "mem_ok st \<longleftrightarrow> True"

interpretation mem: html_object_store mem_putObject mem_body mem_deleteObject mem_ok
  by unfold_locales
    (auto simp: mem_putObject_def mem_body_def mem_deleteObject_def mem_ok_def valid_key_def Let_def
      split: sum.splits option.splits if_splits)

definition mem_get :: "memory_store \<Rightarrow> memory_env \<Rightarrow> string \<Rightarrow> store_error + stored_html_object option" where
  "mem_get st env k = mem_getObject st k"

interpretation mem: readable_store mem_putObject mem_body mem_deleteObject mem_ok mem_get
  by unfold_locales (auto simp: mem_get_def mem_getObject_def mem_body_def)

lemma mem_get_put:
  "fst (mem_putObject st env i) = Inr m \<Longrightarrow>
   \<exists>ob. mem_getObject (snd (mem_putObject st env i)) (putStorageKey i) = Inr (Some ob)
     \<and> mem_headObject (snd (mem_putObject st env i)) (putStorageKey i) = Inr (Some (objMetadata ob))
     \<and> objMetadata ob = m"
  by (auto simp: mem_putObject_def mem_getObject_def mem_headObject_def Let_def
      split: sum.splits option.splits if_splits)

subsection \<open>The file-system store\<close>

type_synonym fs_path = "string list"

datatype fs_node = Dir_Node | File_Node "byte list" | Symlink_Node

type_synonym file_system = "fs_path \<rightharpoonup> fs_node"

datatype fs_call = Fs_Mkdir | Fs_Lstat | Fs_Open | Fs_Write | Fs_Sync | Fs_Close | Fs_Rename | Fs_Unlink | Fs_Read

text \<open>
  The calls that fail during one operation, and the random part of its temporary name. A \<open>stat\<close>
  that follows a successful \<open>lstat\<close> of the same path does not fail.
\<close>

record fs_env =
  fsFaults :: "fs_call set"
  tmpHex :: string

definition path_step :: "fs_path \<Rightarrow> string \<Rightarrow> fs_path" where
  "path_step acc seg =
     (if seg = [] \<or> seg = ''.'' then acc else if seg = ''..'' then butlast acc else acc @ [seg])"

definition path_resolve :: "fs_path \<Rightarrow> string \<Rightarrow> fs_path" where
  "path_resolve root key =
     foldl path_step (if starts_with key ''/'' then [] else root) (js_split CHR ''/'' key)"

definition resolveObjectPath :: "fs_path \<Rightarrow> string \<Rightarrow> store_error + fs_path" where
  "resolveObjectPath root key =
     (case parseCacheObjectKey key of
        Inl _ \<Rightarrow> Inl (Object_Storage_Error Invalid_Key)
      | Inr _ \<Rightarrow>
          (if starts_with key ''/'' then Inl (Object_Storage_Error Invalid_Key)
           else let resolved = path_resolve root key
                in if resolved \<noteq> root \<and> \<not> strict_prefix root resolved
                   then Inl (Object_Storage_Error Invalid_Key) else Inr resolved))"

text \<open>A regular file above a path: every call on the path fails with \<open>ENOTDIR\<close>.\<close>

definition under_file :: "file_system \<Rightarrow> fs_path \<Rightarrow> bool" where
  "under_file fs p \<longleftrightarrow> list_ex (\<lambda>n. case fs (take n p) of Some (File_Node _) \<Rightarrow> True | _ \<Rightarrow> False) [0..<length p]"

definition assertNotSymlink :: "file_system \<Rightarrow> fs_env \<Rightarrow> fs_path \<Rightarrow> store_error + unit" where
  "assertNotSymlink fs env p =
     (if Fs_Lstat \<in> fsFaults env \<or> under_file fs p then Inl Node_Fs_Error
      else if fs p = Some Symlink_Node then Inl (Object_Storage_Error Invalid_Key)
      else Inr ())"

text \<open>The walk from the root: \<open>segments\<close> are the parts of \<open>path.relative(root, dirPath)\<close>.\<close>

fun assertNoSymlinkAncestors :: "file_system \<Rightarrow> fs_env \<Rightarrow> fs_path \<Rightarrow> string list \<Rightarrow> store_error + unit" where
  "assertNoSymlinkAncestors fs env current [] = Inr ()"
| "assertNoSymlinkAncestors fs env current (seg # segs) =
     and_then (assertNotSymlink fs env (current @ [seg]))
       (\<lambda>_. assertNoSymlinkAncestors fs env (current @ [seg]) segs)"

definition fs_mkdir :: "file_system \<Rightarrow> fs_env \<Rightarrow> fs_path \<Rightarrow> store_error + file_system" where
  "fs_mkdir fs env dir =
     (if Fs_Mkdir \<in> fsFaults env \<or> under_file fs (dir @ [''''])
      then Inl Node_Fs_Error
      else Inr (\<lambda>p. if fs p = None \<and> prefix p dir then Some Dir_Node else fs p))"

definition fs_stat_size :: "file_system \<Rightarrow> fs_path \<Rightarrow> nat option" where
  "fs_stat_size fs p =
     (case fs p of Some (File_Node b) \<Rightarrow> Some (length b) | Some Dir_Node \<Rightarrow> Some 0 | _ \<Rightarrow> None)"

definition tmp_path :: "fs_env \<Rightarrow> fs_path \<Rightarrow> fs_path" where
  "tmp_path env dir = dir @ [''.tmp-'' @ tmpHex env]"

definition unlink_tmp :: "file_system \<Rightarrow> fs_env \<Rightarrow> fs_path \<Rightarrow> file_system" where
  "unlink_tmp fs env tmp = (if Fs_Unlink \<in> fsFaults env then fs else fs(tmp := None))"

text \<open>
  Open the temporary file exclusively, write, sync, close, rename; when any of these fails, remove
  the temporary file as far as possible and report \<open>provider_error\<close>.
\<close>

definition fs_write_rename ::
  "file_system \<Rightarrow> fs_env \<Rightarrow> fs_path \<Rightarrow> fs_path \<Rightarrow> byte list \<Rightarrow> (store_error + unit) \<times> file_system" where
  "fs_write_rename fs env tmp final data =
     (if Fs_Open \<in> fsFaults env \<or> fs tmp \<noteq> None
      then (Inl (Object_Storage_Error Provider_Error), unlink_tmp fs env tmp)
      else if Fs_Write \<in> fsFaults env
      then (Inl (Object_Storage_Error Provider_Error), unlink_tmp (fs(tmp \<mapsto> File_Node [])) env tmp)
      else if fsFaults env \<inter> {Fs_Sync, Fs_Close, Fs_Rename} \<noteq> {}
      then (Inl (Object_Storage_Error Provider_Error), unlink_tmp (fs(tmp \<mapsto> File_Node data)) env tmp)
      else (Inr (), fs(tmp := None, final \<mapsto> File_Node data)))"

definition fs_putObject ::
  "fs_path \<Rightarrow> file_system \<Rightarrow> fs_env \<Rightarrow> put_object_input \<Rightarrow> (store_error + html_object_metadata) \<times> file_system" where
  "fs_putObject root fs env i =
     (case resolveObjectPath root (putStorageKey i) of
        Inl e \<Rightarrow> (Inl e, fs)
      | Inr final \<Rightarrow>
          (let dir = butlast final
           in case fs_mkdir fs env dir of
                Inl e \<Rightarrow> (Inl e, fs)
              | Inr fs1 \<Rightarrow>
                  (case and_then (assertNoSymlinkAncestors fs1 env root (drop (length root) dir))
                          (\<lambda>_. assertNotSymlink fs1 env final) of
                     Inl e \<Rightarrow> (Inl e, fs1)
                   | Inr _ \<Rightarrow>
                       (case fs_stat_size fs1 final of
                          Some sz \<Rightarrow>
                            (if putIfNotExists i then (Inl (Object_Storage_Error Already_Exists), fs1)
                             else (Inr \<lparr>metaEncoding =
                                     (case parseCacheObjectKey (putStorageKey i) of
                                        Inr p \<Rightarrow> ckContentEncoding p | Inl _ \<Rightarrow> putContentEncoding i),
                                   metaBytes = sz, metaCreatedAt = None\<rparr>, fs1))
                        | None \<Rightarrow>
                            (case fs_write_rename fs1 env (tmp_path env dir) final (putBody i) of
                               (Inl e, fs2) \<Rightarrow> (Inl e, fs2)
                             | (Inr _, fs2) \<Rightarrow>
                                 (Inr \<lparr>metaEncoding = putContentEncoding i,
                                       metaBytes = length (putBody i), metaCreatedAt = None\<rparr>, fs2))))))"

definition fs_getObject :: "fs_path \<Rightarrow> file_system \<Rightarrow> fs_env \<Rightarrow> string \<Rightarrow> store_error + stored_html_object option" where
  "fs_getObject root fs env key =
     (case resolveObjectPath root key of
        Inl e \<Rightarrow> Inl e
      | Inr final \<Rightarrow>
          (if Fs_Lstat \<in> fsFaults env \<or> under_file fs final then Inl (Object_Storage_Error Provider_Error)
           else case fs final of
             None \<Rightarrow> Inr None
           | Some Symlink_Node \<Rightarrow> Inl (Object_Storage_Error Invalid_Key)
           | Some Dir_Node \<Rightarrow> Inl (Object_Storage_Error Provider_Error)
           | Some (File_Node b) \<Rightarrow>
               (if Fs_Read \<in> fsFaults env then Inl (Object_Storage_Error Provider_Error)
                else Inr (Some \<lparr>objBody = b, objMetadata =
                  \<lparr>metaEncoding = (case parseCacheObjectKey key of Inr p \<Rightarrow> ckContentEncoding p | Inl _ \<Rightarrow> Identity),
                   metaBytes = length b, metaCreatedAt = None\<rparr>\<rparr>))))"

definition fs_headObject :: "fs_path \<Rightarrow> file_system \<Rightarrow> fs_env \<Rightarrow> string \<Rightarrow> store_error + html_object_metadata option" where
  "fs_headObject root fs env key =
     (case resolveObjectPath root key of
        Inl e \<Rightarrow> Inl e
      | Inr final \<Rightarrow>
          (if Fs_Lstat \<in> fsFaults env \<or> under_file fs final then Inl (Object_Storage_Error Provider_Error)
           else if fs final = Some Symlink_Node then Inl (Object_Storage_Error Invalid_Key)
           else case fs_stat_size fs final of
             None \<Rightarrow> Inr None
           | Some sz \<Rightarrow>
               Inr (Some \<lparr>metaEncoding = (case parseCacheObjectKey key of Inr p \<Rightarrow> ckContentEncoding p | Inl _ \<Rightarrow> Identity),
                          metaBytes = sz, metaCreatedAt = None\<rparr>)))"

definition fs_deleteObject :: "fs_path \<Rightarrow> file_system \<Rightarrow> fs_env \<Rightarrow> string \<Rightarrow> (store_error + unit) \<times> file_system" where
  "fs_deleteObject root fs env key =
     (case resolveObjectPath root key of
        Inl e \<Rightarrow> (Inl e, fs)
      | Inr final \<Rightarrow>
          (if Fs_Unlink \<in> fsFaults env \<or> under_file fs final \<or> fs final = Some Dir_Node
           then (Inl (Object_Storage_Error Provider_Error), fs)
           else (Inr (), fs(final := None))))"

subsection \<open>Where a key's object lives\<close>

definition key_path :: "fs_path \<Rightarrow> string \<Rightarrow> fs_path" where
  "key_path root k = root @ js_split CHR ''/'' k"

definition fs_body :: "fs_path \<Rightarrow> file_system \<Rightarrow> string \<Rightarrow> byte list option" where
  "fs_body root fs k = (case fs (key_path root k) of Some (File_Node b) \<Rightarrow> Some b | _ \<Rightarrow> None)"

lemma path_steps_plain:
  "\<forall>seg \<in> set segs. seg \<notin> {'''', ''.'', ''..''} \<Longrightarrow> foldl path_step base segs = base @ segs"
  by (induction segs arbitrary: base) (auto simp: path_step_def)

lemma valid_key_split:
  assumes "valid_key k"
  obtains rest where "js_split CHR ''/'' k = ''cache'' # rest" "length rest = 7"
    "hd (last rest) = CHR ''g''" "last rest \<noteq> []"
proof -
  from assms obtain p where "parseCacheObjectKey k = Inr p" by (auto simp: valid_key_def)
  then obtain ds ext where split:
    "js_split CHR ''/'' k = [''cache'', ''v1'', ckOrganizationId p, ckProjectId p, ckDomainId p,
       take 2 (ckCacheKeyHash p), ckCacheKeyHash p, CHR ''g'' # ds @ CHR ''-'' # ckContentHash p @ ext]"
    by (rule parse_Inr)
  show ?thesis by (rule that [OF split]) simp_all
qed

lemma valid_key_not_absolute:
  assumes "valid_key k"
  shows "\<not> starts_with k ''/''"
proof
  assume "starts_with k ''/''"
  then obtain r where "k = CHR ''/'' # r" by (auto simp: prefix_def)
  then have "hd (js_split CHR ''/'' k) = []" by simp
  moreover obtain rest where "js_split CHR ''/'' k = ''cache'' # rest" using assms by (rule valid_key_split)
  ultimately show False by simp
qed

lemma resolve_valid: "valid_key k \<Longrightarrow> resolveObjectPath root k = Inr (key_path root k)"
proof -
  assume k: "valid_key k"
  then obtain p where p: "parseCacheObjectKey k = Inr p" by (auto simp: valid_key_def)
  have "path_resolve root k = key_path root k"
    using path_steps_plain [OF parsed_path_segments [OF p]] valid_key_not_absolute [OF k]
    by (simp add: path_resolve_def key_path_def)
  moreover have "strict_prefix root (key_path root k)"
    by (simp add: key_path_def strict_prefix_def)
  ultimately show ?thesis
    using p valid_key_not_absolute [OF k] by (simp add: resolveObjectPath_def Let_def)
qed

lemma resolve_Inr: "resolveObjectPath root k = Inr q \<Longrightarrow> valid_key k \<and> q = key_path root k"
  using resolve_valid [of k root]
  by (auto simp: resolveObjectPath_def valid_key_def split: sum.splits)

lemma key_path_inject [simp]: "key_path root k = key_path root k' \<longleftrightarrow> k = k'"
  by (metis key_path_def js_join_split same_append_eq)

lemma key_path_length: "valid_key k \<Longrightarrow> length (key_path root k) = length root + 8"
  by (erule valid_key_split) (simp add: key_path_def)

lemma key_path_not_prefix:
  assumes "valid_key k" "valid_key k'"
  shows "\<not> prefix (key_path root k) (butlast (key_path root k'))"
  using assms by (auto dest!: prefix_length_le simp: key_path_length)

lemma key_path_not_tmp:
  assumes "valid_key k"
  shows "key_path root k \<noteq> tmp_path env dir"
proof
  assume "key_path root k = tmp_path env dir"
  then have "last (js_split CHR ''/'' k) = ''.tmp-'' @ tmpHex env"
    by (metis key_path_def js_split_not_Nil last_appendR last_snoc tmp_path_def)
  moreover obtain rest where "js_split CHR ''/'' k = ''cache'' # rest" "length rest = 7"
    "hd (last rest) = CHR ''g''" using assms by (rule valid_key_split)
  ultimately show False by (cases rest) auto
qed

subsection \<open>The file-system store keeps the contract\<close>

text \<open>No directory stands where an object belongs: the store itself never makes one there.\<close>

definition fs_ok :: "fs_path \<Rightarrow> file_system \<Rightarrow> bool" where
  "fs_ok root fs \<longleftrightarrow> (\<forall>k. valid_key k \<longrightarrow> fs (key_path root k) \<noteq> Some Dir_Node)"

text \<open>Every state of the file system that another process can see while a put runs.\<close>

definition fs_put_states ::
  "fs_path \<Rightarrow> file_system \<Rightarrow> fs_env \<Rightarrow> put_object_input \<Rightarrow> nat \<Rightarrow> file_system list" where
  "fs_put_states root fs env i n =
     (let final = key_path root (putStorageKey i); dir = butlast final; tmp = tmp_path env dir;
          made = (\<lambda>p. if fs p = None \<and> prefix p dir then Some Dir_Node else fs p)
      in [fs, made, made(tmp \<mapsto> File_Node []), made(tmp \<mapsto> File_Node (take n (putBody i))),
          made(tmp \<mapsto> File_Node (putBody i)), snd (fs_putObject root fs env i)])"

lemma mkdir_body:
  assumes "fs_mkdir fs env (butlast (key_path root k')) = Inr fs1" "valid_key k" "valid_key k'"
  shows "fs1 (key_path root k) = fs (key_path root k)"
  using assms key_path_not_prefix [of k k' root] by (auto simp: fs_mkdir_def split: if_splits)

lemma write_rename_at:
  assumes "fs_write_rename fs env (tmp_path env dir) final data = (r, fs2)" "valid_key k"
  shows "fs2 (key_path root k) =
    (if r = Inr () \<and> key_path root k = final then Some (File_Node data) else fs (key_path root k))"
  using assms key_path_not_tmp [OF assms(2), of root env dir]
  by (auto simp: fs_write_rename_def unlink_tmp_def split: if_splits)

lemma fs_put_cases:
  assumes "valid_key (putStorageKey i)" "fs_ok root fs" "fs_putObject root fs env i = (r, fs')"
  obtains (refused) e where "r = Inl e" "fs' = fs"
  | (stopped) fs1 e where "fs_mkdir fs env (butlast (key_path root (putStorageKey i))) = Inr fs1"
      "r = Inl e" "fs' = fs1"
  | (exists) fs1 m b where "fs_mkdir fs env (butlast (key_path root (putStorageKey i))) = Inr fs1"
      "r = Inr m" "fs' = fs1" "fs (key_path root (putStorageKey i)) = Some (File_Node b)"
  | (written) fs1 r2 where "fs_mkdir fs env (butlast (key_path root (putStorageKey i))) = Inr fs1"
      "fs_write_rename fs1 env (tmp_path env (butlast (key_path root (putStorageKey i))))
         (key_path root (putStorageKey i)) (putBody i) = (r2, fs')"
      "fs (key_path root (putStorageKey i)) = None" "isl r = isl r2"
proof -
  let ?final = "key_path root (putStorageKey i)"
  let ?dir = "butlast ?final"
  note res = resolve_valid [OF assms(1), of root]
  show thesis
  proof (cases "fs_mkdir fs env ?dir")
    case (Inl e)
    with assms(3) have "r = Inl e" "fs' = fs" by (simp_all add: fs_putObject_def res Let_def)
    then show thesis by (rule refused)
  next
    case (Inr fs1)
    have same: "fs1 ?final = fs ?final" using mkdir_body [OF Inr assms(1,1)] .
    let ?links = "and_then (assertNoSymlinkAncestors fs1 env root (drop (length root) ?dir))
        (\<lambda>_. assertNotSymlink fs1 env ?final)"
    show thesis
    proof (cases ?links)
      case (Inl e)
      with assms(3) Inr have "r = Inl e" "fs' = fs1" by (simp_all add: fs_putObject_def res Let_def)
      then show thesis by (rule stopped [OF Inr])
    next
      case links: (Inr u)
      then have nolink: "fs1 ?final \<noteq> Some Symlink_Node"
        by (auto simp: and_then_Inr_iff assertNotSymlink_def split: if_splits)
      show thesis
      proof (cases "fs_stat_size fs1 ?final")
        case (Some sz)
        then obtain b where b: "fs ?final = Some (File_Node b)"
          using assms(1,2) same
          by (auto simp: fs_stat_size_def fs_ok_def split: option.splits fs_node.splits)
        have fs': "fs' = fs1" using assms(3) Inr links Some
          by (auto simp: fs_putObject_def res Let_def split: if_splits)
        show thesis
        proof (cases r)
          case (Inl e)
          then show thesis using fs' by (rule stopped [OF Inr])
        next
          case r: (Inr m)
          then show thesis using fs' b by (rule exists [OF Inr])
        qed
      next
        case None
        with nolink same have none: "fs ?final = None"
          by (auto simp: fs_stat_size_def split: option.splits fs_node.splits)
        obtain r2 fs2 where w: "fs_write_rename fs1 env (tmp_path env ?dir) ?final (putBody i) = (r2, fs2)"
          by fastforce
        with assms(3) Inr links None have "isl r = isl r2" "fs' = fs2"
          by (auto simp: fs_putObject_def res Let_def split: sum.splits)
        with w written [OF Inr] none show thesis by simp
      qed
    qed
  qed
qed

lemma fs_put_invalid:
  "\<not> valid_key (putStorageKey i) \<Longrightarrow> fs_putObject root fs env i = (Inl (Object_Storage_Error Invalid_Key), fs)"
  by (auto simp: fs_putObject_def resolveObjectPath_def valid_key_def split: sum.splits)

text \<open>What a put does to any object's path.\<close>

lemma fs_put_at:
  assumes "fs_ok root fs" "valid_key k" "fs_putObject root fs env i = (r, fs')"
  shows "fs' (key_path root k) =
    (if k = putStorageKey i \<and> \<not> isl r \<and> fs (key_path root k) = None
     then Some (File_Node (putBody i)) else fs (key_path root k))"
    and "k = putStorageKey i \<Longrightarrow> \<not> isl r \<Longrightarrow> fs' (key_path root k) =
      Some (File_Node (case fs_body root fs k of None \<Rightarrow> putBody i | Some b \<Rightarrow> b))"
proof -
  have "fs' (key_path root k) =
      (if k = putStorageKey i \<and> \<not> isl r \<and> fs (key_path root k) = None
       then Some (File_Node (putBody i)) else fs (key_path root k))
    \<and> (k = putStorageKey i \<longrightarrow> \<not> isl r \<longrightarrow> fs' (key_path root k) =
      Some (File_Node (case fs_body root fs k of None \<Rightarrow> putBody i | Some b \<Rightarrow> b)))"
  proof (cases "valid_key (putStorageKey i)")
    case False
    with assms(2,3) show ?thesis by (auto simp: fs_put_invalid)
  next
    case True
    from True assms(1,3) show ?thesis
    proof (cases rule: fs_put_cases)
      case refused
      then show ?thesis by simp
    next
      case (stopped fs1 e)
      then show ?thesis using mkdir_body [OF stopped(1) assms(2) True] by simp
    next
      case (exists fs1 m b)
      then show ?thesis using mkdir_body [OF exists(1) assms(2) True] by (auto simp: fs_body_def)
    next
      case (written fs1 r2)
      have "r2 = Inr () \<longleftrightarrow> \<not> isl r" using written(4) by (cases r2) auto
      then show ?thesis
        using written(3) mkdir_body [OF written(1) assms(2) True] write_rename_at [OF written(2) assms(2), of root]
        by (auto simp: fs_body_def)
    qed
  qed
  then show "fs' (key_path root k) =
      (if k = putStorageKey i \<and> \<not> isl r \<and> fs (key_path root k) = None
       then Some (File_Node (putBody i)) else fs (key_path root k))"
    "k = putStorageKey i \<Longrightarrow> \<not> isl r \<Longrightarrow> fs' (key_path root k) =
      Some (File_Node (case fs_body root fs k of None \<Rightarrow> putBody i | Some b \<Rightarrow> b))"
    by blast+
qed

lemma fs_delete_at:
  assumes "fs_deleteObject root fs env k = (r, fs')"
  shows "fs' = (if isl r then fs else fs(key_path root k := None)) \<and> (\<not> isl r \<longrightarrow> valid_key k)"
proof (cases "resolveObjectPath root k")
  case (Inl e)
  with assms show ?thesis by (auto simp: fs_deleteObject_def)
next
  case (Inr q)
  from resolve_Inr [OF Inr] Inr assms show ?thesis
    by (auto simp: fs_deleteObject_def split: if_splits)
qed

interpretation fstore: html_object_store "fs_putObject root" "fs_body root" "fs_deleteObject root" "fs_ok root"
proof
  fix s f i
  assume ok: "fs_ok root s"
  obtain r s' where p: "fs_putObject root s f i = (r, s')" by fastforce
  note at = fs_put_at [OF ok _ p]
  show "fs_ok root (snd (fs_putObject root s f i))"
    using ok by (auto simp: p fs_ok_def at(1))
  show "valid_key (putStorageKey i)" if "fst (fs_putObject root s f i) = Inr m" for m
    using that fs_put_invalid [of i root s f] by (cases "valid_key (putStorageKey i)") auto
  then show "fs_body root (snd (fs_putObject root s f i)) (putStorageKey i) =
      Some (case fs_body root s (putStorageKey i) of None \<Rightarrow> putBody i | Some b \<Rightarrow> b)"
    if "fst (fs_putObject root s f i) = Inr m" for m
    using that at(2) [of "putStorageKey i"] by (simp add: p fs_body_def)
  show "fs_body root (snd (fs_putObject root s f i)) k = fs_body root s k"
    if "valid_key k" "fst (fs_putObject root s f i) = Inl e" for k e
    using that at(1) [of k] by (simp add: p fs_body_def)
  show "fs_body root (snd (fs_putObject root s f i)) k = fs_body root s k"
    if "valid_key k" "k \<noteq> putStorageKey i" for k
    using that at(1) [of k] by (simp add: p fs_body_def)
next
  fix s f k
  assume ok: "fs_ok root s"
  obtain r s' where p: "fs_deleteObject root s f k = (r, s')" by fastforce
  note at = fs_delete_at [OF p]
  show "fs_ok root (snd (fs_deleteObject root s f k))"
    using ok at by (auto simp: p fs_ok_def)
  show "fs_body root (snd (fs_deleteObject root s f k)) k = None"
    if "fst (fs_deleteObject root s f k) = Inr ()" "valid_key k"
    using that at by (simp add: p fs_body_def)
  show "snd (fs_deleteObject root s f k) = s" if "fst (fs_deleteObject root s f k) = Inl e" for e
    using that at by (simp add: p)
  show "fs_body root (snd (fs_deleteObject root s f k)) k' = fs_body root s k'"
    if "valid_key k'" "k' \<noteq> k" for k'
    using that at by (auto simp: p fs_body_def)
qed

interpretation fstore: readable_store "fs_putObject root" "fs_body root" "fs_deleteObject root" "fs_ok root"
    "fs_getObject root"
  by unfold_locales
    (auto simp: fs_getObject_def resolve_valid fs_body_def split: if_splits option.splits fs_node.splits)

lemma fs_get_body:
  assumes "valid_key k" "fsFaults env = {}" "\<not> under_file fs (key_path root k)" "fs_body root fs k = Some b"
  shows "\<exists>ob. fs_getObject root fs env k = Inr (Some ob) \<and> objBody ob = b \<and> metaBytes (objMetadata ob) = length b"
  using assms by (auto simp: fs_getObject_def resolve_valid fs_body_def split: option.splits fs_node.splits)

subsection \<open>What the stores promise\<close>

text \<open>
  C22. Objects are immutable. In the file-system store, once a key holds bytes, no history of puts
  under any keys (including itself) and removals of other keys, with any faults, changes them.
\<close>

theorem fs_objects_immutable:
  assumes "fs_ok root fs" "valid_key k" "fs_body root fs k = Some b" "\<forall>env. Inr (env, k) \<notin> set ops"
  shows "fs_body root (fstore.history root fs ops) k = Some b"
  using assms by (rule fstore.immutable_until_removed)

lemma demo_valid_key: "valid_key (js_join CHR ''/'' (built_segments demo_key_params))"
  unfolding valid_key_def
  by (rule exI, rule parse_built [OF demo_key_valid]) (simp add: demo_key_params_def)

definition demo_fs :: "string \<Rightarrow> file_system" where
  "demo_fs k = [key_path [''srv''] k \<mapsto> File_Node [1, 2, 3]]"

lemma demo_fs_ok: "fs_ok [''srv''] (demo_fs k)"
  by (simp add: fs_ok_def demo_fs_def)

theorem fs_objects_immutable_witness:
  "fs_body [''srv''] (fstore.history [''srv''] (demo_fs (js_join CHR ''/'' (built_segments demo_key_params)))
     [Inl (\<lparr>fsFaults = {}, tmpHex = ''00''\<rparr>,
        \<lparr>putStorageKey = js_join CHR ''/'' (built_segments demo_key_params), putBody = [9],
         putContentEncoding = Br, putIfNotExists = False\<rparr>)])
     (js_join CHR ''/'' (built_segments demo_key_params)) = Some [1, 2, 3]"
  by (rule fs_objects_immutable [OF demo_fs_ok demo_valid_key]) (simp_all add: fs_body_def demo_fs_def)



text \<open>
  C23. Nothing outside the root. Every path the file-system store resolves lies strictly below its
  root, eight segments down, with no \<open>.\<close> or \<open>..\<close> in it, and different keys have different paths.
\<close>

theorem fs_path_contained:
  assumes "resolveObjectPath root k = Inr q"
  shows "(\<exists>segs. q = root @ segs \<and> length segs = 8 \<and> (\<forall>seg \<in> set segs. seg \<notin> {'''', ''.'', ''..''}))
    \<and> (\<forall>k'. resolveObjectPath root k' = Inr q \<longrightarrow> k' = k)"
proof -
  have q: "valid_key k" "q = key_path root k" using resolve_Inr [OF assms] by auto
  then obtain p where p: "parseCacheObjectKey k = Inr p" by (auto simp: valid_key_def)
  have "length (js_split CHR ''/'' k) = 8" using q(1) by (rule valid_key_split) simp
  moreover have "k' = k" if "resolveObjectPath root k' = Inr q" for k'
    using resolve_Inr [OF that] q(2) by simp
  ultimately show ?thesis using q(2) parsed_path_segments [OF p] by (auto simp: key_path_def)
qed

theorem fs_path_contained_witness:
  "length (key_path [''srv''] (js_join CHR ''/'' (built_segments demo_key_params))) = 1 + 8"
proof -
  obtain segs where
    "key_path [''srv''] (js_join CHR ''/'' (built_segments demo_key_params)) = [''srv''] @ segs" "length segs = 8"
    using fs_path_contained [OF resolve_valid [OF demo_valid_key, of "[''srv'']"]] by blast
  then show ?thesis by simp
qed

end
