(* ===== verification/CacheStorage.thy ===== *)
theory CacheStorage
  imports CacheRepository ObjectStore
begin

section \<open>The cache storage service (src/services/cache-storage-service.ts)\<close>

text \<open>
  The service writes the object first and the metadata row second, and removes the object when
  the row's compare-and-swap is lost. Between two awaits any other writer may run, so the model
  has one function per stretch between awaits (\<open>commit_write\<close>, \<open>commit_update\<close>,
  \<open>commit_cleanup\<close>), the sequential composition the code has, and a step relation that interleaves
  any number of writers. The events of src/lib/cache-object-events.ts are logged in the state.
\<close>

subsection \<open>Options, inputs, errors and events\<close>

record storage_options =
  soSha :: "byte list \<Rightarrow> string"
  soZlib :: zlib
  soLimits :: cache_object_limits

record commit_input =
  cmIdentity :: cache_identity
  cmHtml :: html_text
  cmResponseStatus :: int
  cmExpectedGeneration :: int
  cmContentEncoding :: "cache_encoding option"
  cmPolicy :: "cache_policy option"
  cmNow :: time_ms

datatype integrity_reason =
  Missing_Object | Corrupt_Data | Hash_Mismatch | Size_Limit | Encoding_Mismatch | Malformed_Metadata

datatype storage_error =
    Html_Size_Limit_Exceeded
  | Stored_Object_Size_Limit_Exceeded
  | Invalid_Key_Input storage_key_error
  | Object_Store_Failed store_error
  | Invalid_Cache_Policy string
  | Repository_Failed cache_repo_error
  | Cache_Entry_Not_Ready
  | Cache_Integrity integrity_reason

datatype cache_object_event =
    Object_Write_Success | Object_Write_Failure | Object_Read_Success | Object_Read_Failure
  | Object_Integrity_Failure | Object_Cleanup_Failure | Metadata_Ready | Metadata_Failed

datatype log_level = Warn | Debug

record event_record =
  evEvent :: cache_object_event
  evFailure :: bool
  evErrorCode :: "string option"
  evGeneration :: "int option"
  evLevel :: log_level

text \<open>\<open>recordCacheObjectEvent\<close>: failures, integrity and cleanup events are warnings.\<close>

definition recordCacheObjectEvent :: "cache_object_event \<Rightarrow> bool \<Rightarrow> string option \<Rightarrow> int option \<Rightarrow> event_record" where
  "recordCacheObjectEvent e failed code g =
     \<lparr>evEvent = e, evFailure = failed, evErrorCode = code, evGeneration = g,
      evLevel = (if failed \<or> e = Object_Integrity_Failure \<or> e = Object_Cleanup_Failure then Warn else Debug)\<rparr>"

record 's cache_system =
  csObjects :: 's
  csTable :: "cache_entry list"
  csEvents :: "event_record list"

definition log_event :: "event_record \<Rightarrow> 's cache_system \<Rightarrow> 's cache_system" where
  "log_event e sys = sys\<lparr>csEvents := csEvents sys @ [e]\<rparr>"

fun object_error_name :: "object_storage_error_code \<Rightarrow> string" where
  "object_error_name Not_Found = ''not_found''"
| "object_error_name Already_Exists = ''already_exists''"
| "object_error_name Invalid_Key = ''invalid_key''"
| "object_error_name Size_Limit_Exceeded = ''size_limit_exceeded''"
| "object_error_name Provider_Error = ''provider_error''"

definition store_error_code :: "store_error \<Rightarrow> string" where
  "store_error_code e = (case e of Object_Storage_Error c \<Rightarrow> object_error_name c | _ \<Rightarrow> ''unknown'')"

subsection \<open>Identities and scopes\<close>

text \<open>The digest of a text is the digest of its UTF-8 bytes.\<close>

definition sha_text :: "storage_options \<Rightarrow> string \<Rightarrow> string" where
  "sha_text opts s = soSha opts (utf8_encode (map char_code s))"

definition storage_key_of :: "storage_options \<Rightarrow> cache_identity \<Rightarrow> cache_key" where
  "storage_key_of opts i = computeCacheKey (sha_text opts) i"

definition identityScope :: "cache_identity \<Rightarrow> cache_key \<Rightarrow> cache_scope" where
  "identityScope i key =
     \<lparr>scOrganizationId = ciOrganizationId i, scProjectId = ciProjectId i, scDomainId = ciDomainId i,
      scCacheKeyVersion = keyVersion key, scCacheKeyHash = keyHash key\<rparr>"

definition scope_of :: "storage_options \<Rightarrow> cache_identity \<Rightarrow> cache_scope" where
  "scope_of opts i = identityScope i (storage_key_of opts i)"

subsection \<open>commitRenderedHtml, up to the object write\<close>

record prepared_write =
  pwScope :: cache_scope
  pwEncoding :: cache_encoding
  pwContentHash :: string
  pwBody :: "byte list"
  pwGeneration :: int
  pwStorageKey :: string

definition write_params :: "storage_options \<Rightarrow> commit_input \<Rightarrow> build_key_params" where
  "write_params opts c =
     \<lparr>bpOrganizationId = ciOrganizationId (cmIdentity c), bpProjectId = ciProjectId (cmIdentity c),
      bpDomainId = ciDomainId (cmIdentity c), bpCacheKeyHash = keyHash (storage_key_of opts (cmIdentity c)),
      bpGeneration = cmExpectedGeneration c + 1,
      bpContentHash = computeHtmlContentHash (soSha opts) (cmHtml c),
      bpContentEncoding = Some (or_default (cmContentEncoding c) Br)\<rparr>"

definition prepare_write :: "storage_options \<Rightarrow> commit_input \<Rightarrow> storage_error + prepared_write" where
  "prepare_write opts c =
     (let encoding = or_default (cmContentEncoding c) Br
      in if int (length (utf8_encode (cmHtml c))) > maxUncompressedHtmlBytes (soLimits opts)
         then Inl Html_Size_Limit_Exceeded
         else let contentHash = computeHtmlContentHash (soSha opts) (cmHtml c);
                  compressed = compressHtml (soZlib opts) (cmHtml c) encoding
              in if int (length compressed) > maxStoredObjectBytes (soLimits opts)
                 then Inl Stored_Object_Size_Limit_Exceeded
                 else case buildCacheObjectKey (write_params opts c) of
                   Inl e \<Rightarrow> Inl (Invalid_Key_Input e)
                 | Inr storageKey \<Rightarrow>
                     Inr \<lparr>pwScope = scope_of opts (cmIdentity c), pwEncoding = encoding,
                          pwContentHash = contentHash, pwBody = compressed,
                          pwGeneration = cmExpectedGeneration c + 1, pwStorageKey = storageKey\<rparr>)"

definition write_object_input :: "prepared_write \<Rightarrow> put_object_input" where
  "write_object_input w =
     \<lparr>putStorageKey = pwStorageKey w, putBody = pwBody w, putContentEncoding = pwEncoding w,
      putIfNotExists = False\<rparr>"

text \<open>The store's operations are arguments: the object store the service is created with.\<close>

definition commit_write ::
  "('s \<Rightarrow> 'f \<Rightarrow> put_object_input \<Rightarrow> (store_error + html_object_metadata) \<times> 's) \<Rightarrow> storage_options
     \<Rightarrow> 's cache_system \<Rightarrow> 'f \<Rightarrow> commit_input \<Rightarrow> (storage_error + prepared_write) \<times> 's cache_system" where
  "commit_write put opts sys f c =
     (case prepare_write opts c of
        Inl e \<Rightarrow> (Inl e, sys)
      | Inr w \<Rightarrow>
          (let (r, objs) = put (csObjects sys) f (write_object_input w);
               sys1 = sys\<lparr>csObjects := objs\<rparr>
           in case r of
                Inl e \<Rightarrow>
                  (Inl (Object_Store_Failed e),
                   log_event (recordCacheObjectEvent Object_Write_Failure True (Some (store_error_code e))
                     (Some (pwGeneration w))) sys1)
              | Inr m \<Rightarrow>
                  (Inr w, log_event (recordCacheObjectEvent Object_Write_Success False None
                     (Some (pwGeneration w))) sys1)))"

subsection \<open>The metadata update and the cleanup\<close>

definition ready_input :: "commit_input \<Rightarrow> prepared_write \<Rightarrow> freshness_window \<Rightarrow> update_ready_input" where
  "ready_input c w win =
     \<lparr>urScope = pwScope w, urStorageKey = pwStorageKey w, urContentHash = pwContentHash w,
      urContentEncoding = encoding_name (pwEncoding w), urContentBytes = int (length (pwBody w)),
      urResponseStatus = cmResponseStatus c, urRenderedAt = cmNow c, urFreshUntil = freshUntil win,
      urStaleUntil = staleUntil win, urExpectedGeneration = cmExpectedGeneration c, urNow = cmNow c\<rparr>"

text \<open>\<open>Inr None\<close>: the compare-and-swap was lost and the object is to be removed.\<close>

definition commit_update ::
  "'s cache_system \<Rightarrow> commit_input \<Rightarrow> prepared_write \<Rightarrow> (storage_error + cache_entry option) \<times> 's cache_system" where
  "commit_update sys c w =
     (case computeFreshnessWindow (or_default (cmPolicy c) DEFAULT_CACHE_POLICY) (cmNow c) of
        Inl e \<Rightarrow> (Inl (Invalid_Cache_Policy e), sys)
      | Inr win \<Rightarrow>
          (let (r, t) = updateReadyCacheEntry (csTable sys) (ready_input c w win);
               sys1 = sys\<lparr>csTable := t\<rparr>
           in case r of
                Inl e \<Rightarrow> (Inl (Repository_Failed e), sys1)
              | Inr None \<Rightarrow> (Inr None, sys1)
              | Inr (Some row) \<Rightarrow>
                  (Inr (Some row),
                   log_event (recordCacheObjectEvent Metadata_Ready False None (Some (ceGeneration row))) sys1)))"

definition bestEffortCleanup ::
  "('s \<Rightarrow> 'f \<Rightarrow> string \<Rightarrow> (store_error + unit) \<times> 's) \<Rightarrow> 's cache_system \<Rightarrow> 'f \<Rightarrow> prepared_write \<Rightarrow> 's cache_system" where
  "bestEffortCleanup remove sys f w =
     (let (r, objs) = remove (csObjects sys) f (pwStorageKey w);
          sys1 = sys\<lparr>csObjects := objs\<rparr>
      in case r of
           Inr _ \<Rightarrow> sys1
         | Inl e \<Rightarrow> log_event (recordCacheObjectEvent Object_Cleanup_Failure True (Some (store_error_code e))
                     (Some (pwGeneration w))) sys1)"

definition commit_cleanup ::
  "('s \<Rightarrow> 'f \<Rightarrow> string \<Rightarrow> (store_error + unit) \<times> 's) \<Rightarrow> 's cache_system \<Rightarrow> 'f \<Rightarrow> prepared_write \<Rightarrow> 's cache_system" where
  "commit_cleanup remove sys f w =
     log_event (recordCacheObjectEvent Metadata_Failed True (Some ''generation_conflict'') (Some (pwGeneration w)))
       (bestEffortCleanup remove sys f w)"

datatype commit_outcome = Commit_Success cache_entry | Commit_Conflict

definition commitRenderedHtml ::
  "('s \<Rightarrow> 'f \<Rightarrow> put_object_input \<Rightarrow> (store_error + html_object_metadata) \<times> 's)
     \<Rightarrow> ('s \<Rightarrow> 'f \<Rightarrow> string \<Rightarrow> (store_error + unit) \<times> 's) \<Rightarrow> storage_options
     \<Rightarrow> 's cache_system \<Rightarrow> 'f \<Rightarrow> commit_input \<Rightarrow> (storage_error + commit_outcome) \<times> 's cache_system" where
  "commitRenderedHtml put remove opts sys f c =
     (case commit_write put opts sys f c of
        (Inl e, sys1) \<Rightarrow> (Inl e, sys1)
      | (Inr w, sys1) \<Rightarrow>
          (case commit_update sys1 c w of
             (Inl e, sys2) \<Rightarrow> (Inl e, sys2)
           | (Inr (Some row), sys2) \<Rightarrow> (Inr (Commit_Success row), sys2)
           | (Inr None, sys2) \<Rightarrow> (Inr Commit_Conflict, commit_cleanup remove sys2 f w)))"

subsection \<open>markRenderFailed and invalidateEntry\<close>

definition markRenderFailed ::
  "storage_options \<Rightarrow> 's cache_system \<Rightarrow> cache_identity \<Rightarrow> int \<Rightarrow> string \<Rightarrow> time_ms
     \<Rightarrow> (storage_error + cache_entry option) \<times> 's cache_system" where
  "markRenderFailed opts sys i g code now =
     (let (r, t) = updateFailedCacheEntry (csTable sys)
            \<lparr>ufScope = scope_of opts i, ufLastErrorCode = code, ufExpectedGeneration = g, ufNow = now\<rparr>;
          sys1 = sys\<lparr>csTable := t\<rparr>
      in case r of
           Inl e \<Rightarrow> (Inl (Repository_Failed e), sys1)
         | Inr row \<Rightarrow>
             (Inr row, log_event (recordCacheObjectEvent Metadata_Failed (row = None)
                (Some (if row = None then ''generation_conflict'' else code)) None) sys1))"

definition invalidateEntry ::
  "storage_options \<Rightarrow> 's cache_system \<Rightarrow> cache_identity \<Rightarrow> time_ms
     \<Rightarrow> (storage_error + cache_entry option) \<times> 's cache_system" where
  "invalidateEntry opts sys i now =
     (let (r, t) = invalidateCacheEntry (csTable sys) \<lparr>ivScope = scope_of opts i, ivNow = now\<rparr>;
          sys1 = sys\<lparr>csTable := t\<rparr>
      in case r of Inl e \<Rightarrow> (Inl (Repository_Failed e), sys1) | Inr row \<Rightarrow> (Inr row, sys1))"

subsection \<open>readReadyHtml\<close>

definition filled :: "string option \<Rightarrow> bool" where
  "filled v \<longleftrightarrow> (case v of None \<Rightarrow> False | Some s \<Rightarrow> s \<noteq> [])"

definition metadata_complete :: "cache_entry \<Rightarrow> bool" where
  "metadata_complete r \<longleftrightarrow> filled (ceStorageKey r) \<and> filled (ceContentHash r) \<and> filled (ceContentEncoding r)
     \<and> ceContentBytes r \<noteq> None \<and> 1 \<le> ceGeneration r"

text \<open>The checks on the row, before the object is touched: its key, hash and encoding.\<close>

definition checked_metadata ::
  "storage_options \<Rightarrow> cache_identity \<Rightarrow> cache_entry \<Rightarrow> storage_error + string \<times> string \<times> cache_encoding" where
  "checked_metadata opts i r =
     (if \<not> metadata_complete r then Inl (Cache_Integrity Malformed_Metadata)
      else let k = the (ceStorageKey r); h = the (ceContentHash r); e = the (ceContentEncoding r)
           in if \<not> isValidContentHash h then Inl (Cache_Integrity Malformed_Metadata)
              else case parseCacheObjectKey k of
                Inl _ \<Rightarrow> Inl (Cache_Integrity Malformed_Metadata)
              | Inr p \<Rightarrow>
                  (case assertCacheObjectKeyMatches k (keyHash (storage_key_of opts i)) (ceGeneration r) h e of
                     Inl _ \<Rightarrow> Inl (Cache_Integrity Malformed_Metadata)
                   | Inr _ \<Rightarrow>
                       (if encoding_name (ckContentEncoding p) \<noteq> e then Inl (Cache_Integrity Encoding_Mismatch)
                        else Inr (k, h, ckContentEncoding p))))"

definition checked_object ::
  "storage_options \<Rightarrow> string \<Rightarrow> cache_encoding \<Rightarrow> stored_html_object option \<Rightarrow> storage_error + html_text" where
  "checked_object opts h e stored =
     (case stored of
        None \<Rightarrow> Inl (Cache_Integrity Missing_Object)
      | Some ob \<Rightarrow>
          (if int (length (objBody ob)) > maxStoredObjectBytes (soLimits opts)
           then Inl (Cache_Integrity Size_Limit)
           else case decompressHtml (soZlib opts) (objBody ob) e (nat (maxDecompressedReadBytes (soLimits opts))) of
             Inl Decompressed_Size_Limit_Exceeded \<Rightarrow> Inl (Cache_Integrity Size_Limit)
           | Inl Corrupt_Compressed_Data \<Rightarrow> Inl (Cache_Integrity Corrupt_Data)
           | Inr html \<Rightarrow>
               (if contentHashesMatch (computeHtmlContentHash (soSha opts) html) h then Inr html
                else Inl (Cache_Integrity Hash_Mismatch))))"

definition readReadyHtml ::
  "('s \<Rightarrow> 'f \<Rightarrow> string \<Rightarrow> store_error + stored_html_object option) \<Rightarrow> storage_options
     \<Rightarrow> 's cache_system \<Rightarrow> 'f \<Rightarrow> cache_identity \<Rightarrow> storage_error + html_text \<times> cache_entry" where
  "readReadyHtml get opts sys f i =
     (case findCacheEntryByIdentity (csTable sys) (scope_of opts i) of
        None \<Rightarrow> Inl Cache_Entry_Not_Ready
      | Some r \<Rightarrow>
          (if ceStatus r \<noteq> Ready then Inl Cache_Entry_Not_Ready
           else and_then (checked_metadata opts i r) (\<lambda>(k, h, e).
             case get (csObjects sys) f k of
               Inl err \<Rightarrow> Inl (Object_Store_Failed err)
             | Inr stored \<Rightarrow> and_then (checked_object opts h e stored) (\<lambda>html. Inr (html, r)))))"

text \<open>
  The event of a read, logged beside its result; \<open>generation\<close> is that of the row that was found.
\<close>

definition read_event :: "int option \<Rightarrow> storage_error + html_text \<times> cache_entry \<Rightarrow> event_record list" where
  "read_event generation res =
     (case res of
        Inr (_, r) \<Rightarrow> [recordCacheObjectEvent Object_Read_Success False None (Some (ceGeneration r))]
      | Inl (Object_Store_Failed e) \<Rightarrow> [recordCacheObjectEvent Object_Read_Failure True (Some (store_error_code e)) generation]
      | Inl (Cache_Integrity reason) \<Rightarrow>
          [recordCacheObjectEvent Object_Integrity_Failure True
             (Some (case reason of Missing_Object \<Rightarrow> ''missing_object'' | Corrupt_Data \<Rightarrow> ''corrupt_data''
                | Hash_Mismatch \<Rightarrow> ''hash_mismatch'' | Size_Limit \<Rightarrow> ''size_limit_exceeded''
                | Encoding_Mismatch \<Rightarrow> ''encoding_mismatch'' | Malformed_Metadata \<Rightarrow> ''malformed_metadata'')) None]
      | Inl _ \<Rightarrow> [])"

subsection \<open>Interleaved writers\<close>

text \<open>
  A writer is between its object write and its row update (\<open>Wrote\<close>), or has lost and is about to
  clean up (\<open>Lost\<close>). A process may die at any point. The flag \<open>guarded\<close> says that a commit only
  starts when its storage key is neither held by another writer in progress nor referenced by a
  ready row; the code itself has no such guard.
\<close>

datatype writer_phase = Wrote prepared_write | Lost prepared_write

fun phase_write :: "writer_phase \<Rightarrow> prepared_write" where
  "phase_write (Wrote w) = w"
| "phase_write (Lost w) = w"

record 's cache_world =
  cwSystem :: "'s cache_system"
  cwWriters :: "nat \<rightharpoonup> commit_input \<times> writer_phase"

definition ready_keys :: "cache_entry list \<Rightarrow> string set" where
  "ready_keys t = {k. \<exists>r \<in> set t. ceStatus r = Ready \<and> ceStorageKey r = Some k}"

definition pending_keys :: "(nat \<rightharpoonup> commit_input \<times> writer_phase) \<Rightarrow> string set" where
  "pending_keys ws = {pwStorageKey (phase_write ph) | n c ph. ws n = Some (c, ph)}"

text \<open>Unicode text, and a generation that JavaScript represents exactly.\<close>

definition commit_input_ok :: "commit_input \<Rightarrow> bool" where
  "commit_input_ok c \<longleftrightarrow> list_all scalar_value (cmHtml c) \<and> cmExpectedGeneration c + 1 < 2 ^ 53"

inductive storage_step ::
  "('s \<Rightarrow> 'f \<Rightarrow> put_object_input \<Rightarrow> (store_error + html_object_metadata) \<times> 's)
    \<Rightarrow> ('s \<Rightarrow> 'f \<Rightarrow> string \<Rightarrow> (store_error + unit) \<times> 's)
    \<Rightarrow> storage_options \<Rightarrow> bool \<Rightarrow> 's cache_world \<Rightarrow> 's cache_world \<Rightarrow> bool"
  for put remove opts guarded where
  begin_commit: "cwWriters w n = None \<Longrightarrow> commit_input_ok c
    \<Longrightarrow> commit_write put opts (cwSystem w) f c = (Inr p, sys')
    \<Longrightarrow> (guarded \<Longrightarrow> pwStorageKey p \<notin> ready_keys (csTable (cwSystem w)) \<union> pending_keys (cwWriters w))
    \<Longrightarrow> storage_step put remove opts guarded w
          (w\<lparr>cwSystem := sys', cwWriters := (cwWriters w)(n \<mapsto> (c, Wrote p))\<rparr>)"
| begin_fails: "commit_input_ok c \<Longrightarrow> commit_write put opts (cwSystem w) f c = (Inl e, sys')
    \<Longrightarrow> storage_step put remove opts guarded w (w\<lparr>cwSystem := sys'\<rparr>)"
| update_row: "cwWriters w n = Some (c, Wrote p) \<Longrightarrow> commit_update (cwSystem w) c p = (r, sys')
    \<Longrightarrow> storage_step put remove opts guarded w
          (w\<lparr>cwSystem := sys',
             cwWriters := (cwWriters w)(n := (if r = Inr None then Some (c, Lost p) else None))\<rparr>)"
| clean_up: "cwWriters w n = Some (c, Lost p)
    \<Longrightarrow> storage_step put remove opts guarded w
          (w\<lparr>cwSystem := commit_cleanup remove (cwSystem w) f p, cwWriters := (cwWriters w)(n := None)\<rparr>)"
| crash: "storage_step put remove opts guarded w (w\<lparr>cwWriters := (cwWriters w)(n := None)\<rparr>)"
| mark_failed: "markRenderFailed opts (cwSystem w) i g code now = (r, sys')
    \<Longrightarrow> storage_step put remove opts guarded w (w\<lparr>cwSystem := sys'\<rparr>)"
| invalidate: "invalidateEntry opts (cwSystem w) i now = (r, sys')
    \<Longrightarrow> storage_step put remove opts guarded w (w\<lparr>cwSystem := sys'\<rparr>)"
| create_pending: "storage_step put remove opts guarded w
    (w\<lparr>cwSystem := (cwSystem w)\<lparr>csTable := snd (createPendingCacheEntry (csTable (cwSystem w)) uid fk cp)\<rparr>\<rparr>)"

inductive_cases storage_stepE: "storage_step put remove opts guarded w w'"

subsection \<open>What is known of a prepared write\<close>

lemma log_event_simps [simp]:
  "csObjects (log_event e s) = csObjects s" "csTable (log_event e s) = csTable s"
  by (simp_all add: log_event_def)

definition write_facts :: "storage_options \<Rightarrow> commit_input \<Rightarrow> prepared_write \<Rightarrow> bool" where
  "write_facts opts c w \<longleftrightarrow>
     parseCacheObjectKey (pwStorageKey w) =
       Inr \<lparr>ckOrganizationId = ciOrganizationId (cmIdentity c), ckProjectId = ciProjectId (cmIdentity c),
            ckDomainId = ciDomainId (cmIdentity c), ckCacheKeyHash = keyHash (storage_key_of opts (cmIdentity c)),
            ckGeneration = cmExpectedGeneration c + 1, ckContentHash = pwContentHash w,
            ckContentEncoding = pwEncoding w\<rparr>
   \<and> pwContentHash w = computeHtmlContentHash (soSha opts) (cmHtml c)
   \<and> pwBody w = compressHtml (soZlib opts) (cmHtml c) (pwEncoding w)
   \<and> pwScope w = scope_of opts (cmIdentity c) \<and> pwGeneration w = cmExpectedGeneration c + 1
   \<and> int (length (utf8_encode (cmHtml c))) \<le> maxUncompressedHtmlBytes (soLimits opts)
   \<and> int (length (pwBody w)) \<le> maxStoredObjectBytes (soLimits opts)"

lemma prepare_write_facts:
  assumes "prepare_write opts c = Inr w" "commit_input_ok c"
  shows "write_facts opts c w"
proof -
  from assms(1) have b: "buildCacheObjectKey (write_params opts c) = Inr (pwStorageKey w)"
    and w: "pwEncoding w = or_default (cmContentEncoding c) Br"
      "pwContentHash w = computeHtmlContentHash (soSha opts) (cmHtml c)"
      "pwBody w = compressHtml (soZlib opts) (cmHtml c) (pwEncoding w)"
      "pwScope w = scope_of opts (cmIdentity c)" "pwGeneration w = cmExpectedGeneration c + 1"
      "int (length (utf8_encode (cmHtml c))) \<le> maxUncompressedHtmlBytes (soLimits opts)"
      "int (length (pwBody w)) \<le> maxStoredObjectBytes (soLimits opts)"
    by (auto simp: prepare_write_def Let_def split: if_splits sum.splits)
  have "bpGeneration (write_params opts c) < 2 ^ 53"
    using assms(2) by (simp add: write_params_def commit_input_ok_def)
  with b have "parseCacheObjectKey (pwStorageKey w) = Inr (parsed_of (write_params opts c))"
    by (auto simp: buildCacheObjectKey_iff intro: parse_built)
  with w show ?thesis by (simp add: write_facts_def parsed_of_def write_params_def)
qed

lemma write_facts_valid: "write_facts opts c w \<Longrightarrow> valid_key (pwStorageKey w)"
  by (auto simp: write_facts_def valid_key_def)

text \<open>An object is sound when it is the compressed form of a page with the hash its key names.\<close>

definition object_sound :: "storage_options \<Rightarrow> string \<Rightarrow> byte list \<Rightarrow> bool" where
  "object_sound opts k b \<longleftrightarrow>
     (\<exists>p html. parseCacheObjectKey k = Inr p \<and> list_all scalar_value html
        \<and> ckContentHash p = computeHtmlContentHash (soSha opts) html
        \<and> b = compressHtml (soZlib opts) html (ckContentEncoding p)
        \<and> int (length (utf8_encode html)) \<le> maxUncompressedHtmlBytes (soLimits opts)
        \<and> int (length b) \<le> maxStoredObjectBytes (soLimits opts))"

lemma write_facts_sound:
  "write_facts opts c w \<Longrightarrow> commit_input_ok c \<Longrightarrow> object_sound opts (pwStorageKey w) (pwBody w)"
  by (auto simp: object_sound_def write_facts_def commit_input_ok_def)

text \<open>A ready row agrees with its key and its object is there.\<close>

definition row_sound :: "(string \<Rightarrow> byte list option) \<Rightarrow> cache_entry \<Rightarrow> bool" where
  "row_sound lookup r \<longleftrightarrow>
     (ceStatus r = Ready \<longrightarrow>
       (\<exists>k p b. ceStorageKey r = Some k \<and> parseCacheObjectKey k = Inr p \<and> lookup k = Some b
          \<and> ceContentHash r = Some (ckContentHash p)
          \<and> ceContentEncoding r = Some (encoding_name (ckContentEncoding p))
          \<and> ceContentBytes r \<noteq> None \<and> ceGeneration r = ckGeneration p
          \<and> ceCacheKeyHash r = ckCacheKeyHash p))"

lemma row_sound_weaken:
  assumes "row_sound look r" "\<And>k b. ceStatus r = Ready \<Longrightarrow> ceStorageKey r = Some k \<Longrightarrow> look k = Some b \<Longrightarrow> look' k = Some b"
  shows "row_sound look' r"
  unfolding row_sound_def using assms(1) [unfolded row_sound_def] assms(2) by blast

text \<open>A row that agrees with its key passes the checks, for any identity that finds it.\<close>

lemma checked_metadata_agrees:
  assumes "findCacheEntryByIdentity (csTable sys) (scope_of opts i) = Some r"
    and r: "ceStorageKey r = Some k" "parseCacheObjectKey k = Inr p" "ceContentHash r = Some (ckContentHash p)"
    "ceContentEncoding r = Some (encoding_name (ckContentEncoding p))" "ceContentBytes r \<noteq> None"
    "ceGeneration r = ckGeneration p" "ceCacheKeyHash r = ckCacheKeyHash p"
  shows "checked_metadata opts i r = Inr (k, ckContentHash p, ckContentEncoding p)"
proof -
  have wf: "well_formed_key p" using r(2) by (rule parse_Inr)
  have hex: "HEX64_RE (ckContentHash p)" using wf by (simp add: well_formed_key_def)
  have kne: "k \<noteq> []"
  proof
    assume "k = []"
    then have "[] \<in> set (js_split CHR ''/'' k)" by simp
    with parsed_path_segments [OF r(2)] show False by blast
  qed
  have hash: "keyHash (storage_key_of opts i) = ckCacheKeyHash p"
  proof -
    have "row_scope r = scope_of opts i"
      using row_at_SomeD [of row_scope "csTable sys" "scope_of opts i" r] assms(1) by (simp add: find_row_at)
    from arg_cong [OF this, of scCacheKeyHash] r(7) show ?thesis
      by (simp add: scope_of_def identityScope_def row_scope_def)
  qed
  have complete: "metadata_complete r"
    using r wf kne by (cases "ckContentEncoding p") (auto simp: metadata_complete_def filled_def well_formed_key_def HEX64_RE_def)
  show ?thesis
    using complete r hash hex
    by (simp add: checked_metadata_def isValidContentHash_def assertCacheObjectKeyMatches_def)
qed

lemma read_sound_row:
  assumes "hex_digest (soSha opts)" "zlib_ok (soZlib opts)"
    and "maxUncompressedHtmlBytes (soLimits opts) \<le> maxDecompressedReadBytes (soLimits opts)"
    and "findCacheEntryByIdentity (csTable sys) (scope_of opts i) = Some r" "ceStatus r = Ready"
    and "row_sound look r" "\<And>k b. look k = Some b \<Longrightarrow> object_sound opts k b"
    and "\<And>k p x. parseCacheObjectKey k = Inr p \<Longrightarrow> get (csObjects sys) f k = Inr x \<Longrightarrow> map_option objBody x = look k"
  shows "(\<exists>html. readReadyHtml get opts sys f i = Inr (html, r)
        \<and> ceContentHash r = Some (computeHtmlContentHash (soSha opts) html))
    \<or> (\<exists>e. readReadyHtml get opts sys f i = Inl (Object_Store_Failed e))"
proof -
  from assms(5,6) obtain k p b where r: "ceStorageKey r = Some k" "parseCacheObjectKey k = Inr p"
    "look k = Some b" "ceContentHash r = Some (ckContentHash p)"
    "ceContentEncoding r = Some (encoding_name (ckContentEncoding p))" "ceContentBytes r \<noteq> None"
    "ceGeneration r = ckGeneration p" "ceCacheKeyHash r = ckCacheKeyHash p"
    by (auto simp: row_sound_def)
  from assms(7) [OF r(3)] r(2) obtain html where h: "list_all scalar_value html"
    "ckContentHash p = computeHtmlContentHash (soSha opts) html"
    "b = compressHtml (soZlib opts) html (ckContentEncoding p)"
    "int (length (utf8_encode html)) \<le> maxUncompressedHtmlBytes (soLimits opts)"
    "int (length b) \<le> maxStoredObjectBytes (soLimits opts)"
    by (auto simp: object_sound_def)
  have hex: "HEX64_RE (ckContentHash p)" using r(2) by (rule parse_Inr) (simp add: well_formed_key_def)
  have meta: "checked_metadata opts i r = Inr (k, ckContentHash p, ckContentEncoding p)"
    using assms(4) r by (intro checked_metadata_agrees) auto
  show ?thesis
  proof (cases "get (csObjects sys) f k")
    case (Inl e)
    with assms(4,5) meta show ?thesis by (auto simp: readReadyHtml_def)
  next
    case (Inr x)
    from assms(8) [OF r(2) Inr] r(3) obtain ob where ob: "x = Some ob" "objBody ob = b" by auto
    have "length (utf8_encode html) \<le> nat (maxDecompressedReadBytes (soLimits opts))"
      using h(4) assms(3) by linarith
    then have "checked_object opts (ckContentHash p) (ckContentEncoding p) x = Inr html"
      using h ob hex decompress_compress [OF assms(2) h(1)]
      by (simp add: checked_object_def contentHashesMatch_def isValidContentHash_def)
    with assms(4,5) meta Inr h(2) r(4) show ?thesis by (auto simp: readReadyHtml_def)
  qed
qed

subsection \<open>How the table changes\<close>

lemma cache_update_rows:
  "r \<in> set (snd (cache_update P f t)) \<Longrightarrow> r \<in> set t \<or> (\<exists>r0 \<in> set t. P r0 \<and> r = f r0)"
  by (auto simp: cache_update_def update_where_def split: if_splits)

lemma ready_keys_update:
  assumes "\<And>r. P r \<Longrightarrow> ceStatus (f r) \<noteq> Ready"
  shows "ready_keys (snd (cache_update P f t)) \<subseteq> ready_keys t"
  using assms by (auto simp: ready_keys_def dest!: cache_update_rows)

lemma create_pending_rows:
  "r \<in> set (snd (createPendingCacheEntry t uid fk cp)) \<Longrightarrow> r \<in> set t \<or> ceStatus r = Pending"
  by (auto simp: createPendingCacheEntry_def Let_def pending_row_def split: if_splits option.splits)

lemma input_simps [simp]:
  "urScope (ready_input c w win) = pwScope w"
  "urExpectedGeneration (ready_input c w win) = cmExpectedGeneration c"
  "putStorageKey (write_object_input w) = pwStorageKey w"
  "putBody (write_object_input w) = pwBody w"
  by (simp_all add: ready_input_def write_object_input_def)

lemma commit_update_table:
  assumes "commit_update sys c w = (r, sys')"
  shows "csObjects sys' = csObjects sys
    \<and> (cache_table_ok (csTable sys) \<longrightarrow> cache_table_ok (csTable sys'))
    \<and> (\<forall>x \<in> set (csTable sys'). x \<in> set (csTable sys) \<or>
        (\<exists>r0 win. r0 \<in> set (csTable sys) \<and> row_scope r0 = pwScope w \<and> ceGeneration r0 = cmExpectedGeneration c
           \<and> x = set_ready (ready_input c w win) r0 \<and> r \<noteq> Inr None))"
proof (cases "computeFreshnessWindow (or_default (cmPolicy c) DEFAULT_CACHE_POLICY) (cmNow c)")
  case (Inl e)
  with assms show ?thesis by (auto simp: commit_update_def)
next
  case (Inr win)
  obtain q t where q: "updateReadyCacheEntry (csTable sys) (ready_input c w win) = (q, t)" by fastforce
  have rows: "x \<in> set (csTable sys) \<or> (\<exists>r0 \<in> set (csTable sys). row_scope r0 = pwScope w
      \<and> ceGeneration r0 = cmExpectedGeneration c \<and> x = set_ready (ready_input c w win) r0)"
    if "x \<in> set t" for x
  proof -
    have "x \<in> set (snd (cache_update (\<lambda>r. identityWhere (pwScope w) r \<and> ceGeneration r = cmExpectedGeneration c)
        (set_ready (ready_input c w win)) (csTable sys)))"
      using that q by (simp add: updateReadyCacheEntry_def)
    from cache_update_rows [OF this] show ?thesis by (auto simp: identityWhere_def)
  qed
  have ok: "cache_table_ok t" if "cache_table_ok (csTable sys)"
    using cache_update_ok [OF that, of "set_ready (ready_input c w win)"] q
    by (metis set_scope(1) snd_conv updateReadyCacheEntry_def)
  have lost: "t = csTable sys" if "q = Inr None"
  proof -
    have "\<not> fst (changed_row (updateReadyCacheEntry (csTable sys) (ready_input c w win)))"
      using that q by (simp add: changed_row_def)
    then show ?thesis
      using q cache_update_loses unfolding updateReadyCacheEntry_def by fastforce
  qed
  from assms Inr q have "csTable sys' = t" "csObjects sys' = csObjects sys" "r = Inr None \<longleftrightarrow> q = Inr None"
    by (auto simp: commit_update_def Let_def split: sum.splits option.splits)
  with rows ok lost show ?thesis by auto
qed

lemma set_ready_row_sound:
  assumes "write_facts opts c w" "look (pwStorageKey w) = Some b" "row_scope r0 = pwScope w"
    "ceGeneration r0 = cmExpectedGeneration c"
  shows "row_sound look (set_ready (ready_input c w win) r0)"
proof -
  have "ceCacheKeyHash r0 = keyHash (storage_key_of opts (cmIdentity c))"
    using arg_cong [OF assms(3), of scCacheKeyHash] assms(1)
    by (simp add: write_facts_def row_scope_def scope_of_def identityScope_def)
  with assms show ?thesis
    by (simp add: row_sound_def set_ready_def ready_input_def write_facts_def)
qed

subsection \<open>The invariant\<close>

definition writers_ok ::
  "(string \<Rightarrow> byte list option) \<Rightarrow> storage_options \<Rightarrow> cache_entry list \<Rightarrow> (nat \<rightharpoonup> commit_input \<times> writer_phase) \<Rightarrow> bool" where
  "writers_ok look opts t ws \<longleftrightarrow>
     (\<forall>n c ph. ws n = Some (c, ph) \<longrightarrow> write_facts opts c (phase_write ph) \<and> commit_input_ok c
        \<and> pwStorageKey (phase_write ph) \<notin> ready_keys t
        \<and> (\<forall>w. ph = Wrote w \<longrightarrow> look (pwStorageKey w) \<noteq> None))
   \<and> (\<forall>n m c d ph qh. ws n = Some (c, ph) \<longrightarrow> ws m = Some (d, qh)
        \<longrightarrow> pwStorageKey (phase_write ph) = pwStorageKey (phase_write qh) \<longrightarrow> n = m)"

lemma writers_ok_drop: "writers_ok look opts t ws \<Longrightarrow> writers_ok look opts t (ws(n := None))"
  unfolding writers_ok_def fun_upd_apply by (simp split: if_splits)

lemma writers_ok_table: "writers_ok look opts t ws \<Longrightarrow> ready_keys t' \<subseteq> ready_keys t \<Longrightarrow> writers_ok look opts t' ws"
  unfolding writers_ok_def by blast

lemma writers_okD:
  assumes "writers_ok look opts t ws" "ws n = Some (c, ph)"
  shows "write_facts opts c (phase_write ph)" "commit_input_ok c"
    "pwStorageKey (phase_write ph) \<notin> ready_keys t"
    "ph = Wrote w \<Longrightarrow> look (pwStorageKey w) \<noteq> None"
  using assms unfolding writers_ok_def by blast+

lemma writers_ok_distinct:
  "writers_ok look opts t ws \<Longrightarrow> ws n = Some (c, ph) \<Longrightarrow> ws m = Some (d, qh)
   \<Longrightarrow> pwStorageKey (phase_write ph) = pwStorageKey (phase_write qh) \<Longrightarrow> n = m"
  unfolding writers_ok_def by blast

lemma writers_okI:
  assumes "\<And>n c ph. ws n = Some (c, ph) \<Longrightarrow> write_facts opts c (phase_write ph) \<and> commit_input_ok c
      \<and> pwStorageKey (phase_write ph) \<notin> ready_keys t \<and> (\<forall>w. ph = Wrote w \<longrightarrow> look (pwStorageKey w) \<noteq> None)"
    and "\<And>n m c d ph qh. ws n = Some (c, ph) \<Longrightarrow> ws m = Some (d, qh)
      \<Longrightarrow> pwStorageKey (phase_write ph) = pwStorageKey (phase_write qh) \<Longrightarrow> n = m"
  shows "writers_ok look opts t ws"
  using assms unfolding writers_ok_def by blast

lemma writers_ok_lose:
  assumes "writers_ok look opts t ws" "ws n = Some (c, Wrote w)"
  shows "writers_ok look opts t (ws(n \<mapsto> (c, Lost w)))"
proof (rule writers_okI)
  have old: "\<exists>qh. ws m = Some (d, qh) \<and> phase_write qh = phase_write ph \<and> (\<forall>v. ph = Wrote v \<longrightarrow> qh = Wrote v)"
    if "(ws(n \<mapsto> (c, Lost w))) m = Some (d, ph)" for m d ph
    using that assms(2) by (auto split: if_splits)
  show "write_facts opts d (phase_write ph) \<and> commit_input_ok d \<and> pwStorageKey (phase_write ph) \<notin> ready_keys t
      \<and> (\<forall>v. ph = Wrote v \<longrightarrow> look (pwStorageKey v) \<noteq> None)"
    if "(ws(n \<mapsto> (c, Lost w))) m = Some (d, ph)" for m d ph
    using old [OF that] writers_okD [OF assms(1)] by fastforce
  show "m = l" if "(ws(n \<mapsto> (c, Lost w))) m = Some (d, ph)" "(ws(n \<mapsto> (c, Lost w))) l = Some (e, qh)"
    "pwStorageKey (phase_write ph) = pwStorageKey (phase_write qh)" for m l d e ph qh
    using old [OF that(1)] old [OF that(2)] that(3) writers_ok_distinct [OF assms(1)] by metis
qed

lemma pending_keysI: "ws n = Some (c, ph) \<Longrightarrow> pwStorageKey (phase_write ph) \<in> pending_keys ws"
  unfolding pending_keys_def by blast

lemma writers_ok_look:
  assumes "writers_ok look opts t ws"
    and "\<And>k b. valid_key k \<Longrightarrow> k \<in> pending_keys ws \<Longrightarrow> look k = Some b \<Longrightarrow> look' k \<noteq> None"
  shows "writers_ok look' opts t ws"
proof (rule writers_okI)
  fix n c ph
  assume n: "ws n = Some (c, ph)"
  note D = writers_okD [OF assms(1) n]
  have "look' (pwStorageKey w) \<noteq> None" if "ph = Wrote w" for w
    using D(1) D(4) [OF that] assms(2) [of "pwStorageKey w"] pending_keysI [of ws n c ph, OF n] write_facts_valid that by auto
  with D(1-3) show "write_facts opts c (phase_write ph) \<and> commit_input_ok c
      \<and> pwStorageKey (phase_write ph) \<notin> ready_keys t \<and> (\<forall>w. ph = Wrote w \<longrightarrow> look' (pwStorageKey w) \<noteq> None)"
    by blast
qed (rule writers_ok_distinct [OF assms(1)])

lemma writers_ok_add:
  assumes "writers_ok look opts t ws" "write_facts opts c w" "commit_input_ok c"
    "pwStorageKey w \<notin> ready_keys t \<union> pending_keys ws" "look (pwStorageKey w) \<noteq> None"
  shows "writers_ok look opts t (ws(n \<mapsto> (c, Wrote w)))"
proof (rule writers_okI)
  have other: "pwStorageKey (phase_write qh) \<noteq> pwStorageKey w" if "ws m = Some (d, qh)" for m d qh
    using assms(4) pending_keysI [of ws m d qh, OF that] by auto
  show "write_facts opts d (phase_write ph) \<and> commit_input_ok d \<and> pwStorageKey (phase_write ph) \<notin> ready_keys t
      \<and> (\<forall>v. ph = Wrote v \<longrightarrow> look (pwStorageKey v) \<noteq> None)"
    if m: "(ws(n \<mapsto> (c, Wrote w))) m = Some (d, ph)" for m d ph
  proof (cases "m = n")
    case True
    with m assms(2-5) show ?thesis by auto
  next
    case False
    with m have "ws m = Some (d, ph)" by simp
    from writers_okD [OF assms(1) this] show ?thesis by blast
  qed
  show "m = l" if "(ws(n \<mapsto> (c, Wrote w))) m = Some (d, ph)" "(ws(n \<mapsto> (c, Wrote w))) l = Some (e, qh)"
    "pwStorageKey (phase_write ph) = pwStorageKey (phase_write qh)" for m l d e ph qh
    using that other [of l e qh] other [of m d ph] writers_ok_distinct [OF assms(1)]
    by (auto split: if_splits)
qed

context readable_store
begin

definition storage_inv :: "storage_options \<Rightarrow> 'a cache_world \<Rightarrow> bool" where
  "storage_inv opts w \<longleftrightarrow>
     ok (csObjects (cwSystem w)) \<and> cache_table_ok (csTable (cwSystem w))
   \<and> (\<forall>k b. valid_key k \<longrightarrow> body (csObjects (cwSystem w)) k = Some b \<longrightarrow> object_sound opts k b)
   \<and> writers_ok (body (csObjects (cwSystem w))) opts (csTable (cwSystem w)) (cwWriters w)
   \<and> (\<forall>r \<in> set (csTable (cwSystem w)). row_sound (body (csObjects (cwSystem w))) r)"

lemma commit_write_Inr:
  assumes "commit_write put opts sys f c = (Inr p, sys')" "ok (csObjects sys)"
  shows "prepare_write opts c = Inr p \<and> csTable sys' = csTable sys
    \<and> csObjects sys' = snd (put (csObjects sys) f (write_object_input p))
    \<and> (\<exists>m. fst (put (csObjects sys) f (write_object_input p)) = Inr m)"
  using assms(1) by (auto simp: commit_write_def Let_def split: sum.splits prod.splits)

lemma commit_write_Inl:
  assumes "commit_write put opts sys f c = (Inl e, sys')"
  shows "csTable sys' = csTable sys \<and> (csObjects sys' = csObjects sys
    \<or> (\<exists>p e'. csObjects sys' = snd (put (csObjects sys) f (write_object_input p))
        \<and> fst (put (csObjects sys) f (write_object_input p)) = Inl e'))"
proof (cases "prepare_write opts c")
  case (Inl e')
  with assms show ?thesis by (simp add: commit_write_def)
next
  case (Inr p)
  obtain r s' where p: "put (csObjects sys) f (write_object_input p) = (r, s')" by fastforce
  with assms Inr obtain e' where "r = Inl e'" "csTable sys' = csTable sys" "csObjects sys' = s'"
    by (cases r) (auto simp: commit_write_def Let_def)
  with p show ?thesis by (metis fst_conv snd_conv)
qed

lemma put_sound:
  assumes "ok s" "\<And>k b. valid_key k \<Longrightarrow> body s k = Some b \<Longrightarrow> object_sound opts k b"
    and "write_facts opts c p" "commit_input_ok c" "valid_key k"
    and "body (snd (put s f (write_object_input p))) k = Some b"
  shows "object_sound opts k b"
proof (cases "fst (put s f (write_object_input p))")
  case (Inl e)
  with assms put_failed [OF assms(1,5) Inl] show ?thesis by simp
next
  case (Inr m)
  show ?thesis
  proof (cases "k = pwStorageKey p")
    case True
    with True put_stored [OF assms(1) Inr] assms(6)
    have "b = (case body s k of None \<Rightarrow> pwBody p | Some x \<Rightarrow> x)" by (cases "body s k") auto
    with assms(2,5) True write_facts_sound [OF assms(3,4)] show ?thesis
      by (cases "body s k") auto
  next
    case False
    with put_frame [OF assms(1,5), of "write_object_input p" f] assms show ?thesis by simp
  qed
qed

end

context readable_store
begin

lemma row_sound_put:
  assumes "ok s" "row_sound (body s) r"
  shows "row_sound (body (snd (put s f i))) r"
  using assms(2)
proof (rule row_sound_weaken)
  fix k b
  assume r: "ceStatus r = Ready" "ceStorageKey r = Some k" "body s k = Some b"
  with assms(2) have "valid_key k" by (auto simp: row_sound_def valid_key_def)
  with assms(1) r show "body (snd (put s f i)) k = Some b" by (simp add: put_keeps)
qed

lemma row_sound_remove:
  assumes "ok s" "row_sound (body s) r" "ceStatus r = Ready \<Longrightarrow> ceStorageKey r \<noteq> Some k"
  shows "row_sound (body (snd (remove s f k))) r"
  using assms(2)
proof (rule row_sound_weaken)
  fix k' b
  assume r: "ceStatus r = Ready" "ceStorageKey r = Some k'" "body s k' = Some b"
  with assms(2) have "valid_key k'" by (auto simp: row_sound_def valid_key_def)
  with assms(1,3) r show "body (snd (remove s f k)) k' = Some b" by (auto simp: remove_frame)
qed

lemma remove_sound:
  assumes "ok s" "\<And>k b. valid_key k \<Longrightarrow> body s k = Some b \<Longrightarrow> object_sound opts k b" "valid_key k"
    "body (snd (remove s f k0)) k = Some b"
  shows "object_sound opts k b"
proof (cases "fst (remove s f k0)")
  case (Inl e)
  with assms remove_failed [OF assms(1) Inl] show ?thesis by simp
next
  case (Inr u)
  then have "k \<noteq> k0" using remove_gone [of s f k0] assms(1,3,4) by auto
  with assms remove_frame [OF assms(1,3)] show ?thesis by simp
qed

lemma inv_begin:
  assumes inv: "storage_inv opts w" and n: "cwWriters w n = None" and c: "commit_input_ok c"
    and cw: "commit_write put opts (cwSystem w) f c = (Inr p, sys')"
    and free: "pwStorageKey p \<notin> ready_keys (csTable (cwSystem w)) \<union> pending_keys (cwWriters w)"
  shows "storage_inv opts (w\<lparr>cwSystem := sys', cwWriters := (cwWriters w)(n \<mapsto> (c, Wrote p))\<rparr>)"
proof -
  let ?s = "csObjects (cwSystem w)"
  let ?s' = "snd (put ?s f (write_object_input p))"
  from inv have I: "ok ?s" "cache_table_ok (csTable (cwSystem w))"
    "\<And>k b. valid_key k \<Longrightarrow> body ?s k = Some b \<Longrightarrow> object_sound opts k b"
    "writers_ok (body ?s) opts (csTable (cwSystem w)) (cwWriters w)"
    "\<forall>r \<in> set (csTable (cwSystem w)). row_sound (body ?s) r"
    by (auto simp: storage_inv_def)
  from commit_write_Inr [OF cw I(1)] have P: "prepare_write opts c = Inr p"
    "csTable sys' = csTable (cwSystem w)" "csObjects sys' = ?s'"
    "\<exists>m. fst (put ?s f (write_object_input p)) = Inr m" by blast+
  have facts: "write_facts opts c p" using P(1) c by (rule prepare_write_facts)
  have stored: "body ?s' (pwStorageKey p) \<noteq> None"
    using P(4) put_stored [OF I(1), of f "write_object_input p"] by auto
  have "writers_ok (body ?s') opts (csTable (cwSystem w)) (cwWriters w)"
    using I(4) by (rule writers_ok_look) (simp add: put_keeps I(1))
  then have "writers_ok (body ?s') opts (csTable (cwSystem w)) ((cwWriters w)(n \<mapsto> (c, Wrote p)))"
    using facts c free stored by (rule writers_ok_add)
  moreover have "\<forall>k b. valid_key k \<longrightarrow> body ?s' k = Some b \<longrightarrow> object_sound opts k b"
    using put_sound [OF I(1,3) facts c] by blast
  ultimately show ?thesis
    using I P row_sound_put [OF I(1)] put_inv [OF I(1)] by (simp add: storage_inv_def)
qed

lemma inv_begin_fails:
  assumes inv: "storage_inv opts w" and c: "commit_input_ok c"
    and cw: "commit_write put opts (cwSystem w) f c = (Inl e, sys')"
  shows "storage_inv opts (w\<lparr>cwSystem := sys'\<rparr>)"
proof -
  let ?s = "csObjects (cwSystem w)"
  from inv have I: "ok ?s" by (simp add: storage_inv_def)
  note P = commit_write_Inl [OF cw]
  from P consider "csObjects sys' = ?s" | p e' where "csObjects sys' = snd (put ?s f (write_object_input p))"
    "fst (put ?s f (write_object_input p)) = Inl e'" by blast
  then have "ok (csObjects sys') \<and> (\<forall>k. valid_key k \<longrightarrow> body (csObjects sys') k = body ?s k)"
    by cases (auto simp: I put_inv put_failed)
  then have same: "ok (csObjects sys')" "\<And>k. valid_key k \<Longrightarrow> body (csObjects sys') k = body ?s k" by blast+
  have "row_sound (body (csObjects sys')) r" if "row_sound (body ?s) r" for r
    using that
  proof (rule row_sound_weaken)
    fix k b
    assume "ceStatus r = Ready" "ceStorageKey r = Some k" "body ?s k = Some b"
    with that have "valid_key k" by (auto simp: row_sound_def valid_key_def)
    with \<open>body ?s k = Some b\<close> show "body (csObjects sys') k = Some b" by (simp add: same)
  qed
  moreover have "writers_ok (body (csObjects sys')) opts (csTable (cwSystem w)) (cwWriters w)"
    by (rule writers_ok_look [of "body ?s"]) (use inv same in \<open>auto simp: storage_inv_def\<close>)
  ultimately show ?thesis
    using inv P same by (simp add: storage_inv_def)
qed

end

context readable_store
begin

lemma inv_table:
  assumes inv: "storage_inv opts w" and same: "csObjects sys' = csObjects (cwSystem w)"
    and t: "cache_table_ok (csTable sys')"
    and rows: "\<And>r. r \<in> set (csTable sys') \<Longrightarrow> r \<in> set (csTable (cwSystem w)) \<or> ceStatus r \<noteq> Ready"
  shows "storage_inv opts (w\<lparr>cwSystem := sys'\<rparr>)"
proof -
  have "ready_keys (csTable sys') \<subseteq> ready_keys (csTable (cwSystem w))"
    using rows by (auto simp: ready_keys_def)
  moreover have "\<forall>r \<in> set (csTable sys'). row_sound (body (csObjects (cwSystem w))) r"
  proof
    fix r
    assume "r \<in> set (csTable sys')"
    from rows [OF this] inv show "row_sound (body (csObjects (cwSystem w))) r"
      by (auto simp: storage_inv_def row_sound_def)
  qed
  ultimately show ?thesis
    using inv same t writers_ok_table by (auto simp: storage_inv_def)
qed

lemma inv_update:
  assumes inv: "storage_inv opts w" and n: "cwWriters w n = Some (c, Wrote p)"
    and u: "commit_update (cwSystem w) c p = (r, sys')"
  shows "storage_inv opts (w\<lparr>cwSystem := sys',
    cwWriters := (cwWriters w)(n := (if r = Inr None then Some (c, Lost p) else None))\<rparr>)"
proof -
  let ?s = "csObjects (cwSystem w)"
  let ?t = "csTable (cwSystem w)"
  from inv have W: "writers_ok (body ?s) opts ?t (cwWriters w)" and T: "cache_table_ok ?t"
    and R: "\<forall>r \<in> set ?t. row_sound (body ?s) r"
    by (auto simp: storage_inv_def)
  note U = commit_update_table [OF u]
  from writers_okD [OF W n] obtain b where facts: "write_facts opts c p" and b: "body ?s (pwStorageKey p) = Some b"
    by fastforce
  have "row_sound (body ?s) x" if "x \<in> set (csTable sys')" for x
    using U that R set_ready_row_sound [of opts c p "body ?s", OF facts b] by blast
  moreover have "writers_ok (body ?s) opts (csTable sys')
      ((cwWriters w)(n := (if r = Inr None then Some (c, Lost p) else None)))"
  proof (cases "r = Inr None")
    case True
    with U have "ready_keys (csTable sys') \<subseteq> ready_keys ?t" by (auto simp: ready_keys_def)
    from writers_ok_table [OF writers_ok_lose [OF W n] this] True show ?thesis by simp
  next
    case False
    have keys: "ready_keys (csTable sys') \<subseteq> insert (pwStorageKey p) (ready_keys ?t)"
      using U by (fastforce simp: ready_keys_def set_ready_def ready_input_def)
    have "writers_ok (body ?s) opts (csTable sys') ((cwWriters w)(n := None))"
    proof (rule writers_okI)
      fix m d ph
      assume m: "((cwWriters w)(n := None)) m = Some (d, ph)"
      then have m': "cwWriters w m = Some (d, ph)" "m \<noteq> n" by (auto split: if_splits)
      have "pwStorageKey (phase_write ph) \<noteq> pwStorageKey p"
        using writers_ok_distinct [OF W m'(1) n] m'(2) by auto
      with writers_okD [OF W m'(1)] keys
      show "write_facts opts d (phase_write ph) \<and> commit_input_ok d
          \<and> pwStorageKey (phase_write ph) \<notin> ready_keys (csTable sys')
          \<and> (\<forall>w. ph = Wrote w \<longrightarrow> body ?s (pwStorageKey w) \<noteq> None)" by blast
    next
      show "m = l" if "((cwWriters w)(n := None)) m = Some (d, ph)" "((cwWriters w)(n := None)) l = Some (e, qh)"
        "pwStorageKey (phase_write ph) = pwStorageKey (phase_write qh)" for m l d e ph qh
        using that writers_ok_distinct [OF W] by (auto split: if_splits)
    qed
    with False show ?thesis by simp
  qed
  ultimately show ?thesis using inv U by (simp add: storage_inv_def)
qed

lemma inv_cleanup:
  assumes inv: "storage_inv opts w" and n: "cwWriters w n = Some (c, Lost p)"
  shows "storage_inv opts (w\<lparr>cwSystem := commit_cleanup remove (cwSystem w) f p,
    cwWriters := (cwWriters w)(n := None)\<rparr>)"
proof -
  let ?s = "csObjects (cwSystem w)"
  let ?t = "csTable (cwSystem w)"
  let ?s' = "snd (remove ?s f (pwStorageKey p))"
  from inv have I: "ok ?s" "writers_ok (body ?s) opts ?t (cwWriters w)"
    "\<And>k b. valid_key k \<Longrightarrow> body ?s k = Some b \<Longrightarrow> object_sound opts k b" "\<forall>r \<in> set ?t. row_sound (body ?s) r"
    by (auto simp: storage_inv_def)
  have sys: "csObjects (commit_cleanup remove (cwSystem w) f p) = ?s'"
    "csTable (commit_cleanup remove (cwSystem w) f p) = ?t"
    by (auto simp: commit_cleanup_def bestEffortCleanup_def Let_def split: prod.splits sum.splits)
  have notready: "pwStorageKey p \<notin> ready_keys ?t"
    using writers_okD(3) [OF I(2) n] by simp
  have W: "writers_ok (body ?s) opts ?t ((cwWriters w)(n := None))" using I(2) by (rule writers_ok_drop)
  have "writers_ok (body ?s') opts ?t ((cwWriters w)(n := None))"
    using W
  proof (rule writers_ok_look)
    fix k b
    assume k: "valid_key k" "k \<in> pending_keys ((cwWriters w)(n := None))" "body ?s k = Some b"
    from k(2) obtain m d ph where m: "cwWriters w m = Some (d, ph)" "m \<noteq> n" "k = pwStorageKey (phase_write ph)"
      by (auto simp: pending_keys_def split: if_splits)
    then have "k \<noteq> pwStorageKey p" using writers_ok_distinct [OF I(2) m(1) n] by auto
    with k show "body ?s' k \<noteq> None" by (simp add: remove_frame I(1))
  qed
  moreover have "\<forall>r \<in> set ?t. row_sound (body ?s') r"
    using I(4) notready by (auto simp: ready_keys_def intro!: row_sound_remove [OF I(1)])
  moreover have "\<forall>k b. valid_key k \<longrightarrow> body ?s' k = Some b \<longrightarrow> object_sound opts k b"
    using remove_sound [OF I(1,3)] by blast
  ultimately show ?thesis
    using inv sys remove_inv [OF I(1)] by (simp add: storage_inv_def)
qed

lemma inv_crash: "storage_inv opts w \<Longrightarrow> storage_inv opts (w\<lparr>cwWriters := (cwWriters w)(n := None)\<rparr>)"
  using writers_ok_drop by (auto simp: storage_inv_def)

lemma inv_cache_update:
  assumes inv: "storage_inv opts w" and same: "csObjects sys' = csObjects (cwSystem w)"
    and t: "csTable sys' = snd (cache_update P g (csTable (cwSystem w)))"
    and g: "\<And>r. row_scope (g r) = row_scope r" "\<And>r. ceStatus (g r) \<noteq> Ready"
  shows "storage_inv opts (w\<lparr>cwSystem := sys'\<rparr>)"
  using inv same
proof (rule inv_table)
  show "cache_table_ok (csTable sys')"
    unfolding t using inv g(1) by (intro cache_update_ok) (simp_all add: storage_inv_def)
  show "r \<in> set (csTable (cwSystem w)) \<or> ceStatus r \<noteq> Ready" if "r \<in> set (csTable sys')" for r
    using that g(2) unfolding t by (auto dest!: cache_update_rows)
qed

lemma inv_mark_failed:
  assumes "storage_inv opts w" "markRenderFailed opts (cwSystem w) i g code now = (r, sys')"
  shows "storage_inv opts (w\<lparr>cwSystem := sys'\<rparr>)"
proof (rule inv_cache_update [OF assms(1)])
  show "csObjects sys' = csObjects (cwSystem w)"
    using assms(2) by (auto simp: markRenderFailed_def Let_def split: prod.splits sum.splits)
  show "csTable sys' = snd (cache_update
      (\<lambda>r. identityWhere (scope_of opts i) r \<and> ceGeneration r = g)
      (set_failed \<lparr>ufScope = scope_of opts i, ufLastErrorCode = code, ufExpectedGeneration = g, ufNow = now\<rparr>)
      (csTable (cwSystem w)))"
    using assms(2) by (auto simp: markRenderFailed_def updateFailedCacheEntry_def Let_def split: prod.splits sum.splits)
qed (simp_all add: set_failed_def row_scope_def)

lemma inv_invalidate:
  assumes "storage_inv opts w" "invalidateEntry opts (cwSystem w) i now = (r, sys')"
  shows "storage_inv opts (w\<lparr>cwSystem := sys'\<rparr>)"
proof (rule inv_cache_update [OF assms(1)])
  show "csObjects sys' = csObjects (cwSystem w)"
    using assms(2) by (auto simp: invalidateEntry_def Let_def split: prod.splits sum.splits)
  show "csTable sys' = snd (cache_update (identityWhere (scope_of opts i))
      (set_invalidated \<lparr>ivScope = scope_of opts i, ivNow = now\<rparr>) (csTable (cwSystem w)))"
    using assms(2) by (auto simp: invalidateEntry_def invalidateCacheEntry_def Let_def split: prod.splits sum.splits)
qed (simp_all add: set_invalidated_def row_scope_def)

lemma inv_create_pending:
  assumes "storage_inv opts w"
  shows "storage_inv opts (w\<lparr>cwSystem := (cwSystem w)\<lparr>csTable :=
      snd (createPendingCacheEntry (csTable (cwSystem w)) uid fk cp)\<rparr>\<rparr>)"
proof (rule inv_table [OF assms])
  show "cache_table_ok (csTable ((cwSystem w)\<lparr>csTable := snd (createPendingCacheEntry (csTable (cwSystem w)) uid fk cp)\<rparr>))"
    using assms create_pending_at(1) by (simp add: storage_inv_def)
  show "r \<in> set (csTable (cwSystem w)) \<or> ceStatus r \<noteq> Ready"
    if "r \<in> set (csTable ((cwSystem w)\<lparr>csTable := snd (createPendingCacheEntry (csTable (cwSystem w)) uid fk cp)\<rparr>))" for r
    using that by (auto dest: create_pending_rows)
qed simp

lemma guarded_step_inv:
  assumes "storage_step put remove opts True w w'" "storage_inv opts w"
  shows "storage_inv opts w'"
  using assms(1)
  by (rule storage_stepE)
    (use assms(2) in \<open>simp_all add: inv_begin inv_begin_fails inv_update inv_cleanup inv_crash
      inv_mark_failed inv_invalidate inv_create_pending\<close>)

text \<open>A system with no ready row, no writer and no object to begin with.\<close>

definition cache_init :: "'a cache_world \<Rightarrow> bool" where
  "cache_init w \<longleftrightarrow> ok (csObjects (cwSystem w)) \<and> (\<forall>k. valid_key k \<longrightarrow> body (csObjects (cwSystem w)) k = None)
     \<and> csTable (cwSystem w) = [] \<and> cwWriters w = Map.empty"

lemma cache_init_inv: "cache_init w \<Longrightarrow> storage_inv opts w"
  by (auto simp: cache_init_def storage_inv_def writers_ok_def)

lemma served_page:
  assumes "storage_inv opts w" "hex_digest (soSha opts)" "zlib_ok (soZlib opts)"
    "maxUncompressedHtmlBytes (soLimits opts) \<le> maxDecompressedReadBytes (soLimits opts)"
    "findCacheEntryByIdentity (csTable (cwSystem w)) (scope_of opts i) = Some r" "ceStatus r = Ready"
  shows "(\<exists>html. readReadyHtml get opts (cwSystem w) f i = Inr (html, r)
        \<and> ceContentHash r = Some (computeHtmlContentHash (soSha opts) html))
    \<or> (\<exists>e. readReadyHtml get opts (cwSystem w) f i = Inl (Object_Store_Failed e))"
proof (rule read_sound_row [OF assms(2-6)])
  let ?s = "csObjects (cwSystem w)"
  let ?look = "\<lambda>k. if valid_key k then body ?s k else None"
  from assms(5) have "r \<in> set (csTable (cwSystem w))" by (auto simp: find_row_at dest: row_at_SomeD)
  with assms(1) have "row_sound (body ?s) r" by (simp add: storage_inv_def)
  then show "row_sound ?look r" by (auto simp: row_sound_def valid_key_def)
  show "object_sound opts k b" if "?look k = Some b" for k b
    using that assms(1) by (auto simp: storage_inv_def split: if_splits)
  show "map_option objBody x = ?look k"
    if "parseCacheObjectKey k = Inr p" "get ?s f k = Inr x" for k p x
    using that assms(1) get_body [of ?s k f x] by (auto simp: storage_inv_def valid_key_def)
qed

end

sublocale readable_store \<subseteq> storage: step_system cache_init "storage_step put remove opts True" "storage_inv opts" for opts
  by unfold_locales (auto intro: cache_init_inv guarded_step_inv)

subsection \<open>What the service promises\<close>

lemma checked_metadata_Inr:
  assumes "checked_metadata opts i r = Inr (k, h, e)"
  shows "ceStorageKey r = Some k \<and> ceContentHash r = Some h
    \<and> (\<exists>p. parseCacheObjectKey k = Inr p \<and> ckCacheKeyHash p = keyHash (storage_key_of opts i)
         \<and> ckGeneration p = ceGeneration r \<and> ckContentHash p = h \<and> ckContentEncoding p = e)"
  using assms
  by (auto simp: checked_metadata_def Let_def metadata_complete_def filled_def assertCacheObjectKeyMatches_def
      and_then_Inr_iff guard_or_def split: if_splits sum.splits option.splits)


lemma commit_update_success:
  assumes "commit_update sys c w = (Inr (Some row), sys')" "cache_table_ok (csTable sys)"
  obtains r0 win where "findCacheEntryByIdentity (csTable sys) (pwScope w) = Some r0"
    "ceGeneration r0 = cmExpectedGeneration c" "row = set_ready (ready_input c w win) r0"
    "findCacheEntryByIdentity (csTable sys') (pwScope w) = Some row" "csObjects sys' = csObjects sys"
    "computeFreshnessWindow (or_default (cmPolicy c) DEFAULT_CACHE_POLICY) (cmNow c) = Inr win"
proof -
  from assms(1) obtain win where win: "computeFreshnessWindow (or_default (cmPolicy c) DEFAULT_CACHE_POLICY) (cmNow c) = Inr win"
    by (cases "computeFreshnessWindow (or_default (cmPolicy c) DEFAULT_CACHE_POLICY) (cmNow c)")
      (auto simp: commit_update_def)
  let ?f = "set_ready (ready_input c w win)"
  let ?C = "\<lambda>r. ceGeneration r = cmExpectedGeneration c"
  let ?P = "\<lambda>r. identityWhere (pwScope w) r \<and> ?C r"
  have U: "updateReadyCacheEntry (csTable sys) (ready_input c w win) = cache_update ?P ?f (csTable sys)"
    by (simp add: updateReadyCacheEntry_def)
  from assms(1) win obtain t where t: "cache_update ?P ?f (csTable sys) = (Inr (Some row), t)" "csTable sys' = t"
    "csObjects sys' = csObjects sys"
    by (auto simp: commit_update_def U Let_def split: prod.splits sum.splits option.splits)
  note at = cache_update_at [where f = ?f and C = ?C, OF assms(2) set_scope(1) refl, of "pwScope w"]
  from t(1) at obtain r0 where r0: "findCacheEntryByIdentity (csTable sys) (pwScope w) = Some r0"
    "ceGeneration r0 = cmExpectedGeneration c" "cache_checks (?f r0)" "row = ?f r0"
    by (auto split: option.splits if_splits)
  have "findCacheEntryByIdentity t (pwScope w) = Some row"
    using view_after_update [where f = ?f and C = ?C, OF assms(2) set_scope(1) refl, of "pwScope w" "pwScope w"]
      r0 t(1) by simp
  with r0 t win show ?thesis using that by blast
qed

lemma commit_update_conflict:
  assumes "cache_table_ok (csTable sys)"
    "computeFreshnessWindow (or_default (cmPolicy c) DEFAULT_CACHE_POLICY) (cmNow c) = Inr win"
    "findCacheEntryByIdentity (csTable sys) (pwScope w) = Some r0" "ceGeneration r0 \<noteq> cmExpectedGeneration c"
  shows "commit_update sys c w = (Inr None, sys)"
proof -
  let ?C = "\<lambda>r. ceGeneration r = cmExpectedGeneration c"
  let ?P = "\<lambda>r. identityWhere (pwScope w) r \<and> ?C r"
  have "updateReadyCacheEntry (csTable sys) (ready_input c w win) = (Inr None, csTable sys)"
    using cache_update_at [where f = "set_ready (ready_input c w win)" and C = ?C, OF assms(1) set_scope(1) refl, of "pwScope w"]
      assms(3,4) by (simp add: updateReadyCacheEntry_def)
  with assms(2) show ?thesis by (simp add: commit_update_def)
qed

lemma ready_row_checked:
  assumes "write_facts opts c w" "findCacheEntryByIdentity (csTable sys) (pwScope w) = Some (set_ready (ready_input c w win) r0)"
    "row_scope r0 = pwScope w" "ceGeneration r0 = cmExpectedGeneration c"
  shows "checked_metadata opts (cmIdentity c) (set_ready (ready_input c w win) r0)
    = Inr (pwStorageKey w, pwContentHash w, pwEncoding w)"
proof -
  have "ceCacheKeyHash r0 = keyHash (storage_key_of opts (cmIdentity c))"
    using arg_cong [OF assms(3), of scCacheKeyHash] assms(1)
    by (simp add: write_facts_def row_scope_def scope_of_def identityScope_def)
  moreover have "findCacheEntryByIdentity (csTable sys) (scope_of opts (cmIdentity c)) = Some (set_ready (ready_input c w win) r0)"
    using assms(1,2) by (simp add: write_facts_def)
  ultimately have hash: "ceCacheKeyHash r0 = keyHash (storage_key_of opts (cmIdentity c))"
    and found: "findCacheEntryByIdentity (csTable sys) (scope_of opts (cmIdentity c)) = Some (set_ready (ready_input c w win) r0)"
    by blast+
  from assms(1) obtain p where p: "parseCacheObjectKey (pwStorageKey w) = Inr p"
    "ckCacheKeyHash p = keyHash (storage_key_of opts (cmIdentity c))" "ckGeneration p = cmExpectedGeneration c + 1"
    "ckContentHash p = pwContentHash w" "ckContentEncoding p = pwEncoding w"
    by (auto simp: write_facts_def)
  from checked_metadata_agrees [OF found _ p(1)] show ?thesis
    by (simp add: set_ready_def ready_input_def p hash assms(4))
qed

lemma find_scope: "findCacheEntryByIdentity t s = Some r \<Longrightarrow> row_scope r = s"
  by (auto simp: find_row_at dest: row_at_SomeD)

context readable_store
begin

lemma commit_then_read:
  assumes "ok (csObjects sys)" "cache_table_ok (csTable sys)" "hex_digest (soSha opts)" "zlib_ok (soZlib opts)"
    "maxUncompressedHtmlBytes (soLimits opts) \<le> maxDecompressedReadBytes (soLimits opts)"
    "commit_input_ok c" "prepare_write opts c = Inr w" "body (csObjects sys) (pwStorageKey w) = None"
    "commitRenderedHtml put remove opts sys f c = (Inr (Commit_Success row), sys')"
  shows "ceGeneration row = cmExpectedGeneration c + 1
    \<and> (readReadyHtml get opts sys' f' (cmIdentity c) = Inr (cmHtml c, row)
       \<or> (\<exists>e. readReadyHtml get opts sys' f' (cmIdentity c) = Inl (Object_Store_Failed e)))"
proof -
  from assms(9) obtain w' sys1 where cw: "commit_write put opts sys f c = (Inr w', sys1)"
    and cu: "commit_update sys1 c w' = (Inr (Some row), sys')"
    by (auto simp: commitRenderedHtml_def split: prod.splits sum.splits option.splits)
  from commit_write_Inr [OF cw assms(1)] assms(7) have w': "w' = w" and t1: "csTable sys1 = csTable sys"
    and o1: "csObjects sys1 = snd (put (csObjects sys) f (write_object_input w))"
    "\<exists>m. fst (put (csObjects sys) f (write_object_input w)) = Inr m" by auto
  have facts: "write_facts opts c w" using assms(7,6) by (rule prepare_write_facts)
  have stored: "body (csObjects sys1) (pwStorageKey w) = Some (pwBody w)"
    using o1 put_stored [OF assms(1), of f "write_object_input w"] assms(8) by auto
  from cu [unfolded w'] have cu': "commit_update sys1 c w = (Inr (Some row), sys')" .
  from commit_update_success [OF cu'] assms(2) t1 obtain r0 win where
    u: "findCacheEntryByIdentity (csTable sys1) (pwScope w) = Some r0"
    "ceGeneration r0 = cmExpectedGeneration c" "row = set_ready (ready_input c w win) r0"
    "findCacheEntryByIdentity (csTable sys') (pwScope w) = Some row" "csObjects sys' = csObjects sys1" by metis
  have meta: "checked_metadata opts (cmIdentity c) row = Inr (pwStorageKey w, pwContentHash w, pwEncoding w)"
    using ready_row_checked [OF facts] u find_scope [OF u(1)] by simp
  have ready: "ceStatus row = Ready" "scope_of opts (cmIdentity c) = pwScope w"
    using u(3) facts by (simp_all add: set_ready_def write_facts_def)
  show ?thesis
  proof (cases "get (csObjects sys') f' (pwStorageKey w)")
    case (Inl e)
    with u meta ready show ?thesis by (simp add: readReadyHtml_def)
  next
    case (Inr x)
    have "ok (csObjects sys')" using u(5) o1(1) put_inv [OF assms(1)] by simp
    from get_body [OF this write_facts_valid [OF facts] Inr] stored u(5)
    obtain ob where ob: "x = Some ob" "objBody ob = pwBody w" by auto
    have hex: "HEX64_RE (pwContentHash w)"
      using facts assms(3) by (simp add: write_facts_def hex_digest_def computeHtmlContentHash_def)
    have len: "length (utf8_encode (cmHtml c)) \<le> nat (maxDecompressedReadBytes (soLimits opts))"
      using facts assms(5) unfolding write_facts_def by linarith
    have "list_all scalar_value (cmHtml c)" using assms(6) by (simp add: commit_input_ok_def)
    from decompress_compress [OF assms(4) this, of "pwEncoding w" "nat (maxDecompressedReadBytes (soLimits opts))"] len
    have dec: "decompressHtml (soZlib opts) (pwBody w) (pwEncoding w) (nat (maxDecompressedReadBytes (soLimits opts)))
        = Inr (cmHtml c)"
      using facts by (simp add: write_facts_def)
    have "\<not> maxStoredObjectBytes (soLimits opts) < int (length (pwBody w))"
      using facts unfolding write_facts_def by linarith
    moreover have "pwContentHash w = computeHtmlContentHash (soSha opts) (cmHtml c)"
      using facts by (simp add: write_facts_def)
    ultimately have "checked_object opts (pwContentHash w) (pwEncoding w) x = Inr (cmHtml c)"
      using ob hex dec by (simp add: checked_object_def contentHashesMatch_def isValidContentHash_def)
    with u meta ready Inr show ?thesis by (simp add: readReadyHtml_def)
  qed
qed

end

lemma readReady_Inr:
  assumes "readReadyHtml get opts sys f i = Inr (html, r)"
  shows "\<exists>k h e x. findCacheEntryByIdentity (csTable sys) (scope_of opts i) = Some r \<and> ceStatus r = Ready
    \<and> checked_metadata opts i r = Inr (k, h, e) \<and> get (csObjects sys) f k = Inr x
    \<and> checked_object opts h e x = Inr html"
proof -
  from assms obtain r' where r': "findCacheEntryByIdentity (csTable sys) (scope_of opts i) = Some r'" "ceStatus r' = Ready"
    by (auto simp: readReadyHtml_def split: option.splits if_splits)
  with assms obtain k h e where m: "checked_metadata opts i r' = Inr (k, h, e)"
    by (cases "checked_metadata opts i r'") (auto simp: readReadyHtml_def)
  with assms r' obtain x where x: "get (csObjects sys) f k = Inr x"
    by (cases "get (csObjects sys) f k") (auto simp: readReadyHtml_def)
  with assms r' m have "checked_object opts h e x = Inr html" "r = r'"
    by (auto simp: readReadyHtml_def and_then_Inr_iff)
  with r' m x show ?thesis by blast
qed

lemma mem_read_not_failed: "readReadyHtml mem_get opts sys env i \<noteq> Inl (Object_Store_Failed e)"
proof
  assume "readReadyHtml mem_get opts sys env i = Inl (Object_Store_Failed e)"
  then obtain r' where r': "findCacheEntryByIdentity (csTable sys) (scope_of opts i) = Some r'" "ceStatus r' = Ready"
    by (auto simp: readReadyHtml_def split: option.splits if_splits)
  show False
  proof (cases "checked_metadata opts i r'")
    case (Inl err)
    then have "err \<noteq> Object_Store_Failed e"
      by (auto simp: checked_metadata_def Let_def split: if_splits sum.splits)
    with Inl r' \<open>readReadyHtml mem_get opts sys env i = Inl (Object_Store_Failed e)\<close> show False
      by (simp add: readReadyHtml_def)
  next
    case (Inr m)
    obtain k h enc where m: "m = (k, h, enc)" by (cases m) auto
    have "checked_object opts h enc x \<noteq> Inl (Object_Store_Failed e)" for x
      by (auto simp: checked_object_def split: option.splits sum.splits decompress_error.splits)
    with Inr m r' \<open>readReadyHtml mem_get opts sys env i = Inl (Object_Store_Failed e)\<close> show False
      by (cases "checked_object opts h enc (csObjects sys k)")
        (auto simp: readReadyHtml_def mem_get_def mem_getObject_def)
  qed
qed




subsection \<open>Two writers with the same page\<close>

text \<open>
  Both writers rendered the same page of the same identity from the same expected generation:
  both write the object, both try to update the row, and the one that lost cleans up.
\<close>

definition twin_commits ::
  "storage_options \<Rightarrow> memory_store cache_system \<Rightarrow> memory_env \<Rightarrow> commit_input
     \<Rightarrow> (storage_error + cache_entry option) list \<times> memory_store cache_system" where
  "twin_commits opts sys env c =
     (case commit_write mem_putObject opts sys env c of
        (Inl e, sys1) \<Rightarrow> ([Inl e], sys1)
      | (Inr wa, sys1) \<Rightarrow>
          (case commit_write mem_putObject opts sys1 env c of
             (Inl e, sys2) \<Rightarrow> ([Inl e], sys2)
           | (Inr wb, sys2) \<Rightarrow>
               (let (ra, sys3) = commit_update sys2 c wa; (rb, sys4) = commit_update sys3 c wb
                in ([ra, rb], if rb = Inr None then commit_cleanup mem_deleteObject sys4 env wb else sys4))))"

lemma mem_put_twice:
  assumes "fst (mem_putObject st env i) = Inr m" "\<not> putIfNotExists i"
  shows "snd (mem_putObject (snd (mem_putObject st env i)) env i) = snd (mem_putObject st env i)
    \<and> (\<exists>m'. fst (mem_putObject (snd (mem_putObject st env i)) env i) = Inr m')"
  using assms by (auto simp: mem_putObject_def Let_def split: sum.splits option.splits if_splits)

lemma commit_write_put:
  assumes "prepare_write opts c = Inr w" "put (csObjects sys) f (write_object_input w) = (Inr m, objs)"
  shows "\<exists>ev. commit_write put opts sys f c = (Inr w, sys\<lparr>csObjects := objs, csEvents := csEvents sys @ [ev]\<rparr>)"
  using assms by (auto simp: commit_write_def log_event_def)

lemma commit_update_events:
  "commit_update (sys\<lparr>csObjects := ob, csEvents := ev\<rparr>) c w =
     (let (r, s) = commit_update sys c w
      in (r, s\<lparr>csObjects := ob, csEvents := ev @ drop (length (csEvents sys)) (csEvents s)\<rparr>))"
  by (simp add: commit_update_def log_event_def Let_def split: sum.splits prod.splits option.splits)

text \<open>
  C18. The cleanup can delete the page that is being served. The comments of the service and of
  cache-storage-key.ts say that a writer that lost the race computes a different key, so that
  its cleanup can never touch an active object. That fails when both writers rendered the same
  page: alone, the commit would have succeeded; run twice in parallel, the first writer's commit
  succeeds, the second is told of the conflict and removes the object of the first, and every
  later read of the page fails with \<open>missing_object\<close> although the row is ready.
\<close>

theorem twin_writers_lose_page:
  assumes "cache_table_ok (csTable sys)" "commit_input_ok c" "\<not> failNextDelete env"
    "commitRenderedHtml mem_putObject mem_deleteObject opts sys env c = (Inr (Commit_Success row), alone)"
  shows "fst (twin_commits opts sys env c) = [Inr (Some row), Inr None]
    \<and> findCacheEntryByIdentity (csTable (snd (twin_commits opts sys env c))) (scope_of opts (cmIdentity c)) = Some row
    \<and> ceStatus row = Ready
    \<and> readReadyHtml mem_get opts (snd (twin_commits opts sys env c)) env' (cmIdentity c)
        = Inl (Cache_Integrity Missing_Object)"
proof -
  from assms(4) obtain w sys1 where cw: "commit_write mem_putObject opts sys env c = (Inr w, sys1)"
    and cu: "commit_update sys1 c w = (Inr (Some row), alone)"
    by (auto simp: commitRenderedHtml_def split: prod.splits sum.splits option.splits)
  have "mem_ok (csObjects sys)" by (simp add: mem_ok_def)
  from mem.commit_write_Inr [OF cw this] obtain m where
    prep: "prepare_write opts c = Inr w" and t1: "csTable sys1 = csTable sys"
    and o1: "csObjects sys1 = snd (mem_putObject (csObjects sys) env (write_object_input w))"
    and m: "fst (mem_putObject (csObjects sys) env (write_object_input w)) = Inr m" by blast
  have facts: "write_facts opts c w" using prep assms(2) by (rule prepare_write_facts)
  obtain m' where second: "mem_putObject (csObjects sys1) env (write_object_input w) = (Inr m', csObjects sys1)"
    using mem_put_twice [OF m] o1 by (auto simp: write_object_input_def prod_eq_iff)
  from commit_write_put [where put = mem_putObject and sys = sys1, OF prep second] obtain ev where
    cw2: "commit_write mem_putObject opts sys1 env c = (Inr w, sys1\<lparr>csEvents := csEvents sys1 @ [ev]\<rparr>)"
    by auto
  let ?sys2 = "sys1\<lparr>csEvents := csEvents sys1 @ [ev]\<rparr>"
  obtain sys3 where cu2: "commit_update ?sys2 c w = (Inr (Some row), sys3)"
    using commit_update_events [where sys = sys1 and ob = "csObjects sys1" and ev = "csEvents sys1 @ [ev]"
        and c = c and w = w] cu by simp
  have ok2: "cache_table_ok (csTable ?sys2)" using assms(1) t1 by simp
  from commit_update_success [OF cu2 ok2] obtain r0 win where
    u: "findCacheEntryByIdentity (csTable ?sys2) (pwScope w) = Some r0" "ceGeneration r0 = cmExpectedGeneration c"
    "row = set_ready (ready_input c w win) r0" "findCacheEntryByIdentity (csTable sys3) (pwScope w) = Some row"
    "csObjects sys3 = csObjects ?sys2"
    "computeFreshnessWindow (or_default (cmPolicy c) DEFAULT_CACHE_POLICY) (cmNow c) = Inr win" by metis
  have ok3: "cache_table_ok (csTable sys3)" using commit_update_table [OF cu2] ok2 by blast
  have lost: "commit_update sys3 c w = (Inr None, sys3)"
    using ok3 u(6,4) by (rule commit_update_conflict) (simp add: u(2,3))
  let ?fin = "commit_cleanup mem_deleteObject sys3 env w"
  have run: "twin_commits opts sys env c = ([Inr (Some row), Inr None], ?fin)"
    by (simp add: twin_commits_def cw cw2 cu2 lost)
  have fin: "csTable ?fin = csTable sys3" "mem_get (csObjects ?fin) env' (pwStorageKey w) = Inr None"
    using assms(3)
    by (simp_all add: commit_cleanup_def bestEffortCleanup_def mem_deleteObject_def mem_get_def mem_getObject_def)
  have meta: "checked_metadata opts (cmIdentity c) row = Inr (pwStorageKey w, pwContentHash w, pwEncoding w)"
    using ready_row_checked [OF facts] u find_scope [OF u(1)] by simp
  have ready: "ceStatus row = Ready" "scope_of opts (cmIdentity c) = pwScope w"
    using u(3) facts by (simp_all add: set_ready_def write_facts_def)
  show ?thesis
    using u(4) meta ready fin by (simp add: run readReadyHtml_def checked_object_def)
qed

subsection \<open>A concrete run\<close>

lemma three_steps: "r a b \<Longrightarrow> r b c \<Longrightarrow> r c d \<Longrightarrow> rtranclp r a d"
  by (blast intro: r_into_rtranclp rtranclp_trans)

definition demo_options :: storage_options where
  "demo_options = \<lparr>soSha = (\<lambda>b. replicate 64 CHR ''a''), soZlib = stored_zlib, soLimits = DEFAULT_CACHE_OBJECT_LIMITS\<rparr>"

definition demo_commit :: commit_input where
  "demo_commit =
     \<lparr>cmIdentity = demo_identity, cmHtml = [60, 62], cmResponseStatus = 200, cmExpectedGeneration = 1,
      cmContentEncoding = None, cmPolicy = None, cmNow = 0\<rparr>"

definition demo_env :: memory_env where
  "demo_env = \<lparr>failNextPut = False, failNextDelete = False, memNow = 0\<rparr>"

definition demo_storage :: "memory_store cache_system" where
  "demo_storage = \<lparr>csObjects = Map.empty, csTable = demo_table, csEvents = []\<rparr>"

definition demo_write :: prepared_write where
  "demo_write =
     \<lparr>pwScope = cpScope demo_pending, pwEncoding = Br, pwContentHash = replicate 64 CHR ''a'',
      pwBody = [1, 60, 62], pwGeneration = 2,
      pwStorageKey = js_join CHR ''/'' (built_segments (write_params demo_options demo_commit))\<rparr>"

lemma demo_scope: "scope_of demo_options demo_identity = cpScope demo_pending"
  by (simp add: scope_of_def storage_key_of_def identityScope_def computeCacheKey_def sha_text_def
      demo_options_def demo_identity_def demo_pending_def identity_version_def CACHE_KEY_VERSION_def)

lemma demo_params_valid: "valid_build (write_params demo_options demo_commit)"
  by (simp add: valid_build_def write_params_def demo_commit_def demo_identity_def demo_options_def
      storage_key_of_def computeCacheKey_def sha_text_def computeHtmlContentHash_def
      SAFE_SEGMENT_RE_def HEX64_RE_def safe_char_def is_lower_def is_hex_def list_all_iff)

lemma demo_parts:
  "computeHtmlContentHash (soSha demo_options) (cmHtml demo_commit) = replicate 64 CHR ''a''"
  "compressHtml (soZlib demo_options) (cmHtml demo_commit) Br = [1, 60, 62]"
  "length (utf8_encode (cmHtml demo_commit)) = 2"
  "maxUncompressedHtmlBytes (soLimits demo_options) = 10000000"
  "maxStoredObjectBytes (soLimits demo_options) = 10000000"
  "cmIdentity demo_commit = demo_identity" "cmExpectedGeneration demo_commit = 1"
  "or_default (cmContentEncoding demo_commit) Br = Br"
  by (simp_all add: demo_commit_def demo_options_def computeHtmlContentHash_def compressHtml_def stored_zlib_def
      Let_def utf8_encode_def utf8_encode_one_def DEFAULT_CACHE_OBJECT_LIMITS_def or_default_def)

lemma demo_prepare: "prepare_write demo_options demo_commit = Inr demo_write"
proof -
  have "buildCacheObjectKey (write_params demo_options demo_commit) =
      Inr (js_join CHR ''/'' (built_segments (write_params demo_options demo_commit)))"
    by (simp add: buildCacheObjectKey_iff demo_params_valid)
  then show ?thesis by (simp add: prepare_write_def Let_def demo_write_def demo_parts demo_scope)
qed

lemma demo_input_ok: "commit_input_ok demo_commit"
  by (simp add: commit_input_ok_def demo_commit_def scalar_value_def)

lemma demo_no_dots: "\<not> includes_str (pwStorageKey demo_write) ''..''"
  unfolding demo_write_def prepared_write.simps built_segments_def write_params_def key_file_name_def
  by code_simp

lemma demo_put:
  "\<exists>m objs. mem_putObject Map.empty demo_env (write_object_input demo_write) = (Inr m, objs)"
proof -
  have "valid_key (pwStorageKey demo_write)"
    by (rule write_facts_valid [OF prepare_write_facts [OF demo_prepare demo_input_ok]])
  then show ?thesis by (auto simp: mem_putObject_def demo_env_def valid_key_def Let_def)
qed

definition demo_row :: cache_entry where
  "demo_row = set_ready (ready_input demo_commit demo_write \<lparr>freshUntil = 300000, staleUntil = 3900000\<rparr>)
     (pending_row ''id'' demo_pending)"

lemma demo_hash: "hash_format (replicate 64 CHR ''a'')" "hash_format (replicate 64 CHR ''b'')" "hash_format (replicate 64 CHR ''c'')"
  by (simp_all add: hash_format_def HEX64_RE_def is_hex_def list_all_iff)

lemma demo_table_eq: "demo_table = [pending_row ''id'' demo_pending]"
proof -
  have "cache_checks (pending_row ''id'' demo_pending)"
    by (simp add: cache_checks_def pending_row_def demo_pending_def Let_def opt_ok_def demo_hash)
  then show ?thesis by (simp add: demo_table_def createPendingCacheEntry_def findCacheEntryByIdentity_def select_one_def Let_def)
qed

lemma demo_row_checks: "cache_checks demo_row"
  using demo_no_dots
  by (simp add: cache_checks_def demo_row_def set_ready_def ready_input_def pending_row_def Let_def opt_ok_def
      demo_hash demo_pending_def demo_commit_def) (simp add: demo_write_def demo_hash)

lemma demo_window: "computeFreshnessWindow (or_default (cmPolicy demo_commit) DEFAULT_CACHE_POLICY) (cmNow demo_commit)
    = Inr \<lparr>freshUntil = 300000, staleUntil = 3900000\<rparr>"
  by (simp add: computeFreshnessWindow_def validateCachePolicy_def assertBoundedInteger_def demo_commit_def
        DEFAULT_CACHE_POLICY_def MIN_FRESH_TTL_SECONDS_def MAX_FRESH_TTL_SECONDS_def
        MIN_STALE_TTL_SECONDS_def MAX_STALE_TTL_SECONDS_def or_default_def)

lemma demo_update:
  "csTable sys = demo_table \<Longrightarrow> \<exists>sys'. commit_update sys demo_commit demo_write = (Inr (Some demo_row), sys')"
proof -
  assume t: "csTable sys = demo_table"
  have "pwScope demo_write = cpScope demo_pending" "ceGeneration (pending_row ''id'' demo_pending) = 1"
    by (simp_all add: demo_write_def pending_row_def Let_def)
  then have "fst (updateReadyCacheEntry demo_table
      (ready_input demo_commit demo_write \<lparr>freshUntil = 300000, staleUntil = 3900000\<rparr>)) = Inr (Some demo_row)"
    using demo_row_checks
    by (simp add: updateReadyCacheEntry_def cache_update_def update_where_def demo_table_eq identityWhere_def
        first_row_def demo_parts) (simp add: demo_row_def)
  then show ?thesis
    by (cases "updateReadyCacheEntry demo_table
      (ready_input demo_commit demo_write \<lparr>freshUntil = 300000, staleUntil = 3900000\<rparr>)")
      (simp add: commit_update_def demo_window t)
qed

lemma demo_commits:
  "\<exists>sys'. commitRenderedHtml mem_putObject mem_deleteObject demo_options demo_storage demo_env demo_commit
     = (Inr (Commit_Success demo_row), sys')"
proof -
  from demo_put obtain m objs where p: "mem_putObject (csObjects demo_storage) demo_env (write_object_input demo_write) = (Inr m, objs)"
    by (auto simp: demo_storage_def)
  from commit_write_put [where put = mem_putObject and sys = demo_storage, OF demo_prepare p] obtain ev where
    cw: "commit_write mem_putObject demo_options demo_storage demo_env demo_commit =
      (Inr demo_write, demo_storage\<lparr>csObjects := objs, csEvents := csEvents demo_storage @ [ev]\<rparr>)" by blast
  have "csTable (demo_storage\<lparr>csObjects := objs, csEvents := csEvents demo_storage @ [ev]\<rparr>) = demo_table"
    by (simp add: demo_storage_def)
  from demo_update [OF this] cw show ?thesis by (auto simp: commitRenderedHtml_def)
qed

lemma demo_options_ok:
  "hex_digest (soSha demo_options)" "zlib_ok (soZlib demo_options)"
  "maxUncompressedHtmlBytes (soLimits demo_options) \<le> maxDecompressedReadBytes (soLimits demo_options)"
  by (simp_all add: demo_options_def stored_zlib_ok hex_digest_def HEX64_RE_def is_hex_def list_all_iff
      DEFAULT_CACHE_OBJECT_LIMITS_def)

lemma demo_storage_ok: "cache_table_ok (csTable demo_storage)"
  by (simp add: demo_storage_def demo_table_ok)


theorem twin_writers_lose_page_witness:
  "readReadyHtml mem_get demo_options (snd (twin_commits demo_options demo_storage demo_env demo_commit)) demo_env
     demo_identity = Inl (Cache_Integrity Missing_Object)"
proof -
  obtain sys' where c: "commitRenderedHtml mem_putObject mem_deleteObject demo_options demo_storage demo_env demo_commit
     = (Inr (Commit_Success demo_row), sys')" using demo_commits by blast
  have "\<not> failNextDelete demo_env" by (simp add: demo_env_def)
  from twin_writers_lose_page [OF demo_storage_ok demo_input_ok this c, of demo_env] show ?thesis
    by (simp add: demo_parts(6))
qed



definition demo_world :: "memory_store cache_world" where
  "demo_world = \<lparr>cwSystem = \<lparr>csObjects = Map.empty, csTable = [], csEvents = []\<rparr>, cwWriters = Map.empty\<rparr>"

lemma demo_world_init: "mem.cache_init demo_world"
  by (simp add: mem.cache_init_def demo_world_def mem_ok_def mem_body_def)

lemma demo_run:
  "\<exists>w. rtranclp (storage_step mem_putObject mem_deleteObject demo_options True) demo_world w
     \<and> findCacheEntryByIdentity (csTable (cwSystem w)) (scope_of demo_options demo_identity) = Some demo_row"
proof -
  let ?step = "storage_step mem_putObject mem_deleteObject demo_options True"
  let ?w1 = "demo_world\<lparr>cwSystem := (cwSystem demo_world)\<lparr>csTable :=
      snd (createPendingCacheEntry (csTable (cwSystem demo_world)) ''id'' True demo_pending)\<rparr>\<rparr>"
  have s1: "?step demo_world ?w1" by (rule create_pending)
  have t1: "csTable (cwSystem ?w1) = demo_table" "csObjects (cwSystem ?w1) = Map.empty" "cwWriters ?w1 = Map.empty"
    by (simp_all add: demo_table_def demo_world_def)
  from demo_put t1(2) obtain m objs where
    p: "mem_putObject (csObjects (cwSystem ?w1)) demo_env (write_object_input demo_write) = (Inr m, objs)" by auto
  from commit_write_put [where put = mem_putObject and sys = "cwSystem ?w1", OF demo_prepare p] obtain sys2 where
    cw: "commit_write mem_putObject demo_options (cwSystem ?w1) demo_env demo_commit = (Inr demo_write, sys2)"
    and t2: "csTable sys2 = demo_table" using t1 by fastforce
  let ?w2 = "?w1\<lparr>cwSystem := sys2, cwWriters := (cwWriters ?w1)(0 \<mapsto> (demo_commit, Wrote demo_write))\<rparr>"
  have "ready_keys demo_table = {}" by (simp add: ready_keys_def demo_table_eq pending_row_def Let_def)
  then have s2: "?step ?w1 ?w2"
    using t1 demo_input_ok cw by (intro begin_commit) (auto simp: pending_keys_def)
  obtain sys3 where u: "commit_update (cwSystem ?w2) demo_commit demo_write = (Inr (Some demo_row), sys3)"
    using demo_update [of "cwSystem ?w2"] t2 by auto
  let ?w3 = "?w2\<lparr>cwSystem := sys3, cwWriters := (cwWriters ?w2)(0 := None)\<rparr>"
  have n: "cwWriters ?w2 0 = Some (demo_commit, Wrote demo_write)" by simp
  have s3: "?step ?w2 ?w3"
    using update_row [OF n u, of mem_putObject mem_deleteObject demo_options True] by simp
  have "cache_table_ok (csTable (cwSystem ?w2))" using t2 demo_table_ok by simp
  from commit_update_success [OF u this] have "findCacheEntryByIdentity (csTable sys3) (pwScope demo_write) = Some demo_row"
    by metis
  then have "findCacheEntryByIdentity (csTable (cwSystem ?w3)) (scope_of demo_options demo_identity) = Some demo_row"
    by (simp add: demo_scope demo_write_def)
  moreover have "rtranclp ?step demo_world ?w3" 
    by (rule three_steps [where r = ?step, OF s1 s2 s3])
  ultimately show ?thesis by blast
qed


end
