(* ===== verification/UrlSecurity.thy ===== *)
theory UrlSecurity
  imports Prelude "HOL-Library.Word"
begin

section \<open>URL, hostname and address policy\<close>

text \<open>
  src/lib/url-security.ts, src/lib/url-normalize.ts, src/lib/domain-normalize.ts and the request
  loop of src/lib/safe-http-client.ts. The URL parser of the platform is the argument
  \<open>parse_url\<close>, the resolver is \<open>lookup\<close>, and ipaddr.js and \<open>net.isIP\<close> are the functions of an
  \<open>ip_library\<close> with their documented behaviour as \<open>ip_library_ok\<close>. Addresses are 32 and 128 bit words.
\<close>

subsection \<open>Addresses\<close>

datatype ip_address = V4 "32 word" | V6 "128 word"

record ip_library =
  isIP :: "string \<Rightarrow> bool"
  processIp :: "string \<Rightarrow> ip_address"
  parseIp :: "string \<Rightarrow> ip_address"
  matchCidr :: "ip_address \<Rightarrow> ip_address \<Rightarrow> nat \<Rightarrow> bool"

definition blockedIpv4Cidrs :: "(string \<times> nat) list" where
  "blockedIpv4Cidrs =
     [(''0.0.0.0'', 8), (''10.0.0.0'', 8), (''100.64.0.0'', 10), (''127.0.0.0'', 8), (''169.254.0.0'', 16),
      (''172.16.0.0'', 12), (''192.0.0.0'', 24), (''192.0.2.0'', 24), (''192.168.0.0'', 16),
      (''198.18.0.0'', 15), (''198.51.100.0'', 24), (''203.0.113.0'', 24), (''224.0.0.0'', 4)]"

definition blockedIpv6Cidrs :: "(string \<times> nat) list" where
  "blockedIpv6Cidrs =
     [(''::'', 128), (''::1'', 128), (''fc00::'', 7), (''fe80::'', 10), (''2001:db8::'', 32), (''ff00::'', 8)]"

definition is_v4 :: "ip_address \<Rightarrow> bool" where
  "is_v4 a = (case a of V4 _ \<Rightarrow> True | V6 _ \<Rightarrow> False)"

definition isBlockedIp :: "ip_library \<Rightarrow> string \<Rightarrow> bool" where
  "isBlockedIp lib ip =
     (if \<not> isIP lib ip then True
      else let addr = processIp lib ip
           in list_ex (\<lambda>(range, p). matchCidr lib addr (parseIp lib range) p)
                (if is_v4 addr then blockedIpv4Cidrs else blockedIpv6Cidrs))"

text \<open>What the library documents: matching compares the leading bits, and these are its literals.\<close>

fun same_prefix :: "ip_address \<Rightarrow> ip_address \<Rightarrow> nat \<Rightarrow> bool" where
  "same_prefix (V4 a) (V4 b) p \<longleftrightarrow> unat a div 2 ^ (32 - p) = unat b div 2 ^ (32 - p)"
| "same_prefix (V6 a) (V6 b) p \<longleftrightarrow> unat a div 2 ^ (128 - p) = unat b div 2 ^ (128 - p)"
| "same_prefix _ _ p \<longleftrightarrow> False"

definition ip_literals :: "(string \<times> ip_address) list" where
  "ip_literals =
     [(''0.0.0.0'', V4 0), (''10.0.0.0'', V4 0x0A000000), (''100.64.0.0'', V4 0x64400000),
      (''127.0.0.0'', V4 0x7F000000), (''169.254.0.0'', V4 0xA9FE0000), (''172.16.0.0'', V4 0xAC100000),
      (''192.0.0.0'', V4 0xC0000000), (''192.0.2.0'', V4 0xC0000200), (''192.168.0.0'', V4 0xC0A80000),
      (''198.18.0.0'', V4 0xC6120000), (''198.51.100.0'', V4 0xC6336400), (''203.0.113.0'', V4 0xCB007100),
      (''224.0.0.0'', V4 0xE0000000),
      (''::'', V6 0), (''::1'', V6 1), (''fc00::'', V6 0xFC000000000000000000000000000000),
      (''fe80::'', V6 0xFE800000000000000000000000000000),
      (''2001:db8::'', V6 0x20010DB8000000000000000000000000),
      (''ff00::'', V6 0xFF000000000000000000000000000000)]"

definition ip_library_ok :: "ip_library \<Rightarrow> bool" where
  "ip_library_ok lib \<longleftrightarrow>
     (\<forall>a b p. matchCidr lib a b p = same_prefix a b p)
   \<and> (\<forall>(s, a) \<in> set ip_literals. parseIp lib s = a)"

text \<open>The same policy as ranges of numbers.\<close>

definition in_block :: "nat \<Rightarrow> nat \<Rightarrow> nat \<Rightarrow> bool" where
  "in_block base bits n \<longleftrightarrow> base \<le> n \<and> n < base + 2 ^ bits"

definition blocked_v4 :: "nat \<Rightarrow> bool" where
  "blocked_v4 n \<longleftrightarrow>
     in_block (0 * 2 ^ 24) 24 n
   \<or> in_block (0x0A * 2 ^ 24) 24 n
   \<or> in_block (0x191 * 2 ^ 22) 22 n
   \<or> in_block (0x7F * 2 ^ 24) 24 n
   \<or> in_block (0xA9FE * 2 ^ 16) 16 n
   \<or> in_block (0xAC1 * 2 ^ 20) 20 n
   \<or> in_block (0xC00000 * 2 ^ 8) 8 n
   \<or> in_block (0xC00002 * 2 ^ 8) 8 n
   \<or> in_block (0xC0A8 * 2 ^ 16) 16 n
   \<or> in_block (0x6309 * 2 ^ 17) 17 n
   \<or> in_block (0xC63364 * 2 ^ 8) 8 n
   \<or> in_block (0xCB0071 * 2 ^ 8) 8 n
   \<or> in_block (0xE * 2 ^ 28) 28 n"

definition blocked_v6 :: "nat \<Rightarrow> bool" where
  "blocked_v6 n \<longleftrightarrow>
     in_block (0 * 2 ^ 0) 0 n
   \<or> in_block (1 * 2 ^ 0) 0 n
   \<or> in_block (0x7E * 2 ^ 121) 121 n
   \<or> in_block (0x3FA * 2 ^ 118) 118 n
   \<or> in_block (0x20010DB8 * 2 ^ 96) 96 n
   \<or> in_block (0xFF * 2 ^ 120) 120 n"

lemma div_block: "(n::nat) div 2 ^ b = q \<longleftrightarrow> in_block (q * 2 ^ b) b n"
proof
  assume "n div 2 ^ b = q"
  moreover have "n div 2 ^ b * 2 ^ b \<le> n" by (rule div_times_less_eq_dividend)
  moreover have "n < 2 ^ b + n div 2 ^ b * 2 ^ b" by (rule dividend_less_div_times) simp
  ultimately show "in_block (q * 2 ^ b) b n" by (simp add: in_block_def add.commute)
next
  assume "in_block (q * 2 ^ b) b n"
  then show "n div 2 ^ b = q"
    by (intro div_nat_eqI) (simp_all add: in_block_def algebra_simps)
qed

lemma v4_prefix:
  "unat (r :: 32 word) = q * 2 ^ b \<Longrightarrow> b = 32 - p \<Longrightarrow>
   same_prefix (V4 w) (V4 r) p \<longleftrightarrow> in_block (q * 2 ^ b) b (unat w)"
  by (simp add: div_block)

lemma v6_prefix:
  "unat (r :: 128 word) = q * 2 ^ b \<Longrightarrow> b = 128 - p \<Longrightarrow>
   same_prefix (V6 w) (V6 r) p \<longleftrightarrow> in_block (q * 2 ^ b) b (unat w)"
  by (simp add: div_block)

lemma v4_blocks:
  "same_prefix (V4 w) (V4 0) 8 \<longleftrightarrow> in_block (0 * 2 ^ 24) 24 (unat w)"
  "same_prefix (V4 w) (V4 0x0A000000) 8 \<longleftrightarrow> in_block (0x0A * 2 ^ 24) 24 (unat w)"
  "same_prefix (V4 w) (V4 0x64400000) 10 \<longleftrightarrow> in_block (0x191 * 2 ^ 22) 22 (unat w)"
  "same_prefix (V4 w) (V4 0x7F000000) 8 \<longleftrightarrow> in_block (0x7F * 2 ^ 24) 24 (unat w)"
  "same_prefix (V4 w) (V4 0xA9FE0000) 16 \<longleftrightarrow> in_block (0xA9FE * 2 ^ 16) 16 (unat w)"
  "same_prefix (V4 w) (V4 0xAC100000) 12 \<longleftrightarrow> in_block (0xAC1 * 2 ^ 20) 20 (unat w)"
  "same_prefix (V4 w) (V4 0xC0000000) 24 \<longleftrightarrow> in_block (0xC00000 * 2 ^ 8) 8 (unat w)"
  "same_prefix (V4 w) (V4 0xC0000200) 24 \<longleftrightarrow> in_block (0xC00002 * 2 ^ 8) 8 (unat w)"
  "same_prefix (V4 w) (V4 0xC0A80000) 16 \<longleftrightarrow> in_block (0xC0A8 * 2 ^ 16) 16 (unat w)"
  "same_prefix (V4 w) (V4 0xC6120000) 15 \<longleftrightarrow> in_block (0x6309 * 2 ^ 17) 17 (unat w)"
  "same_prefix (V4 w) (V4 0xC6336400) 24 \<longleftrightarrow> in_block (0xC63364 * 2 ^ 8) 8 (unat w)"
  "same_prefix (V4 w) (V4 0xCB007100) 24 \<longleftrightarrow> in_block (0xCB0071 * 2 ^ 8) 8 (unat w)"
  "same_prefix (V4 w) (V4 0xE0000000) 4 \<longleftrightarrow> in_block (0xE * 2 ^ 28) 28 (unat w)"
  by (rule v4_prefix, simp, simp)+

lemma v6_blocks:
  "same_prefix (V6 w) (V6 0) 128 \<longleftrightarrow> in_block (0 * 2 ^ 0) 0 (unat w)"
  "same_prefix (V6 w) (V6 1) 128 \<longleftrightarrow> in_block (1 * 2 ^ 0) 0 (unat w)"
  "same_prefix (V6 w) (V6 0xFC000000000000000000000000000000) 7 \<longleftrightarrow> in_block (0x7E * 2 ^ 121) 121 (unat w)"
  "same_prefix (V6 w) (V6 0xFE800000000000000000000000000000) 10 \<longleftrightarrow> in_block (0x3FA * 2 ^ 118) 118 (unat w)"
  "same_prefix (V6 w) (V6 0x20010DB8000000000000000000000000) 32 \<longleftrightarrow> in_block (0x20010DB8 * 2 ^ 96) 96 (unat w)"
  "same_prefix (V6 w) (V6 0xFF000000000000000000000000000000) 8 \<longleftrightarrow> in_block (0xFF * 2 ^ 120) 120 (unat w)"
  by (rule v6_prefix, simp, simp)+

lemma blocked_v4_ranges:
  assumes "ip_library_ok lib" "isIP lib s" "processIp lib s = V4 w"
  shows "isBlockedIp lib s \<longleftrightarrow> blocked_v4 (unat w)"
proof -
  have "isBlockedIp lib s \<longleftrightarrow>
      same_prefix (V4 w) (V4 0) 8 \<or> same_prefix (V4 w) (V4 0x0A000000) 8 \<or> same_prefix (V4 w) (V4 0x64400000) 10
    \<or> same_prefix (V4 w) (V4 0x7F000000) 8 \<or> same_prefix (V4 w) (V4 0xA9FE0000) 16
    \<or> same_prefix (V4 w) (V4 0xAC100000) 12 \<or> same_prefix (V4 w) (V4 0xC0000000) 24
    \<or> same_prefix (V4 w) (V4 0xC0000200) 24 \<or> same_prefix (V4 w) (V4 0xC0A80000) 16
    \<or> same_prefix (V4 w) (V4 0xC6120000) 15 \<or> same_prefix (V4 w) (V4 0xC6336400) 24
    \<or> same_prefix (V4 w) (V4 0xCB007100) 24 \<or> same_prefix (V4 w) (V4 0xE0000000) 4"
    using assms
    by (simp add: isBlockedIp_def is_v4_def blockedIpv4Cidrs_def ip_library_ok_def ip_literals_def Let_def
        del: same_prefix.simps)
  also have "\<dots> \<longleftrightarrow> blocked_v4 (unat w)"
    unfolding blocked_v4_def v4_blocks ..
  finally show ?thesis .
qed

lemma blocked_v6_ranges:
  assumes "ip_library_ok lib" "isIP lib s" "processIp lib s = V6 w"
  shows "isBlockedIp lib s \<longleftrightarrow> blocked_v6 (unat w)"
proof -
  have "isBlockedIp lib s \<longleftrightarrow>
      same_prefix (V6 w) (V6 0) 128 \<or> same_prefix (V6 w) (V6 1) 128
    \<or> same_prefix (V6 w) (V6 0xFC000000000000000000000000000000) 7
    \<or> same_prefix (V6 w) (V6 0xFE800000000000000000000000000000) 10
    \<or> same_prefix (V6 w) (V6 0x20010DB8000000000000000000000000) 32
    \<or> same_prefix (V6 w) (V6 0xFF000000000000000000000000000000) 8"
    using assms
    by (simp add: isBlockedIp_def is_v4_def blockedIpv6Cidrs_def ip_library_ok_def ip_literals_def Let_def
        del: same_prefix.simps)
  also have "\<dots> \<longleftrightarrow> blocked_v6 (unat w)"
    unfolding blocked_v6_def v6_blocks ..
  finally show ?thesis .
qed

subsection \<open>Hostnames and URLs\<close>

record url =
  uProtocol :: string
  uUsername :: string
  uPassword :: string
  uHostname :: string
  uPort :: string
  uPathname :: string
  uSearch :: string
  uHash :: string

datatype url_rejection = Rej_Unknown | Rej_Protocol | Rej_Credentials | Rej_Port | Rej_Hostname | Rej_Dns | Rej_Private_Ip

definition strip_trailing_dots :: "string \<Rightarrow> string" where
  "strip_trailing_dots s = rev (dropWhile (\<lambda>c. c = CHR ''.'') (rev s))"

text \<open>The loop removes one trailing dot at a time.\<close>

definition normalizeHostname :: "string \<Rightarrow> string" where
  "normalizeHostname h = strip_trailing_dots (js_lower h)"

definition blockedHostnames :: "string list" where
  "blockedHostnames = [''localhost'', ''localhost.localdomain'', ''metadata.google.internal'', ''instance-data'']"

definition isBlockedHostname :: "string \<Rightarrow> bool" where
  "isBlockedHostname h =
     (let n = normalizeHostname h in n \<in> set blockedHostnames \<or> ends_with n ''.local'')"

text \<open>A port of a parsed URL is empty or decimal digits, so \<open>Number(port)\<close> is their value.\<close>

definition assertAllowedPort :: "url \<Rightarrow> url_rejection + unit" where
  "assertAllowedPort u =
     (if uPort u = [] then Inr ()
      else if uProtocol u = ''http:'' \<and> read_nat (uPort u) = 80 then Inr ()
      else if uProtocol u = ''https:'' \<and> read_nat (uPort u) = 443 then Inr ()
      else Inl Rej_Port)"

definition safeUrlOrigin :: "(string \<Rightarrow> url option) \<Rightarrow> string \<Rightarrow> string" where
  "safeUrlOrigin parse_url raw =
     (case parse_url raw of
        None \<Rightarrow> ''invalid''
      | Some u \<Rightarrow>
          (let defaultPort = (if uProtocol u = ''https:'' then ''443'' else ''80'');
               port = (if uPort u = [] then defaultPort else uPort u)
           in uProtocol u @ ''//'' @ normalizeHostname (uHostname u) @ '':'' @ port))"

text \<open>The resolver throws, or returns the addresses it found; every throw is a \<open>dns\<close> rejection.\<close>

definition resolveDns :: "(string \<Rightarrow> string + string list) \<Rightarrow> string \<Rightarrow> url_rejection + string list" where
  "resolveDns lookup h = (case lookup h of Inl _ \<Rightarrow> Inl Rej_Dns | Inr as \<Rightarrow> Inr as)"

definition assertSafePublicUrl ::
  "ip_library \<Rightarrow> (string \<Rightarrow> url option) \<Rightarrow> (string \<Rightarrow> string + string list) \<Rightarrow> string \<Rightarrow> url_rejection + url" where
  "assertSafePublicUrl lib parse_url lookup raw =
     (case parse_url raw of
        None \<Rightarrow> Inl Rej_Unknown
      | Some u \<Rightarrow>
          and_then (guard_or (uProtocol u \<in> {''http:'', ''https:''}) Rej_Protocol) (\<lambda>_.
          and_then (guard_or (uUsername u = [] \<and> uPassword u = []) Rej_Credentials) (\<lambda>_.
          and_then (assertAllowedPort u) (\<lambda>_.
            let hostname = normalizeHostname (uHostname u)
            in and_then (guard_or (\<not> isBlockedHostname hostname) Rej_Hostname) (\<lambda>_.
               and_then (resolveDns lookup hostname) (\<lambda>addresses.
               and_then (guard_or (addresses \<noteq> []) Rej_Dns) (\<lambda>_.
               and_then (guard_or (\<not> list_ex (isBlockedIp lib) addresses) Rej_Private_Ip) (\<lambda>_.
                 Inr u))))))))"

subsection \<open>normalizeTargetUrl\<close>

datatype invalid_url_reason = Invalid_Url | Not_Https | Url_Credentials | Non_Standard_Port | Host_Mismatch | Too_Long

record normalized_target_url =
  ntNormalizedUrl :: string
  ntHostname :: string
  ntPath :: string

definition MAX_URL_LENGTH :: nat where "MAX_URL_LENGTH = 2048"
definition MAX_PATH_LENGTH :: nat where "MAX_PATH_LENGTH = 1024"
definition MAX_QUERY_LENGTH :: nat where "MAX_QUERY_LENGTH = 1024"

definition normalizeTargetUrl ::
  "(string \<Rightarrow> url option) \<Rightarrow> string \<Rightarrow> string \<Rightarrow> invalid_url_reason + normalized_target_url" where
  "normalizeTargetUrl parse_url raw required =
     (if length raw > MAX_URL_LENGTH then Inl Too_Long
      else case parse_url raw of
        None \<Rightarrow> Inl Invalid_Url
      | Some u \<Rightarrow>
          and_then (guard_or (uProtocol u = ''https:'') Not_Https) (\<lambda>_.
          and_then (guard_or (uUsername u = [] \<and> uPassword u = []) Url_Credentials) (\<lambda>_.
          and_then (guard_or (uPort u \<in> {'''', ''443''}) Non_Standard_Port) (\<lambda>_.
            let hostname = normalizeHostname (uHostname u)
            in and_then (guard_or (hostname = required) Host_Mismatch) (\<lambda>_.
               and_then (guard_or (length (uPathname u) \<le> MAX_PATH_LENGTH) Too_Long) (\<lambda>_.
               and_then (guard_or (length (uSearch u) \<le> MAX_QUERY_LENGTH) Too_Long) (\<lambda>_.
                 Inr \<lparr>ntNormalizedUrl = ''https://'' @ hostname @ uPathname u @ uSearch u,
                      ntHostname = hostname, ntPath = uPathname u\<rparr>)))))))"

subsection \<open>normalizeAndValidateHostname\<close>

datatype invalid_hostname_reason =
    Host_Empty | Host_Contains_Scheme | Host_Contains_Path | Host_Contains_Port | Host_Contains_Credentials
  | Host_Wildcard | Host_Ip_Address | Host_Blocked | Host_Single_Label | Host_Idna_Failed | Host_Too_Long

definition MAX_HOSTNAME_LENGTH :: nat where "MAX_HOSTNAME_LENGTH = 253"

text \<open>\<open>/^[^[\]]+:(\d+)$/\<close>: digits after the last colon, something without brackets before it.\<close>

definition has_port_suffix :: "string \<Rightarrow> bool" where
  "has_port_suffix s =
     (let digits = takeWhile is_digit (rev s); rest = dropWhile is_digit (rev s)
      in digits \<noteq> [] \<and>
         (case rest of
            [] \<Rightarrow> False
          | c # p \<Rightarrow> c = CHR '':'' \<and> p \<noteq> [] \<and> list_all (\<lambda>x. x \<noteq> CHR ''['' \<and> x \<noteq> CHR '']'') p))"

text \<open>
  \<open>domainToASCII\<close> of node:url is an argument: \<open>None\<close> when it throws. A string that matches the
  scheme pattern also contains \<open>://\<close>, so the second test decides.
\<close>

definition normalizeAndValidateHostname ::
  "ip_library \<Rightarrow> (string \<Rightarrow> string option) \<Rightarrow> string \<Rightarrow> invalid_hostname_reason + string" where
  "normalizeAndValidateHostname lib domainToASCII raw =
     (let input = js_trim raw
      in and_then (guard_or (input \<noteq> []) Host_Empty) (\<lambda>_.
         and_then (guard_or (\<not> includes_str input ''://'') Host_Contains_Scheme) (\<lambda>_.
         and_then (guard_or (CHR ''/'' \<notin> set input \<and> CHR ''?'' \<notin> set input \<and> CHR ''#'' \<notin> set input) Host_Contains_Path) (\<lambda>_.
         and_then (guard_or (CHR ''@'' \<notin> set input) Host_Contains_Credentials) (\<lambda>_.
         and_then (guard_or (\<not> list_ex js_space input) Host_Contains_Path) (\<lambda>_.
         and_then (guard_or (CHR ''*'' \<notin> set input) Host_Wildcard) (\<lambda>_.
         and_then (guard_or (\<not> has_port_suffix input) Host_Contains_Port) (\<lambda>_.
           let lowered = normalizeHostname input
           in and_then (guard_or (\<not> isIP lib lowered) Host_Ip_Address) (\<lambda>_.
              case domainToASCII lowered of
                None \<Rightarrow> Inl Host_Idna_Failed
              | Some ascii \<Rightarrow>
                  and_then (guard_or (ascii \<noteq> []) Host_Idna_Failed) (\<lambda>_.
                  and_then (guard_or (length ascii \<le> MAX_HOSTNAME_LENGTH) Host_Too_Long) (\<lambda>_.
                  and_then (guard_or (CHR ''.'' \<in> set ascii) Host_Single_Label) (\<lambda>_.
                  and_then (guard_or (\<not> isBlockedHostname ascii) Host_Blocked) (\<lambda>_.
                    Inr ascii)))))))))))))"

subsection \<open>safeFetch\<close>

datatype safe_fetch_error =
    Fetch_Blocked_Url | Fetch_Too_Many_Redirects | Fetch_Redirect_Host_Mismatch | Fetch_Redirect_Downgrade
  | Fetch_Too_Large | Fetch_Timeout | Fetch_Network_Error | Fetch_Bad_Location

record fetch_response =
  frStatus :: int
  frBody :: string
  frLocation :: string
  frContentEncoding :: "string option"

text \<open>
  The world of one fetch, by hop: what the validator says of a URL, what the network answers,
  and how a location resolves against the URL that gave it (\<open>None\<close>: the constructor throws).
\<close>

record fetch_world =
  fwValidate :: "nat \<Rightarrow> string \<Rightarrow> url option"
  fwRequest :: "nat \<Rightarrow> url \<Rightarrow> safe_fetch_error + fetch_response"
  fwResolve :: "string \<Rightarrow> url \<Rightarrow> string option"

definition assertValidHop :: "url \<Rightarrow> string option \<Rightarrow> safe_fetch_error + unit" where
  "assertValidHop u required =
     and_then (guard_or (uProtocol u = ''https:'') Fetch_Redirect_Downgrade) (\<lambda>_.
       (case required of
          None \<Rightarrow> Inr ()
        | Some h \<Rightarrow> guard_or (h = [] \<or> uHostname u = h) Fetch_Redirect_Host_Mismatch))"

definition assertRedirectBudget :: "nat \<Rightarrow> nat \<Rightarrow> safe_fetch_error + unit" where
  "assertRedirectBudget redirects maxRedirects =
     guard_or (\<not> redirects > maxRedirects) Fetch_Too_Many_Redirects"

definition is_redirect :: "fetch_response \<Rightarrow> bool" where
  "is_redirect r \<longleftrightarrow> 300 \<le> frStatus r \<and> frStatus r < 400 \<and> frLocation r \<noteq> []"

text \<open>The body of \<open>singleRequest\<close>: chunks are added until the limit is passed.\<close>

fun collect_body :: "nat \<Rightarrow> string list \<Rightarrow> string \<Rightarrow> safe_fetch_error + string" where
  "collect_body maxBytes [] acc = Inr acc"
| "collect_body maxBytes (c # cs) acc =
     (if length acc + length c > maxBytes then Inl Fetch_Too_Large
      else collect_body maxBytes cs (acc @ c))"

text \<open>The loop, with the URLs it requested.\<close>

function safeFetch_loop ::
  "fetch_world \<Rightarrow> string option \<Rightarrow> nat \<Rightarrow> nat \<Rightarrow> string \<Rightarrow> (safe_fetch_error + fetch_response) \<times> url list" where
  "safeFetch_loop fw required maxRedirects redirects current =
     (case fwValidate fw redirects current of
        None \<Rightarrow> (Inl Fetch_Blocked_Url, [])
      | Some parsed \<Rightarrow>
          (case assertValidHop parsed required of
             Inl e \<Rightarrow> (Inl e, [])
           | Inr _ \<Rightarrow>
               (case fwRequest fw redirects parsed of
                  Inl e \<Rightarrow> (Inl e, [parsed])
                | Inr r \<Rightarrow>
                    (if is_redirect r
                     then (case assertRedirectBudget (Suc redirects) maxRedirects of
                             Inl e \<Rightarrow> (Inl e, [parsed])
                           | Inr _ \<Rightarrow>
                               (case fwResolve fw (frLocation r) parsed of
                                  None \<Rightarrow> (Inl Fetch_Bad_Location, [parsed])
                                | Some next \<Rightarrow>
                                    (let (x, us) = safeFetch_loop fw required maxRedirects (Suc redirects) next
                                     in (x, parsed # us))))
                     else (Inr r, [parsed])))))"
  by pat_completeness auto
termination
  by (relation "measure (\<lambda>(fw, required, m, redirects, current). m - redirects)")
    (auto simp: assertRedirectBudget_def guard_or_def split: if_splits)

declare safeFetch_loop.simps [simp del]

definition safeFetch ::
  "fetch_world \<Rightarrow> string option \<Rightarrow> nat \<Rightarrow> string \<Rightarrow> (safe_fetch_error + fetch_response) \<times> url list" where
  "safeFetch fw required maxRedirects initialUrl = safeFetch_loop fw required maxRedirects 0 initialUrl"

subsection \<open>Facts of the policies\<close>

lemma strip_trailing_dots_shape:
  "strip_trailing_dots s = [] \<or> last (strip_trailing_dots s) \<noteq> CHR ''.''"
proof (cases "dropWhile (\<lambda>c. c = CHR ''.'') (rev s)")
  case (Cons y ys)
  from dropWhile_head_False [OF Cons] Cons show ?thesis by (simp add: strip_trailing_dots_def)
qed (simp add: strip_trailing_dots_def)

lemma normalizeHostname_shape:
  "normalizeHostname h = [] \<or> last (normalizeHostname h) \<noteq> CHR ''.''"
  unfolding normalizeHostname_def by (rule strip_trailing_dots_shape)

lemma strip_trailing_dots_id: "s = [] \<or> last s \<noteq> CHR ''.'' \<Longrightarrow> strip_trailing_dots s = s"
  by (cases s rule: rev_cases) (simp_all add: strip_trailing_dots_def)

lemma strip_trailing_dots_prefix: "\<exists>n. strip_trailing_dots s = take n s"
proof -
  have "suffix (dropWhile (\<lambda>c. c = CHR ''.'') (rev s)) (rev s)" by (rule suffix_dropWhile)
  then have "prefix (strip_trailing_dots s) s"
    by (simp add: strip_trailing_dots_def suffix_to_prefix)
  then show ?thesis by (metis append_eq_conv_conj prefixE)
qed

lemma normalizeHostname_idem [simp]: "normalizeHostname (normalizeHostname h) = normalizeHostname h"
proof -
  obtain n where "normalizeHostname h = take n (js_lower h)"
    using strip_trailing_dots_prefix by (auto simp: normalizeHostname_def)
  then have "js_lower (normalizeHostname h) = normalizeHostname h"
    by (simp add: js_lower_def take_map)
  then show ?thesis
    using normalizeHostname_shape [of h] by (simp add: normalizeHostname_def [of "normalizeHostname h"] strip_trailing_dots_id)
qed

lemma assertAllowedPort_Inr:
  "assertAllowedPort u = Inr x \<Longrightarrow> uPort u = [] \<or> (uProtocol u = ''http:'' \<and> read_nat (uPort u) = 80)
     \<or> (uProtocol u = ''https:'' \<and> read_nat (uPort u) = 443)"
  by (auto simp: assertAllowedPort_def split: if_splits)

lemma collect_body_spec:
  "collect_body m cs acc = (if length acc \<le> m
     then (if length acc + length (concat cs) \<le> m then Inr (acc @ concat cs) else Inl Fetch_Too_Large)
     else (if cs = [] then Inr acc else Inl Fetch_Too_Large))"
  by (induction cs arbitrary: acc) auto

text \<open>What every hop of the loop guarantees about the URLs that were requested.\<close>

definition hop_ok :: "fetch_world \<Rightarrow> string option \<Rightarrow> url \<Rightarrow> bool" where
  "hop_ok fw required u \<longleftrightarrow> (\<exists>n raw. fwValidate fw n raw = Some u) \<and> assertValidHop u required = Inr ()"

lemma assertRedirectBudget_cases:
  "assertRedirectBudget redirects m = (if redirects \<le> m then Inr () else Inl Fetch_Too_Many_Redirects)"
  by (simp add: assertRedirectBudget_def guard_or_def)

lemma safeFetch_loop_hops:
  "redirects \<le> m \<Longrightarrow> safeFetch_loop fw required m redirects current = (x, us) \<Longrightarrow>
     (\<forall>u \<in> set us. hop_ok fw required u) \<and> length us \<le> Suc m - redirects
   \<and> (\<forall>r. x = Inr r \<longrightarrow> us \<noteq> [] \<and> \<not> is_redirect r \<and> (\<exists>n. fwRequest fw n (last us) = Inr r))"
proof (induction fw required m redirects current arbitrary: x us rule: safeFetch_loop.induct)
  case (1 fw required m redirects current)
  show ?case
  proof (cases "fwValidate fw redirects current")
    case None
    with 1 show ?thesis by (auto simp: safeFetch_loop.simps [of _ _ _ redirects] assertRedirectBudget_cases)
  next
    case (Some parsed)
    show ?thesis
    proof (cases "assertValidHop parsed required")
      case (Inl e)
      with Some 1 show ?thesis by (auto simp: safeFetch_loop.simps [of _ _ _ redirects] assertRedirectBudget_cases)
    next
      case hop: (Inr u)
      have ok: "hop_ok fw required parsed" using Some hop by (auto simp: hop_ok_def)
      show ?thesis
      proof (cases "fwRequest fw redirects parsed")
        case (Inl e)
        with Some hop ok 1(2,3) show ?thesis by (auto simp: safeFetch_loop.simps [of _ _ _ redirects] assertRedirectBudget_cases)
      next
        case (Inr r)
        show ?thesis
        proof (cases "is_redirect r \<and> Suc redirects \<le> m \<and> fwResolve fw (frLocation r) parsed \<noteq> None")
          case False
          with Some hop Inr ok 1(2,3) show ?thesis
            by (auto simp: safeFetch_loop.simps [of _ _ _ redirects] assertRedirectBudget_cases split: if_splits)
        next
          case True
          then obtain nxt where nxt: "fwResolve fw (frLocation r) parsed = Some nxt" by auto
          obtain y vs where rec: "safeFetch_loop fw required m (Suc redirects) nxt = (y, vs)" by fastforce
          have "x = y" "us = parsed # vs"
            using 1(3) Some hop Inr True nxt rec by (auto simp: safeFetch_loop.simps [of _ _ _ redirects] assertRedirectBudget_cases)
          moreover have "(\<forall>u \<in> set vs. hop_ok fw required u) \<and> length vs \<le> Suc m - Suc redirects
              \<and> (\<forall>r. y = Inr r \<longrightarrow> vs \<noteq> [] \<and> \<not> is_redirect r \<and> (\<exists>n. fwRequest fw n (last vs) = Inr r))"
            using 1(1) [OF Some hop Inr _ _ nxt _ rec] True by (auto simp: assertRedirectBudget_cases)
          ultimately show ?thesis using ok True by auto
        qed
      qed
    qed
  qed
qed

subsection \<open>What the policies promise\<close>

text \<open>
  C27. The address policy, as numbers. An address is refused exactly when it is not an address,
  or its 32 or 128 bits fall in one of the listed blocks.
\<close>

theorem blocked_ip_ranges:
  assumes "ip_library_ok lib"
  shows "isBlockedIp lib s \<longleftrightarrow> \<not> isIP lib s
    \<or> (case processIp lib s of V4 w \<Rightarrow> blocked_v4 (unat w) | V6 w \<Rightarrow> blocked_v6 (unat w))"
proof (cases "isIP lib s")
  case True
  then show ?thesis
    using blocked_v4_ranges [OF assms True] blocked_v6_ranges [OF assms True]
    by (cases "processIp lib s") simp_all
qed (simp add: isBlockedIp_def)

text \<open>A library that knows the literals of the policy and two more addresses.\<close>

definition demo_ip_library :: ip_library where
  "demo_ip_library =
     (let table = ip_literals @ [(''169.254.169.254'', V4 0xA9FEA9FE), (''255.255.255.255'', V4 0xFFFFFFFF),
            (''64:ff9b::7f00:1'', V6 0x0064FF9B00000000000000007F000001)];
          parse = (\<lambda>s. case map_of table s of Some a \<Rightarrow> a | None \<Rightarrow> V4 0)
      in \<lparr>isIP = (\<lambda>s. map_of table s \<noteq> None), processIp = parse, parseIp = parse, matchCidr = same_prefix\<rparr>)"

lemma demo_ip_library_ok: "ip_library_ok demo_ip_library"
  by (simp add: ip_library_ok_def demo_ip_library_def ip_literals_def Let_def del: same_prefix.simps)

theorem blocked_ip_ranges_witness:
  "isBlockedIp demo_ip_library ''169.254.169.254'' \<longleftrightarrow> blocked_v4 0xA9FEA9FE"
  using blocked_ip_ranges [OF demo_ip_library_ok, of "''169.254.169.254''"]
  by (simp add: demo_ip_library_def ip_literals_def Let_def)

text \<open>
  The address policy has gaps. The refusal says that private and reserved addresses are not
  accepted; the class E block 240.0.0.0/4 with the broadcast address, and the NAT64 form
  64:ff9b::7f00:1 of the loopback address, are in no block and are accepted.
\<close>

theorem reserved_addresses_pass:
  assumes "ip_library_ok lib" "isIP lib s"
    and "(\<exists>w. processIp lib s = V4 w \<and> 0xF0000000 \<le> unat w)
      \<or> processIp lib s = V6 0x0064FF9B00000000000000007F000001"
  shows "\<not> isBlockedIp lib s"
  using assms(3)
proof (elim disjE exE conjE)
  fix w
  assume w: "processIp lib s = V4 w" "0xF0000000 \<le> unat w"
  then have "\<not> blocked_v4 (unat w)" by (simp add: blocked_v4_def in_block_def)
  with blocked_v4_ranges [OF assms(1,2) w(1)] show ?thesis by simp
next
  assume w: "processIp lib s = V6 0x0064FF9B00000000000000007F000001"
  have "\<not> blocked_v6 0x0064FF9B00000000000000007F000001" by (simp add: blocked_v6_def in_block_def)
  with blocked_v6_ranges [OF assms(1,2) w] show ?thesis by simp
qed

theorem reserved_addresses_pass_witness:
  "\<not> isBlockedIp demo_ip_library ''255.255.255.255''"
  by (rule reserved_addresses_pass [OF demo_ip_library_ok])
    (simp_all add: demo_ip_library_def ip_literals_def Let_def)

text \<open>What the validator has seen of an accepted URL.\<close>

lemma safe_public_url_Inr:
  assumes "assertSafePublicUrl lib parse_url lookup raw = Inr u"
  obtains as where "parse_url raw = Some u" "uProtocol u \<in> {''http:'', ''https:''}"
    "uUsername u = []" "uPassword u = []" "assertAllowedPort u = Inr ()"
    "\<not> isBlockedHostname (normalizeHostname (uHostname u))"
    "lookup (normalizeHostname (uHostname u)) = Inr as" "as \<noteq> []" "\<forall>a \<in> set as. isIP lib a \<and> \<not> isBlockedIp lib a"
proof -
  from assms obtain as where p: "parse_url raw = Some u" "uProtocol u \<in> {''http:'', ''https:''}"
    "uUsername u = []" "uPassword u = []" "assertAllowedPort u = Inr ()"
    "\<not> isBlockedHostname (normalizeHostname (uHostname u))"
    "lookup (normalizeHostname (uHostname u)) = Inr as" "as \<noteq> []" "\<not> list_ex (isBlockedIp lib) as"
    by (auto simp: assertSafePublicUrl_def and_then_Inr_iff Let_def resolveDns_def split: option.splits sum.splits)
  have "isIP lib a \<and> \<not> isBlockedIp lib a" if mem: "a \<in> set as" for a
  proof -
    have "\<not> isBlockedIp lib a" using p(9) mem by (auto simp: list_ex_iff)
    then show ?thesis by (cases "isIP lib a") (simp_all add: isBlockedIp_def)
  qed
  with p that show ?thesis by blast
qed

text \<open>
  C25. What the SSRF check lets through. An accepted URL is the parsed one; it is http or https
  on the default port, without credentials, its hostname is not a local or metadata name, the
  resolver found at least one address and every address it found is outside the blocked blocks.
\<close>

theorem safe_public_url_sound:
  assumes "assertSafePublicUrl lib parse_url lookup raw = Inr u"
  shows "parse_url raw = Some u \<and> uProtocol u \<in> {''http:'', ''https:''} \<and> uUsername u = [] \<and> uPassword u = []
    \<and> (uPort u = [] \<or> uProtocol u = ''http:'' \<and> read_nat (uPort u) = 80
         \<or> uProtocol u = ''https:'' \<and> read_nat (uPort u) = 443)
    \<and> normalizeHostname (uHostname u) \<notin> set blockedHostnames
    \<and> \<not> ends_with (normalizeHostname (uHostname u)) ''.local''
    \<and> (\<exists>as. lookup (normalizeHostname (uHostname u)) = Inr as \<and> as \<noteq> []
         \<and> (\<forall>a \<in> set as. isIP lib a \<and> \<not> isBlockedIp lib a))"
proof -
  from safe_public_url_Inr [OF assms] obtain as where p: "parse_url raw = Some u" "uProtocol u \<in> {''http:'', ''https:''}"
    "uUsername u = []" "uPassword u = []" "assertAllowedPort u = Inr ()"
    "\<not> isBlockedHostname (normalizeHostname (uHostname u))"
    "lookup (normalizeHostname (uHostname u)) = Inr as" "as \<noteq> []" "\<forall>a \<in> set as. isIP lib a \<and> \<not> isBlockedIp lib a" .
  with assertAllowedPort_Inr [OF p(5)] show ?thesis
    by (simp add: isBlockedHostname_def Let_def)
qed

definition demo_url :: url where
  "demo_url = \<lparr>uProtocol = ''https:'', uUsername = [], uPassword = [], uHostname = ''example.com'', uPort = [],
     uPathname = ''/a'', uSearch = [], uHash = []\<rparr>"

theorem safe_public_url_sound_witness:
  "normalizeHostname (uHostname demo_url) \<notin> set blockedHostnames"
proof -
  have "assertSafePublicUrl demo_ip_library (\<lambda>s. Some demo_url) (\<lambda>h. Inr [''255.255.255.255'']) ''https://example.com/a''
      = Inr demo_url"
  proof -
    have "\<not> isBlockedIp demo_ip_library ''255.255.255.255''"
      using blocked_v4_ranges [OF demo_ip_library_ok, of "''255.255.255.255''" "0xFFFFFFFF"]
      by (simp add: demo_ip_library_def ip_literals_def Let_def blocked_v4_def in_block_def)
    moreover have "\<not> isBlockedHostname (normalizeHostname (uHostname demo_url))"
      unfolding isBlockedHostname_def normalizeHostname_def demo_url_def by code_simp
    ultimately show ?thesis
      by (simp add: assertSafePublicUrl_def Let_def resolveDns_def assertAllowedPort_def)
        (simp add: demo_url_def)
  qed
  from safe_public_url_sound [OF this] show ?thesis by blast
qed

text \<open>
  C26. Every hop of a fetch is checked. The fetch ends; it makes at most one request more than
  the allowed redirects; every URL it requested had been validated at some hop, is https and, if
  a hostname is required, is on exactly that hostname; and a returned response is the answer to
  the last request and not a redirect.
\<close>

theorem safe_fetch_hops:
  assumes "safeFetch fw required m initialUrl = (x, us)"
  shows "length us \<le> Suc m
    \<and> (\<forall>u \<in> set us. (\<exists>n raw. fwValidate fw n raw = Some u) \<and> uProtocol u = ''https:''
         \<and> (\<forall>h. required = Some h \<longrightarrow> h \<noteq> [] \<longrightarrow> uHostname u = h))
    \<and> (\<forall>r. x = Inr r \<longrightarrow> us \<noteq> [] \<and> \<not> is_redirect r \<and> (\<exists>n. fwRequest fw n (last us) = Inr r))"
  using safeFetch_loop_hops [of 0 m fw required initialUrl x us] assms
  by (auto simp: safeFetch_def hop_ok_def assertValidHop_def and_then_Inr_iff split: option.splits)

theorem safe_fetch_hops_witness:
  "length (snd (safeFetch \<lparr>fwValidate = (\<lambda>n s. Some demo_url),
      fwRequest = (\<lambda>n u. Inr \<lparr>frStatus = 302, frBody = [], frLocation = ''/b'', frContentEncoding = None\<rparr>),
      fwResolve = (\<lambda>l u. Some ''https://example.com/b'')\<rparr> (Some ''example.com'') 2 ''https://example.com/a'')) \<le> 3"
  using safe_fetch_hops [OF prod.collapse [symmetric]] by (simp add: eval_nat_numeral)

text \<open>
  What becomes a registered domain. An accepted hostname is the ASCII form of the trimmed,
  lowercased input without trailing dots, has at most 253 characters and a dot, and is neither
  local nor a metadata name. The check that it is no IP address looks at the input only: if
  \<open>domainToASCII\<close> turns a name such as \<open>0x7f.1\<close>, which \<open>net.isIP\<close> does not recognise, into
  \<open>127.0.0.1\<close> (as the URL host parser of the platform does), the address is accepted as a hostname.
\<close>

theorem hostname_policy:
  "(normalizeAndValidateHostname lib toASCII raw = Inr h \<longrightarrow>
      toASCII (normalizeHostname (js_trim raw)) = Some h \<and> h \<noteq> [] \<and> length h \<le> 253 \<and> CHR ''.'' \<in> set h
      \<and> \<not> isBlockedHostname h \<and> \<not> isIP lib (normalizeHostname (js_trim raw)))
   \<and> (toASCII ''0x7f.1'' = Some ''127.0.0.1'' \<longrightarrow> \<not> isIP lib ''0x7f.1''
      \<longrightarrow> normalizeAndValidateHostname lib toASCII ''0x7f.1'' = Inr ''127.0.0.1'')"
proof
  show "normalizeAndValidateHostname lib toASCII raw = Inr h \<longrightarrow>
      toASCII (normalizeHostname (js_trim raw)) = Some h \<and> h \<noteq> [] \<and> length h \<le> 253 \<and> CHR ''.'' \<in> set h
      \<and> \<not> isBlockedHostname h \<and> \<not> isIP lib (normalizeHostname (js_trim raw))"
    by (auto simp: normalizeAndValidateHostname_def and_then_Inr_iff Let_def MAX_HOSTNAME_LENGTH_def split: option.splits)
  have trim: "js_trim ''0x7f.1'' = ''0x7f.1''" by code_simp
  have norm: "normalizeHostname ''0x7f.1'' = ''0x7f.1''" by code_simp
  have plain: "\<not> has_port_suffix ''0x7f.1''" "\<not> includes_str ''0x7f.1'' ''://''"
    "\<not> isBlockedHostname ''127.0.0.1''" by code_simp+
  have spaces: "\<not> js_space CHR ''0''" "\<not> js_space CHR ''x''" "\<not> js_space CHR ''7''" "\<not> js_space CHR ''f''"
    "\<not> js_space CHR ''.''" "\<not> js_space CHR ''1''" by code_simp+
  show "toASCII ''0x7f.1'' = Some ''127.0.0.1'' \<longrightarrow> \<not> isIP lib ''0x7f.1''
      \<longrightarrow> normalizeAndValidateHostname lib toASCII ''0x7f.1'' = Inr ''127.0.0.1''"
    by (simp add: normalizeAndValidateHostname_def Let_def trim norm plain spaces MAX_HOSTNAME_LENGTH_def)
qed

theorem hostname_policy_witness:
  "normalizeAndValidateHostname demo_ip_library (\<lambda>s. Some (if s = ''0x7f.1'' then ''127.0.0.1'' else s)) ''0x7f.1''
     = Inr ''127.0.0.1''"
  using hostname_policy [of demo_ip_library "\<lambda>s. Some (if s = ''0x7f.1'' then ''127.0.0.1'' else s)" "''0x7f.1''" "[]"]
  by (simp add: demo_ip_library_def ip_literals_def Let_def)

end
