(* ===== verification/AuditLog.thy ===== *)
theory AuditLog
  imports Sql UrlSecurity "HOL-Library.List_Lexorder" "HOL-Library.Product_Lexorder"
begin

section \<open>The audit log\<close>

text \<open>
  src/lib/audit-events.ts (actions, actors, the metadata allowlist), the list query of
  src/repositories/postgres/audit-repository.ts and the pages of src/services/audit-service.ts.
  PostgreSQL keeps \<open>created_at\<close> in microseconds, a JavaScript \<open>Date\<close> in milliseconds; both units
  are in the model. Rendering a date as ISO text and base64url are the functions of a
  \<open>cursor_codec\<close>.
\<close>

subsection \<open>Actions, actors and metadata\<close>

datatype audit_action =
    Auth_Login_Success | Auth_Login_Failure | Auth_Logout
  | Organization_Invitation_Created | Organization_Invitation_Accepted | Organization_Member_Role_Changed
  | Project_Created | Project_Updated | Project_Deleted_Action
  | Domain_Created | Domain_Verification_Attempted | Domain_Verification_Succeeded | Domain_Verification_Failed
  | Api_Key_Created | Api_Key_Rotated | Api_Key_Revoked
  | Render_Authorization_Rejected
  | Organization_Invitation_Cancelled | Organization_Member_Removed | Domain_Verification_Token_Rotated
  | Sitemap_Discovery_Started | Sitemap_Discovery_Completed | Sitemap_Discovery_Failed
  | Sitemap_Fetch_Started | Sitemap_Fetch_Completed | Sitemap_Fetch_Failed

text \<open>\<open>TenantAuditAction\<close>: every action but those of a login, which has no organization yet.\<close>

definition tenant_audit_action :: "audit_action \<Rightarrow> bool" where
  "tenant_audit_action a \<longleftrightarrow> a \<notin> {Auth_Login_Success, Auth_Login_Failure, Auth_Logout}"

datatype audit_result = Audit_Success | Audit_Failure

datatype audit_actor = User_Actor string | Api_Key_Actor string | System_Actor

record actor_fields =
  actorUserId :: "string option"
  actorApiKeyId :: "string option"

fun resolveActorFields :: "audit_actor \<Rightarrow> actor_fields" where
  "resolveActorFields (User_Actor u) = \<lparr>actorUserId = Some u, actorApiKeyId = None\<rparr>"
| "resolveActorFields (Api_Key_Actor k) = \<lparr>actorUserId = None, actorApiKeyId = Some k\<rparr>"
| "resolveActorFields System_Actor = \<lparr>actorUserId = None, actorApiKeyId = None\<rparr>"

datatype actor_type = User_Type | Api_Key_Type | System_Type

text \<open>A JavaScript string is truthy if it is not empty; \<open>null\<close> is falsy.\<close>

definition truthy :: "string option \<Rightarrow> bool" where
  "truthy v \<longleftrightarrow> v \<noteq> None \<and> v \<noteq> Some []"

text \<open>\<open>None\<close> is the \<open>AuditActorConsistencyError\<close>.\<close>

definition deriveActorType :: "actor_fields \<Rightarrow> actor_type option" where
  "deriveActorType f =
     (if truthy (actorUserId f) \<and> truthy (actorApiKeyId f) then None
      else if truthy (actorUserId f) then Some User_Type
      else if truthy (actorApiKeyId f) then Some Api_Key_Type
      else Some System_Type)"

text \<open>Values of a metadata object; \<open>Meta_Other\<close> is an object, an array or a function.\<close>

datatype meta_value = Meta_String string | Meta_Number int | Meta_Boolean bool | Meta_Null | Meta_Undefined | Meta_Other

definition ALLOWED_METADATA_KEYS :: "string list" where
  "ALLOWED_METADATA_KEYS =
     [''roleBefore'', ''roleAfter'', ''verificationMethod'', ''discoveredCount'', ''sitemapType'',
      ''apiKeyName'', ''apiKeyPrefix'', ''projectStatusBefore'', ''projectStatusAfter'',
      ''organizationStatusBefore'', ''organizationStatusAfter'', ''reasonCode'', ''safeOrigin'']"

datatype metadata_error = Key_Not_Allowed string | Value_Not_Primitive string | Value_Too_Long string

fun meta_primitive :: "meta_value \<Rightarrow> bool" where
  "meta_primitive Meta_Undefined = False"
| "meta_primitive Meta_Other = False"
| "meta_primitive _ = True"

fun meta_too_long :: "meta_value \<Rightarrow> bool" where
  "meta_too_long (Meta_String s) = (length s > 500)"
| "meta_too_long _ = False"

fun buildAuditMetadata :: "(string \<times> meta_value) list \<Rightarrow> metadata_error + (string \<times> meta_value) list" where
  "buildAuditMetadata [] = Inr []"
| "buildAuditMetadata ((key, v) # rest) =
     (if v = Meta_Undefined then buildAuditMetadata rest
      else if key \<notin> set ALLOWED_METADATA_KEYS then Inl (Key_Not_Allowed key)
      else if \<not> meta_primitive v then Inl (Value_Not_Primitive key)
      else if meta_too_long v then Inl (Value_Too_Long key)
      else and_then (buildAuditMetadata rest) (\<lambda>out. Inr ((key, v) # out)))"

text \<open>What is stored: nothing, an object, or some other JSON value.\<close>

datatype stored_metadata = No_Object | Object_Entries "(string \<times> meta_value) list"

fun sanitizeStoredMetadata :: "stored_metadata \<Rightarrow> (string \<times> meta_value) list" where
  "sanitizeStoredMetadata No_Object = []"
| "sanitizeStoredMetadata (Object_Entries es) =
     filter (\<lambda>(key, v). key \<in> set ALLOWED_METADATA_KEYS \<and> meta_primitive v \<and> \<not> meta_too_long v) es"

definition safeOrigin :: "(string \<Rightarrow> url option) \<Rightarrow> string \<Rightarrow> string option" where
  "safeOrigin parse_url raw =
     (case parse_url raw of
        None \<Rightarrow> None
      | Some parsed \<Rightarrow>
          (let isDefaultPort = uPort parsed = []
                 \<or> (uProtocol parsed = ''https:'' \<and> uPort parsed = ''443'')
                 \<or> (uProtocol parsed = ''http:'' \<and> uPort parsed = ''80'');
               host = js_lower (uHostname parsed)
           in Some (if isDefaultPort then uProtocol parsed @ ''//'' @ host
                    else uProtocol parsed @ ''//'' @ host @ '':'' @ uPort parsed)))"

text \<open>What is built is what is read back: the two allowlist checks agree.\<close>

lemma buildAuditMetadata_allowed:
  "buildAuditMetadata es = Inr out \<Longrightarrow>
     \<forall>(k, v) \<in> set out. k \<in> set ALLOWED_METADATA_KEYS \<and> meta_primitive v \<and> \<not> meta_too_long v \<and> (k, v) \<in> set es"
  by (induction es arbitrary: out rule: buildAuditMetadata.induct)
    (force simp: and_then_Inr_iff split: if_splits)+

lemma sanitize_built: "buildAuditMetadata es = Inr out \<Longrightarrow> sanitizeStoredMetadata (Object_Entries out) = out"
  using buildAuditMetadata_allowed [of es out] by (force simp: filter_id_conv)

lemma derive_resolved:
  "(\<And>u. a = User_Actor u \<Longrightarrow> u \<noteq> []) \<Longrightarrow> (\<And>k. a = Api_Key_Actor k \<Longrightarrow> k \<noteq> []) \<Longrightarrow>
     deriveActorType (resolveActorFields a) =
       Some (case a of User_Actor _ \<Rightarrow> User_Type | Api_Key_Actor _ \<Rightarrow> Api_Key_Type | System_Actor \<Rightarrow> System_Type)"
  by (cases a) (auto simp: deriveActorType_def truthy_def)

subsection \<open>Rows and the list query\<close>

record audit_event =
  aeId :: string
  aeOrganizationId :: string
  aeActor :: actor_fields
  aeAction :: audit_action
  aeTargetType :: string
  aeTargetId :: "string option"
  aeResult :: audit_result
  aeErrorCode :: "string option"
  aeRequestId :: "string option"
  aeMetadata :: "(string \<times> meta_value) list option"
  aeCreatedAtMicros :: int

text \<open>\<open>AuditEventCursor\<close>: a \<open>Date\<close> and an id.\<close>

record audit_cursor =
  curCreatedAt :: time_ms
  curId :: string

record audit_query =
  aqOrganizationId :: string
  aqLimit :: nat
  aqCursor :: "audit_cursor option"
  aqAction :: "audit_action option"
  aqResult :: "audit_result option"
  aqTargetType :: "string option"

definition opt_eq :: "'a option \<Rightarrow> 'a \<Rightarrow> bool" where
  "opt_eq want v \<longleftrightarrow> (case want of None \<Rightarrow> True | Some w \<Rightarrow> v = w)"

text \<open>An empty \<open>targetType\<close> is falsy and adds no condition.\<close>

definition audit_conditions :: "audit_query \<Rightarrow> audit_event \<Rightarrow> bool" where
  "audit_conditions q r \<longleftrightarrow> aeOrganizationId r = aqOrganizationId q
     \<and> opt_eq (aqAction q) (aeAction r) \<and> opt_eq (aqResult q) (aeResult r)
     \<and> (truthy (aqTargetType q) \<longrightarrow> opt_eq (aqTargetType q) (aeTargetType r))"

definition audit_key :: "audit_event \<Rightarrow> int \<times> string" where
  "audit_key r = (aeCreatedAtMicros r, aeId r)"

text \<open>The bound parameter is the \<open>Date\<close>: its milliseconds, with no microseconds.\<close>

definition before_cursor :: "audit_cursor option \<Rightarrow> audit_event \<Rightarrow> bool" where
  "before_cursor cursor r \<longleftrightarrow>
     (case cursor of None \<Rightarrow> True
      | Some c \<Rightarrow> aeCreatedAtMicros r < 1000 * curCreatedAt c
          \<or> (aeCreatedAtMicros r = 1000 * curCreatedAt c \<and> aeId r < curId c))"

definition audit_order :: "audit_event list \<Rightarrow> audit_event list" where
  "audit_order rows = rev (sort_key audit_key rows)"

definition listAuditEventsForOrganization :: "audit_event list \<Rightarrow> audit_query \<Rightarrow> audit_event list" where
  "listAuditEventsForOrganization t q =
     take (aqLimit q) (audit_order (select_where (\<lambda>r. audit_conditions q r \<and> before_cursor (aqCursor q) r) t))"

subsection \<open>Cursors and pages\<close>

record cursor_codec =
  isoOf :: "time_ms \<Rightarrow> string"
  dateOf :: "string \<Rightarrow> time_ms option"
  toBase64url :: "string \<Rightarrow> string"
  fromBase64url :: "string \<Rightarrow> string"

text \<open>
  \<open>toISOString\<close> writes a nonempty text without a bar that \<open>new Date\<close> reads back, and decoding
  base64url inverts encoding it.
\<close>

definition codec_ok :: "cursor_codec \<Rightarrow> bool" where
  "codec_ok cd \<longleftrightarrow>
     (\<forall>t. isoOf cd t \<noteq> [] \<and> CHR ''|'' \<notin> set (isoOf cd t) \<and> dateOf cd (isoOf cd t) = Some t)
     \<and> (\<forall>s. fromBase64url cd (toBase64url cd s) = s) \<and> (\<forall>s. s \<noteq> [] \<longrightarrow> toBase64url cd s \<noteq> [])"

definition encodeAuditCursor :: "cursor_codec \<Rightarrow> audit_cursor \<Rightarrow> string" where
  "encodeAuditCursor cd c = toBase64url cd (isoOf cd (curCreatedAt c) @ ''|'' @ curId c)"

text \<open>\<open>None\<close> is the \<open>InvalidAuditCursorError\<close>.\<close>

definition decodeAuditCursor :: "cursor_codec \<Rightarrow> string \<Rightarrow> audit_cursor option" where
  "decodeAuditCursor cd token =
     (let payload = fromBase64url cd token;
          isoTimestamp = takeWhile (\<lambda>c. c \<noteq> CHR ''|'') payload;
          rest = dropWhile (\<lambda>c. c \<noteq> CHR ''|'') payload
      in if rest = [] \<or> isoTimestamp = [] then None
         else case dateOf cd isoTimestamp of
           None \<Rightarrow> None
         | Some d \<Rightarrow> if tl rest = [] then None else Some \<lparr>curCreatedAt = d, curId = tl rest\<rparr>)"

record list_audit_input =
  laOrganizationId :: string
  laLimit :: "int option"
  laCursor :: "string option"
  laAction :: "audit_action option"
  laResult :: "audit_result option"
  laTargetType :: "string option"

record audit_page =
  pgItems :: "audit_event list"
  pgNextCursor :: "string option"

definition DEFAULT_PAGE_LIMIT :: int where "DEFAULT_PAGE_LIMIT = 20"
definition MAX_PAGE_LIMIT :: int where "MAX_PAGE_LIMIT = 100"

definition page_limit :: "int option \<Rightarrow> nat" where
  "page_limit l = nat (min (max (case l of None \<Rightarrow> DEFAULT_PAGE_LIMIT | Some n \<Rightarrow> n) 1) MAX_PAGE_LIMIT)"

definition list_query :: "list_audit_input \<Rightarrow> nat \<Rightarrow> audit_cursor option \<Rightarrow> audit_query" where
  "list_query i n cursor =
     \<lparr>aqOrganizationId = laOrganizationId i, aqLimit = n, aqCursor = cursor, aqAction = laAction i,
      aqResult = laResult i, aqTargetType = laTargetType i\<rparr>"

text \<open>The cursor of a row: \<open>createdAt\<close> has become a \<open>Date\<close>, its microseconds are gone.\<close>

definition row_cursor :: "audit_event \<Rightarrow> audit_cursor" where
  "row_cursor r = \<lparr>curCreatedAt = aeCreatedAtMicros r div 1000, curId = aeId r\<rparr>"

definition audit_list_at :: "cursor_codec \<Rightarrow> audit_event list \<Rightarrow> list_audit_input \<Rightarrow> audit_cursor option \<Rightarrow> audit_page" where
  "audit_list_at cd t i cursor =
     (let limit = page_limit (laLimit i);
          rows = listAuditEventsForOrganization t (list_query i (limit + 1) cursor);
          hasMore = length rows > limit;
          items = (if hasMore then take limit rows else rows)
      in \<lparr>pgItems = items,
          pgNextCursor = (if hasMore \<and> items \<noteq> [] then Some (encodeAuditCursor cd (row_cursor (last items))) else None)\<rparr>)"

definition audit_list :: "cursor_codec \<Rightarrow> audit_event list \<Rightarrow> list_audit_input \<Rightarrow> audit_page option" where
  "audit_list cd t i =
     (if truthy (laCursor i)
      then (case decodeAuditCursor cd (the (laCursor i)) of
              None \<Rightarrow> None
            | Some c \<Rightarrow> Some (audit_list_at cd t i (Some c)))
      else Some (audit_list_at cd t i None))"

text \<open>A client that follows the cursors, for at most \<open>n\<close> pages.\<close>

fun follow_pages :: "nat \<Rightarrow> cursor_codec \<Rightarrow> audit_event list \<Rightarrow> list_audit_input \<Rightarrow> audit_event list option" where
  "follow_pages 0 cd t i = None"
| "follow_pages (Suc n) cd t i =
     (case audit_list cd t i of
        None \<Rightarrow> None
      | Some p \<Rightarrow>
          (case pgNextCursor p of
             None \<Rightarrow> Some (pgItems p)
           | Some c \<Rightarrow> map_option (\<lambda>rest. pgItems p @ rest) (follow_pages n cd t (i\<lparr>laCursor := Some c\<rparr>))))"

lemma decode_encode_cursor:
  assumes "codec_ok cd" "curId c \<noteq> []"
  shows "decodeAuditCursor cd (encodeAuditCursor cd c) = Some c"
proof -
  have "takeWhile (\<lambda>x. x \<noteq> CHR ''|'') (isoOf cd (curCreatedAt c) @ CHR ''|'' # curId c) = isoOf cd (curCreatedAt c)"
    "dropWhile (\<lambda>x. x \<noteq> CHR ''|'') (isoOf cd (curCreatedAt c) @ CHR ''|'' # curId c) = CHR ''|'' # curId c"
    using assms(1) takeWhile_span dropWhile_span unfolding codec_ok_def by (auto simp: takeWhile_append dropWhile_append)
  with assms show ?thesis
    by (simp add: decodeAuditCursor_def encodeAuditCursor_def codec_ok_def Let_def)
qed

lemma encoded_truthy: "codec_ok cd \<Longrightarrow> truthy (Some (encodeAuditCursor cd c))"
  by (simp add: truthy_def encodeAuditCursor_def codec_ok_def)

subsection \<open>Pages of a strictly descending list\<close>

text \<open>Resuming strictly below the last item of a page is dropping that page.\<close>

lemma strict_desc_resume:
  fixes f :: "'a \<Rightarrow> 'b :: linorder"
  assumes "sorted_wrt (\<lambda>x y. f y < f x) L" "0 < n" "n \<le> length L"
  shows "filter (\<lambda>x. f x < f (last (take n L))) L = drop n L"
proof -
  let ?m = "last (take n L)"
  have ne: "take n L \<noteq> []" using assms by (cases L) auto
  have s: "sorted_wrt (\<lambda>x y. f y < f x) (take n L @ drop n L)" using assms(1) by simp
  have "\<forall>x \<in> set (take n L). \<not> f x < f ?m"
  proof
    fix x assume x: "x \<in> set (take n L)"
    have "sorted_wrt (\<lambda>x y. f y < f x) (butlast (take n L) @ [?m])"
      using s ne by (simp add: sorted_wrt_append)
    then have "\<forall>y \<in> set (butlast (take n L)). f ?m < f y"
      by (simp add: sorted_wrt_append)
    moreover have "x \<in> set (butlast (take n L)) \<or> x = ?m"
      using x ne append_butlast_last_id [of "take n L"] by (metis UnE set_append set_ConsD empty_iff empty_set)
    ultimately show "\<not> f x < f ?m" by auto
  qed
  moreover have "\<forall>x \<in> set (drop n L). f x < f ?m"
    using s ne last_in_set unfolding sorted_wrt_append by blast
  ultimately have "filter (\<lambda>x. f x < f ?m) (take n L) = []" "filter (\<lambda>x. f x < f ?m) (drop n L) = drop n L"
    by (simp_all add: filter_empty_conv)
  then have "filter (\<lambda>x. f x < f ?m) (take n L @ drop n L) = drop n L" by (simp only: filter_append append_Nil)
  then show ?thesis by simp
qed

lemma audit_order_set [simp]: "set (audit_order t) = set t"
  by (simp add: audit_order_def)

lemma audit_order_desc:
  "inj_on audit_key (set t) \<Longrightarrow> distinct t \<Longrightarrow> sorted_wrt (\<lambda>x y. audit_key y < audit_key x) (audit_order t)"
proof -
  assume a: "inj_on audit_key (set t)" "distinct t"
  let ?s = "sort_key audit_key t"
  have "distinct (map audit_key ?s)" using a by (simp add: distinct_map)
  moreover have "sorted (map audit_key ?s)" by simp
  ultimately have "sorted_wrt (<) (map audit_key ?s)" using strict_sorted_iff by blast
  then show ?thesis by (simp add: audit_order_def sorted_wrt_rev sorted_wrt_map)
qed

lemma audit_order_filter: "audit_order (filter P t) = filter P (audit_order t)"
  by (simp add: audit_order_def rev_filter flip: filter_sort)

definition wants :: "list_audit_input \<Rightarrow> audit_event \<Rightarrow> bool" where
  "wants i = audit_conditions (list_query i 0 None)"

lemma wants_query [simp]:
  "audit_conditions (list_query i n c) = wants i" "wants (i\<lparr>laCursor := v\<rparr>) = wants i"
  by (auto simp: wants_def audit_conditions_def list_query_def fun_eq_iff)

lemma list_query_simps [simp]: "aqLimit (list_query i n c) = n" "aqCursor (list_query i n c) = c"
  by (simp_all add: list_query_def)

lemma page_limit_pos: "0 < page_limit l" "page_limit l \<le> 100"
  by (auto simp: page_limit_def MAX_PAGE_LIMIT_def)

definition whole_millis :: "audit_event list \<Rightarrow> bool" where
  "whole_millis t \<longleftrightarrow> (\<forall>r \<in> set t. aeCreatedAtMicros r mod 1000 = 0)"

definition audit_table_ok :: "audit_event list \<Rightarrow> bool" where
  "audit_table_ok t \<longleftrightarrow> unique_on aeId t \<and> (\<forall>r \<in> set t. aeId r \<noteq> [])"

lemma before_row_cursor:
  "aeCreatedAtMicros r mod 1000 = 0 \<Longrightarrow> before_cursor (Some (row_cursor r)) x \<longleftrightarrow> audit_key x < audit_key r"
  by (auto simp: before_cursor_def row_cursor_def audit_key_def)

text \<open>What is still to come at a cursor, and the page that is cut from it.\<close>

definition to_come :: "audit_event list \<Rightarrow> list_audit_input \<Rightarrow> audit_cursor option \<Rightarrow> audit_event list" where
  "to_come t i c = audit_order (filter (\<lambda>r. wants i r \<and> before_cursor c r) t)"

lemma to_come_query [simp]: "to_come t (i\<lparr>laCursor := v\<rparr>) c = to_come t i c"
  by (simp add: to_come_def)

lemma audit_list_at_cut:
  "audit_list_at cd t i c =
     \<lparr>pgItems = take (page_limit (laLimit i)) (to_come t i c),
      pgNextCursor = (if page_limit (laLimit i) < length (to_come t i c)
        then Some (encodeAuditCursor cd (row_cursor (last (take (page_limit (laLimit i)) (to_come t i c))))) else None)\<rparr>"
proof -
  let ?k = "page_limit (laLimit i)" and ?L = "to_come t i c"
  have k: "0 < ?k" by (rule page_limit_pos)
  have rows: "listAuditEventsForOrganization t (list_query i (?k + 1) c) = take (Suc ?k) ?L"
    by (simp add: listAuditEventsForOrganization_def select_where_def to_come_def)
  have more: "?k < length (take (Suc ?k) ?L) \<longleftrightarrow> ?k < length ?L" by auto
  have cut: "take ?k (take (Suc ?k) ?L) = take ?k ?L" by (simp add: min_def)
  show ?thesis
  proof (cases "?k < length ?L")
    case True
    with k have "take ?k ?L \<noteq> []" by (cases ?L) auto
    with True more show ?thesis by (simp add: audit_list_at_def Let_def rows [simplified] cut)
  next
    case False
    with more show ?thesis by (simp add: audit_list_at_def Let_def rows [simplified])
  qed
qed

lemma to_come_resume:
  assumes "audit_table_ok t" "whole_millis t" "0 < n" "n \<le> length (to_come t i c)"
  shows "to_come t i (Some (row_cursor (last (take n (to_come t i c))))) = drop n (to_come t i c)"
proof -
  let ?L = "to_come t i c" and ?r = "last (take n (to_come t i c))"
  have inj: "inj_on audit_key (set t)" and d: "distinct t"
    using assms(1) by (auto simp: audit_table_ok_def unique_on_def distinct_map inj_on_def audit_key_def)
  have ne: "take n ?L \<noteq> []" using assms(3,4) by (cases ?L) auto
  have "?r \<in> set ?L" using last_in_set [OF ne] in_set_takeD by fast
  then have rt: "?r \<in> set t" and wr: "before_cursor c ?r" by (auto simp: to_come_def)
  have key: "before_cursor (Some (row_cursor ?r)) x \<longleftrightarrow> audit_key x < audit_key ?r" for x
    using assms(2) rt by (intro before_row_cursor) (simp add: whole_millis_def)
  have down: "before_cursor c x" if "audit_key x < audit_key ?r" for x
    using that wr by (cases c) (auto simp: before_cursor_def audit_key_def)
  have "to_come t i (Some (row_cursor ?r)) = filter (\<lambda>x. audit_key x < audit_key ?r) ?L"
    unfolding to_come_def audit_order_filter [symmetric] filter_filter key [unfolded to_come_def]
    using down [unfolded to_come_def] by (metis (lifting))
  moreover have "sorted_wrt (\<lambda>x y. audit_key y < audit_key x) ?L"
    unfolding to_come_def using inj d by (intro audit_order_desc) (auto intro: inj_on_subset)
  ultimately show ?thesis using strict_desc_resume assms(3,4) by metis
qed

lemma follow_pages_complete:
  assumes "codec_ok cd" "audit_table_ok t" "whole_millis t"
  shows "audit_list cd t i = Some (audit_list_at cd t i c) \<Longrightarrow> length (to_come t i c) < n
    \<Longrightarrow> follow_pages n cd t i = Some (to_come t i c)"
proof (induction n arbitrary: i c)
  case (Suc n)
  let ?k = "page_limit (laLimit i)" and ?L = "to_come t i c"
  have k: "0 < ?k" by (rule page_limit_pos)
  show ?case
  proof (cases "?k < length ?L")
    case False
    with Suc.prems show ?thesis by (simp add: audit_list_at_cut)
  next
    case True
    let ?r = "last (take ?k ?L)"
    let ?i = "i\<lparr>laCursor := Some (encodeAuditCursor cd (row_cursor ?r))\<rparr>"
    have "take ?k ?L \<noteq> []" using True k by (cases ?L) auto
    then have "?r \<in> set ?L" using last_in_set [of "take ?k ?L"] in_set_takeD [of ?r ?k ?L] by blast
    then have "?r \<in> set t" by (simp add: to_come_def)
    then have id: "curId (row_cursor ?r) \<noteq> []"
      using assms(2) by (simp add: row_cursor_def audit_table_ok_def)
    have "audit_list cd t ?i = Some (audit_list_at cd t ?i (Some (row_cursor ?r)))"
      using encoded_truthy [OF assms(1)] decode_encode_cursor [OF assms(1) id] by (simp add: audit_list_def)
    moreover have res: "to_come t i (Some (row_cursor ?r)) = drop ?k ?L"
      using True k by (intro to_come_resume assms) auto
    moreover have "length (drop ?k ?L) < n" using Suc.prems(2) k True by auto
    ultimately have "follow_pages n cd t ?i = Some (drop ?k ?L)"
      using Suc.IH [of ?i "Some (row_cursor ?r)"] by simp
    with Suc.prems(1) True show ?thesis by (simp add: audit_list_at_cut)
  qed
qed simp

subsection \<open>The audit history\<close>

definition history_input :: "string \<Rightarrow> int \<Rightarrow> list_audit_input" where
  "history_input org n =
     \<lparr>laOrganizationId = org, laLimit = Some n, laCursor = None, laAction = None, laResult = None, laTargetType = None\<rparr>"

definition demo_event :: "string \<Rightarrow> int \<Rightarrow> audit_event" where
  "demo_event k t =
     \<lparr>aeId = k, aeOrganizationId = ''org'', aeActor = resolveActorFields (User_Actor ''u''),
      aeAction = Project_Created, aeTargetType = ''project'', aeTargetId = Some ''p'', aeResult = Audit_Success,
      aeErrorCode = None, aeRequestId = None, aeMetadata = None, aeCreatedAtMicros = t\<rparr>"

text \<open>Three events of one millisecond.\<close>

definition busy_millisecond :: "audit_event list" where
  "busy_millisecond = [demo_event ''a'' 1700, demo_event ''b'' 1500, demo_event ''c'' 1200]"

text \<open>
  C40. Following the cursors through the audit history. If the recorded times are whole
  milliseconds, a client that follows \<open>nextCursor\<close> from the first page sees every event of its
  organization that it asked for, newest first, each once, and no event of another organization.
  Recorded times are microseconds, however, and a cursor keeps the milliseconds only: of three
  events within one millisecond, read one per page, the second and the third are never shown.
\<close>

theorem audit_history_pages:
  assumes "codec_ok cd"
  shows "(audit_table_ok t \<and> whole_millis t \<and> laCursor i = None \<longrightarrow>
       follow_pages (Suc (length t)) cd t i = Some (audit_order (filter (wants i) t))
       \<and> (\<forall>r \<in> set (audit_order (filter (wants i) t)). aeOrganizationId r = laOrganizationId i))
    \<and> (\<forall>n \<ge> 2. follow_pages n cd busy_millisecond (history_input ''org'' 1) = Some [demo_event ''a'' 1700])"
proof (intro conjI impI allI)
  assume t: "audit_table_ok t \<and> whole_millis t \<and> laCursor i = None"
  then have "audit_list cd t i = Some (audit_list_at cd t i None)" by (simp add: audit_list_def truthy_def)
  moreover have all: "to_come t i None = audit_order (filter (wants i) t)"
    by (simp add: to_come_def before_cursor_def)
  moreover have "length (to_come t i None) \<le> length t"
    by (simp add: to_come_def audit_order_def)
  ultimately show "follow_pages (Suc (length t)) cd t i = Some (audit_order (filter (wants i) t))"
    using follow_pages_complete [OF assms, of t i None "Suc (length t)"] t by simp
  show "\<forall>r \<in> set (audit_order (filter (wants i) t)). aeOrganizationId r = laOrganizationId i"
    by (auto simp: wants_def audit_conditions_def list_query_def)
next
  fix n :: nat assume "2 \<le> n"
  then have n: "n = Suc (Suc (n - 2))" by simp
  let ?i = "history_input ''org'' 1"
  have k: "page_limit (laLimit ?i) = 1" by (simp add: history_input_def page_limit_def MAX_PAGE_LIMIT_def)
  have w: "wants ?i (demo_event a x)" for a x
    by (simp add: wants_def audit_conditions_def list_query_def history_input_def demo_event_def opt_eq_def truthy_def)
  have first: "to_come busy_millisecond ?i None = busy_millisecond"
    by (simp add: to_come_def busy_millisecond_def w before_cursor_def audit_order_def audit_key_def)
      (simp add: demo_event_def)
  let ?c = "row_cursor (demo_event ''a'' 1700)"
  have c: "?c = \<lparr>curCreatedAt = 1, curId = ''a''\<rparr>" by (simp add: row_cursor_def demo_event_def)
  have rest: "to_come busy_millisecond ?i (Some ?c) = []"
    unfolding c by (simp add: to_come_def busy_millisecond_def before_cursor_def demo_event_def audit_order_def)
  let ?i2 = "?i\<lparr>laCursor := Some (encodeAuditCursor cd ?c)\<rparr>"
  have "audit_list cd busy_millisecond ?i = Some (audit_list_at cd busy_millisecond ?i None)"
    by (simp add: audit_list_def history_input_def truthy_def)
  moreover have "audit_list cd busy_millisecond ?i2 = Some (audit_list_at cd busy_millisecond ?i2 (Some ?c))"
    using encoded_truthy [OF assms] decode_encode_cursor [OF assms, of ?c] by (simp add: audit_list_def c)
  ultimately show "follow_pages n cd busy_millisecond ?i = Some [demo_event ''a'' 1700]"
    by (subst n) (simp add: audit_list_at_cut first rest k, simp add: busy_millisecond_def)
qed

text \<open>A codec that writes times in decimal behind a sign.\<close>

definition demo_codec :: cursor_codec where
  "demo_codec =
     \<lparr>isoOf = (\<lambda>t. (if t < 0 then CHR ''-'' else CHR ''+'') # show_nat (nat \<bar>t\<bar>)),
      dateOf = (\<lambda>s. Some ((if hd s = CHR ''-'' then -1 else 1) * int (read_nat (tl s)))),
      toBase64url = (\<lambda>s. s), fromBase64url = (\<lambda>s. s)\<rparr>"

lemma demo_codec_ok: "codec_ok demo_codec"
  using list_all_notin [OF show_nat_digits, of "CHR ''|''"]
  by (auto simp: codec_ok_def demo_codec_def is_digit_def)

theorem audit_history_pages_witness:
  "follow_pages 3 demo_codec [demo_event ''a'' 1000, demo_event ''b'' 2000] (history_input ''org'' 1)
     = Some [demo_event ''b'' 2000, demo_event ''a'' 1000]"
proof -
  let ?t = "[demo_event ''a'' 1000, demo_event ''b'' 2000]"
  have ok: "audit_table_ok ?t \<and> whole_millis ?t \<and> laCursor (history_input ''org'' 1) = None"
    by (simp add: audit_table_ok_def whole_millis_def unique_on_def demo_event_def history_input_def)
  have "filter (wants (history_input ''org'' 1)) ?t = ?t"
    by (simp add: wants_def audit_conditions_def list_query_def history_input_def demo_event_def opt_eq_def truthy_def)
  moreover have "audit_order ?t = [demo_event ''b'' 2000, demo_event ''a'' 1000]"
    by (simp add: audit_order_def audit_key_def demo_event_def)
  ultimately show ?thesis
    using audit_history_pages [OF demo_codec_ok, of ?t "history_input ''org'' 1"] ok by (simp add: eval_nat_numeral)
qed

end
