(* ===== verification/Permissions.thy ===== *)
theory Permissions
  imports AppErrors
begin

section \<open>Roles and permissions (src/auth/permissions.ts)\<close>

text \<open>
  The permission matrix: three roles, one list of permissions each. Roles are ordered, and the
  matrix is monotone in that order, so a check for a permission is a check for a least role.
\<close>

datatype organization_role = Role_Member | Role_Admin | Role_Owner

text \<open>The rank of a role orders it, which gives the library's lemmas on linear orders.\<close>

primrec role_rank :: "organization_role \<Rightarrow> nat" where
  "role_rank Role_Member = 0"
| "role_rank Role_Admin = 1"
| "role_rank Role_Owner = 2"

lemma role_rank_inject: "role_rank r = role_rank r' \<Longrightarrow> r = r'"
  by (cases r; cases r') simp_all

instantiation organization_role :: linorder
begin

definition less_eq_organization_role :: "organization_role \<Rightarrow> organization_role \<Rightarrow> bool" where
  "r \<le> r' \<longleftrightarrow> role_rank r \<le> role_rank r'"

definition less_organization_role :: "organization_role \<Rightarrow> organization_role \<Rightarrow> bool" where
  "r < r' \<longleftrightarrow> role_rank r < role_rank r'"

instance
  by standard (auto simp: less_eq_organization_role_def less_organization_role_def dest: role_rank_inject)

end

datatype organization_permission =
    organization_read | organization_update | organization_delete
  | member_list | member_role_change | member_remove
  | invitation_create_member | invitation_create_admin | invitation_list | invitation_cancel
  | project_read | project_create | project_update | project_delete
  | domain_read | domain_create | domain_update | domain_verify | domain_rotate_token
  | sitemap_read | sitemap_discover | sitemap_fetch
  | api_key_create | api_key_list | api_key_revoke | api_key_rotate
  | audit_read

definition OWNER_PERMISSIONS :: "organization_permission list" where
  "OWNER_PERMISSIONS =
     [organization_read, organization_update, organization_delete, member_list, member_role_change,
      member_remove, invitation_create_member, invitation_create_admin, invitation_list,
      invitation_cancel, project_read, project_create, project_update, project_delete, domain_read,
      domain_create, domain_update, domain_verify, domain_rotate_token, sitemap_read,
      sitemap_discover, sitemap_fetch, api_key_create, api_key_list, api_key_revoke, api_key_rotate,
      audit_read]"

definition ADMIN_PERMISSIONS :: "organization_permission list" where
  "ADMIN_PERMISSIONS =
     [organization_read, member_list, invitation_create_member, invitation_create_admin,
      invitation_list, invitation_cancel, project_read, project_create, project_update,
      project_delete, domain_read, domain_create, domain_update, domain_verify, domain_rotate_token,
      sitemap_read, sitemap_discover, sitemap_fetch, api_key_create, api_key_list, api_key_revoke,
      api_key_rotate, audit_read]"

definition MEMBER_PERMISSIONS :: "organization_permission list" where
  "MEMBER_PERMISSIONS = [organization_read, member_list, project_read, domain_read, sitemap_read]"

fun MATRIX :: "organization_role \<Rightarrow> organization_permission list" where
  "MATRIX Role_Owner = OWNER_PERMISSIONS"
| "MATRIX Role_Admin = ADMIN_PERMISSIONS"
| "MATRIX Role_Member = MEMBER_PERMISSIONS"

definition roleHasPermission :: "organization_role \<Rightarrow> organization_permission \<Rightarrow> bool" where
  "roleHasPermission role permission \<longleftrightarrow> permission \<in> set (MATRIX role)"

datatype invitation_role = Invite_Admin | Invite_Member

definition roleCanInvite :: "organization_role \<Rightarrow> invitation_role \<Rightarrow> bool" where
  "roleCanInvite role targetRole =
     (if targetRole = Invite_Admin then roleHasPermission role invitation_create_admin
      else roleHasPermission role invitation_create_member)"

lemmas matrix_defs = roleHasPermission_def OWNER_PERMISSIONS_def ADMIN_PERMISSIONS_def MEMBER_PERMISSIONS_def

text \<open>The least role that has a permission.\<close>

definition least_role :: "organization_permission \<Rightarrow> organization_role" where
  "least_role p =
     (if p \<in> {organization_read, member_list, project_read, domain_read, sitemap_read} then Role_Member
      else if p \<in> {organization_update, organization_delete, member_role_change, member_remove} then Role_Owner
      else Role_Admin)"

lemma permission_threshold: "roleHasPermission r p \<longleftrightarrow> least_role p \<le> r"
  by (cases r; cases p)
    (simp_all add: matrix_defs least_role_def less_eq_organization_role_def)

lemma permission_mono: "roleHasPermission r p \<Longrightarrow> r \<le> r' \<Longrightarrow> roleHasPermission r' p"
  by (simp add: permission_threshold)

subsection \<open>Roles as the database stores them\<close>

fun role_name :: "organization_role \<Rightarrow> string" where
  "role_name Role_Owner = ''owner''"
| "role_name Role_Admin = ''admin''"
| "role_name Role_Member = ''member''"

fun invitation_role_name :: "invitation_role \<Rightarrow> string" where
  "invitation_role_name Invite_Admin = ''admin''"
| "invitation_role_name Invite_Member = ''member''"

text \<open>\<open>membership.role as OrganizationRole\<close> is a cast; for any other text \<open>MATRIX[role]\<close> is undefined.\<close>

definition role_of :: "string \<Rightarrow> organization_role option" where
  "role_of s = (if s = ''owner'' then Some Role_Owner else if s = ''admin'' then Some Role_Admin
     else if s = ''member'' then Some Role_Member else None)"

lemma role_of_name [simp]: "role_of (role_name r) = Some r"
  by (cases r) (simp_all add: role_of_def)

lemma role_of_Some: "role_of s = Some r \<longleftrightarrow> s = role_name r"
  by (cases r) (auto simp: role_of_def)

lemma invitation_role_not_owner: "role_of (invitation_role_name r) \<noteq> Some Role_Owner"
  by (cases r) (simp_all add: role_of_def)

end
