(* ===== verification/TenantDb.thy ===== *)
theory TenantDb
  imports AuditLog Permissions
begin

section \<open>The tenant tables and audited transactions\<close>

text \<open>
  The rows of src/db/schema.ts that the management routes work on, the database as a record of
  tables, \<open>insertAuditEventRow\<close> and \<open>runAuditedTransaction\<close> of
  src/repositories/postgres/audit-repository.ts, and the part of the database that belongs to
  one organization. Ids in \<open>uuid\<close> columns are taken in their canonical text form.
\<close>

subsection \<open>Rows\<close>

datatype project_status = Project_Active | Project_Suspended | Project_Deleted
datatype domain_status = Domain_Pending | Domain_Verified | Domain_Failed | Domain_Suspended
datatype verification_method = Dns_Txt | Html_File
datatype sitemap_source_type = Source_Robots | Source_Sitemap | Source_Sitemap_Index | Source_Manual
datatype sitemap_source_status = Source_Pending | Source_Success | Source_Failed | Source_Disabled
datatype discovered_url_status = Url_Active | Url_Excluded | Url_Invalid
datatype organization_status = Organization_Active | Organization_Suspended
datatype invitation_status = Invitation_Pending | Invitation_Accepted | Invitation_Revoked | Invitation_Expired

record user_row =
  usId :: string
  usEmail :: string
  usName :: string

record organization_row =
  ogId :: string
  ogName :: string
  ogSlug :: string
  ogStatus :: organization_status

record member_row =
  mbId :: string
  mbOrganizationId :: string
  mbUserId :: string
  mbRole :: string
  mbCreatedAt :: time_ms

record project_row =
  pjId :: string
  pjOrganizationId :: string
  pjName :: string
  pjSlug :: string
  pjStatus :: project_status
  pjCreatedAt :: time_ms
  pjUpdatedAt :: time_ms

record domain_row =
  dmId :: string
  dmProjectId :: string
  dmHostname :: string
  dmNormalizedHostname :: string
  dmStatus :: domain_status
  dmVerificationMethod :: verification_method
  dmVerificationTokenHash :: string
  dmVerifiedAt :: "time_ms option"
  dmLastVerificationAttemptAt :: "time_ms option"
  dmVerificationFailureCount :: int
  dmCreatedAt :: time_ms
  dmUpdatedAt :: time_ms

record sitemap_source_row =
  ssId :: string
  ssDomainId :: string
  ssUrl :: string
  ssNormalizedUrl :: string
  ssType :: sitemap_source_type
  ssStatus :: sitemap_source_status
  ssLastFetchedAt :: "time_ms option"
  ssLastHttpStatus :: "int option"
  ssLastErrorCode :: "string option"
  ssEtag :: "string option"
  ssLastModified :: "string option"
  ssDiscoveredUrlCount :: int
  ssCreatedAt :: time_ms
  ssUpdatedAt :: time_ms

record discovered_url_row =
  duId :: string
  duDomainId :: string
  duSitemapSourceId :: "string option"
  duUrl :: string
  duNormalizedUrl :: string
  duPath :: string
  duStatus :: discovered_url_status
  duLastmod :: "string option"
  duPriority :: "string option"
  duChangefreq :: "string option"
  duFirstDiscoveredAt :: time_ms
  duLastDiscoveredAt :: time_ms
  duUpdatedAt :: time_ms

record invitation_row =
  inId :: string
  inOrganizationId :: string
  inEmail :: string
  inRole :: invitation_role
  inTokenHash :: string
  inStatus :: invitation_status
  inInvitedByUserId :: string
  inAcceptedByUserId :: "string option"
  inExpiresAt :: time_ms
  inAcceptedAt :: "time_ms option"
  inCreatedAt :: time_ms
  inUpdatedAt :: time_ms

text \<open>
  A JSON value as \<open>JSON.parse\<close> returns it (a number is an integer or some other number); the
  metadata column of a key is one, or no JSON at all.
  Of the columns of \<open>apikey\<close>, those that only Better Auth reads (\<open>configId\<close>, the refill and request
  counters, \<open>permissions\<close>) are left out.
\<close>

datatype json =
    Json_Null
  | Json_Bool bool
  | Json_Number int
  | Json_Fraction
  | Json_String string
  | Json_Array "json list"
  | Json_Object "(string \<times> json) list"

record api_key_row =
  akId :: string
  akName :: "string option"
  akPrefix :: "string option"
  akStart :: "string option"
  akKey :: string
  akReferenceId :: string
  akEnabled :: "bool option"
  akExpiresAt :: "time_ms option"
  akCreatedAt :: time_ms
  akUpdatedAt :: time_ms
  akLastRequest :: "time_ms option"
  akRateLimitMax :: int
  akRateLimitTimeWindow :: int
  akMetadata :: "json option"

record tenant_db =
  dbUsers :: "user_row list"
  dbOrganizations :: "organization_row list"
  dbMembers :: "member_row list"
  dbProjects :: "project_row list"
  dbDomains :: "domain_row list"
  dbSources :: "sitemap_source_row list"
  dbUrls :: "discovered_url_row list"
  dbInvitations :: "invitation_row list"
  dbApiKeys :: "api_key_row list"
  dbAudit :: "audit_event list"
  dbAuditMetrics :: "(audit_action \<times> audit_result) list"

text \<open>
  What a statement takes from outside: the clock, the ids the database or \<open>crypto\<close> will draw,
  the microseconds of the audit row, and whether the audit insert fails for a reason of its own
  (a lost connection, a statement timeout). The last field is no table: the counters of
  \<open>incrementAuditEvent\<close> are outside the transaction.
\<close>

record tx_env =
  txNow :: time_ms
  txNewId :: string
  txAuditId :: string
  txAuditMicros :: int
  txAuditFails :: bool

datatype tenant_error =
    App app_error_code
  | Db db_error
  | Metadata metadata_error
  | Audit_Insert_Lost
  | Type_Error
  | Auth_Error
  | Zod_Error

subsection \<open>Audited transactions\<close>

record create_audit_event_input =
  caOrganizationId :: string
  caActor :: actor_fields
  caAction :: audit_action
  caTargetType :: string
  caTargetId :: "string option"
  caResult :: audit_result
  caErrorCode :: "string option"
  caRequestId :: "string option"
  caMetadata :: "(string \<times> meta_value) list option"

definition audit_row :: "tx_env \<Rightarrow> create_audit_event_input \<Rightarrow> audit_event" where
  "audit_row env i =
     \<lparr>aeId = txAuditId env, aeOrganizationId = caOrganizationId i, aeActor = caActor i, aeAction = caAction i,
      aeTargetType = caTargetType i, aeTargetId = caTargetId i, aeResult = caResult i,
      aeErrorCode = caErrorCode i, aeRequestId = caRequestId i, aeMetadata = caMetadata i,
      aeCreatedAtMicros = txAuditMicros env\<rparr>"

definition has_org :: "tenant_db \<Rightarrow> string \<Rightarrow> bool" where
  "has_org db org \<longleftrightarrow> list_ex (\<lambda>o'. ogId o' = org) (dbOrganizations db)"

definition has_user :: "tenant_db \<Rightarrow> string \<Rightarrow> bool" where
  "has_user db u \<longleftrightarrow> list_ex (\<lambda>r. usId r = u) (dbUsers db)"

text \<open>The insert with the two foreign keys and the primary key of \<open>audit_events\<close>.\<close>

definition insertAuditEventRow ::
  "tx_env \<Rightarrow> create_audit_event_input \<Rightarrow> tenant_db \<Rightarrow> tenant_error + tenant_db" where
  "insertAuditEventRow env i db =
     (if txAuditFails env then Inl Audit_Insert_Lost
      else if \<not> has_org db (caOrganizationId i) then Inl (Db Foreign_Key_Violation)
      else if (case actorUserId (caActor i) of None \<Rightarrow> False | Some u \<Rightarrow> \<not> has_user db u) then Inl (Db Foreign_Key_Violation)
      else case insert_unique aeId (audit_row env i) (dbAudit db) of
        Inl e \<Rightarrow> Inl (Db e)
      | Inr t \<Rightarrow> Inr (db\<lparr>dbAudit := t\<rparr>))"

text \<open>
  \<open>db.transaction(fn)\<close> and the counters around it. A body returns its result, the state of the
  transaction and the action it has announced with \<open>setAuditedAction\<close>; a throw rolls back.
\<close>

type_synonym 'a tx_body = "tenant_db \<Rightarrow> (tenant_error + 'a) \<times> tenant_db \<times> audit_action option"

definition count_audit :: "audit_action option \<Rightarrow> audit_result \<Rightarrow> tenant_db \<Rightarrow> tenant_db" where
  "count_audit a res db =
     (case a of None \<Rightarrow> db | Some act \<Rightarrow> db\<lparr>dbAuditMetrics := dbAuditMetrics db @ [(act, res)]\<rparr>)"

definition runAuditedTransaction :: "'a tx_body \<Rightarrow> tenant_db \<Rightarrow> (tenant_error + 'a) \<times> tenant_db" where
  "runAuditedTransaction body db =
     (case body db of
        (Inl e, _, a) \<Rightarrow> (Inl e, count_audit a Audit_Failure db)
      | (Inr x, db', a) \<Rightarrow> (Inr x, count_audit a Audit_Success db'))"

text \<open>
  The end every audited body shares: announce the action, build the metadata (which may throw),
  insert the row, return.
\<close>

definition finish_audited ::
  "tx_env \<Rightarrow> create_audit_event_input \<Rightarrow> (metadata_error + (string \<times> meta_value) list) option \<Rightarrow> 'a \<Rightarrow> 'a tx_body" where
  "finish_audited env i meta x db =
     (case (case meta of None \<Rightarrow> Inr None | Some (Inl e) \<Rightarrow> Inl e | Some (Inr m) \<Rightarrow> Inr (Some m)) of
        Inl e \<Rightarrow> (Inl (Metadata e), db, Some (caAction i))
      | Inr m \<Rightarrow>
          (case insertAuditEventRow env (i\<lparr>caMetadata := m\<rparr>) db of
             Inl e \<Rightarrow> (Inl e, db, Some (caAction i))
           | Inr db' \<Rightarrow> (Inr x, db', Some (caAction i))))"

text \<open>The audit input of a successful action of a user on a target.\<close>

definition user_event :: "string \<Rightarrow> string \<Rightarrow> string option \<Rightarrow> audit_action \<Rightarrow> string \<Rightarrow> string \<Rightarrow> create_audit_event_input" where
  "user_event org actor request action targetType targetId =
     \<lparr>caOrganizationId = org, caActor = \<lparr>actorUserId = Some actor, actorApiKeyId = None\<rparr>, caAction = action,
      caTargetType = targetType, caTargetId = Some targetId, caResult = Audit_Success, caErrorCode = None,
      caRequestId = request, caMetadata = None\<rparr>"

lemma user_event_simps [simp]:
  "caOrganizationId (user_event org actor request a tt ti) = org"
  "caAction (user_event org actor request a tt ti) = a"
  by (simp_all add: user_event_def)

subsection \<open>What belongs to an organization\<close>

text \<open>
  An inner join up to \<open>projects.organization_id\<close>: a project belongs to the organization in its
  row, a domain to that of its project, sources and discovered URLs to that of their domain.
\<close>

definition project_in :: "tenant_db \<Rightarrow> string \<Rightarrow> string \<Rightarrow> bool" where
  "project_in db org pid \<longleftrightarrow> list_ex (\<lambda>p. pjId p = pid \<and> pjOrganizationId p = org) (dbProjects db)"

definition domain_in :: "tenant_db \<Rightarrow> string \<Rightarrow> string \<Rightarrow> bool" where
  "domain_in db org did \<longleftrightarrow> list_ex (\<lambda>d. dmId d = did \<and> project_in db org (dmProjectId d)) (dbDomains db)"

record tenant_view =
  vwOrganization :: "organization_row list"
  vwMembers :: "member_row list"
  vwProjects :: "project_row list"
  vwDomains :: "domain_row list"
  vwSources :: "sitemap_source_row list"
  vwUrls :: "discovered_url_row list"
  vwInvitations :: "invitation_row list"
  vwApiKeys :: "api_key_row list"
  vwAudit :: "audit_event list"

definition org_view :: "string \<Rightarrow> tenant_db \<Rightarrow> tenant_view" where
  "org_view org db =
     \<lparr>vwOrganization = filter (\<lambda>r. ogId r = org) (dbOrganizations db),
      vwMembers = filter (\<lambda>r. mbOrganizationId r = org) (dbMembers db),
      vwProjects = filter (\<lambda>r. pjOrganizationId r = org) (dbProjects db),
      vwDomains = filter (\<lambda>r. project_in db org (dmProjectId r)) (dbDomains db),
      vwSources = filter (\<lambda>r. domain_in db org (ssDomainId r)) (dbSources db),
      vwUrls = filter (\<lambda>r. domain_in db org (duDomainId r)) (dbUrls db),
      vwInvitations = filter (\<lambda>r. inOrganizationId r = org) (dbInvitations db),
      vwApiKeys = filter (\<lambda>r. akReferenceId r = org) (dbApiKeys db),
      vwAudit = filter (\<lambda>r. aeOrganizationId r = org) (dbAudit db)\<rparr>"

text \<open>The primary keys, the unique indexes and the reference from a member to its user.\<close>

definition hostname_unique :: "domain_row list \<Rightarrow> bool" where
  "hostname_unique t \<longleftrightarrow> unique_on dmNormalizedHostname (filter (\<lambda>d. dmStatus d \<noteq> Domain_Suspended) t)"

definition db_ok :: "tenant_db \<Rightarrow> bool" where
  "db_ok db \<longleftrightarrow> unique_on pjId (dbProjects db) \<and> unique_on pjSlug (dbProjects db)
     \<and> unique_on dmId (dbDomains db) \<and> hostname_unique (dbDomains db)
     \<and> unique_on mbId (dbMembers db) \<and> unique_on ssId (dbSources db)
     \<and> unique_on (\<lambda>s. (ssDomainId s, ssNormalizedUrl s)) (dbSources db)
     \<and> unique_on duId (dbUrls db) \<and> unique_on (\<lambda>u. (duDomainId u, duNormalizedUrl u)) (dbUrls db)
     \<and> unique_on inId (dbInvitations db) \<and> unique_on inTokenHash (dbInvitations db)
     \<and> unique_on akId (dbApiKeys db) \<and> unique_on aeId (dbAudit db)
     \<and> (\<forall>m \<in> set (dbMembers db). has_user db (mbUserId m))"

text \<open>The joins read no more than the projects, and the domains, of the organization.\<close>

lemma project_in_filter:
  "project_in db org pid \<longleftrightarrow> list_ex (\<lambda>p. pjId p = pid) (filter (\<lambda>r. pjOrganizationId r = org) (dbProjects db))"
  by (auto simp: project_in_def list_ex_iff)

lemma project_in_view:
  "vwProjects (org_view org db') = vwProjects (org_view org db) \<Longrightarrow> project_in db' org = project_in db org"
  by (auto simp: project_in_filter org_view_def)

lemma domain_in_filter:
  "domain_in db org did \<longleftrightarrow> list_ex (\<lambda>d. dmId d = did) (filter (\<lambda>r. project_in db org (dmProjectId r)) (dbDomains db))"
  by (auto simp: domain_in_def list_ex_iff)

lemma domain_in_view:
  "vwDomains (org_view org db') = vwDomains (org_view org db) \<Longrightarrow> domain_in db' org = domain_in db org"
  by (auto simp: domain_in_filter org_view_def fun_eq_iff)

lemma find_filter: "(\<And>x. x \<in> set xs \<Longrightarrow> P x \<Longrightarrow> Q x) \<Longrightarrow> find P xs = find P (filter Q xs)"
  by (induction xs) auto

lemma find_filter_conj: "find (\<lambda>x. P x \<and> Q x) xs = find P (filter Q xs)"
  by (induction xs) auto

lemma filter_update_other:
  "(\<And>r. r \<in> set t \<Longrightarrow> P r \<Longrightarrow> \<not> Q r \<and> \<not> Q (f r)) \<Longrightarrow> filter Q (snd (update_where P f t)) = filter Q t"
  by (induction t) (auto simp: update_where_def)

subsection \<open>Lemmas on transactions\<close>

lemma count_audit_simps [simp]:
  "dbUsers (count_audit a r db) = dbUsers db" "dbOrganizations (count_audit a r db) = dbOrganizations db"
  "dbMembers (count_audit a r db) = dbMembers db" "dbProjects (count_audit a r db) = dbProjects db"
  "dbDomains (count_audit a r db) = dbDomains db" "dbSources (count_audit a r db) = dbSources db"
  "dbUrls (count_audit a r db) = dbUrls db" "dbInvitations (count_audit a r db) = dbInvitations db"
  "dbApiKeys (count_audit a r db) = dbApiKeys db" "dbAudit (count_audit a r db) = dbAudit db"
  by (simp_all add: count_audit_def split: option.splits)

lemma count_audit_view [simp]: "org_view org (count_audit a r db) = org_view org db"
  by (simp add: org_view_def project_in_def domain_in_def)

lemma has_user_tables [simp]:
  "has_user (db\<lparr>dbProjects := t1\<rparr>) = has_user db" "has_user (db\<lparr>dbDomains := t2\<rparr>) = has_user db"
  "has_user (db\<lparr>dbSources := t3\<rparr>) = has_user db" "has_user (db\<lparr>dbUrls := t4\<rparr>) = has_user db"
  "has_user (db\<lparr>dbMembers := t5\<rparr>) = has_user db" "has_user (db\<lparr>dbInvitations := t6\<rparr>) = has_user db"
  "has_user (db\<lparr>dbApiKeys := t7\<rparr>) = has_user db" "has_user (db\<lparr>dbAudit := t8\<rparr>) = has_user db"
  "has_user (count_audit a r db) = has_user db"
  by (simp_all add: has_user_def fun_eq_iff)

lemma count_audit_ok [simp]: "db_ok (count_audit a r db) = db_ok db"
  by (simp add: db_ok_def)

text \<open>Whatever the start and every successful body have, the transaction has.\<close>

lemma audited_keeps:
  assumes "R db" "\<And>x db1 a. body db = (Inr x, db1, a) \<Longrightarrow> R db1" "\<And>a r d. R (count_audit a r d) = R d"
  shows "R (snd (runAuditedTransaction body db))"
  using assms by (auto simp: runAuditedTransaction_def split: prod.splits sum.splits)

lemma audited_Inr:
  "runAuditedTransaction body db = (Inr x, db') \<longleftrightarrow>
     (\<exists>db1 a. body db = (Inr x, db1, a) \<and> db' = count_audit a Audit_Success db1)"
  by (auto simp: runAuditedTransaction_def split: prod.splits sum.splits)

lemma audited_Inl:
  "runAuditedTransaction body db = (Inl e, db') \<longleftrightarrow>
     (\<exists>db1 a. body db = (Inl e, db1, a) \<and> db' = count_audit a Audit_Failure db)"
  by (auto simp: runAuditedTransaction_def split: prod.splits sum.splits)

lemma insertAudit_Inr:
  "insertAuditEventRow env i db = Inr db' \<longleftrightarrow>
     \<not> txAuditFails env \<and> has_org db (caOrganizationId i)
     \<and> (\<forall>u. actorUserId (caActor i) = Some u \<longrightarrow> has_user db u)
     \<and> row_at aeId (dbAudit db) (txAuditId env) = None
     \<and> db' = db\<lparr>dbAudit := dbAudit db @ [audit_row env i]\<rparr>"
  by (auto simp: insertAuditEventRow_def insert_unique_def audit_row_def split: option.splits)

lemma finish_audited_Inr:
  assumes "finish_audited env i meta x db = (Inr y, db', a)"
  shows "y = x \<and> a = Some (caAction i) \<and> \<not> txAuditFails env
     \<and> (\<exists>m. db' = db\<lparr>dbAudit := dbAudit db @ [audit_row env (i\<lparr>caMetadata := m\<rparr>)]\<rparr>)
     \<and> row_at aeId (dbAudit db) (txAuditId env) = None"
  using assms
  by (auto simp: finish_audited_def insertAudit_Inr split: option.splits sum.splits)

lemma view_audit_other:
  "aeOrganizationId r \<noteq> org \<Longrightarrow> org_view org (db\<lparr>dbAudit := dbAudit db @ [r]\<rparr>) = org_view org db"
  by (simp add: org_view_def project_in_def domain_in_def)

lemma finish_audited_view:
  assumes "finish_audited env i meta x db = (Inr y, db', a)" "caOrganizationId i \<noteq> org"
  shows "org_view org db' = org_view org db"
  using finish_audited_Inr [OF assms(1)] assms(2)
  by (auto intro!: view_audit_other simp: audit_row_def)

lemma finish_audited_ok:
  assumes "finish_audited env i meta x db = (Inr y, db', a)" "db_ok db"
  shows "db_ok db'"
proof -
  obtain m where m: "db' = db\<lparr>dbAudit := dbAudit db @ [audit_row env (i\<lparr>caMetadata := m\<rparr>)]\<rparr>"
    and "row_at aeId (dbAudit db) (txAuditId env) = None"
    using finish_audited_Inr [OF assms(1)] by blast
  then have "aeId (audit_row env (i\<lparr>caMetadata := m\<rparr>)) \<notin> aeId ` set (dbAudit db)"
    using row_at_NoneD [of aeId] by (simp add: audit_row_def)
  with assms(2) show ?thesis by (simp add: m db_ok_def unique_on_append)
qed

subsection \<open>Changes confined to one organization\<close>

text \<open>
  The tables stay well formed, no other organization's part of them is touched, and users are
  only added.
\<close>

definition more_users :: "tenant_db \<Rightarrow> tenant_db \<Rightarrow> bool" where
  "more_users db db' \<longleftrightarrow> (\<exists>new. dbUsers db' = dbUsers db @ new)"

definition scoped :: "string \<Rightarrow> tenant_db \<Rightarrow> tenant_db \<Rightarrow> bool" where
  "scoped org db db' \<longleftrightarrow> db_ok db' \<and> more_users db db' \<and> (\<forall>B. B \<noteq> org \<longrightarrow> org_view B db' = org_view B db)"

lemma more_users_refl [simp]: "more_users db db"
  by (simp add: more_users_def)

lemma more_users_same: "dbUsers db' = dbUsers db \<Longrightarrow> more_users db db'"
  by (simp add: more_users_def)

lemma more_users_trans: "more_users db d1 \<Longrightarrow> more_users d1 d2 \<Longrightarrow> more_users db d2"
  by (auto simp: more_users_def)

lemma more_users_tables [simp]:
  "more_users db (d\<lparr>dbProjects := t1\<rparr>) = more_users db d" "more_users db (d\<lparr>dbDomains := t2\<rparr>) = more_users db d"
  "more_users db (d\<lparr>dbSources := t3\<rparr>) = more_users db d" "more_users db (d\<lparr>dbUrls := t4\<rparr>) = more_users db d"
  "more_users db (d\<lparr>dbMembers := t5\<rparr>) = more_users db d" "more_users db (d\<lparr>dbInvitations := t6\<rparr>) = more_users db d"
  "more_users db (d\<lparr>dbApiKeys := t7\<rparr>) = more_users db d" "more_users db (d\<lparr>dbAudit := t8\<rparr>) = more_users db d"
  "more_users db (count_audit a r d) = more_users db d"
  by (simp_all add: more_users_def)

lemma scoped_refl: "db_ok db \<Longrightarrow> scoped org db db"
  by (simp add: scoped_def)

lemma scoped_count [simp]: "scoped org db (count_audit a r d) = scoped org db d"
  by (simp add: scoped_def)

lemma scoped_trans: "scoped org db d1 \<Longrightarrow> scoped org d1 d2 \<Longrightarrow> scoped org db d2"
  by (auto simp: scoped_def intro: more_users_trans)

lemma scoped_audited:
  assumes "db_ok db" "\<And>x d a. body db = (Inr x, d, a) \<Longrightarrow> scoped org db d"
  shows "scoped org db (snd (runAuditedTransaction body db))"
  by (rule audited_keeps) (use assms scoped_refl in auto)

lemma scoped_finish:
  assumes "finish_audited env i meta x d1 = (Inr y, d2, a)" "caOrganizationId i = org" "scoped org db d1"
  shows "scoped org db d2"
proof -
  have "org_view B d2 = org_view B db" if "B \<noteq> org" for B
    using finish_audited_view [OF assms(1), of B] assms(2,3) that by (simp add: scoped_def)
  moreover have "db_ok d2" using finish_audited_ok [OF assms(1)] assms(3) by (simp add: scoped_def)
  moreover have "more_users db d2" using finish_audited_Inr [OF assms(1)] assms(3) by (auto simp: scoped_def)
  ultimately show ?thesis by (simp add: scoped_def)
qed

text \<open>One table at a time.\<close>

lemma view_projectsI:
  assumes "filter (\<lambda>r. pjOrganizationId r = B) t = filter (\<lambda>r. pjOrganizationId r = B) (dbProjects db)"
  shows "org_view B (db\<lparr>dbProjects := t\<rparr>) = org_view B db"
proof -
  have p: "project_in (db\<lparr>dbProjects := t\<rparr>) B = project_in db B"
    using assms by (simp add: project_in_filter fun_eq_iff)
  then have "domain_in (db\<lparr>dbProjects := t\<rparr>) B = domain_in db B"
    by (simp add: domain_in_def fun_eq_iff)
  with assms p show ?thesis by (simp add: org_view_def)
qed

lemma view_domainsI:
  assumes "filter (\<lambda>r. project_in db B (dmProjectId r)) t = filter (\<lambda>r. project_in db B (dmProjectId r)) (dbDomains db)"
  shows "org_view B (db\<lparr>dbDomains := t\<rparr>) = org_view B db"
proof -
  have p: "project_in (db\<lparr>dbDomains := t\<rparr>) B = project_in db B" by (simp add: project_in_def fun_eq_iff)
  then have "domain_in (db\<lparr>dbDomains := t\<rparr>) B = domain_in db B"
    using assms by (simp add: domain_in_filter fun_eq_iff)
  with assms p show ?thesis by (simp add: org_view_def)
qed

lemma other_table_joins [simp]:
  "project_in (db\<lparr>dbSources := ts\<rparr>) = project_in db" "domain_in (db\<lparr>dbSources := ts\<rparr>) = domain_in db"
  "project_in (db\<lparr>dbUrls := tu\<rparr>) = project_in db" "domain_in (db\<lparr>dbUrls := tu\<rparr>) = domain_in db"
  "project_in (db\<lparr>dbMembers := tm\<rparr>) = project_in db" "domain_in (db\<lparr>dbMembers := tm\<rparr>) = domain_in db"
  "project_in (db\<lparr>dbInvitations := ti\<rparr>) = project_in db" "domain_in (db\<lparr>dbInvitations := ti\<rparr>) = domain_in db"
  "project_in (db\<lparr>dbApiKeys := tk\<rparr>) = project_in db" "domain_in (db\<lparr>dbApiKeys := tk\<rparr>) = domain_in db"
  "project_in (db\<lparr>dbUsers := tz\<rparr>) = project_in db" "domain_in (db\<lparr>dbUsers := tz\<rparr>) = domain_in db"
  by (simp_all add: project_in_def domain_in_def fun_eq_iff)

lemma view_sourcesI:
  "filter (\<lambda>r. domain_in db B (ssDomainId r)) t = filter (\<lambda>r. domain_in db B (ssDomainId r)) (dbSources db) \<Longrightarrow>
     org_view B (db\<lparr>dbSources := t\<rparr>) = org_view B db"
  by (simp add: org_view_def)

lemma view_urlsI:
  "filter (\<lambda>r. domain_in db B (duDomainId r)) t = filter (\<lambda>r. domain_in db B (duDomainId r)) (dbUrls db) \<Longrightarrow>
     org_view B (db\<lparr>dbUrls := t\<rparr>) = org_view B db"
  by (simp add: org_view_def)

lemma view_membersI:
  "filter (\<lambda>r. mbOrganizationId r = B) t = filter (\<lambda>r. mbOrganizationId r = B) (dbMembers db) \<Longrightarrow>
     org_view B (db\<lparr>dbMembers := t\<rparr>) = org_view B db"
  by (simp add: org_view_def)

lemma view_invitationsI:
  "filter (\<lambda>r. inOrganizationId r = B) t = filter (\<lambda>r. inOrganizationId r = B) (dbInvitations db) \<Longrightarrow>
     org_view B (db\<lparr>dbInvitations := t\<rparr>) = org_view B db"
  by (simp add: org_view_def)

lemma view_keysI:
  "filter (\<lambda>r. akReferenceId r = B) t = filter (\<lambda>r. akReferenceId r = B) (dbApiKeys db) \<Longrightarrow>
     org_view B (db\<lparr>dbApiKeys := t\<rparr>) = org_view B db"
  by (simp add: org_view_def)

text \<open>A project, and a domain, has one owner.\<close>

lemma project_in_one: "db_ok db \<Longrightarrow> project_in db A p \<Longrightarrow> project_in db B p \<Longrightarrow> A = B"
proof -
  assume u: "db_ok db" and a: "project_in db A p" and b: "project_in db B p"
  have "unique_on pjId (dbProjects db)" using u by (simp add: db_ok_def)
  moreover from a obtain x where "x \<in> set (dbProjects db)" "pjId x = p" "pjOrganizationId x = A"
    by (auto simp: project_in_def list_ex_iff)
  moreover from b obtain y where "y \<in> set (dbProjects db)" "pjId y = p" "pjOrganizationId y = B"
    by (auto simp: project_in_def list_ex_iff)
  ultimately show "A = B" using unique_onD by metis
qed

lemma domain_in_one: "db_ok db \<Longrightarrow> domain_in db A d \<Longrightarrow> domain_in db B d \<Longrightarrow> A = B"
proof -
  assume u: "db_ok db" and a: "domain_in db A d" and b: "domain_in db B d"
  have "unique_on dmId (dbDomains db)" using u by (simp add: db_ok_def)
  moreover from a obtain x where "x \<in> set (dbDomains db)" "dmId x = d" "project_in db A (dmProjectId x)"
    by (auto simp: domain_in_def list_ex_iff)
  moreover from b obtain y where "y \<in> set (dbDomains db)" "dmId y = d" "project_in db B (dmProjectId y)"
    by (auto simp: domain_in_def list_ex_iff)
  ultimately show "A = B" using unique_onD project_in_one [OF u] by metis
qed

subsection \<open>The contract of a tenant-scoped interface\<close>

text \<open>
  Every operation runs for one organization and is confined to it. A tenant can then rely on
  its own data whatever the other tenants do, in any number and order.
\<close>

locale tenant_scoped =
  fixes exec :: "tx_env \<Rightarrow> string \<Rightarrow> 'op \<Rightarrow> tenant_db \<Rightarrow> tenant_db"
  assumes confined: "db_ok db \<Longrightarrow> scoped org db (exec env org op db)"
begin

primrec exec_all :: "(tx_env \<times> string \<times> 'op) list \<Rightarrow> tenant_db \<Rightarrow> tenant_db" where
  "exec_all [] db = db"
| "exec_all (x # xs) db = exec_all xs (exec (fst x) (fst (snd x)) (snd (snd x)) db)"

lemma others_invisible:
  "db_ok db \<Longrightarrow> (\<And>x. x \<in> set xs \<Longrightarrow> fst (snd x) \<noteq> B) \<Longrightarrow>
     db_ok (exec_all xs db) \<and> more_users db (exec_all xs db) \<and> org_view B (exec_all xs db) = org_view B db"
proof (induction xs arbitrary: db)
  case (Cons x xs)
  let ?d = "exec (fst x) (fst (snd x)) (snd (snd x)) db"
  have s: "scoped (fst (snd x)) db ?d"
    by (rule confined) (rule Cons.prems(1))
  moreover have "B \<noteq> fst (snd x)" using Cons.prems(2) [of x] by auto
  ultimately have d: "db_ok ?d" "more_users db ?d" "org_view B ?d = org_view B db" by (simp_all add: scoped_def)
  have "db_ok (exec_all xs ?d) \<and> more_users ?d (exec_all xs ?d) \<and> org_view B (exec_all xs ?d) = org_view B ?d"
    by (rule Cons.IH) (use d(1) Cons.prems(2) in auto)
  with d show ?case using more_users_trans by auto
qed simp

end

end
