(* ===== verification/TenantRepository.thy ===== *)
theory TenantRepository
  imports TenantDb
begin

section \<open>The tenant repository (src/repositories/postgres/tenant-repository.ts)\<close>

text \<open>
  Every operation takes the organization it is called for and has that condition in its query.
  A read that an operation makes before its transaction and the transaction itself are one step
  here; src/services/domain-verification-service.ts, where the time between them matters, has a
  theory of its own.
\<close>

subsection \<open>Pages\<close>

record list_options =
  loLimit :: nat
  loCursor :: "string option"

record 'r page_result =
  prItems :: "'r list"
  prNextCursor :: "string option"

text \<open>\<open>WHERE ... AND id > cursor ORDER BY id LIMIT limit + 1\<close> and what is made of its rows.\<close>

definition page_by_id :: "('r \<Rightarrow> string) \<Rightarrow> list_options \<Rightarrow> 'r list \<Rightarrow> 'r page_result" where
  "page_by_id idf options rows =
     (let below = (if truthy (loCursor options) then filter (\<lambda>r. the (loCursor options) < idf r) rows else rows);
          got = take (loLimit options + 1) (sort_key idf below);
          hasMore = length got > loLimit options;
          page = take (loLimit options) got
      in \<lparr>prItems = page,
          prNextCursor = (if hasMore then (if page = [] then None else Some (idf (last page))) else None)\<rparr>)"

subsection \<open>Lookups\<close>

definition getDomainForOrganization :: "tenant_db \<Rightarrow> string \<Rightarrow> string \<Rightarrow> domain_row option" where
  "getDomainForOrganization db organizationId domainId =
     find (\<lambda>d. dmId d = domainId \<and> project_in db organizationId (dmProjectId d)) (dbDomains db)"

definition getDomainForOrganizationProject :: "tenant_db \<Rightarrow> string \<Rightarrow> string \<Rightarrow> string \<Rightarrow> domain_row option" where
  "getDomainForOrganizationProject db organizationId projectId domainId =
     find (\<lambda>d. dmId d = domainId \<and> dmProjectId d = projectId \<and> project_in db organizationId (dmProjectId d)) (dbDomains db)"

definition getOrganizationStatus :: "tenant_db \<Rightarrow> string \<Rightarrow> organization_status option" where
  "getOrganizationStatus db organizationId =
     map_option ogStatus (find (\<lambda>o'. ogId o' = organizationId) (dbOrganizations db))"

definition getSitemapSourceForOrganization :: "tenant_db \<Rightarrow> string \<Rightarrow> string \<Rightarrow> sitemap_source_row option" where
  "getSitemapSourceForOrganization db organizationId sourceId =
     find (\<lambda>s. ssId s = sourceId \<and> domain_in db organizationId (ssDomainId s)) (dbSources db)"

definition getProjectForOrganization :: "tenant_db \<Rightarrow> string \<Rightarrow> string \<Rightarrow> project_row option" where
  "getProjectForOrganization db organizationId projectId =
     find (\<lambda>p. pjId p = projectId \<and> pjOrganizationId p = organizationId \<and> pjStatus p \<noteq> Project_Deleted) (dbProjects db)"

definition listProjectsForOrganization :: "tenant_db \<Rightarrow> string \<Rightarrow> list_options \<Rightarrow> project_row page_result" where
  "listProjectsForOrganization db organizationId options =
     page_by_id pjId options
       (filter (\<lambda>p. pjOrganizationId p = organizationId \<and> pjStatus p \<noteq> Project_Deleted) (dbProjects db))"

definition listDomainsForOrganizationProject ::
  "tenant_db \<Rightarrow> string \<Rightarrow> string \<Rightarrow> list_options \<Rightarrow> domain_row page_result" where
  "listDomainsForOrganizationProject db organizationId projectId options =
     page_by_id dmId options
       (filter (\<lambda>d. dmProjectId d = projectId \<and> project_in db organizationId (dmProjectId d)) (dbDomains db))"

definition listSitemapSourcesForOrganizationDomain ::
  "tenant_db \<Rightarrow> string \<Rightarrow> string \<Rightarrow> sitemap_source_row list" where
  "listSitemapSourcesForOrganizationDomain db organizationId domainId =
     filter (\<lambda>s. ssDomainId s = domainId \<and> domain_in db organizationId (ssDomainId s)) (dbSources db)"

definition listDiscoveredUrlsForOrganization ::
  "tenant_db \<Rightarrow> string \<Rightarrow> string \<Rightarrow> list_options \<Rightarrow> discovered_url_row page_result" where
  "listDiscoveredUrlsForOrganization db organizationId domainId options =
     page_by_id duId options
       (filter (\<lambda>u. duDomainId u = domainId \<and> domain_in db organizationId (duDomainId u)) (dbUrls db))"

subsection \<open>Projects\<close>

record create_project_input =
  cpName :: string
  cpSlug :: string

record update_project_input =
  upName :: "string option"
  upSlug :: "string option"
  upStatus :: "project_status option"

text \<open>The insert, with the primary key, the slug index and the reference to the organization.\<close>

definition insert_project :: "project_row \<Rightarrow> tenant_db \<Rightarrow> tenant_error + tenant_db" where
  "insert_project row db =
     (if \<not> has_org db (pjOrganizationId row) then Inl (Db Foreign_Key_Violation)
      else case insert_unique pjId row (dbProjects db) of
        Inl e \<Rightarrow> Inl (Db e)
      | Inr _ \<Rightarrow>
          (case insert_unique pjSlug row (dbProjects db) of
             Inl e \<Rightarrow> Inl (Db e)
           | Inr t \<Rightarrow> Inr (db\<lparr>dbProjects := t\<rparr>)))"

definition new_project :: "tx_env \<Rightarrow> string \<Rightarrow> create_project_input \<Rightarrow> project_row" where
  "new_project env organizationId input =
     \<lparr>pjId = txNewId env, pjOrganizationId = organizationId, pjName = cpName input, pjSlug = cpSlug input,
      pjStatus = Project_Active, pjCreatedAt = txNow env, pjUpdatedAt = txNow env\<rparr>"

text \<open>A unique violation anywhere in the transaction is reported as a conflict of slugs.\<close>

definition unique_violation_as :: "app_error_code \<Rightarrow> tenant_error + 'a \<Rightarrow> tenant_error + 'a" where
  "unique_violation_as code r = (if r = Inl (Db Unique_Violation) then Inl (App code) else r)"

definition createProjectForOrganization ::
  "tx_env \<Rightarrow> string \<Rightarrow> create_project_input \<Rightarrow> string \<Rightarrow> string option \<Rightarrow> tenant_db
     \<Rightarrow> (tenant_error + project_row) \<times> tenant_db" where
  "createProjectForOrganization env organizationId input actor requestId db =
     apfst (unique_violation_as PROJECT_SLUG_CONFLICT)
      (runAuditedTransaction (\<lambda>tx.
         let created = new_project env organizationId input
         in case insert_project created tx of
              Inl e \<Rightarrow> (Inl e, tx, None)
            | Inr tx1 \<Rightarrow>
                finish_audited env (user_event organizationId actor requestId Project_Created ''project'' (pjId created))
                  None created tx1) db)"

fun project_status_name :: "project_status \<Rightarrow> string" where
  "project_status_name Project_Active = ''active''"
| "project_status_name Project_Suspended = ''suspended''"
| "project_status_name Project_Deleted = ''deleted''"

definition status_meta :: "project_status option \<Rightarrow> meta_value" where
  "status_meta s = (case s of None \<Rightarrow> Meta_Undefined | Some v \<Rightarrow> Meta_String (project_status_name v))"

definition patch_project :: "tx_env \<Rightarrow> update_project_input \<Rightarrow> project_row \<Rightarrow> project_row" where
  "patch_project env input p =
     p\<lparr>pjName := case_option (pjName p) id (upName input), pjSlug := case_option (pjSlug p) id (upSlug input),
       pjStatus := case_option (pjStatus p) id (upStatus input), pjUpdatedAt := txNow env\<rparr>"

text \<open>\<open>UPDATE projects SET ... WHERE id AND organization_id RETURNING\<close>, under the slug index.\<close>

definition update_project ::
  "string \<Rightarrow> string \<Rightarrow> (project_row \<Rightarrow> project_row) \<Rightarrow> tenant_db \<Rightarrow> tenant_error + project_row option \<times> tenant_db" where
  "update_project organizationId projectId f db =
     (let (rows, t) = update_where (\<lambda>p. pjId p = projectId \<and> pjOrganizationId p = organizationId) f (dbProjects db)
      in if unique_on pjSlug t then Inr (first_row rows, db\<lparr>dbProjects := t\<rparr>) else Inl (Db Unique_Violation))"

definition updateProjectForOrganization ::
  "tx_env \<Rightarrow> string \<Rightarrow> string \<Rightarrow> update_project_input \<Rightarrow> string \<Rightarrow> string option \<Rightarrow> tenant_db
     \<Rightarrow> (tenant_error + project_row option) \<times> tenant_db" where
  "updateProjectForOrganization env organizationId projectId input actor requestId db =
     apfst (unique_violation_as PROJECT_SLUG_CONFLICT)
      (runAuditedTransaction (\<lambda>tx.
         let before = find (\<lambda>p. pjId p = projectId \<and> pjOrganizationId p = organizationId) (dbProjects tx)
         in case update_project organizationId projectId (patch_project env input) tx of
              Inl e \<Rightarrow> (Inl e, tx, None)
            | Inr (None, tx1) \<Rightarrow> (Inr None, tx1, None)
            | Inr (Some updated, tx1) \<Rightarrow>
                finish_audited env (user_event organizationId actor requestId Project_Updated ''project'' projectId)
                  (Some (buildAuditMetadata
                    (if upStatus input \<noteq> None
                     then [(''projectStatusBefore'', status_meta (map_option pjStatus before)),
                           (''projectStatusAfter'', status_meta (Some (pjStatus updated)))]
                     else [])))
                  (Some updated) tx1) db)"

definition softDeleteProjectForOrganization ::
  "tx_env \<Rightarrow> string \<Rightarrow> string \<Rightarrow> string \<Rightarrow> string option \<Rightarrow> tenant_db
     \<Rightarrow> (tenant_error + project_row option) \<times> tenant_db" where
  "softDeleteProjectForOrganization env organizationId projectId actor requestId db =
     runAuditedTransaction (\<lambda>tx.
       let before = find (\<lambda>p. pjId p = projectId \<and> pjOrganizationId p = organizationId) (dbProjects tx)
       in case update_project organizationId projectId
                 (\<lambda>p. p\<lparr>pjStatus := Project_Deleted, pjUpdatedAt := txNow env\<rparr>) tx of
            Inl e \<Rightarrow> (Inl e, tx, None)
          | Inr (None, tx1) \<Rightarrow> (Inr None, tx1, None)
          | Inr (Some deleted, tx1) \<Rightarrow>
              finish_audited env (user_event organizationId actor requestId Project_Deleted_Action ''project'' projectId)
                (Some (buildAuditMetadata
                  [(''projectStatusBefore'', status_meta (map_option pjStatus before)),
                   (''projectStatusAfter'', Meta_String ''deleted'')]))
                (Some deleted) tx1) db"

subsection \<open>Domains\<close>

record create_domain_input =
  cdHostname :: string
  cdNormalizedHostname :: string
  cdVerificationMethod :: verification_method
  cdVerificationTokenHash :: string

fun verification_method_name :: "verification_method \<Rightarrow> string" where
  "verification_method_name Dns_Txt = ''dns_txt''"
| "verification_method_name Html_File = ''html_file''"

definition new_domain :: "tx_env \<Rightarrow> string \<Rightarrow> create_domain_input \<Rightarrow> domain_row" where
  "new_domain env projectId input =
     \<lparr>dmId = txNewId env, dmProjectId = projectId, dmHostname = cdHostname input,
      dmNormalizedHostname = cdNormalizedHostname input, dmStatus = Domain_Pending,
      dmVerificationMethod = cdVerificationMethod input, dmVerificationTokenHash = cdVerificationTokenHash input,
      dmVerifiedAt = None, dmLastVerificationAttemptAt = None, dmVerificationFailureCount = 0,
      dmCreatedAt = txNow env, dmUpdatedAt = txNow env\<rparr>"

text \<open>The partial unique index on hostnames leaves suspended domains out.\<close>

definition insert_domain :: "domain_row \<Rightarrow> tenant_db \<Rightarrow> tenant_error + tenant_db" where
  "insert_domain row db =
     (case insert_unique dmId row (dbDomains db) of
        Inl e \<Rightarrow> Inl (Db e)
      | Inr t \<Rightarrow>
          (if hostname_unique t then Inr (db\<lparr>dbDomains := t\<rparr>) else Inl (Db Unique_Violation)))"

definition method_meta :: "domain_row \<Rightarrow> string \<times> meta_value" where
  "method_meta d = (''verificationMethod'', Meta_String (verification_method_name (dmVerificationMethod d)))"

definition createDomainForOrganization ::
  "tx_env \<Rightarrow> string \<Rightarrow> string \<Rightarrow> create_domain_input \<Rightarrow> string \<Rightarrow> string option \<Rightarrow> tenant_db
     \<Rightarrow> (tenant_error + domain_row) \<times> tenant_db" where
  "createDomainForOrganization env organizationId projectId input actor requestId db =
     runAuditedTransaction (\<lambda>tx.
       if \<not> project_in tx organizationId projectId then (Inl (App PROJECT_NOT_FOUND), tx, None)
       else let created = new_domain env projectId input
            in apfst (unique_violation_as DOMAIN_ALREADY_EXISTS)
                (case insert_domain created tx of
                   Inl e \<Rightarrow> (Inl e, tx, None)
                 | Inr tx1 \<Rightarrow>
                     finish_audited env (user_event organizationId actor requestId Domain_Created ''domain'' (dmId created))
                       (Some (buildAuditMetadata [method_meta created])) created tx1)) db"

definition update_domain :: "string \<Rightarrow> (domain_row \<Rightarrow> domain_row) \<Rightarrow> tenant_db \<Rightarrow> tenant_error + domain_row option \<times> tenant_db" where
  "update_domain domainId f db =
     (let (rows, t) = update_where (\<lambda>d. dmId d = domainId) f (dbDomains db)
      in if hostname_unique t then Inr (first_row rows, db\<lparr>dbDomains := t\<rparr>) else Inl (Db Unique_Violation))"

definition rotate_domain :: "tx_env \<Rightarrow> string \<Rightarrow> domain_row \<Rightarrow> domain_row \<Rightarrow> domain_row" where
  "rotate_domain env newTokenHash existing d =
     (let wasVerified = dmStatus existing = Domain_Verified
      in d\<lparr>dmVerificationTokenHash := newTokenHash,
           dmStatus := (if wasVerified then Domain_Pending else dmStatus existing),
           dmVerifiedAt := (if wasVerified then None else dmVerifiedAt existing),
           dmUpdatedAt := txNow env\<rparr>)"

definition rotateVerificationTokenForOrganization ::
  "tx_env \<Rightarrow> string \<Rightarrow> string \<Rightarrow> string \<Rightarrow> string \<Rightarrow> string option \<Rightarrow> tenant_db
     \<Rightarrow> (tenant_error + domain_row option) \<times> tenant_db" where
  "rotateVerificationTokenForOrganization env organizationId domainId newTokenHash actor requestId db =
     (case getDomainForOrganization db organizationId domainId of
        None \<Rightarrow> (Inr None, db)
      | Some existing \<Rightarrow>
          runAuditedTransaction (\<lambda>tx.
            case update_domain domainId (rotate_domain env newTokenHash existing) tx of
              Inl e \<Rightarrow> (Inl e, tx, None)
            | Inr (None, tx1) \<Rightarrow> (Inr None, tx1, None)
            | Inr (Some row, tx1) \<Rightarrow>
                finish_audited env (user_event organizationId actor requestId Domain_Verification_Token_Rotated ''domain'' domainId)
                  (Some (buildAuditMetadata [method_meta existing])) (Some row) tx1) db)"

text \<open>The result of a verification attempt: success, or the code of its failure.\<close>

definition mark_domain :: "tx_env \<Rightarrow> string option \<Rightarrow> domain_row \<Rightarrow> domain_row \<Rightarrow> domain_row" where
  "mark_domain env failureCode existing d =
     (case failureCode of
        None \<Rightarrow>
          d\<lparr>dmStatus := Domain_Verified, dmVerifiedAt := Some (txNow env),
            dmLastVerificationAttemptAt := Some (txNow env), dmVerificationFailureCount := 0, dmUpdatedAt := txNow env\<rparr>
      | Some _ \<Rightarrow>
          d\<lparr>dmStatus := (if dmStatus existing = Domain_Verified then Domain_Verified else Domain_Failed),
            dmLastVerificationAttemptAt := Some (txNow env),
            dmVerificationFailureCount := dmVerificationFailureCount existing + 1, dmUpdatedAt := txNow env\<rparr>)"

definition markVerificationAttemptForOrganization ::
  "tx_env \<Rightarrow> string \<Rightarrow> string \<Rightarrow> string option \<Rightarrow> string \<Rightarrow> string option \<Rightarrow> tenant_db
     \<Rightarrow> (tenant_error + domain_row option) \<times> tenant_db" where
  "markVerificationAttemptForOrganization env organizationId domainId failureCode actor requestId db =
     (case getDomainForOrganization db organizationId domainId of
        None \<Rightarrow> (Inr None, db)
      | Some existing \<Rightarrow>
          runAuditedTransaction (\<lambda>tx.
            case update_domain domainId (mark_domain env failureCode existing) tx of
              Inl e \<Rightarrow> (Inl e, tx, None)
            | Inr (None, tx1) \<Rightarrow> (Inr None, tx1, None)
            | Inr (Some row, tx1) \<Rightarrow>
                finish_audited env
                  (user_event organizationId actor requestId
                    (if failureCode = None then Domain_Verification_Succeeded else Domain_Verification_Failed)
                    ''domain'' domainId)
                  (Some (buildAuditMetadata
                    [method_meta existing,
                     (''reasonCode'', case failureCode of None \<Rightarrow> Meta_Undefined | Some c \<Rightarrow> Meta_String c)]))
                  (Some row) tx1) db)"

subsection \<open>Sitemap sources\<close>

record upsert_source_input =
  usUrl :: string
  usNormalizedUrl :: string
  usType :: sitemap_source_type

definition new_source :: "tx_env \<Rightarrow> string \<Rightarrow> upsert_source_input \<Rightarrow> sitemap_source_row" where
  "new_source env domainId input =
     \<lparr>ssId = txNewId env, ssDomainId = domainId, ssUrl = usUrl input, ssNormalizedUrl = usNormalizedUrl input,
      ssType = usType input, ssStatus = Source_Pending, ssLastFetchedAt = None, ssLastHttpStatus = None,
      ssLastErrorCode = None, ssEtag = None, ssLastModified = None, ssDiscoveredUrlCount = 0,
      ssCreatedAt = txNow env, ssUpdatedAt = txNow env\<rparr>"

definition source_key :: "sitemap_source_row \<Rightarrow> string \<times> string" where
  "source_key s = (ssDomainId s, ssNormalizedUrl s)"

text \<open>\<open>INSERT ... ON CONFLICT (domain_id, normalized_url) DO UPDATE SET ... RETURNING\<close>.\<close>

definition upsert_source ::
  "sitemap_source_row \<Rightarrow> (sitemap_source_row \<Rightarrow> sitemap_source_row) \<Rightarrow> tenant_db
     \<Rightarrow> tenant_error + sitemap_source_row \<times> tenant_db" where
  "upsert_source row f db =
     (case row_at source_key (dbSources db) (source_key row) of
        Some old \<Rightarrow>
          Inr (f old, db\<lparr>dbSources := snd (update_where (\<lambda>s. source_key s = source_key row) f (dbSources db))\<rparr>)
      | None \<Rightarrow>
          (case insert_unique ssId row (dbSources db) of
             Inl e \<Rightarrow> Inl (Db e)
           | Inr t \<Rightarrow> Inr (row, db\<lparr>dbSources := t\<rparr>)))"

definition upsertSitemapSourceForOrganization ::
  "tx_env \<Rightarrow> string \<Rightarrow> string \<Rightarrow> upsert_source_input \<Rightarrow> tenant_db
     \<Rightarrow> (tenant_error + sitemap_source_row) \<times> tenant_db" where
  "upsertSitemapSourceForOrganization env organizationId domainId input db =
     (if \<not> domain_in db organizationId domainId then (Inl (App DOMAIN_NOT_FOUND), db)
      else case upsert_source (new_source env domainId input) (\<lambda>s. s\<lparr>ssUpdatedAt := txNow env\<rparr>) db of
        Inl e \<Rightarrow> (Inl e, db)
      | Inr (row, db') \<Rightarrow> (Inr row, db'))"

text \<open>A field of the input is absent (\<open>undefined\<close>, left alone) or given, possibly as \<open>null\<close>.\<close>

record fetch_result_input =
  frStatusSet :: sitemap_source_status
  frLastHttpStatus :: "int option option"
  frLastErrorCode :: "string option option"
  frEtag :: "string option option"
  frLastModified :: "string option option"
  frDiscoveredUrlCount :: "int option"

definition record_fetch :: "tx_env \<Rightarrow> fetch_result_input \<Rightarrow> sitemap_source_row \<Rightarrow> sitemap_source_row" where
  "record_fetch env i s =
     s\<lparr>ssStatus := frStatusSet i, ssLastFetchedAt := Some (txNow env),
       ssLastHttpStatus := case_option (ssLastHttpStatus s) id (frLastHttpStatus i),
       ssLastErrorCode := case_option (ssLastErrorCode s) id (frLastErrorCode i),
       ssEtag := case_option (ssEtag s) id (frEtag i),
       ssLastModified := case_option (ssLastModified s) id (frLastModified i),
       ssDiscoveredUrlCount := case_option (ssDiscoveredUrlCount s) id (frDiscoveredUrlCount i),
       ssUpdatedAt := txNow env\<rparr>"

definition recordSitemapFetchResultForOrganization ::
  "tx_env \<Rightarrow> string \<Rightarrow> string \<Rightarrow> fetch_result_input \<Rightarrow> tenant_db \<Rightarrow> sitemap_source_row option \<times> tenant_db" where
  "recordSitemapFetchResultForOrganization env organizationId sourceId input db =
     (case getSitemapSourceForOrganization db organizationId sourceId of
        None \<Rightarrow> (None, db)
      | Some _ \<Rightarrow>
          (let (rows, t) = update_where (\<lambda>s. ssId s = sourceId) (record_fetch env input) (dbSources db)
           in (first_row rows, db\<lparr>dbSources := t\<rparr>)))"

subsection \<open>Members\<close>

record member_summary =
  msId :: string
  msUserId :: string
  msEmail :: string
  msName :: string
  msRole :: string
  msCreatedAt :: time_ms

text \<open>The inner join with \<open>user\<close>, whose primary key gives each member at most one partner.\<close>

definition member_joined :: "tenant_db \<Rightarrow> member_row \<Rightarrow> member_summary option" where
  "member_joined db m =
     map_option (\<lambda>u. \<lparr>msId = mbId m, msUserId = mbUserId m, msEmail = usEmail u, msName = usName u,
        msRole = mbRole m, msCreatedAt = mbCreatedAt m\<rparr>)
      (find (\<lambda>u. usId u = mbUserId m) (dbUsers db))"

definition listMembersForOrganization :: "tenant_db \<Rightarrow> string \<Rightarrow> member_summary list" where
  "listMembersForOrganization db organizationId =
     sort_key msCreatedAt
       (List.map_filter (member_joined db) (filter (\<lambda>m. mbOrganizationId m = organizationId) (dbMembers db)))"

definition getMembershipForOrganization :: "tenant_db \<Rightarrow> string \<Rightarrow> string \<Rightarrow> (string \<times> string) option" where
  "getMembershipForOrganization db organizationId userId =
     map_option (\<lambda>m. (mbId m, mbRole m))
       (find (\<lambda>m. mbOrganizationId m = organizationId \<and> mbUserId m = userId) (dbMembers db))"

definition getMemberForOrganization :: "tenant_db \<Rightarrow> string \<Rightarrow> string \<Rightarrow> member_summary option" where
  "getMemberForOrganization db organizationId memberId =
     first_row (List.map_filter (member_joined db)
       (filter (\<lambda>m. mbId m = memberId \<and> mbOrganizationId m = organizationId) (dbMembers db)))"

definition member_of :: "tenant_db \<Rightarrow> string \<Rightarrow> string \<Rightarrow> member_row option" where
  "member_of db organizationId memberId =
     find (\<lambda>m. mbId m = memberId \<and> mbOrganizationId m = organizationId) (dbMembers db)"

definition updateMemberRoleForOrganization ::
  "tx_env \<Rightarrow> string \<Rightarrow> string \<Rightarrow> invitation_role \<Rightarrow> string \<Rightarrow> string option \<Rightarrow> tenant_db
     \<Rightarrow> (tenant_error + member_summary option) \<times> tenant_db" where
  "updateMemberRoleForOrganization env organizationId memberId role actor requestId db =
     (case member_of db organizationId memberId of
        None \<Rightarrow> (Inr None, db)
      | Some existing \<Rightarrow>
          (case runAuditedTransaction (\<lambda>tx.
             let tx1 = tx\<lparr>dbMembers := snd (update_where (\<lambda>m. mbId m = memberId)
                         (\<lambda>m. m\<lparr>mbRole := invitation_role_name role\<rparr>) (dbMembers tx))\<rparr>
             in finish_audited env
                  (user_event organizationId actor requestId Organization_Member_Role_Changed ''member'' memberId)
                  (Some (buildAuditMetadata
                    [(''roleBefore'', Meta_String (mbRole existing)),
                     (''roleAfter'', Meta_String (invitation_role_name role))]))
                  () tx1) db of
             (Inl e, db') \<Rightarrow> (Inl e, db')
           | (Inr _, db') \<Rightarrow>
               (Inr (first_row (List.map_filter (member_joined db') (filter (\<lambda>m. mbId m = memberId) (dbMembers db')))), db')))"

datatype remove_member_result = Member_Removed | Member_Not_Found

definition removeMemberForOrganization ::
  "tx_env \<Rightarrow> string \<Rightarrow> string \<Rightarrow> string \<Rightarrow> string option \<Rightarrow> tenant_db
     \<Rightarrow> (tenant_error + remove_member_result) \<times> tenant_db" where
  "removeMemberForOrganization env organizationId memberId actor requestId db =
     (case member_of db organizationId memberId of
        None \<Rightarrow> (Inr Member_Not_Found, db)
      | Some existing \<Rightarrow>
          runAuditedTransaction (\<lambda>tx.
            finish_audited env
              (user_event organizationId actor requestId Organization_Member_Removed ''member'' memberId)
              (Some (buildAuditMetadata [(''roleBefore'', Meta_String (mbRole existing))]))
              Member_Removed (tx\<lparr>dbMembers := filter (\<lambda>m. mbId m \<noteq> memberId) (dbMembers tx)\<rparr>)) db)"

definition countOwnersForOrganization :: "tenant_db \<Rightarrow> string \<Rightarrow> nat" where
  "countOwnersForOrganization db organizationId =
     length (filter (\<lambda>m. mbOrganizationId m = organizationId \<and> mbRole m = ''owner'') (dbMembers db))"

subsection \<open>Invitations\<close>

record invitation_summary =
  isId :: string
  isEmail :: string
  isRole :: invitation_role
  isStatus :: invitation_status
  isExpiresAt :: time_ms
  isCreatedAt :: time_ms
  isInvitedByUserId :: string

definition listInvitationsForOrganization :: "tenant_db \<Rightarrow> string \<Rightarrow> invitation_summary list" where
  "listInvitationsForOrganization db organizationId =
     map (\<lambda>i. \<lparr>isId = inId i, isEmail = inEmail i, isRole = inRole i, isStatus = inStatus i,
         isExpiresAt = inExpiresAt i, isCreatedAt = inCreatedAt i, isInvitedByUserId = inInvitedByUserId i\<rparr>)
       (sort_key inCreatedAt (filter (\<lambda>i. inOrganizationId i = organizationId) (dbInvitations db)))"

definition getInvitationForOrganization :: "tenant_db \<Rightarrow> string \<Rightarrow> string \<Rightarrow> invitation_row option" where
  "getInvitationForOrganization db organizationId invitationId =
     find (\<lambda>i. inId i = invitationId \<and> inOrganizationId i = organizationId) (dbInvitations db)"

datatype cancel_invitation_result = Invitation_Cancelled | Invitation_Not_Found | Invitation_Already_Used

text \<open>The transaction of a cancellation: its update is conditional, its audit row is not.\<close>

definition cancel_tx :: "tx_env \<Rightarrow> string \<Rightarrow> string \<Rightarrow> string \<Rightarrow> string option \<Rightarrow> cancel_invitation_result tx_body" where
  "cancel_tx env organizationId invitationId actor requestId tx =
     finish_audited env
       (user_event organizationId actor requestId Organization_Invitation_Cancelled ''invitation'' invitationId)
       None Invitation_Cancelled
       (tx\<lparr>dbInvitations := snd (update_where (\<lambda>i. inId i = invitationId \<and> inStatus i = Invitation_Pending)
             (\<lambda>i. i\<lparr>inStatus := Invitation_Revoked, inUpdatedAt := txNow env\<rparr>) (dbInvitations tx))\<rparr>)"

definition cancelInvitationForOrganization ::
  "tx_env \<Rightarrow> string \<Rightarrow> string \<Rightarrow> string \<Rightarrow> string option \<Rightarrow> tenant_db
     \<Rightarrow> (tenant_error + cancel_invitation_result) \<times> tenant_db" where
  "cancelInvitationForOrganization env organizationId invitationId actor requestId db =
     (case getInvitationForOrganization db organizationId invitationId of
        None \<Rightarrow> (Inr Invitation_Not_Found, db)
      | Some existing \<Rightarrow>
          (if inStatus existing \<noteq> Invitation_Pending then (Inr Invitation_Already_Used, db)
           else runAuditedTransaction (cancel_tx env organizationId invitationId actor requestId) db))"

subsection \<open>Reads of an organization see that organization only\<close>

text \<open>The reads, as functions of the database.\<close>

datatype tenant_read =
    Read_Project string | Read_Projects list_options
  | Read_Domain string | Read_Project_Domain string string | Read_Domains string list_options
  | Read_Source string | Read_Sources string | Read_Urls string list_options
  | Read_Members | Read_Member string | Read_Membership string
  | Read_Invitations | Read_Invitation string | Read_Status | Count_Owners

datatype tenant_answer =
    Project_Answer "project_row option" | Projects_Answer "project_row page_result"
  | Domain_Answer "domain_row option" | Domains_Answer "domain_row page_result"
  | Source_Answer "sitemap_source_row option" | Sources_Answer "sitemap_source_row list"
  | Urls_Answer "discovered_url_row page_result"
  | Members_Answer "member_summary list" | Member_Answer "member_summary option"
  | Membership_Answer "(string \<times> string) option"
  | Invitations_Answer "invitation_summary list" | Invitation_Answer "invitation_row option"
  | Status_Answer "organization_status option" | Count_Answer nat

fun answer_read :: "tenant_db \<Rightarrow> string \<Rightarrow> tenant_read \<Rightarrow> tenant_answer" where
  "answer_read db org (Read_Project p) = Project_Answer (getProjectForOrganization db org p)"
| "answer_read db org (Read_Projects opts) = Projects_Answer (listProjectsForOrganization db org opts)"
| "answer_read db org (Read_Domain d) = Domain_Answer (getDomainForOrganization db org d)"
| "answer_read db org (Read_Project_Domain p d) = Domain_Answer (getDomainForOrganizationProject db org p d)"
| "answer_read db org (Read_Domains p opts) = Domains_Answer (listDomainsForOrganizationProject db org p opts)"
| "answer_read db org (Read_Source s) = Source_Answer (getSitemapSourceForOrganization db org s)"
| "answer_read db org (Read_Sources d) = Sources_Answer (listSitemapSourcesForOrganizationDomain db org d)"
| "answer_read db org (Read_Urls d opts) = Urls_Answer (listDiscoveredUrlsForOrganization db org d opts)"
| "answer_read db org Read_Members = Members_Answer (listMembersForOrganization db org)"
| "answer_read db org (Read_Member m) = Member_Answer (getMemberForOrganization db org m)"
| "answer_read db org (Read_Membership u) = Membership_Answer (getMembershipForOrganization db org u)"
| "answer_read db org Read_Invitations = Invitations_Answer (listInvitationsForOrganization db org)"
| "answer_read db org (Read_Invitation i) = Invitation_Answer (getInvitationForOrganization db org i)"
| "answer_read db org Read_Status = Status_Answer (getOrganizationStatus db org)"
| "answer_read db org Count_Owners = Count_Answer (countOwnersForOrganization db org)"

text \<open>Each read is a function of the organization's view and, for the member lists, of the users.\<close>

lemma find_in_filter: "find P (filter Q xs) = find (\<lambda>x. Q x \<and> P x) xs"
  by (induction xs) auto

lemma reads_of_view:
  "getProjectForOrganization db org p = find (\<lambda>r. pjId r = p \<and> pjStatus r \<noteq> Project_Deleted) (vwProjects (org_view org db))"
  "listProjectsForOrganization db org opts = page_by_id pjId opts (filter (\<lambda>r. pjStatus r \<noteq> Project_Deleted) (vwProjects (org_view org db)))"
  "getDomainForOrganization db org d = find (\<lambda>r. dmId r = d) (vwDomains (org_view org db))"
  "getDomainForOrganizationProject db org p d = find (\<lambda>r. dmId r = d \<and> dmProjectId r = p) (vwDomains (org_view org db))"
  "listDomainsForOrganizationProject db org p opts = page_by_id dmId opts (filter (\<lambda>r. dmProjectId r = p) (vwDomains (org_view org db)))"
  "getSitemapSourceForOrganization db org s = find (\<lambda>r. ssId r = s) (vwSources (org_view org db))"
  "listSitemapSourcesForOrganizationDomain db org d = filter (\<lambda>r. ssDomainId r = d) (vwSources (org_view org db))"
  "listDiscoveredUrlsForOrganization db org d opts = page_by_id duId opts (filter (\<lambda>r. duDomainId r = d) (vwUrls (org_view org db)))"
  unfolding getProjectForOrganization_def listProjectsForOrganization_def getDomainForOrganization_def
    getDomainForOrganizationProject_def listDomainsForOrganizationProject_def getSitemapSourceForOrganization_def
    listSitemapSourcesForOrganizationDomain_def listDiscoveredUrlsForOrganization_def org_view_def
  by (simp_all add: find_in_filter conj_ac)

lemma member_reads_of_view:
  "getMembershipForOrganization db org u = map_option (\<lambda>m. (mbId m, mbRole m)) (find (\<lambda>m. mbUserId m = u) (vwMembers (org_view org db)))"
  "listMembersForOrganization db org = sort_key msCreatedAt (List.map_filter (member_joined db) (vwMembers (org_view org db)))"
  "getMemberForOrganization db org k = first_row (List.map_filter (member_joined db) (filter (\<lambda>m. mbId m = k) (vwMembers (org_view org db))))"
  "countOwnersForOrganization db org = length (filter (\<lambda>m. mbRole m = ''owner'') (vwMembers (org_view org db)))"
  "listInvitationsForOrganization db org =
     map (\<lambda>i. \<lparr>isId = inId i, isEmail = inEmail i, isRole = inRole i, isStatus = inStatus i,
         isExpiresAt = inExpiresAt i, isCreatedAt = inCreatedAt i, isInvitedByUserId = inInvitedByUserId i\<rparr>)
       (sort_key inCreatedAt (vwInvitations (org_view org db)))"
  "getInvitationForOrganization db org i = find (\<lambda>r. inId r = i) (vwInvitations (org_view org db))"
  "getOrganizationStatus db org = map_option ogStatus (first_row (vwOrganization (org_view org db)))"
  unfolding getMembershipForOrganization_def listMembersForOrganization_def getMemberForOrganization_def
    countOwnersForOrganization_def listInvitationsForOrganization_def getInvitationForOrganization_def
    getOrganizationStatus_def org_view_def
  by (simp_all add: find_in_filter first_row_filter conj_ac)

text \<open>Users who are added later do not show in the lists: every member has its user already.\<close>

lemma member_joined_users:
  assumes "more_users db db'" "has_user db (mbUserId m)"
  shows "member_joined db' m = member_joined db m"
proof -
  have "find P (xs @ ys) = find P xs" if "list_ex P xs" for P :: "user_row \<Rightarrow> bool" and xs ys
    using that by (induction xs) auto
  with assms show ?thesis by (auto simp: more_users_def member_joined_def has_user_def)
qed

lemma map_filter_joined:
  assumes "more_users db db'" "\<forall>m \<in> set ms. has_user db (mbUserId m)"
  shows "List.map_filter (member_joined db') ms = List.map_filter (member_joined db) ms"
  using assms by (induction ms) (auto simp: List.map_filter_simps member_joined_users split: option.splits)

lemma answer_read_view:
  assumes "org_view org db' = org_view org db" "more_users db db'" "db_ok db"
  shows "answer_read db' org r = answer_read db org r"
proof -
  have "\<forall>m \<in> set (vwMembers (org_view org db)). has_user db (mbUserId m)"
    using assms(3) by (simp add: db_ok_def org_view_def)
  then show ?thesis
    using assms(1) map_filter_joined [OF assms(2)]
    by (cases r) (simp_all add: reads_of_view member_reads_of_view)
qed

end
