(* ===== verification/TenantIsolation.thy ===== *)
theory TenantIsolation
  imports TenantRepository
begin

section \<open>Tenant isolation\<close>

text \<open>
  Every write of the tenant repository is confined to the organization it runs for: the
  repository interprets the \<open>tenant_scoped\<close> interface. Together with the reads, which see the
  organization's part of the tables only, no tenant can observe or disturb another.
\<close>

declare buildAuditMetadata.simps [simp del]

lemma insert_project_scoped:
  assumes "insert_project row db = Inr db'" "db_ok db"
  shows "scoped (pjOrganizationId row) db db'"
proof -
  have ids: "row_at pjId (dbProjects db) (pjId row) = None" "row_at pjSlug (dbProjects db) (pjSlug row) = None"
    and db': "db' = db\<lparr>dbProjects := dbProjects db @ [row]\<rparr>"
    using assms(1) by (auto simp: insert_project_def insert_unique_def split: if_splits)
  then have "pjId row \<notin> pjId ` set (dbProjects db)" "pjSlug row \<notin> pjSlug ` set (dbProjects db)"
    by (auto dest: row_at_NoneD)
  then have "db_ok db'" using assms(2) by (simp add: db' db_ok_def unique_on_append)
  moreover have "org_view B db' = org_view B db" if "B \<noteq> pjOrganizationId row" for B
    unfolding db' using that by (intro view_projectsI) simp
  ultimately show ?thesis by (simp add: scoped_def db')
qed

lemma update_project_scoped:
  assumes "update_project org pid f db = Inr (r, db')" "db_ok db"
    and f: "\<And>p. pjId (f p) = pjId p \<and> pjOrganizationId (f p) = pjOrganizationId p"
  shows "scoped org db db'"
proof -
  let ?P = "\<lambda>p. pjId p = pid \<and> pjOrganizationId p = org"
  have slug: "unique_on pjSlug (snd (update_where ?P f (dbProjects db)))"
    and db': "db' = db\<lparr>dbProjects := snd (update_where ?P f (dbProjects db))\<rparr>"
    using assms(1) by (auto simp: update_project_def Let_def split: prod.splits if_splits)
  have "unique_on pjId (snd (update_where ?P f (dbProjects db)))"
    using assms(2) f unique_on_update [of pjId f] by (simp add: db_ok_def)
  with slug assms(2) have "db_ok db'" by (simp add: db' db_ok_def)
  moreover have "org_view B db' = org_view B db" if "B \<noteq> org" for B
    unfolding db' using that f by (intro view_projectsI filter_update_other) auto
  ultimately show ?thesis by (simp add: scoped_def db')
qed

lemma insert_domain_scoped:
  assumes "insert_domain row db = Inr db'" "db_ok db" "project_in db org (dmProjectId row)"
  shows "scoped org db db'"
proof -
  have "row_at dmId (dbDomains db) (dmId row) = None" "hostname_unique (dbDomains db @ [row])"
    and db': "db' = db\<lparr>dbDomains := dbDomains db @ [row]\<rparr>"
    using assms(1) by (auto simp: insert_domain_def insert_unique_def split: if_splits)
  then have "db_ok db'" using assms(2) by (simp add: db_ok_def unique_on_append_at)
  moreover have "org_view B db' = org_view B db" if "B \<noteq> org" for B
    unfolding db' using that project_in_one [OF assms(2,3)] by (intro view_domainsI) auto
  ultimately show ?thesis by (simp add: scoped_def db')
qed

lemma getDomain_Some:
  "getDomainForOrganization db org did = Some d \<Longrightarrow> d \<in> set (dbDomains db) \<and> dmId d = did \<and> project_in db org (dmProjectId d)"
  by (auto simp: getDomainForOrganization_def find_Some_iff)

lemma getDomain_in: "getDomainForOrganization db org did = Some d \<Longrightarrow> domain_in db org did"
  using getDomain_Some [of db org did d] by (auto simp: domain_in_def list_ex_iff)

lemma update_domain_scoped:
  assumes "update_domain did f db = Inr (r, db')" "db_ok db" "domain_in db org did"
    and f: "\<And>d. dmId (f d) = dmId d \<and> dmProjectId (f d) = dmProjectId d"
  shows "scoped org db db'"
proof -
  let ?P = "\<lambda>d. dmId d = did"
  have host: "hostname_unique (snd (update_where ?P f (dbDomains db)))"
    and db': "db' = db\<lparr>dbDomains := snd (update_where ?P f (dbDomains db))\<rparr>"
    using assms(1) by (auto simp: update_domain_def Let_def split: prod.splits if_splits)
  have "unique_on dmId (snd (update_where ?P f (dbDomains db)))"
    using assms(2) f unique_on_update [of dmId f] by (simp add: db_ok_def)
  with host assms(2) have "db_ok db'" by (simp add: db' db_ok_def)
  moreover have "org_view B db' = org_view B db" if "B \<noteq> org" for B
    unfolding db'
  proof (rule view_domainsI, rule filter_update_other)
    fix d assume d: "d \<in> set (dbDomains db)" "dmId d = did"
    have "\<not> project_in db B (dmProjectId d)"
    proof
      assume "project_in db B (dmProjectId d)"
      with d have "domain_in db B did" by (auto simp: domain_in_def list_ex_iff)
      with domain_in_one [OF assms(2,3)] that show False by blast
    qed
    with f show "\<not> project_in db B (dmProjectId d) \<and> \<not> project_in db B (dmProjectId (f d))" by simp
  qed
  ultimately show ?thesis by (simp add: scoped_def db')
qed

lemma source_update_scoped:
  assumes "db_ok db" "\<And>s. s \<in> set (dbSources db) \<Longrightarrow> P s \<Longrightarrow> domain_in db org (ssDomainId s)"
    and f: "\<And>s. ssId (f s) = ssId s \<and> source_key (f s) = source_key s"
  shows "scoped org db (db\<lparr>dbSources := snd (update_where P f (dbSources db))\<rparr>)"
proof -
  let ?t = "snd (update_where P f (dbSources db))"
  have dom: "ssDomainId (f s) = ssDomainId s" for s using f by (simp add: source_key_def)
  have key: "(\<lambda>s. (ssDomainId s, ssNormalizedUrl s)) = source_key" by (simp add: source_key_def fun_eq_iff)
  have "unique_on ssId ?t" "unique_on source_key ?t"
    using assms(1) f unique_on_update [of ssId f] unique_on_update [of source_key f] by (simp_all add: db_ok_def key)
  then have "db_ok (db\<lparr>dbSources := ?t\<rparr>)" using assms(1) by (simp add: db_ok_def key)
  moreover have "org_view B (db\<lparr>dbSources := ?t\<rparr>) = org_view B db" if "B \<noteq> org" for B
  proof (rule view_sourcesI, rule filter_update_other)
    fix s assume "s \<in> set (dbSources db)" "P s"
    with assms(2) domain_in_one [OF assms(1)] that dom
    show "\<not> domain_in db B (ssDomainId s) \<and> \<not> domain_in db B (ssDomainId (f s))" by metis
  qed
  ultimately show ?thesis by (simp add: scoped_def)
qed

lemma upsert_source_scoped:
  assumes "upsert_source row f db = Inr (r, db')" "db_ok db" "domain_in db org (ssDomainId row)"
    and f: "\<And>s. ssId (f s) = ssId s \<and> source_key (f s) = source_key s"
  shows "scoped org db db'"
proof (cases "row_at source_key (dbSources db) (source_key row)")
  case (Some old)
  then have "db' = db\<lparr>dbSources := snd (update_where (\<lambda>s. source_key s = source_key row) f (dbSources db))\<rparr>"
    using assms(1) by (simp add: upsert_source_def)
  moreover have "source_key s = source_key row \<Longrightarrow> domain_in db org (ssDomainId s)" for s
    using assms(3) by (simp add: source_key_def)
  ultimately show ?thesis using source_update_scoped [OF assms(2) _ f] by simp
next
  case None
  then have "row_at ssId (dbSources db) (ssId row) = None" and db': "db' = db\<lparr>dbSources := dbSources db @ [row]\<rparr>"
    using assms(1) by (auto simp: upsert_source_def insert_unique_def split: if_splits)
  moreover have key: "(\<lambda>s. (ssDomainId s, ssNormalizedUrl s)) = source_key" by (simp add: source_key_def fun_eq_iff)
  ultimately have "db_ok db'"
    using assms(2) None by (simp add: db_ok_def unique_on_append_at)
  moreover have "org_view B db' = org_view B db" if "B \<noteq> org" for B
    unfolding db' using that domain_in_one [OF assms(2,3)] by (intro view_sourcesI) auto
  ultimately show ?thesis by (simp add: scoped_def db')
qed

text \<open>Members and invitations, found by id in the organization and then changed by id alone.\<close>

lemma members_scoped:
  assumes "db_ok db" "unique_on mbId t"
    and "\<And>B. B \<noteq> org \<Longrightarrow> filter (\<lambda>m. mbOrganizationId m = B) t = filter (\<lambda>m. mbOrganizationId m = B) (dbMembers db)"
    and "\<forall>m \<in> set t. has_user db (mbUserId m)"
  shows "scoped org db (db\<lparr>dbMembers := t\<rparr>)"
  using assms by (auto simp: scoped_def db_ok_def intro!: view_membersI)

lemma member_of_only:
  assumes "member_of db org k = Some x" "db_ok db" "m \<in> set (dbMembers db)" "mbId m = k"
  shows "mbOrganizationId m = org"
proof -
  have "x \<in> set (dbMembers db)" "mbId x = k" "mbOrganizationId x = org"
    using assms(1) by (auto simp: member_of_def find_Some_iff)
  moreover have "unique_on mbId (dbMembers db)" using assms(2) by (simp add: db_ok_def)
  ultimately show ?thesis using assms(3,4) unique_onD by metis
qed

lemma invitations_scoped:
  assumes "db_ok db" "unique_on inId t" "unique_on inTokenHash t"
    and "\<And>B. B \<noteq> org \<Longrightarrow> filter (\<lambda>m. inOrganizationId m = B) t = filter (\<lambda>m. inOrganizationId m = B) (dbInvitations db)"
  shows "scoped org db (db\<lparr>dbInvitations := t\<rparr>)"
  using assms by (auto simp: scoped_def db_ok_def intro!: view_invitationsI)

lemma invitation_only:
  assumes "getInvitationForOrganization db org k = Some x" "db_ok db" "m \<in> set (dbInvitations db)" "inId m = k"
  shows "inOrganizationId m = org"
proof -
  have "x \<in> set (dbInvitations db)" "inId x = k" "inOrganizationId x = org"
    using assms(1) by (auto simp: getInvitationForOrganization_def find_Some_iff)
  moreover have "unique_on inId (dbInvitations db)" using assms(2) by (simp add: db_ok_def)
  ultimately show ?thesis using assms(3,4) unique_onD by metis
qed

subsection \<open>The operations\<close>

lemma create_project_scoped:
  "db_ok db \<Longrightarrow> scoped org db (snd (createProjectForOrganization env org input actor req db))"
  unfolding createProjectForOrganization_def snd_apfst
proof (rule scoped_audited, assumption)
  fix x d a
  assume ok: "db_ok db"
    and b: "(let created = new_project env org input
         in case insert_project created db of
              Inl e \<Rightarrow> (Inl e, db, None)
            | Inr tx1 \<Rightarrow>
                finish_audited env (user_event org actor req Project_Created ''project'' (pjId created))
                  None created tx1) = (Inr x, d, a)"
  then obtain tx1 where tx1: "insert_project (new_project env org input) db = Inr tx1"
    and fin: "finish_audited env (user_event org actor req Project_Created ''project'' (pjId (new_project env org input)))
                  None (new_project env org input) tx1 = (Inr x, d, a)"
    by (auto simp: Let_def split: sum.splits)
  have "scoped org db tx1" using insert_project_scoped [OF tx1 ok] by (simp add: new_project_def)
  then show "scoped org db d" by (rule scoped_finish [OF fin, rotated]) simp
qed

text \<open>The shape of an audited update: change the row, then finish; or find none and change nothing.\<close>

lemma audited_update_scoped:
  assumes "db_ok db"
    and "\<And>r tx1. upd db = Inr (r, tx1) \<Longrightarrow> scoped org db tx1"
    and "\<And>r. caOrganizationId (ev r) = org"
  shows "scoped org db (snd (runAuditedTransaction (\<lambda>tx.
      case upd tx of
        Inl e \<Rightarrow> (Inl e, tx, None)
      | Inr (None, tx1) \<Rightarrow> (Inr None, tx1, None)
      | Inr (Some row, tx1) \<Rightarrow> finish_audited env (ev row) (meta tx row) (res row) tx1) db))"
proof (rule scoped_audited)
  fix x d a
  assume b: "(case upd db of
        Inl e \<Rightarrow> (Inl e, db, None)
      | Inr (None, tx1) \<Rightarrow> (Inr None, tx1, None)
      | Inr (Some row, tx1) \<Rightarrow> finish_audited env (ev row) (meta db row) (res row) tx1) = (Inr x, d, a)"
  show "scoped org db d"
  proof (cases "upd db")
    case (Inr p)
    obtain r tx1 where p: "p = (r, tx1)" by (cases p)
    have s: "scoped org db tx1" using assms(2) Inr p by simp
    show ?thesis
    proof (cases r)
      case None
      with b Inr p s show ?thesis by simp
    next
      case (Some row)
      with b Inr p have "finish_audited env (ev row) (meta db row) (res row) tx1 = (Inr x, d, a)" by simp
      then show ?thesis by (rule scoped_finish) (rule assms(3), rule s)
    qed
  qed (use b in simp)
qed (rule assms)

lemma update_project_op_scoped:
  "db_ok db \<Longrightarrow> scoped org db (snd (updateProjectForOrganization env org p input actor req db))"
  unfolding updateProjectForOrganization_def snd_apfst Let_def
  by (rule audited_update_scoped) (auto simp: patch_project_def elim: update_project_scoped)

lemma delete_project_scoped:
  "db_ok db \<Longrightarrow> scoped org db (snd (softDeleteProjectForOrganization env org p actor req db))"
  unfolding softDeleteProjectForOrganization_def Let_def
  by (rule audited_update_scoped) (auto elim: update_project_scoped)

lemma create_domain_scoped:
  "db_ok db \<Longrightarrow> scoped org db (snd (createDomainForOrganization env org p input actor req db))"
  unfolding createDomainForOrganization_def
proof (rule scoped_audited, assumption)
  fix x d a
  let ?new = "new_domain env p input"
  let ?fin = "finish_audited env (user_event org actor req Domain_Created ''domain'' (dmId ?new))
                (Some (buildAuditMetadata [method_meta ?new])) ?new"
  assume ok: "db_ok db"
    and b: "(if \<not> project_in db org p then (Inl (App PROJECT_NOT_FOUND), db, None)
       else let created = ?new
            in apfst (unique_violation_as DOMAIN_ALREADY_EXISTS)
                (case insert_domain created db of
                   Inl e \<Rightarrow> (Inl e, db, None)
                 | Inr tx1 \<Rightarrow>
                     finish_audited env (user_event org actor req Domain_Created ''domain'' (dmId created))
                       (Some (buildAuditMetadata [method_meta created])) created tx1)) = (Inr x, d, a)"
  then have p: "project_in db org p" by (auto split: if_splits)
  show "scoped org db d"
  proof (cases "insert_domain ?new db")
    case (Inl e)
    with b p show ?thesis by (auto simp: Let_def unique_violation_as_def split: if_splits)
  next
    case (Inr tx1)
    obtain y d' a' where fin: "?fin tx1 = (y, d', a')" by (cases "?fin tx1")
    with b p Inr have "unique_violation_as DOMAIN_ALREADY_EXISTS y = Inr x" "d' = d" by (simp_all add: Let_def)
    then have fin': "?fin tx1 = (Inr x, d, a')" using fin by (auto simp: unique_violation_as_def split: if_splits)
    have "scoped org db tx1" using insert_domain_scoped [OF Inr ok] p by (simp add: new_domain_def)
    then show ?thesis by (rule scoped_finish [OF fin', rotated]) simp
  qed
qed

lemma rotate_token_scoped:
  "db_ok db \<Longrightarrow> scoped org db (snd (rotateVerificationTokenForOrganization env org d h actor req db))"
proof (cases "getDomainForOrganization db org d")
  case (Some ex)
  assume ok: "db_ok db"
  show ?thesis
    unfolding rotateVerificationTokenForOrganization_def Some option.case
    by (rule audited_update_scoped [OF ok])
      (erule update_domain_scoped, rule ok, rule getDomain_in [OF Some], simp_all add: rotate_domain_def Let_def)
qed (simp add: rotateVerificationTokenForOrganization_def scoped_refl)

lemma mark_attempt_scoped:
  "db_ok db \<Longrightarrow> scoped org db (snd (markVerificationAttemptForOrganization env org d r actor req db))"
proof (cases "getDomainForOrganization db org d")
  case (Some ex)
  assume ok: "db_ok db"
  show ?thesis
    unfolding markVerificationAttemptForOrganization_def Some option.case
    by (rule audited_update_scoped [OF ok])
      (erule update_domain_scoped, rule ok, rule getDomain_in [OF Some], simp_all add: mark_domain_def split: option.splits)
qed (simp add: markVerificationAttemptForOrganization_def scoped_refl)

lemma upsert_source_op_scoped:
  "db_ok db \<Longrightarrow> scoped org db (snd (upsertSitemapSourceForOrganization env org d input db))"
proof (cases "upsert_source (new_source env d input) (\<lambda>s. s\<lparr>ssUpdatedAt := txNow env\<rparr>) db")
  case (Inr p)
  obtain r db' where p: "p = (r, db')" by (cases p)
  assume ok: "db_ok db"
  show ?thesis
  proof (cases "domain_in db org d")
    case True
    have "scoped org db db'"
      by (rule upsert_source_scoped [OF Inr [unfolded p] ok]) (simp_all add: True new_source_def source_key_def)
    with True Inr p show ?thesis by (simp add: upsertSitemapSourceForOrganization_def)
  qed (simp add: upsertSitemapSourceForOrganization_def scoped_refl ok)
qed (simp add: upsertSitemapSourceForOrganization_def scoped_refl)

lemma record_fetch_scoped:
  "db_ok db \<Longrightarrow> scoped org db (snd (recordSitemapFetchResultForOrganization env org k input db))"
proof (cases "getSitemapSourceForOrganization db org k")
  case (Some x)
  assume ok: "db_ok db"
  have x: "x \<in> set (dbSources db)" "ssId x = k" "domain_in db org (ssDomainId x)"
    using Some by (auto simp: getSitemapSourceForOrganization_def find_Some_iff)
  have only: "s = x" if "s \<in> set (dbSources db)" "ssId s = k" for s
    using x that unique_onD [of ssId "dbSources db" s x] ok by (simp add: db_ok_def)
  have "scoped org db (db\<lparr>dbSources := snd (update_where (\<lambda>s. ssId s = k) (record_fetch env input) (dbSources db))\<rparr>)"
  proof (rule source_update_scoped [OF ok])
    fix s assume "s \<in> set (dbSources db)" "ssId s = k"
    from only [OF this] x(3) show "domain_in db org (ssDomainId s)" by simp
  qed (simp add: record_fetch_def source_key_def)
  with Some show ?thesis
    by (simp add: recordSitemapFetchResultForOrganization_def Let_def split_def)
qed (simp add: recordSitemapFetchResultForOrganization_def scoped_refl)

lemma audited_finish_scoped:
  assumes "db_ok db" "scoped org db (chg db)" "caOrganizationId ev = org"
  shows "scoped org db (snd (runAuditedTransaction (\<lambda>tx. finish_audited env ev meta x (chg tx)) db))"
proof (rule scoped_audited [OF assms(1)])
  fix y d a assume "finish_audited env ev meta x (chg db) = (Inr y, d, a)"
  then show "scoped org db d" by (rule scoped_finish [OF _ assms(3,2)])
qed

lemma update_role_scoped:
  "db_ok db \<Longrightarrow> scoped org db (snd (updateMemberRoleForOrganization env org k role actor req db))"
proof (cases "member_of db org k")
  case (Some ex)
  assume ok: "db_ok db"
  let ?f = "\<lambda>m. m\<lparr>mbRole := invitation_role_name role\<rparr>"
  let ?t = "snd (update_where (\<lambda>m. mbId m = k) ?f (dbMembers db))"
  let ?body = "\<lambda>tx. let tx1 = tx\<lparr>dbMembers := snd (update_where (\<lambda>m. mbId m = k) ?f (dbMembers tx))\<rparr>
             in finish_audited env (user_event org actor req Organization_Member_Role_Changed ''member'' k)
                  (Some (buildAuditMetadata [(''roleBefore'', Meta_String (mbRole ex)),
                     (''roleAfter'', Meta_String (invitation_role_name role))])) () tx1"
  have only: "mbOrganizationId m = org" if "m \<in> set (dbMembers db)" "mbId m = k" for m
    using member_of_only [OF Some ok that] .
  have "scoped org db (db\<lparr>dbMembers := ?t\<rparr>)"
  proof (rule members_scoped [OF ok])
    show "unique_on mbId ?t" using ok by (intro unique_on_updateI) (simp_all add: db_ok_def)
    show "filter (\<lambda>m. mbOrganizationId m = B) ?t = filter (\<lambda>m. mbOrganizationId m = B) (dbMembers db)"
      if "B \<noteq> org" for B using only that by (intro filter_update_other) auto
    show "\<forall>m \<in> set ?t. has_user db (mbUserId m)" using ok by (auto simp: db_ok_def update_where_def)
  qed
  then have "scoped org db (snd (runAuditedTransaction ?body db))"
    using audited_finish_scoped [OF ok, where org = org and x = "()"
      and chg = "\<lambda>tx. tx\<lparr>dbMembers := snd (update_where (\<lambda>m. mbId m = k) ?f (dbMembers tx))\<rparr>"]
    by (simp add: Let_def)
  moreover have "snd (updateMemberRoleForOrganization env org k role actor req db) = snd (runAuditedTransaction ?body db)"
    by (simp add: updateMemberRoleForOrganization_def Some split: prod.splits sum.splits)
  ultimately show ?thesis by simp
qed (simp add: updateMemberRoleForOrganization_def scoped_refl)

lemma remove_member_scoped:
  "db_ok db \<Longrightarrow> scoped org db (snd (removeMemberForOrganization env org k actor req db))"
proof (cases "member_of db org k")
  case (Some ex)
  assume ok: "db_ok db"
  let ?t = "filter (\<lambda>m. mbId m \<noteq> k) (dbMembers db)"
  have only: "mbOrganizationId m = org" if "m \<in> set (dbMembers db)" "mbId m = k" for m
    using member_of_only [OF Some ok that] .
  have "scoped org db (db\<lparr>dbMembers := ?t\<rparr>)"
  proof (rule members_scoped [OF ok])
    show "unique_on mbId ?t" using ok by (simp add: db_ok_def unique_on_def distinct_map_filter)
    show "filter (\<lambda>m. mbOrganizationId m = B) ?t = filter (\<lambda>m. mbOrganizationId m = B) (dbMembers db)"
      if "B \<noteq> org" for B
      unfolding filter_filter by (rule filter_cong) (use only that in auto)
    show "\<forall>m \<in> set ?t. has_user db (mbUserId m)" using ok by (auto simp: db_ok_def)
  qed
  then show ?thesis
    unfolding removeMemberForOrganization_def Some option.case
    by (rule audited_finish_scoped [OF ok, where org = org
      and chg = "\<lambda>tx. tx\<lparr>dbMembers := filter (\<lambda>m. mbId m \<noteq> k) (dbMembers tx)\<rparr>"]) simp_all
qed (simp add: removeMemberForOrganization_def scoped_refl)

lemma cancel_invitation_scoped:
  "db_ok db \<Longrightarrow> scoped org db (snd (cancelInvitationForOrganization env org k actor req db))"
proof (cases "getInvitationForOrganization db org k")
  case (Some ex)
  assume ok: "db_ok db"
  let ?f = "\<lambda>i. i\<lparr>inStatus := Invitation_Revoked, inUpdatedAt := txNow env\<rparr>"
  let ?P = "\<lambda>i. inId i = k \<and> inStatus i = Invitation_Pending"
  have only: "inOrganizationId m = org" if "m \<in> set (dbInvitations db)" "inId m = k" for m
    using invitation_only [OF Some ok that] .
  have "scoped org db (db\<lparr>dbInvitations := snd (update_where ?P ?f (dbInvitations db))\<rparr>)"
  proof (rule invitations_scoped [OF ok])
    show "unique_on inId (snd (update_where ?P ?f (dbInvitations db)))"
      "unique_on inTokenHash (snd (update_where ?P ?f (dbInvitations db)))"
      using ok by (intro unique_on_updateI; simp add: db_ok_def)+
    show "filter (\<lambda>m. inOrganizationId m = B) (snd (update_where ?P ?f (dbInvitations db)))
        = filter (\<lambda>m. inOrganizationId m = B) (dbInvitations db)" if "B \<noteq> org" for B
      using only that by (intro filter_update_other) auto
  qed
  then have "scoped org db (snd (runAuditedTransaction (cancel_tx env org k actor req) db))"
    unfolding cancel_tx_def
    by (rule audited_finish_scoped [OF ok, where org = org
      and chg = "\<lambda>tx. tx\<lparr>dbInvitations := snd (update_where ?P ?f (dbInvitations tx))\<rparr>"]) simp_all
  with Some ok show ?thesis by (simp add: cancelInvitationForOrganization_def scoped_refl)
qed (simp add: cancelInvitationForOrganization_def scoped_refl)

subsection \<open>The repository as a tenant-scoped interface\<close>

datatype tenant_write =
    Create_Project create_project_input | Update_Project string update_project_input | Delete_Project string
  | Create_Domain string create_domain_input | Rotate_Token string string | Mark_Attempt string "string option"
  | Upsert_Source string upsert_source_input | Record_Fetch string fetch_result_input
  | Update_Role string invitation_role | Remove_Member string | Cancel_Invitation string

text \<open>The actor and the request id come with the operation.\<close>

fun tenant_exec :: "tx_env \<Rightarrow> string \<Rightarrow> string \<times> string option \<times> tenant_write \<Rightarrow> tenant_db \<Rightarrow> tenant_db" where
  "tenant_exec env org (actor, req, Create_Project i) db = snd (createProjectForOrganization env org i actor req db)"
| "tenant_exec env org (actor, req, Update_Project p i) db = snd (updateProjectForOrganization env org p i actor req db)"
| "tenant_exec env org (actor, req, Delete_Project p) db = snd (softDeleteProjectForOrganization env org p actor req db)"
| "tenant_exec env org (actor, req, Create_Domain p i) db = snd (createDomainForOrganization env org p i actor req db)"
| "tenant_exec env org (actor, req, Rotate_Token d h) db = snd (rotateVerificationTokenForOrganization env org d h actor req db)"
| "tenant_exec env org (actor, req, Mark_Attempt d r) db = snd (markVerificationAttemptForOrganization env org d r actor req db)"
| "tenant_exec env org (actor, req, Upsert_Source d i) db = snd (upsertSitemapSourceForOrganization env org d i db)"
| "tenant_exec env org (actor, req, Record_Fetch s i) db = snd (recordSitemapFetchResultForOrganization env org s i db)"
| "tenant_exec env org (actor, req, Update_Role m r) db = snd (updateMemberRoleForOrganization env org m r actor req db)"
| "tenant_exec env org (actor, req, Remove_Member m) db = snd (removeMemberForOrganization env org m actor req db)"
| "tenant_exec env org (actor, req, Cancel_Invitation i) db = snd (cancelInvitationForOrganization env org i actor req db)"

lemmas tenant_ops_scoped =
  create_project_scoped update_project_op_scoped delete_project_scoped create_domain_scoped
  rotate_token_scoped mark_attempt_scoped upsert_source_op_scoped record_fetch_scoped
  update_role_scoped remove_member_scoped cancel_invitation_scoped

interpretation tenant: tenant_scoped tenant_exec
proof
  fix db org env and op :: "string \<times> string option \<times> tenant_write"
  assume "db_ok db"
  then show "scoped org db (tenant_exec env org op db)"
    by (cases op; cases "snd (snd op)") (auto intro: tenant_ops_scoped)
qed


definition demo_tx :: tx_env where
  "demo_tx = \<lparr>txNow = 1000, txNewId = ''new'', txAuditId = ''audit'', txAuditMicros = 1000000, txAuditFails = False\<rparr>"

definition demo_project :: "string \<Rightarrow> string \<Rightarrow> project_row" where
  "demo_project k org =
     \<lparr>pjId = k, pjOrganizationId = org, pjName = k, pjSlug = k, pjStatus = Project_Active,
      pjCreatedAt = 0, pjUpdatedAt = 0\<rparr>"

text \<open>Two organizations, their owners, a project each and a domain of the second.\<close>

definition demo_db :: tenant_db where
  "demo_db =
     \<lparr>dbUsers = [\<lparr>usId = ''u1'', usEmail = ''a@x.org'', usName = ''A''\<rparr>, \<lparr>usId = ''u2'', usEmail = ''b@x.org'', usName = ''B''\<rparr>],
      dbOrganizations = [\<lparr>ogId = ''o1'', ogName = ''One'', ogSlug = ''one'', ogStatus = Organization_Active\<rparr>,
        \<lparr>ogId = ''o2'', ogName = ''Two'', ogSlug = ''two'', ogStatus = Organization_Active\<rparr>],
      dbMembers = [\<lparr>mbId = ''m1'', mbOrganizationId = ''o1'', mbUserId = ''u1'', mbRole = ''owner'', mbCreatedAt = 0\<rparr>,
        \<lparr>mbId = ''m2'', mbOrganizationId = ''o2'', mbUserId = ''u2'', mbRole = ''admin'', mbCreatedAt = 0\<rparr>],
      dbProjects = [demo_project ''p1'' ''o1'', demo_project ''p2'' ''o2''],
      dbDomains = [\<lparr>dmId = ''d2'', dmProjectId = ''p2'', dmHostname = ''b.org'', dmNormalizedHostname = ''b.org'',
        dmStatus = Domain_Pending, dmVerificationMethod = Dns_Txt, dmVerificationTokenHash = ''h'', dmVerifiedAt = None,
        dmLastVerificationAttemptAt = None, dmVerificationFailureCount = 0, dmCreatedAt = 0, dmUpdatedAt = 0\<rparr>],
      dbSources = [], dbUrls = [], dbInvitations = [], dbApiKeys = [], dbAudit = [], dbAuditMetrics = []\<rparr>"

lemma demo_db_ok: "db_ok demo_db"
  by (simp add: db_ok_def demo_db_def demo_project_def unique_on_def hostname_unique_def has_user_def)


text \<open>Slugs are unique across organizations, so one can learn that a slug is taken by another.\<close>

lemma slug_conflict_crosses_tenants:
  assumes "db_ok db" "p \<in> set (dbProjects db)" "pjOrganizationId p \<noteq> org" "pjSlug p = cpSlug input"
    and "has_org db org" "txNewId env \<notin> pjId ` set (dbProjects db)"
  shows "fst (createProjectForOrganization env org input actor req db) = Inl (App PROJECT_SLUG_CONFLICT)"
proof -
  have "row_at pjSlug (dbProjects db) (cpSlug input) = Some p"
    using row_at_mem [of pjSlug "dbProjects db" p] assms(1,2,4) by (simp add: db_ok_def)
  moreover have "row_at pjId (dbProjects db) (txNewId env) = None"
    using assms(6) unfolding row_at_def find_None_iff by (metis imageI)
  ultimately have "insert_project (new_project env org input) db = Inl (Db Unique_Violation)"
    using assms(5) by (simp add: insert_project_def insert_unique_def new_project_def)
  then show ?thesis
    by (simp add: createProjectForOrganization_def runAuditedTransaction_def unique_violation_as_def Let_def)
qed

end
