(* ===== verification/TenantAudit.thy ===== *)
theory TenantAudit
  imports TenantIsolation
begin

section \<open>Changes and their audit rows\<close>

text \<open>
  The transactional pairing the comments of audit-repository.ts ask for: a management operation
  changes tables exactly when it writes its audit row, in one commit; when the row cannot be
  written nothing is changed.
\<close>

text \<open>The tables, without the counters, which no transaction covers.\<close>

definition tables_of :: "tenant_db \<Rightarrow> tenant_db" where
  "tables_of db = db\<lparr>dbAuditMetrics := []\<rparr>"

definition logged :: "tx_env \<Rightarrow> string \<Rightarrow> string \<Rightarrow> tenant_db \<Rightarrow> tenant_db \<Rightarrow> bool" where
  "logged env org actor db db' \<longleftrightarrow> tables_of db' = tables_of db
     \<or> (\<not> txAuditFails env \<and> (\<exists>row. dbAudit db' = dbAudit db @ [row] \<and> aeId row = txAuditId env
          \<and> aeOrganizationId row = org \<and> aeActor row = \<lparr>actorUserId = Some actor, actorApiKeyId = None\<rparr>))"

lemma tables_of_simps [simp]:
  "tables_of (count_audit a r db) = tables_of db" "dbAudit (tables_of db) = dbAudit db"
  by (simp_all add: tables_of_def count_audit_def split: option.splits)

lemma logged_count [simp]: "logged env org actor db (count_audit a r d) = logged env org actor db d"
  by (simp add: logged_def)

lemma logged_refl [simp]: "logged env org actor db db"
  by (simp add: logged_def)

lemma logged_same: "tables_of d = tables_of db \<Longrightarrow> logged env org actor db d"
  by (simp add: logged_def)

lemma logged_audited:
  assumes "\<And>x d a. body db = (Inr x, d, a) \<Longrightarrow> logged env org actor db d"
  shows "logged env org actor db (snd (runAuditedTransaction body db))"
  by (rule audited_keeps) (use assms in auto)

text \<open>An audit input of a user's action.\<close>

definition by_user :: "string \<Rightarrow> string \<Rightarrow> create_audit_event_input \<Rightarrow> bool" where
  "by_user org actor i \<longleftrightarrow> caOrganizationId i = org \<and> caActor i = \<lparr>actorUserId = Some actor, actorApiKeyId = None\<rparr>"

lemma user_event_by_user [simp]: "by_user org actor (user_event org actor req act tt ti)"
  by (simp add: by_user_def user_event_def)

lemma logged_finish:
  assumes "finish_audited env i meta x d1 = (Inr y, d2, a)" "by_user org actor i" "dbAudit d1 = dbAudit db"
  shows "logged env org actor db d2"
  using finish_audited_Inr [OF assms(1)] assms(2,3)
  by (auto simp: logged_def audit_row_def by_user_def)

lemma audited_update_logged:
  assumes "\<And>r tx1. upd db = Inr (r, tx1) \<Longrightarrow> dbAudit tx1 = dbAudit db \<and> (r = None \<longrightarrow> tables_of tx1 = tables_of db)"
    and "\<And>r. by_user org actor (ev r)"
  shows "logged env org actor db (snd (runAuditedTransaction (\<lambda>tx.
      case upd tx of
        Inl e \<Rightarrow> (Inl e, tx, None)
      | Inr (None, tx1) \<Rightarrow> (Inr None, tx1, None)
      | Inr (Some row, tx1) \<Rightarrow> finish_audited env (ev row) (meta tx row) (res row) tx1) db))"
proof (rule logged_audited)
  fix x d a
  assume b: "(case upd db of
        Inl e \<Rightarrow> (Inl e, db, None)
      | Inr (None, tx1) \<Rightarrow> (Inr None, tx1, None)
      | Inr (Some row, tx1) \<Rightarrow> finish_audited env (ev row) (meta db row) (res row) tx1) = (Inr x, d, a)"
  show "logged env org actor db d"
  proof (cases "upd db")
    case (Inr p)
    obtain r tx1 where p: "p = (r, tx1)" by (cases p)
    have s: "dbAudit tx1 = dbAudit db" "r = None \<longrightarrow> tables_of tx1 = tables_of db" using assms(1) Inr p by simp_all
    show ?thesis
    proof (cases r)
      case None
      with b Inr p s show ?thesis by (simp add: logged_same)
    next
      case (Some row)
      with b Inr p have "finish_audited env (ev row) (meta db row) (res row) tx1 = (Inr x, d, a)" by simp
      then show ?thesis by (rule logged_finish) (rule assms(2), rule s)
    qed
  qed (use b in simp)
qed

lemma audited_finish_logged:
  assumes "dbAudit (chg db) = dbAudit db" "by_user org actor ev"
  shows "logged env org actor db (snd (runAuditedTransaction (\<lambda>tx. finish_audited env ev meta x (chg tx)) db))"
proof (rule logged_audited)
  fix y d a assume "finish_audited env ev meta x (chg db) = (Inr y, d, a)"
  then show "logged env org actor db d" by (rule logged_finish [OF _ assms(2,1)])
qed

lemma update_project_logged:
  "update_project org pid f db = Inr (r, tx1) \<Longrightarrow> dbAudit tx1 = dbAudit db \<and> (r = None \<longrightarrow> tables_of tx1 = tables_of db)"
proof -
  let ?P = "\<lambda>p. pjId p = pid \<and> pjOrganizationId p = org"
  assume u: "update_project org pid f db = Inr (r, tx1)"
  then have tx1: "tx1 = db\<lparr>dbProjects := snd (update_where ?P f (dbProjects db))\<rparr>"
    and r: "r = first_row (fst (update_where ?P f (dbProjects db)))"
    by (auto simp: update_project_def Let_def split: prod.splits if_splits)
  have "r = None \<Longrightarrow> find ?P (dbProjects db) = None" by (simp add: r update_where_first)
  then have "r = None \<Longrightarrow> snd (update_where ?P f (dbProjects db)) = dbProjects db" by (rule update_where_none)
  then show ?thesis by (simp add: tx1 tables_of_def)
qed

lemma update_domain_logged:
  "update_domain did f db = Inr (r, tx1) \<Longrightarrow> dbAudit tx1 = dbAudit db \<and> (r = None \<longrightarrow> tables_of tx1 = tables_of db)"
proof -
  let ?P = "\<lambda>d. dmId d = did"
  assume u: "update_domain did f db = Inr (r, tx1)"
  then have tx1: "tx1 = db\<lparr>dbDomains := snd (update_where ?P f (dbDomains db))\<rparr>"
    and r: "r = first_row (fst (update_where ?P f (dbDomains db)))"
    by (auto simp: update_domain_def Let_def split: prod.splits if_splits)
  have "r = None \<Longrightarrow> find ?P (dbDomains db) = None" by (simp add: r update_where_first)
  then have "r = None \<Longrightarrow> snd (update_where ?P f (dbDomains db)) = dbDomains db" by (rule update_where_none)
  then show ?thesis by (simp add: tx1 tables_of_def)
qed

lemma create_project_logged: "logged env org actor db (snd (createProjectForOrganization env org input actor req db))"
  unfolding createProjectForOrganization_def snd_apfst
proof (rule logged_audited)
  fix x d a
  let ?c = "new_project env org input"
  assume "(let created = ?c
         in case insert_project created db of
              Inl e \<Rightarrow> (Inl e, db, None)
            | Inr tx1 \<Rightarrow>
                finish_audited env (user_event org actor req Project_Created ''project'' (pjId created))
                  None created tx1) = (Inr x, d, a)"
  then obtain tx1 where tx1: "insert_project ?c db = Inr tx1"
    and fin: "finish_audited env (user_event org actor req Project_Created ''project'' (pjId ?c)) None ?c tx1 = (Inr x, d, a)"
    by (auto simp: Let_def split: sum.splits)
  have "dbAudit tx1 = dbAudit db" using tx1 by (auto simp: insert_project_def split: if_splits sum.splits)
  then show "logged env org actor db d" by (rule logged_finish [OF fin user_event_by_user])
qed

lemma create_domain_logged: "logged env org actor db (snd (createDomainForOrganization env org p input actor req db))"
  unfolding createDomainForOrganization_def
proof (rule logged_audited)
  fix x d a
  let ?new = "new_domain env p input"
  let ?fin = "finish_audited env (user_event org actor req Domain_Created ''domain'' (dmId ?new))
                (Some (buildAuditMetadata [method_meta ?new])) ?new"
  assume b: "(if \<not> project_in db org p then (Inl (App PROJECT_NOT_FOUND), db, None)
       else let created = ?new
            in apfst (unique_violation_as DOMAIN_ALREADY_EXISTS)
                (case insert_domain created db of
                   Inl e \<Rightarrow> (Inl e, db, None)
                 | Inr tx1 \<Rightarrow>
                     finish_audited env (user_event org actor req Domain_Created ''domain'' (dmId created))
                       (Some (buildAuditMetadata [method_meta created])) created tx1)) = (Inr x, d, a)"
  show "logged env org actor db d"
  proof (cases "insert_domain ?new db")
    case (Inl e)
    with b show ?thesis by (auto simp: Let_def unique_violation_as_def split: if_splits)
  next
    case (Inr tx1)
    obtain y d' a' where fin: "?fin tx1 = (y, d', a')" by (cases "?fin tx1")
    with b Inr have "unique_violation_as DOMAIN_ALREADY_EXISTS y = Inr x" "d' = d" by (simp_all add: Let_def split: if_splits)
    then have fin': "?fin tx1 = (Inr x, d, a')" using fin by (auto simp: unique_violation_as_def split: if_splits)
    have "dbAudit tx1 = dbAudit db" using Inr by (auto simp: insert_domain_def split: if_splits sum.splits)
    then show ?thesis by (rule logged_finish [OF fin' user_event_by_user])
  qed
qed

lemma update_project_op_logged: "logged env org actor db (snd (updateProjectForOrganization env org p input actor req db))"
  unfolding updateProjectForOrganization_def snd_apfst Let_def
  by (rule audited_update_logged) (erule update_project_logged, simp)

lemma delete_project_logged: "logged env org actor db (snd (softDeleteProjectForOrganization env org p actor req db))"
  unfolding softDeleteProjectForOrganization_def Let_def
  by (rule audited_update_logged) (erule update_project_logged, simp)

lemma rotate_token_logged: "logged env org actor db (snd (rotateVerificationTokenForOrganization env org d h actor req db))"
proof (cases "getDomainForOrganization db org d")
  case (Some ex)
  show ?thesis
    unfolding rotateVerificationTokenForOrganization_def Some option.case
    by (rule audited_update_logged) (erule update_domain_logged, simp)
qed (simp add: rotateVerificationTokenForOrganization_def)

lemma mark_attempt_logged: "logged env org actor db (snd (markVerificationAttemptForOrganization env org d r actor req db))"
proof (cases "getDomainForOrganization db org d")
  case (Some ex)
  show ?thesis
    unfolding markVerificationAttemptForOrganization_def Some option.case
    by (rule audited_update_logged) (erule update_domain_logged, simp)
qed (simp add: markVerificationAttemptForOrganization_def)

lemma update_role_logged: "logged env org actor db (snd (updateMemberRoleForOrganization env org k role actor req db))"
proof (cases "member_of db org k")
  case (Some ex)
  let ?chg = "\<lambda>tx. tx\<lparr>dbMembers := snd (update_where (\<lambda>m. mbId m = k)
      (\<lambda>m. m\<lparr>mbRole := invitation_role_name role\<rparr>) (dbMembers tx))\<rparr>"
  let ?tx = "runAuditedTransaction (\<lambda>tx. finish_audited env
      (user_event org actor req Organization_Member_Role_Changed ''member'' k)
      (Some (buildAuditMetadata [(''roleBefore'', Meta_String (mbRole ex)),
         (''roleAfter'', Meta_String (invitation_role_name role))])) () (?chg tx)) db"
  have "logged env org actor db (snd ?tx)"
    by (rule audited_finish_logged [where chg = ?chg]) simp_all
  moreover have "snd (updateMemberRoleForOrganization env org k role actor req db) = snd ?tx"
    by (simp add: updateMemberRoleForOrganization_def Some Let_def split: prod.splits sum.splits)
  ultimately show ?thesis by (simp only:)
qed (simp add: updateMemberRoleForOrganization_def)

lemma remove_member_logged: "logged env org actor db (snd (removeMemberForOrganization env org k actor req db))"
proof (cases "member_of db org k")
  case (Some ex)
  show ?thesis
    unfolding removeMemberForOrganization_def Some option.case
    by (rule audited_finish_logged [where chg = "\<lambda>tx. tx\<lparr>dbMembers := filter (\<lambda>m. mbId m \<noteq> k) (dbMembers tx)\<rparr>"]) simp_all
qed (simp add: removeMemberForOrganization_def)

lemma cancel_invitation_logged: "logged env org actor db (snd (cancelInvitationForOrganization env org k actor req db))"
proof (cases "getInvitationForOrganization db org k")
  case (Some ex)
  have "logged env org actor db (snd (runAuditedTransaction (cancel_tx env org k actor req) db))"
    unfolding cancel_tx_def
    by (rule audited_finish_logged [where chg = "\<lambda>tx. tx\<lparr>dbInvitations :=
        snd (update_where (\<lambda>i. inId i = k \<and> inStatus i = Invitation_Pending)
          (\<lambda>i. i\<lparr>inStatus := Invitation_Revoked, inUpdatedAt := txNow env\<rparr>) (dbInvitations tx))\<rparr>"]) simp_all
  then show ?thesis by (simp add: cancelInvitationForOrganization_def Some)
qed (simp add: cancelInvitationForOrganization_def)

text \<open>
  The two operations on sitemap sources are not audited where they are; the routes audit them
  through src/repositories/postgres/sitemap-persistence-repository.ts.
\<close>

fun audited_write :: "tenant_write \<Rightarrow> bool" where
  "audited_write (Upsert_Source _ _) = False"
| "audited_write (Record_Fetch _ _) = False"
| "audited_write _ = True"



end
