(* ===== verification/Access.thy ===== *)
theory Access
  imports TenantAudit
begin

section \<open>Sessions, memberships and replies\<close>

text \<open>
  src/auth/session.ts and src/auth/tenant-context.ts: who is asking, whether they are a member of
  the organization and whether their role has the permission; and the replies of the management
  routes with \<open>sendAppError\<close> of src/routes/organizations.ts. Better Auth's \<open>getSession\<close> is an
  argument: the result it has returned. The denial counters are left out.
\<close>

subsection \<open>Who is asking\<close>

record auth_user =
  auUserId :: string
  auEmail :: string

text \<open>
  \<open>getSession\<close> returns null, or an object that may have a session (with an active organization)
  and a user.
\<close>

type_synonym auth_session = "(string option option \<times> auth_user option) option"

record session_context =
  scUserId :: string
  scEmail :: string
  scActiveOrganizationId :: "string option"

definition requireSession :: "auth_session \<Rightarrow> app_error_code + session_context" where
  "requireSession result =
     (case result of
        Some (Some act, Some u) \<Rightarrow>
          Inr \<lparr>scUserId = auUserId u, scEmail = auEmail u, scActiveOrganizationId = act\<rparr>
      | _ \<Rightarrow> Inl UNAUTHENTICATED)"

record tenant_context =
  tcSession :: session_context
  tcOrganizationId :: string
  tcRole :: string

definition requireOrganizationMembership ::
  "auth_session \<Rightarrow> tenant_db \<Rightarrow> string \<Rightarrow> app_error_code + tenant_context" where
  "requireOrganizationMembership auth db organizationId =
     (case requireSession auth of
        Inl e \<Rightarrow> Inl e
      | Inr s \<Rightarrow>
          (case find (\<lambda>m. mbOrganizationId m = organizationId \<and> mbUserId m = scUserId s) (dbMembers db) of
             None \<Rightarrow> Inl ORGANIZATION_NOT_FOUND
           | Some m \<Rightarrow> Inr \<lparr>tcSession = s, tcOrganizationId = organizationId, tcRole = mbRole m\<rparr>))"

definition requireOrganizationRole ::
  "auth_session \<Rightarrow> tenant_db \<Rightarrow> string \<Rightarrow> organization_role list \<Rightarrow> app_error_code + tenant_context" where
  "requireOrganizationRole auth db organizationId allowedRoles =
     (case requireOrganizationMembership auth db organizationId of
        Inl e \<Rightarrow> Inl e
      | Inr ctx \<Rightarrow> (if tcRole ctx \<notin> role_name ` set allowedRoles then Inl FORBIDDEN_ROLE else Inr ctx))"

text \<open>For a role that is none of the three, \<open>MATRIX[role].includes\<close> throws.\<close>

definition requireOrganizationPermission ::
  "auth_session \<Rightarrow> tenant_db \<Rightarrow> string \<Rightarrow> organization_permission \<Rightarrow> tenant_error + tenant_context" where
  "requireOrganizationPermission auth db organizationId permission =
     (case requireOrganizationMembership auth db organizationId of
        Inl e \<Rightarrow> Inl (App e)
      | Inr ctx \<Rightarrow>
          (case role_of (tcRole ctx) of
             None \<Rightarrow> Inl Type_Error
           | Some role \<Rightarrow> (if roleHasPermission role permission then Inr ctx else Inl (App FORBIDDEN_ROLE))))"

definition context_user :: "tenant_context \<Rightarrow> string" where
  "context_user ctx = scUserId (tcSession ctx)"

text \<open>Who has a permission: the session's user, as a member whose role has it.\<close>

definition may :: "tenant_db \<Rightarrow> string \<Rightarrow> string \<Rightarrow> organization_permission \<Rightarrow> bool" where
  "may db organizationId userId permission \<longleftrightarrow>
     (\<exists>m \<in> set (dbMembers db). mbOrganizationId m = organizationId \<and> mbUserId m = userId
        \<and> (\<exists>role. mbRole m = role_name role \<and> least_role permission \<le> role))"

lemma membership_Inr:
  "requireOrganizationMembership auth db org = Inr ctx \<Longrightarrow>
     tcOrganizationId ctx = org \<and> (\<exists>m \<in> set (dbMembers db). mbOrganizationId m = org
       \<and> mbUserId m = context_user ctx \<and> tcRole ctx = mbRole m)
     \<and> (\<exists>act u. auth = Some (Some act, Some u) \<and> auUserId u = context_user ctx)"
  by (auto simp: requireOrganizationMembership_def requireSession_def context_user_def find_Some_iff
      split: option.splits sum.splits)

lemma permission_Inr:
  assumes "requireOrganizationPermission auth db org p = Inr ctx"
  shows "tcOrganizationId ctx = org \<and> may db org (context_user ctx) p
    \<and> (\<exists>act u. auth = Some (Some act, Some u) \<and> auUserId u = context_user ctx)"
proof -
  obtain role where m: "requireOrganizationMembership auth db org = Inr ctx"
    and r: "role_of (tcRole ctx) = Some role" "roleHasPermission role p"
    using assms by (auto simp: requireOrganizationPermission_def split: sum.splits option.splits if_splits)
  from r have "tcRole ctx = role_name role" "least_role p \<le> role" by (simp_all add: role_of_Some permission_threshold)
  with membership_Inr [OF m] show ?thesis unfolding may_def by metis
qed

text \<open>
  The answers do not tell a stranger whether the organization exists: without a membership the
  refusal is the same for every organization.
\<close>

lemma stranger_sees_nothing:
  assumes "requireSession auth = Inr s" "\<forall>m \<in> set (dbMembers db). \<not> (mbOrganizationId m = org \<and> mbUserId m = scUserId s)"
  shows "requireOrganizationPermission auth db org p = Inl (App ORGANIZATION_NOT_FOUND)"
proof -
  have "find (\<lambda>m. mbOrganizationId m = org \<and> mbUserId m = scUserId s) (dbMembers db) = None"
    using assms(2) by (simp add: find_None_iff)
  with assms(1) show ?thesis by (simp add: requireOrganizationPermission_def requireOrganizationMembership_def)
qed

subsection \<open>Replies\<close>

text \<open>
  A body with its status, an error with a status and a code of its own, an application error
  (\<open>sendAppError\<close>, with the status of its code), or a throw that leaves the handler.
\<close>

datatype 'a reply = Reply nat 'a | Error_Reply nat string | App_Reply app_error_code | Thrown tenant_error

definition sendAppError :: "tenant_error \<Rightarrow> 'a reply" where
  "sendAppError err = (case err of App code \<Rightarrow> App_Reply code | _ \<Rightarrow> Thrown err)"

text \<open>The status that is sent; an unhandled throw is a 500 of the framework.\<close>

fun reply_status :: "'a reply \<Rightarrow> nat" where
  "reply_status (Reply s _) = s"
| "reply_status (Error_Reply s _) = s"
| "reply_status (App_Reply code) = status_by_code code"
| "reply_status (Thrown _) = 500"

definition invalid_request :: "'a reply" where
  "invalid_request = Error_Reply 400 ''invalid_request''"

text \<open>
  The start of the handlers of one organization: the permission, then the schema of the body.
\<close>

definition with_permission ::
  "auth_session \<Rightarrow> organization_permission \<Rightarrow> string \<Rightarrow> tenant_db \<Rightarrow> (tenant_context \<Rightarrow> 'a reply \<times> tenant_db) \<Rightarrow> 'a reply \<times> tenant_db" where
  "with_permission auth permission organizationId db handle =
     (case requireOrganizationPermission auth db organizationId permission of
        Inl e \<Rightarrow> (sendAppError e, db)
      | Inr ctx \<Rightarrow> handle ctx)"

definition with_body :: "'b option \<Rightarrow> tenant_db \<Rightarrow> ('b \<Rightarrow> 'a reply \<times> tenant_db) \<Rightarrow> 'a reply \<times> tenant_db" where
  "with_body parsed db handle = (case parsed of None \<Rightarrow> (invalid_request, db) | Some b \<Rightarrow> handle b)"

text \<open>What becomes of a result: the reply of a value, or of the error thrown.\<close>

definition reply_of :: "('b \<Rightarrow> 'a reply) \<Rightarrow> (tenant_error + 'b) \<times> tenant_db \<Rightarrow> 'a reply \<times> tenant_db" where
  "reply_of f r = (case r of (Inl e, db) \<Rightarrow> (sendAppError e, db) | (Inr x, db) \<Rightarrow> (f x, db))"

lemma snd_reply_of [simp]: "snd (reply_of f r) = snd r"
  by (simp add: reply_of_def split: prod.splits sum.splits)

text \<open>A database changes under \<open>with_permission\<close> only when the user has the permission.\<close>

lemma with_permission_cases:
  "snd (with_permission auth p org db h) = db
   \<or> (\<exists>ctx. requireOrganizationPermission auth db org p = Inr ctx
        \<and> snd (with_permission auth p org db h) = snd (h ctx))"
  by (simp add: with_permission_def split: sum.splits)

lemma with_body_cases:
  "snd (with_body parsed db h) = db \<or> (\<exists>b. parsed = Some b \<and> snd (with_body parsed db h) = snd (h b))"
  by (simp add: with_body_def split: option.splits)

subsection \<open>Bodies\<close>

text \<open>The members of a JSON object that the zod schemas ask for.\<close>

definition json_field :: "json \<Rightarrow> string \<Rightarrow> json option" where
  "json_field body k = (case body of Json_Object obj \<Rightarrow> map_of obj k | _ \<Rightarrow> None)"

definition is_object :: "json \<Rightarrow> bool" where
  "is_object body \<longleftrightarrow> (case body of Json_Object _ \<Rightarrow> True | _ \<Rightarrow> False)"

text \<open>\<open>z.string().min(lo).max(hi)\<close>, and the same with \<open>.optional()\<close>.\<close>

definition z_string :: "nat \<Rightarrow> nat \<Rightarrow> json option \<Rightarrow> string option" where
  "z_string lo hi j =
     (case j of Some (Json_String s) \<Rightarrow> (if lo \<le> length s \<and> length s \<le> hi then Some s else None) | _ \<Rightarrow> None)"

definition z_optional :: "(json option \<Rightarrow> 'a option) \<Rightarrow> json option \<Rightarrow> 'a option option" where
  "z_optional p j = (case j of None \<Rightarrow> Some None | Some _ \<Rightarrow> map_option Some (p j))"

text \<open>\<open>z.enum\<close>\<close>

definition z_enum :: "(string \<times> 'a) list \<Rightarrow> json option \<Rightarrow> 'a option" where
  "z_enum names j = (case j of Some (Json_String s) \<Rightarrow> map_of names s | _ \<Rightarrow> None)"

subsection \<open>Standalone audit rows (createAuditService.record, createAuditEvent)\<close>

record record_audit_input =
  raOrganizationId :: string
  raActor :: audit_actor
  raAction :: audit_action
  raTargetType :: string
  raTargetId :: "string option"
  raResult :: audit_result
  raErrorCode :: "string option"
  raRequestId :: "string option"
  raMetadata :: "(string \<times> meta_value) list option"

definition createAuditEvent :: "tx_env \<Rightarrow> create_audit_event_input \<Rightarrow> tenant_db \<Rightarrow> (tenant_error + unit) \<times> tenant_db" where
  "createAuditEvent env i db =
     (case insertAuditEventRow env i db of
        Inl e \<Rightarrow> (Inl e, count_audit (Some (caAction i)) Audit_Failure db)
      | Inr db' \<Rightarrow> (Inr (), count_audit (Some (caAction i)) Audit_Success db'))"

definition recordAuditEvent :: "tx_env \<Rightarrow> record_audit_input \<Rightarrow> tenant_db \<Rightarrow> (tenant_error + unit) \<times> tenant_db" where
  "recordAuditEvent env i db =
     (case (case raMetadata i of None \<Rightarrow> Inr None | Some es \<Rightarrow> map_sum id Some (buildAuditMetadata es)) of
        Inl e \<Rightarrow> (Inl (Metadata e), db)
      | Inr m \<Rightarrow>
          createAuditEvent env
            \<lparr>caOrganizationId = raOrganizationId i, caActor = resolveActorFields (raActor i), caAction = raAction i,
             caTargetType = raTargetType i, caTargetId = raTargetId i, caResult = raResult i,
             caErrorCode = raErrorCode i, caRequestId = raRequestId i, caMetadata = m\<rparr> db)"

text \<open>Nothing but the audit log changes, and only for the organization named.\<close>

lemma record_audit_scoped:
  assumes "db_ok db"
  shows "scoped (raOrganizationId i) db (snd (recordAuditEvent env i db))"
proof -
  have "scoped (caOrganizationId c) db (snd (createAuditEvent env c db))" for c
  proof (cases "insertAuditEventRow env c db")
    case (Inl e)
    with assms show ?thesis by (simp add: createAuditEvent_def scoped_refl)
  next
    case (Inr d)
    then have d: "d = db\<lparr>dbAudit := dbAudit db @ [audit_row env c]\<rparr>" "row_at aeId (dbAudit db) (txAuditId env) = None"
      by (simp_all add: insertAudit_Inr)
    then have "db_ok d" using assms by (simp add: db_ok_def unique_on_append_at audit_row_def)
    moreover have "org_view B d = org_view B db" if "B \<noteq> caOrganizationId c" for B
      unfolding d by (rule view_audit_other) (use that in \<open>simp add: audit_row_def\<close>)
    ultimately show ?thesis using Inr d by (simp add: createAuditEvent_def scoped_def more_users_same)
  qed
  then show ?thesis using assms scoped_refl
    by (simp add: recordAuditEvent_def split: sum.splits) (metis create_audit_event_input.select_convs(1))
qed

lemma record_audit_tables:
  "tables_of (snd (recordAuditEvent env i db)) = tables_of (db\<lparr>dbAudit := dbAudit (snd (recordAuditEvent env i db))\<rparr>)"
  by (auto simp: recordAuditEvent_def createAuditEvent_def insertAudit_Inr tables_of_def split: sum.splits)

end
