(* ===== verification/Origins.thy ===== *)
theory Origins
  imports AppErrors UrlSecurity
begin

section \<open>Slugs, trusted origins and the CSRF check\<close>

text \<open>
  src/lib/slug.ts, src/lib/trusted-origins.ts and src/lib/csrf.ts. The regular expressions of
  the slug are written as the list functions they stand for; the platform's URL parser is the
  argument \<open>parse_url\<close>, as in UrlSecurity.
\<close>

subsection \<open>Slugs\<close>

definition MAX_SLUG_LENGTH :: nat where
  "MAX_SLUG_LENGTH = 63"

definition DASH :: char where
  "DASH = CHR ''-''"

definition slug_alnum :: "char \<Rightarrow> bool" where
  "slug_alnum c \<longleftrightarrow> is_lower c \<or> is_digit c"

definition slug_char :: "char \<Rightarrow> bool" where
  "slug_char c \<longleftrightarrow> slug_alnum c \<or> c = DASH"

text \<open>\<open>replace(/P+/g, '-')\<close>: every maximal run becomes one dash.\<close>

fun runs_to_dash :: "(char \<Rightarrow> bool) \<Rightarrow> bool \<Rightarrow> string \<Rightarrow> string" where
  "runs_to_dash P in_run [] = []"
| "runs_to_dash P in_run (c # cs) =
     (if P c then (if in_run then runs_to_dash P True cs else DASH # runs_to_dash P True cs)
      else c # runs_to_dash P False cs)"

definition strip_lead_dash :: "string \<Rightarrow> string" where
  "strip_lead_dash s = (case s of [] \<Rightarrow> [] | c # cs \<Rightarrow> (if c = DASH then cs else s))"

definition strip_last_dash :: "string \<Rightarrow> string" where
  "strip_last_dash s = (if s \<noteq> [] \<and> last s = DASH then butlast s else s)"

definition normalizeSlug :: "string \<Rightarrow> string" where
  "normalizeSlug input =
     (let s1 = js_trim (js_lower input);
          s2 = runs_to_dash (\<lambda>c. \<not> slug_char c) False s1;
          s3 = runs_to_dash (\<lambda>c. c = DASH) False s2;
          s4 = strip_last_dash (strip_lead_dash s3)
      in strip_last_dash (take MAX_SLUG_LENGTH s4))"

definition slugFromName :: "string \<Rightarrow> string" where
  "slugFromName name = (let base = normalizeSlug name in if length base > 0 then base else ''project'')"

definition isValidSlug :: "string \<Rightarrow> bool" where
  "isValidSlug s \<longleftrightarrow> s \<noteq> [] \<and> slug_alnum (hd s) \<and> slug_alnum (last s) \<and> list_all slug_char s
     \<and> length s \<le> MAX_SLUG_LENGTH"

text \<open>No two dashes in a row.\<close>

fun single_dashes :: "string \<Rightarrow> bool" where
  "single_dashes (a # b # s) \<longleftrightarrow> \<not> (a = DASH \<and> b = DASH) \<and> single_dashes (b # s)"
| "single_dashes _ \<longleftrightarrow> True"

lemma slug_char_DASH [simp]: "slug_char DASH" "\<not> slug_alnum DASH"
  by (simp_all add: slug_char_def slug_alnum_def DASH_def is_lower_def is_digit_def)

lemma runs_chars: "list_all slug_char (runs_to_dash (\<lambda>c. \<not> slug_char c) r s)"
  by (induction "\<lambda>c. \<not> slug_char c" r s rule: runs_to_dash.induct) simp_all

lemma runs_dash_chars: "list_all slug_char s \<Longrightarrow> list_all slug_char (runs_to_dash (\<lambda>c. c = DASH) r s)"
  by (induction "\<lambda>c. c = DASH" r s rule: runs_to_dash.induct) simp_all

lemma runs_dash_single:
  "single_dashes (runs_to_dash (\<lambda>c. c = DASH) r s)
   \<and> (r \<longrightarrow> runs_to_dash (\<lambda>c. c = DASH) r s = [] \<or> hd (runs_to_dash (\<lambda>c. c = DASH) r s) \<noteq> DASH)"
proof (induction "\<lambda>c. c = DASH" r s rule: runs_to_dash.induct)
  case (2 r c cs)
  show ?case
  proof (cases "c = DASH")
    case True
    with 2 show ?thesis
      by (cases "runs_to_dash (\<lambda>c. c = DASH) True cs") auto
  next
    case False
    with 2 show ?thesis
      by (cases "runs_to_dash (\<lambda>c. c = DASH) False cs") auto
  qed
qed simp

lemma single_dashes_tl: "single_dashes (c # s) \<Longrightarrow> single_dashes s"
  by (cases s) auto

lemma single_dashes_append: "single_dashes (s @ t) \<Longrightarrow> single_dashes s"
proof (induction s rule: single_dashes.induct)
  case (1 a b s)
  then show ?case by auto
qed simp_all

lemma single_dashes_take: "single_dashes s \<Longrightarrow> single_dashes (take n s)"
  using single_dashes_append [of "take n s" "drop n s"] by simp

lemma single_dashes_butlast_last: "single_dashes (s @ [DASH]) \<Longrightarrow> s = [] \<or> last s \<noteq> DASH"
  by (induction s rule: single_dashes.induct) auto

definition slug_clean :: "string \<Rightarrow> bool" where
  "slug_clean s \<longleftrightarrow> list_all slug_char s \<and> single_dashes s \<and> (s = [] \<or> hd s \<noteq> DASH)"

lemma strip_lead_clean: "list_all slug_char s \<Longrightarrow> single_dashes s \<Longrightarrow> slug_clean (strip_lead_dash s)"
  by (cases s rule: single_dashes.cases)
    (auto simp: strip_lead_dash_def slug_clean_def dest: single_dashes_tl)

lemma slug_clean_take: "slug_clean s \<Longrightarrow> slug_clean (take n s)"
proof -
  assume s: "slug_clean s"
  have "hd (take n s) = hd s" if "take n s \<noteq> []" using that by (cases s; cases n) auto
  with s show "slug_clean (take n s)"
    using single_dashes_take [of s n] by (auto simp: slug_clean_def list_all_iff dest: in_set_takeD)
qed

lemma strip_last_clean: "slug_clean s \<Longrightarrow> slug_clean (strip_last_dash s) \<and> (strip_last_dash s = [] \<or> last (strip_last_dash s) \<noteq> DASH)"
proof (cases s rule: rev_cases)
  case (snoc t c)
  assume "slug_clean s"
  with snoc show ?thesis
    using single_dashes_butlast_last [of t]
    by (cases t) (auto simp: strip_last_dash_def slug_clean_def dest: single_dashes_append [of "_ # _", simplified])
qed (simp add: strip_last_dash_def)

lemma strip_last_length: "length (strip_last_dash s) \<le> length s"
  by (simp add: strip_last_dash_def)

lemma normalizeSlug_shape:
  "slug_clean (normalizeSlug s) \<and> (normalizeSlug s = [] \<or> last (normalizeSlug s) \<noteq> DASH)
   \<and> length (normalizeSlug s) \<le> MAX_SLUG_LENGTH"
proof -
  let ?s3 = "runs_to_dash (\<lambda>c. c = DASH) False (runs_to_dash (\<lambda>c. \<not> slug_char c) False (js_trim (js_lower s)))"
  let ?s4 = "strip_last_dash (strip_lead_dash ?s3)"
  have "slug_clean (strip_lead_dash ?s3)"
    using runs_dash_chars [OF runs_chars] runs_dash_single by (intro strip_lead_clean) blast+
  then have "slug_clean (take MAX_SLUG_LENGTH ?s4)"
    using strip_last_clean slug_clean_take by blast
  from strip_last_clean [OF this] strip_last_length [of "take MAX_SLUG_LENGTH ?s4"]
  show ?thesis by (simp add: normalizeSlug_def Let_def)
qed

lemma slug_clean_valid:
  assumes "slug_clean s" "s \<noteq> []" "last s \<noteq> DASH" "length s \<le> MAX_SLUG_LENGTH"
  shows "isValidSlug s"
proof -
  have "slug_char (hd s)" "slug_char (last s)" using assms(1,2) by (auto simp: slug_clean_def list_all_iff)
  with assms show ?thesis by (auto simp: isValidSlug_def slug_clean_def slug_char_def)
qed

lemma slug_alnum_cases: "slug_alnum c \<Longrightarrow> js_lower_char c = c \<and> \<not> js_space c"
proof -
  have "\<forall>c \<in> set ''abcdefghijklmnopqrstuvwxyz0123456789''. js_lower_char c = c \<and> \<not> js_space c" by code_simp
  moreover assume "slug_alnum c"
  ultimately show ?thesis by (auto simp: slug_alnum_def is_lower_def is_digit_def)
qed

lemma slug_char_lower: "slug_char c \<Longrightarrow> js_lower_char c = c \<and> \<not> js_space c"
proof -
  have "js_lower_char DASH = DASH \<and> \<not> js_space DASH" unfolding DASH_def by code_simp
  then show "slug_char c \<Longrightarrow> ?thesis" using slug_alnum_cases by (auto simp: slug_char_def)
qed

lemma runs_id: "list_all (\<lambda>c. \<not> P c) s \<Longrightarrow> runs_to_dash P r s = s"
  by (induction P r s rule: runs_to_dash.induct) simp_all

lemma runs_dash_id:
  "single_dashes s \<Longrightarrow> (\<not> r \<or> s = [] \<or> hd s \<noteq> DASH) \<Longrightarrow> runs_to_dash (\<lambda>c. c = DASH) r s = s"
proof (induction "\<lambda>c. c = DASH" r s rule: runs_to_dash.induct)
  case (2 r c cs)
  then show ?case by (cases cs) auto
qed simp

lemma normalizeSlug_id:
  assumes "slug_clean s" "s = [] \<or> last s \<noteq> DASH" "length s \<le> MAX_SLUG_LENGTH"
  shows "normalizeSlug s = s"
proof -
  have all: "list_all slug_char s" and sd: "single_dashes s" and hd: "s = [] \<or> hd s \<noteq> DASH"
    using assms(1) by (auto simp: slug_clean_def)
  have "js_lower s = s"
    using all slug_char_lower by (auto simp: js_lower_def list_all_iff intro: map_idI)
  moreover have "js_trim s = s"
    using all slug_char_lower by (intro js_trim_id) (auto simp: list_all_iff)
  moreover have "runs_to_dash (\<lambda>c. \<not> slug_char c) False s = s"
    using all by (intro runs_id) (simp add: list_all_iff)
  moreover have "runs_to_dash (\<lambda>c. c = DASH) False s = s"
    using sd by (intro runs_dash_id) simp_all
  moreover have "strip_lead_dash s = s" "strip_last_dash s = s"
    using hd assms(2) by (auto simp: strip_lead_dash_def strip_last_dash_def split: list.splits)
  ultimately show ?thesis using assms(3) by (simp add: normalizeSlug_def Let_def)
qed

text \<open>
  Slugs. \<open>normalizeSlug\<close> returns the empty string or a valid slug without two dashes in a
  row, it leaves its own results alone, and \<open>slugFromName\<close> always returns a valid slug.
\<close>

theorem slug_normal_form:
  "(normalizeSlug s = [] \<or> isValidSlug (normalizeSlug s))
   \<and> single_dashes (normalizeSlug s)
   \<and> normalizeSlug (normalizeSlug s) = normalizeSlug s
   \<and> isValidSlug (slugFromName s)
   \<and> normalizeSlug (slugFromName s) = slugFromName s"
proof -
  have sh: "slug_clean (normalizeSlug s)" "normalizeSlug s = [] \<or> last (normalizeSlug s) \<noteq> DASH"
    "length (normalizeSlug s) \<le> MAX_SLUG_LENGTH"
    using normalizeSlug_shape [of s] by blast+
  have v: "normalizeSlug s = [] \<or> isValidSlug (normalizeSlug s)"
    using slug_clean_valid [OF sh(1) _ _ sh(3)] sh(2) by blast
  have i: "normalizeSlug (normalizeSlug s) = normalizeSlug s"
    by (rule normalizeSlug_id [OF sh])
  have p: "isValidSlug ''project''" "normalizeSlug ''project'' = ''project''" by code_simp+
  show ?thesis
    using sh(1) v i p by (cases "normalizeSlug s = []") (simp_all add: slugFromName_def slug_clean_def Let_def)
qed

subsection \<open>Origins\<close>

text \<open>\<open>URL.host\<close>: the hostname, and the port unless it is the default one (then \<open>port\<close> is empty).\<close>

definition url_host :: "url \<Rightarrow> string" where
  "url_host u = (if uPort u = [] then uHostname u else uHostname u @ '':'' @ uPort u)"

definition url_origin :: "url \<Rightarrow> string" where
  "url_origin u = uProtocol u @ ''//'' @ url_host u"

definition normalizeOriginForComparison :: "(string \<Rightarrow> url option) \<Rightarrow> string \<Rightarrow> string option" where
  "normalizeOriginForComparison parse_url origin =
     (case parse_url origin of
        None \<Rightarrow> None
      | Some parsed \<Rightarrow>
          (if uPathname parsed \<noteq> ''/'' \<and> uPathname parsed \<noteq> [] then None
           else if uSearch parsed \<noteq> [] \<or> uHash parsed \<noteq> [] then None
           else if uUsername parsed \<noteq> [] \<or> uPassword parsed \<noteq> [] then None
           else if uProtocol parsed \<noteq> ''http:'' \<and> uProtocol parsed \<noteq> ''https:'' then None
           else Some (url_origin parsed)))"

datatype csrf_rejection = missing_origin | malformed_origin | untrusted_origin

definition MUTATING_METHODS :: "string list" where
  "MUTATING_METHODS = [''POST'', ''PATCH'', ''PUT'', ''DELETE'']"

text \<open>\<open>Inr\<close> lets the request through to its handler; the reason counts in the metrics only.\<close>

definition checkOrigin ::
  "(string \<Rightarrow> url option) \<Rightarrow> string list \<Rightarrow> string \<Rightarrow> string option \<Rightarrow> csrf_rejection + unit" where
  "checkOrigin parse_url trustedOrigins req_method origin =
     (if req_method \<notin> set MUTATING_METHODS then Inr ()
      else case origin of
        None \<Rightarrow> Inl missing_origin
      | Some v \<Rightarrow>
          if v = [] then Inl missing_origin
          else case normalizeOriginForComparison parse_url v of
            None \<Rightarrow> Inl malformed_origin
          | Some n \<Rightarrow> if n \<notin> set trustedOrigins then Inl untrusted_origin else Inr ())"

text \<open>\<open>sendRejection\<close>: one status and one code for every reason.\<close>

definition sendRejection :: "csrf_rejection \<Rightarrow> nat \<times> app_error_code" where
  "sendRejection r = (status_by_code CSRF_ORIGIN_REJECTED, CSRF_ORIGIN_REJECTED)"

datatype trusted_origin_error =
    No_Origins
  | Wildcard_Origin
  | Invalid_Origin string
  | Origin_Not_Http string
  | Origin_Not_Https string
  | Origin_Has_Path string
  | Origin_Has_Query string
  | Origin_Has_Fragment string
  | Origin_Has_Credentials string

definition parse_trusted_entry :: "(string \<Rightarrow> url option) \<Rightarrow> bool \<Rightarrow> string \<Rightarrow> trusted_origin_error + string" where
  "parse_trusted_entry parse_url isProduction entry =
     (if entry = ''*'' then Inl Wildcard_Origin
      else case parse_url entry of
        None \<Rightarrow> Inl (Invalid_Origin entry)
      | Some parsed \<Rightarrow>
          (if uProtocol parsed \<noteq> ''http:'' \<and> uProtocol parsed \<noteq> ''https:'' then Inl (Origin_Not_Http entry)
           else if isProduction \<and> uProtocol parsed \<noteq> ''https:'' then Inl (Origin_Not_Https entry)
           else if uPathname parsed \<noteq> ''/'' \<and> uPathname parsed \<noteq> [] then Inl (Origin_Has_Path entry)
           else if uSearch parsed \<noteq> [] then Inl (Origin_Has_Query entry)
           else if uHash parsed \<noteq> [] then Inl (Origin_Has_Fragment entry)
           else if uUsername parsed \<noteq> [] \<or> uPassword parsed \<noteq> [] then Inl (Origin_Has_Credentials entry)
           else Inr (url_origin parsed)))"

fun parse_trusted_entries ::
  "(string \<Rightarrow> url option) \<Rightarrow> bool \<Rightarrow> string list \<Rightarrow> trusted_origin_error + string list" where
  "parse_trusted_entries parse_url inProd [] = Inr []"
| "parse_trusted_entries parse_url inProd (e # es) =
     and_then (parse_trusted_entry parse_url inProd e) (\<lambda>o'.
     and_then (parse_trusted_entries parse_url inProd es) (\<lambda>os. Inr (o' # os)))"

text \<open>\<open>[...new Set(xs)]\<close> keeps the first occurrence of every element.\<close>

fun set_order :: "'a list \<Rightarrow> 'a list" where
  "set_order [] = []"
| "set_order (x # xs) = x # filter (\<lambda>y. y \<noteq> x) (set_order xs)"

definition parseTrustedOrigins :: "(string \<Rightarrow> url option) \<Rightarrow> string \<Rightarrow> bool \<Rightarrow> trusted_origin_error + string list" where
  "parseTrustedOrigins parse_url raw isProduction =
     (let entries = filter (\<lambda>s. length s > 0) (map js_trim (js_split (CHR '','') raw))
      in if entries = [] then Inl No_Origins
         else and_then (parse_trusted_entries parse_url isProduction entries) (\<lambda>result. Inr (set_order result)))"

lemma set_set_order [simp]: "set (set_order xs) = set xs"
  by (induction xs) auto

lemma distinct_set_order [simp]: "distinct (set_order xs)"
  by (induction xs) auto

text \<open>Configuration and request go through the same normalisation.\<close>

lemma parse_trusted_entry_normal:
  "parse_trusted_entry parse_url inProd e = Inr r \<Longrightarrow>
     normalizeOriginForComparison parse_url e = Some r
     \<and> (\<exists>u. parse_url e = Some u \<and> r = url_origin u \<and> (inProd \<longrightarrow> uProtocol u = ''https:''))"
  by (auto simp: parse_trusted_entry_def normalizeOriginForComparison_def split: if_splits option.splits)

lemma parse_trusted_entries_all:
  "parse_trusted_entries parse_url inProd es = Inr os \<Longrightarrow>
     list_all2 (\<lambda>e r. parse_trusted_entry parse_url inProd e = Inr r) es os"
  by (induction es arbitrary: os) (auto simp: and_then_Inr_iff)

lemma list_all2_set_left: "list_all2 P xs ys \<Longrightarrow> x \<in> set xs \<Longrightarrow> \<exists>y \<in> set ys. P x y"
  by (induction rule: list_all2_induct) auto

lemma list_all2_set_right: "list_all2 P xs ys \<Longrightarrow> y \<in> set ys \<Longrightarrow> \<exists>x \<in> set xs. P x y"
  by (induction rule: list_all2_induct) auto

fun_cases parse_trusted_cons_cases: "parse_trusted_entries parse_url inProd (e # es) = Inr os"

text \<open>The configured list, entry by entry, in both directions.\<close>

lemma trusted_entries:
  assumes "parseTrustedOrigins parse_url raw inProd = Inr trusted"
  obtains os where "set trusted = set os"
    "list_all2 (\<lambda>e r. parse_trusted_entry parse_url inProd e = Inr r) (filter (\<lambda>s. length s > 0) (map js_trim (js_split (CHR '','') raw))) os"
proof -
  let ?es = "filter (\<lambda>s. length s > 0) (map js_trim (js_split (CHR '','') raw))"
  from assms have "and_then (parse_trusted_entries parse_url inProd ?es) (\<lambda>result. Inr (set_order result)) = Inr trusted"
    by (simp add: parseTrustedOrigins_def Let_def split: if_splits)
  then obtain os where "parse_trusted_entries parse_url inProd ?es = Inr os" "trusted = set_order os"
    unfolding and_then_Inr_iff by blast
  with parse_trusted_entries_all [OF this(1)] that show ?thesis by simp
qed

lemma trusted_has_entry:
  assumes "parseTrustedOrigins parse_url raw inProd = Inr trusted" "r \<in> set trusted"
  obtains e u where "e \<noteq> []" "e \<in> set (map js_trim (js_split (CHR '','') raw))" "parse_url e = Some u"
    "inProd \<longrightarrow> uProtocol u = ''https:''" "r = url_origin u" "normalizeOriginForComparison parse_url e = Some r"
proof -
  obtain os where os: "set trusted = set os"
    "list_all2 (\<lambda>e r. parse_trusted_entry parse_url inProd e = Inr r) (filter (\<lambda>s. length s > 0) (map js_trim (js_split (CHR '','') raw))) os"
    by (rule trusted_entries [OF assms(1)])
  from assms(2) os(1) list_all2_set_right [OF os(2)] obtain e where
    "e \<in> set (filter (\<lambda>s. length s > 0) (map js_trim (js_split (CHR '','') raw)))" "parse_trusted_entry parse_url inProd e = Inr r" by blast
  with parse_trusted_entry_normal [OF this(2)] that show ?thesis by auto
qed

lemma entry_is_trusted:
  assumes "parseTrustedOrigins parse_url raw inProd = Inr trusted" "e \<in> set (map js_trim (js_split (CHR '','') raw))" "e \<noteq> []"
  shows "\<exists>r \<in> set trusted. normalizeOriginForComparison parse_url e = Some r"
proof -
  obtain os where os: "set trusted = set os"
    "list_all2 (\<lambda>e r. parse_trusted_entry parse_url inProd e = Inr r) (filter (\<lambda>s. length s > 0) (map js_trim (js_split (CHR '','') raw))) os"
    by (rule trusted_entries [OF assms(1)])
  have "e \<in> set (filter (\<lambda>s. length s > 0) (map js_trim (js_split (CHR '','') raw)))" using assms(2,3) by auto
  with list_all2_set_left [OF os(2)] os(1) obtain r where "r \<in> set trusted" "parse_trusted_entry parse_url inProd e = Inr r" by blast
  with parse_trusted_entry_normal [OF this(2)] show ?thesis by blast
qed

lemma checkOrigin_mutating:
  "req_method \<in> set MUTATING_METHODS \<Longrightarrow> checkOrigin parse_url trusted req_method origin = Inr () \<longleftrightarrow>
     (\<exists>v r. origin = Some v \<and> v \<noteq> [] \<and> normalizeOriginForComparison parse_url v = Some r \<and> r \<in> set trusted)"
  by (auto simp: checkOrigin_def split: option.splits)

text \<open>
  C28. The CSRF gate. With a configuration that parsed, a mutating request reaches its handler
  exactly if its Origin header is there and its parsed protocol and host are those of a configured
  entry; every configured entry passes as an Origin header, in production every one is https, and
  the reply to a refused request does not depend on the reason.
\<close>

theorem csrf_gate:
  assumes "parseTrustedOrigins parse_url raw inProd = Inr trusted"
    and "req_method \<in> {''POST'', ''PATCH'', ''PUT'', ''DELETE''}"
  shows "(checkOrigin parse_url trusted req_method origin = Inr () \<longleftrightarrow>
      (\<exists>v entry u. origin = Some v \<and> v \<noteq> []
         \<and> entry \<noteq> [] \<and> entry \<in> set (map js_trim (js_split (CHR '','') raw)) \<and> parse_url entry = Some u
         \<and> (inProd \<longrightarrow> uProtocol u = ''https:'')
         \<and> normalizeOriginForComparison parse_url v = Some (url_origin u)
         \<and> normalizeOriginForComparison parse_url entry = Some (url_origin u)))
    \<and> (\<forall>entry \<in> set (map js_trim (js_split (CHR '','') raw)). entry \<noteq> [] \<longrightarrow>
         checkOrigin parse_url trusted req_method (Some entry) = Inr ())
    \<and> (\<forall>r r'. sendRejection r = sendRejection r')"
proof (intro conjI allI)
  have meth: "req_method \<in> set MUTATING_METHODS" using assms(2) by (auto simp: MUTATING_METHODS_def)
  note gate = checkOrigin_mutating [OF meth]
  show "checkOrigin parse_url trusted req_method origin = Inr () \<longleftrightarrow>
      (\<exists>v entry u. origin = Some v \<and> v \<noteq> []
         \<and> entry \<noteq> [] \<and> entry \<in> set (map js_trim (js_split (CHR '','') raw)) \<and> parse_url entry = Some u
         \<and> (inProd \<longrightarrow> uProtocol u = ''https:'')
         \<and> normalizeOriginForComparison parse_url v = Some (url_origin u)
         \<and> normalizeOriginForComparison parse_url entry = Some (url_origin u))" (is "?L \<longleftrightarrow> ?R")
  proof
    assume ?L
    then obtain v r where v: "origin = Some v" "v \<noteq> []" "normalizeOriginForComparison parse_url v = Some r" "r \<in> set trusted"
      unfolding gate by blast
    show ?R by (rule trusted_has_entry [OF assms(1) v(4)]) (use v in metis)
  next
    assume ?R
    then obtain v e u where e: "origin = Some v" "v \<noteq> []" "e \<noteq> []" "e \<in> set (map js_trim (js_split (CHR '','') raw))"
      "normalizeOriginForComparison parse_url v = Some (url_origin u)"
      "normalizeOriginForComparison parse_url e = Some (url_origin u)" by blast
    with entry_is_trusted [OF assms(1) e(4,3)] show ?L unfolding gate by auto
  qed
  show "\<forall>entry \<in> set (map js_trim (js_split (CHR '','') raw)). entry \<noteq> [] \<longrightarrow>
      checkOrigin parse_url trusted req_method (Some entry) = Inr ()"
    using entry_is_trusted [OF assms(1)] unfolding gate by blast
  show "sendRejection r = sendRejection r'" for r r' by (simp add: sendRejection_def)
qed

definition demo_origin_url :: url where
  "demo_origin_url = demo_url\<lparr>uPathname := ''/''\<rparr>"

theorem csrf_gate_witness:
  "checkOrigin (\<lambda>s. Some demo_origin_url) [''https://example.com''] ''POST'' (Some ''b'') = Inr ()"
proof -
  have "parseTrustedOrigins (\<lambda>s. Some demo_origin_url) ''a, b'' True = Inr [''https://example.com'']"
    unfolding demo_origin_url_def demo_url_def by code_simp
  note gate = csrf_gate [OF this, of "''POST''" None]
  have "''b'' \<in> set (map js_trim (js_split (CHR '','') ''a, b''))" by code_simp
  with gate have "''b'' \<noteq> [] \<longrightarrow> ?thesis" by blast
  then show ?thesis by simp
qed

end
