(* ===== verification/RateLimiter.thy ===== *)
theory RateLimiter
  imports Prelude
begin

section \<open>Rate limiters and the in-flight guard\<close>

text \<open>
  \<open>createRateLimiter\<close> of src/lib/rate-limiter.ts (one bucket per key, a window that starts at
  the first attempt) and \<open>createVerificationRateLimiter\<close> and \<open>createInFlightGuard\<close> of
  src/services/domain-verification-service.ts (a log of attempt times per key; a set of
  keys in flight). The clock is an argument of every operation, as the injected \<open>now\<close> is.
  Both limiters interpret the \<open>attempt_limiter\<close> interface, whose lemmas say that attempts
  under one key never cost another key anything.
\<close>

subsection \<open>The interface of a keyed limiter\<close>

locale attempt_limiter =
  fixes admits :: "'s \<Rightarrow> string \<Rightarrow> time_ms \<Rightarrow> bool"
    and attempt :: "'s \<Rightarrow> string \<Rightarrow> time_ms \<Rightarrow> bool \<times> 's"
  assumes attempt_result: "fst (attempt s k t) = admits s k t"
    and attempt_frame: "k' \<noteq> k \<Longrightarrow> admits (snd (attempt s k t)) k' t' = admits s k' t'"
    and attempt_denied: "\<not> admits s k t \<Longrightarrow> t \<le> t' \<Longrightarrow> admits (snd (attempt s k t)) k' t' = admits s k' t'"
begin

primrec attempts :: "'s \<Rightarrow> (string \<times> time_ms) list \<Rightarrow> 's" where
  "attempts s [] = s"
| "attempts s (a # as) = attempts (snd (attempt s (fst a) (snd a))) as"

lemma other_keys_cannot_exhaust:
  "k \<notin> fst ` set as \<Longrightarrow> admits (attempts s as) k t = admits s k t"
  by (induction as arbitrary: s) (auto simp: attempt_frame)

lemma denied_flood_changes_nothing:
  assumes "\<not> admits s k t"
  shows "admits (snd (attempt s k t)) k' t = admits s k' t"
  using attempt_denied [OF assms order_refl] .

lemma denied_attempt_denied_again:
  "\<not> fst (attempt s k t) \<Longrightarrow> \<not> fst (attempt (snd (attempt s k t)) k t)"
  using attempt_denied [of s k t t k] by (simp add: attempt_result)

end

subsection \<open>createRateLimiter\<close>

record rl_bucket =
  windowStart :: time_ms
  bucketCount :: int

record rate_limiter =
  windowMs :: int
  maxAttempts :: int
  buckets :: "string \<rightharpoonup> rl_bucket"

record rate_decision =
  allowed :: bool
  retryAfterSeconds :: int
  remaining :: int

definition createRateLimiter :: "int \<Rightarrow> int \<Rightarrow> rate_limiter" where
  "createRateLimiter w m = \<lparr>windowMs = w, maxAttempts = m, buckets = Map.empty\<rparr>"

text \<open>\<open>Math.ceil(ms / 1000)\<close>.\<close>

definition ceil_seconds :: "int \<Rightarrow> int" where
  "ceil_seconds ms = - ((- ms) div 1000)"

definition rl_check :: "rate_limiter \<Rightarrow> string \<Rightarrow> time_ms \<Rightarrow> rate_decision \<times> rate_limiter" where
  "rl_check rl key now =
     (let fresh = (\<lparr>allowed = True, retryAfterSeconds = 0, remaining = maxAttempts rl - 1\<rparr>,
                   rl\<lparr>buckets := (buckets rl)(key \<mapsto> \<lparr>windowStart = now, bucketCount = 1\<rparr>)\<rparr>)
      in case buckets rl key of
        None \<Rightarrow> fresh
      | Some existing \<Rightarrow>
          (if now - windowStart existing \<ge> windowMs rl then fresh
           else if bucketCount existing \<ge> maxAttempts rl
           then (\<lparr>allowed = False,
                  retryAfterSeconds = max 1 (ceil_seconds (windowMs rl - (now - windowStart existing))),
                  remaining = 0\<rparr>, rl)
           else (\<lparr>allowed = True, retryAfterSeconds = 0,
                  remaining = max 0 (maxAttempts rl - (bucketCount existing + 1))\<rparr>,
                 rl\<lparr>buckets := (buckets rl)(key \<mapsto> existing\<lparr>bucketCount := bucketCount existing + 1\<rparr>)\<rparr>)))"

definition rl_reset :: "rate_limiter \<Rightarrow> string \<Rightarrow> rate_limiter" where
  "rl_reset rl key = rl\<lparr>buckets := (buckets rl)(key := None)\<rparr>"

definition rl_cleanup :: "rate_limiter \<Rightarrow> time_ms \<Rightarrow> rate_limiter" where
  "rl_cleanup rl now =
     rl\<lparr>buckets := (\<lambda>k. case buckets rl k of
          None \<Rightarrow> None
        | Some b \<Rightarrow> (if now - windowStart b \<ge> windowMs rl then None else Some b))\<rparr>"

text \<open>The bucket of a key that still counts at a time: what every decision depends on.\<close>

definition live_bucket :: "rate_limiter \<Rightarrow> string \<Rightarrow> time_ms \<Rightarrow> rl_bucket option" where
  "live_bucket rl k now =
     (case buckets rl k of
        None \<Rightarrow> None
      | Some b \<Rightarrow> (if now - windowStart b \<ge> windowMs rl then None else Some b))"

definition rl_admits :: "rate_limiter \<Rightarrow> string \<Rightarrow> time_ms \<Rightarrow> bool" where
  "rl_admits rl k now =
     (case live_bucket rl k now of None \<Rightarrow> True | Some b \<Rightarrow> bucketCount b < maxAttempts rl)"

definition rl_attempt :: "rate_limiter \<Rightarrow> string \<Rightarrow> time_ms \<Rightarrow> bool \<times> rate_limiter" where
  "rl_attempt rl k now = (let (d, rl') = rl_check rl k now in (allowed d, rl'))"

lemmas rl_defs = rl_check_def rl_attempt_def rl_admits_def live_bucket_def Let_def

lemma rl_check_live:
  "rl_check rl k now =
     (case live_bucket rl k now of
        None \<Rightarrow> (\<lparr>allowed = True, retryAfterSeconds = 0, remaining = maxAttempts rl - 1\<rparr>,
                 rl\<lparr>buckets := (buckets rl)(k \<mapsto> \<lparr>windowStart = now, bucketCount = 1\<rparr>)\<rparr>)
      | Some b \<Rightarrow>
          (if bucketCount b \<ge> maxAttempts rl
           then (\<lparr>allowed = False,
                  retryAfterSeconds = max 1 (ceil_seconds (windowMs rl - (now - windowStart b))),
                  remaining = 0\<rparr>, rl)
           else (\<lparr>allowed = True, retryAfterSeconds = 0,
                  remaining = max 0 (maxAttempts rl - (bucketCount b + 1))\<rparr>,
                 rl\<lparr>buckets := (buckets rl)(k \<mapsto> b\<lparr>bucketCount := bucketCount b + 1\<rparr>)\<rparr>)))"
  by (auto simp: rl_check_def live_bucket_def Let_def split: option.splits)

lemma rl_check_config [frame_simps, simp]:
  "windowMs (snd (rl_check rl k t)) = windowMs rl"
  "maxAttempts (snd (rl_check rl k t)) = maxAttempts rl"
  by (auto simp: rl_check_live split: option.splits)

lemma rl_check_other [frame_simps]:
  "k' \<noteq> k \<Longrightarrow> buckets (snd (rl_check rl k t)) k' = buckets rl k'"
  by (auto simp: rl_check_live split: option.splits)

lemma rl_check_denied_state: "\<not> allowed (fst (rl_check rl k t)) \<Longrightarrow> snd (rl_check rl k t) = rl"
  by (auto simp: rl_check_live split: option.splits if_splits)

lemma rl_check_allowed: "allowed (fst (rl_check rl k t)) = rl_admits rl k t"
  by (auto simp: rl_check_live rl_admits_def split: option.splits)

lemma live_bucket_other:
  "k' \<noteq> k \<Longrightarrow> live_bucket (snd (rl_check rl k t)) k' t' = live_bucket rl k' t'"
  by (simp add: live_bucket_def rl_check_other split: option.splits)

interpretation fixed: attempt_limiter rl_admits rl_attempt
proof
  fix s k t
  show "fst (rl_attempt s k t) = rl_admits s k t"
    by (simp add: rl_attempt_def case_prod_beta rl_check_allowed)
next
  fix s k k' t t'
  assume "k' \<noteq> (k :: string)"
  then show "rl_admits (snd (rl_attempt s k t)) k' t' = rl_admits s k' t'"
    by (simp add: rl_attempt_def case_prod_beta rl_admits_def live_bucket_other split: option.splits)
next
  fix s k t k' and t' :: time_ms
  assume "\<not> rl_admits s k t"
  then show "rl_admits (snd (rl_attempt s k t)) k' t' = rl_admits s k' t'"
    using rl_check_denied_state [of s k t]
    by (simp add: rl_attempt_def case_prod_beta rl_check_allowed)
qed

subsection \<open>Cleanup is unobservable\<close>

datatype rl_event = Check string | Reset string | Cleanup

definition is_cleanup :: "rl_event \<Rightarrow> bool" where
  "is_cleanup e \<longleftrightarrow> e = Cleanup"

fun rl_step :: "rate_limiter \<Rightarrow> time_ms \<times> rl_event \<Rightarrow> rate_decision option \<times> rate_limiter" where
  "rl_step rl (t, Check k) = (let (d, rl') = rl_check rl k t in (Some d, rl'))"
| "rl_step rl (t, Reset k) = (None, rl_reset rl k)"
| "rl_step rl (t, Cleanup) = (None, rl_cleanup rl t)"

fun rl_run :: "rate_limiter \<Rightarrow> (time_ms \<times> rl_event) list \<Rightarrow> rate_decision list" where
  "rl_run rl [] = []"
| "rl_run rl (e # es) =
     (let (d, rl') = rl_step rl e
      in (case d of None \<Rightarrow> [] | Some x \<Rightarrow> [x]) @ rl_run rl' es)"

text \<open>Two limiters that no check from a time on can tell apart.\<close>

definition rl_same_from :: "time_ms \<Rightarrow> rate_limiter \<Rightarrow> rate_limiter \<Rightarrow> bool" where
  "rl_same_from t0 a b \<longleftrightarrow> windowMs a = windowMs b \<and> maxAttempts a = maxAttempts b
     \<and> (\<forall>k t. t0 \<le> t \<longrightarrow> live_bucket a k t = live_bucket b k t)"

lemma rl_same_from_refl [simp]: "rl_same_from t a a"
  by (simp add: rl_same_from_def)

lemma rl_same_from_mono: "rl_same_from t a b \<Longrightarrow> t \<le> t' \<Longrightarrow> rl_same_from t' a b"
  by (auto simp: rl_same_from_def)

lemma rl_same_from_sym: "rl_same_from t a b \<Longrightarrow> rl_same_from t b a"
  by (auto simp: rl_same_from_def)

lemma rl_same_from_trans: "rl_same_from t a b \<Longrightarrow> rl_same_from t b c \<Longrightarrow> rl_same_from t a c"
  by (auto simp: rl_same_from_def)

lemma live_bucket_cleanup:
  "t0 \<le> t \<Longrightarrow> live_bucket (rl_cleanup rl t0) k t = live_bucket rl k t"
  by (auto simp: live_bucket_def rl_cleanup_def split: option.splits)

lemma rl_cleanup_same: "rl_same_from t (rl_cleanup rl t) rl"
  by (simp add: rl_same_from_def live_bucket_cleanup) (simp add: rl_cleanup_def)

lemma live_bucket_upd:
  "live_bucket (rl\<lparr>buckets := (buckets rl)(k := v)\<rparr>) k' t =
     (if k' = k then (case v of None \<Rightarrow> None
                      | Some b \<Rightarrow> (if t - windowStart b \<ge> windowMs rl then None else Some b))
      else live_bucket rl k' t)"
  by (auto simp: live_bucket_def split: option.splits)

lemma rl_check_same:
  assumes "rl_same_from t a b"
  shows "fst (rl_check a k t) = fst (rl_check b k t)"
    and "rl_same_from t (snd (rl_check a k t)) (snd (rl_check b k t))"
proof -
  have l: "live_bucket a k t = live_bucket b k t" and c: "windowMs a = windowMs b" "maxAttempts a = maxAttempts b"
    using assms by (auto simp: rl_same_from_def)
  show "fst (rl_check a k t) = fst (rl_check b k t)"
    by (simp add: rl_check_live l c split: option.splits)
  show "rl_same_from t (snd (rl_check a k t)) (snd (rl_check b k t))"
    using assms
    by (auto simp: rl_same_from_def rl_check_live l live_bucket_upd split: option.splits)
qed

lemma rl_reset_same: "rl_same_from t a b \<Longrightarrow> rl_same_from t (rl_reset a k) (rl_reset b k)"
  by (auto simp: rl_same_from_def rl_reset_def live_bucket_upd split: option.splits)

text \<open>With a clock that never goes back, a run decides the same from indistinguishable states.\<close>

lemma rl_run_same:
  assumes "rl_same_from t a b" "sorted (map fst es)" "\<forall>e \<in> set es. t \<le> fst e"
  shows "rl_run a es = rl_run b (filter (\<lambda>e. \<not> is_cleanup (snd e)) es)"
  using assms
proof (induction es arbitrary: a b t)
  case (Cons e es)
  obtain t1 ev where e: "e = (t1, ev)" by (cases e)
  from Cons.prems e have t1: "t \<le> t1" and srt: "sorted (map fst es)" and ge: "\<forall>x \<in> set es. t1 \<le> fst x"
    by auto
  from Cons.prems(1) t1 have same: "rl_same_from t1 a b" by (rule rl_same_from_mono)
  show ?case
  proof (cases ev)
    case (Check k)
    with Cons.IH [OF rl_check_same(2) [OF same] srt ge] rl_check_same(1) [OF same] e show ?thesis
      by (simp add: is_cleanup_def case_prod_beta Let_def)
  next
    case (Reset k)
    with Cons.IH [OF rl_reset_same [OF same] srt ge] e show ?thesis
      by (simp add: is_cleanup_def)
  next
    case Cleanup
    have "rl_same_from t1 (rl_cleanup a t1) b"
      using rl_cleanup_same same rl_same_from_trans by blast
    from Cons.IH [OF this srt ge] Cleanup e show ?thesis
      by (simp add: is_cleanup_def)
  qed
qed simp


subsection \<open>How many attempts one key is granted\<close>

definition rl_inv :: "rate_limiter \<Rightarrow> bool" where
  "rl_inv rl \<longleftrightarrow> (\<forall>k b. buckets rl k = Some b \<longrightarrow> 1 \<le> bucketCount b \<and> bucketCount b \<le> max 1 (maxAttempts rl))"

lemma rl_inv_create [inv_intros]: "rl_inv (createRateLimiter w m)"
  by (simp add: rl_inv_def createRateLimiter_def)

lemma rl_inv_check [inv_intros]: "rl_inv rl \<Longrightarrow> rl_inv (snd (rl_check rl k t))"
  by (fastforce simp: rl_inv_def rl_check_def Let_def split: option.splits if_splits)

lemma rl_inv_reset [inv_intros]: "rl_inv rl \<Longrightarrow> rl_inv (rl_reset rl k)"
  by (auto simp: rl_inv_def rl_reset_def)

lemma rl_inv_cleanup [inv_intros]: "rl_inv rl \<Longrightarrow> rl_inv (rl_cleanup rl t)"
  by (auto simp: rl_inv_def rl_cleanup_def split: option.splits if_splits)

text \<open>The times at which one key's attempts were allowed.\<close>

primrec allowed_times :: "rate_limiter \<Rightarrow> string \<Rightarrow> time_ms list \<Rightarrow> time_ms list" where
  "allowed_times rl k [] = []"
| "allowed_times rl k (t # ts) =
     (if allowed (fst (rl_check rl k t)) then [t] else []) @ allowed_times (snd (rl_check rl k t)) k ts"

definition in_window :: "time_ms \<Rightarrow> int \<Rightarrow> time_ms list \<Rightarrow> int" where
  "in_window a w ts = int (length (filter (\<lambda>t. a \<le> t \<and> t < a + w) ts))"

lemma in_window_append [simp]: "in_window a w (xs @ ys) = in_window a w xs + in_window a w ys"
  by (simp add: in_window_def)

lemma in_window_Nil [simp]: "in_window a w [] = 0"
  by (simp add: in_window_def)

lemma in_window_single: "in_window a w [t] = (if a \<le> t \<and> t < a + w then 1 else 0)"
  by (simp add: in_window_def)

lemma in_window_single_le: "in_window a w (if P then [t] else []) \<le> 1"
  by (simp add: in_window_single)

lemma set_allowed_times: "set (allowed_times rl k ts) \<subseteq> set ts"
  by (induction ts arbitrary: rl) auto

lemma in_window_late: "\<forall>t \<in> set ts. a + w \<le> t \<Longrightarrow> in_window a w (allowed_times rl k ts) = 0"
  using set_allowed_times [of rl k ts]
  by (fastforce simp: in_window_def filter_empty_conv)

text \<open>What a key may still be granted in the window \<open>[a, a + w)\<close>, read off its bucket.\<close>

definition window_budget :: "rate_limiter \<Rightarrow> string \<Rightarrow> time_ms \<Rightarrow> int" where
  "window_budget rl k a =
     (case live_bucket rl k a of
        None \<Rightarrow> maxAttempts rl
      | Some b \<Rightarrow> max 0 (maxAttempts rl - bucketCount b) + (if a \<le> windowStart b then 0 else maxAttempts rl))"

lemma granted_within_budget:
  assumes "1 \<le> windowMs rl" "1 \<le> maxAttempts rl" "sorted ts" "\<forall>t \<in> set ts. a \<le> t"
  shows "in_window a (windowMs rl) (allowed_times rl k ts) \<le> window_budget rl k a"
  using assms
proof (induction ts arbitrary: rl)
  case Nil
  then show ?case by (simp add: window_budget_def split: option.splits)
next
  case (Cons t ts)
  let ?rl = "snd (rl_check rl k t)"
  let ?W = "in_window a (windowMs rl)"
  have at: "a \<le> t" and rest: "sorted ts" "\<forall>x \<in> set ts. a \<le> x" and later: "\<forall>x \<in> set ts. t \<le> x"
    using Cons.prems by auto
  have IH: "?W (allowed_times ?rl k ts) \<le> window_budget ?rl k a"
    using Cons.IH [of ?rl] Cons.prems rest by simp
  have one: "?W (if allowed (fst (rl_check rl k t)) then [t] else []) \<le> 1"
    by (rule in_window_single_le)
  show ?case
  proof (cases "live_bucket rl k t")
    case None
    then have new: "window_budget ?rl k a = maxAttempts rl - 1"
      using at Cons.prems(1,2)
      by (auto simp: rl_check_live window_budget_def live_bucket_upd)
    show ?thesis
    proof (cases "\<exists>b. live_bucket rl k a = Some b \<and> a \<le> windowStart b")
      case True
      with None have "a + windowMs rl \<le> t"
        by (auto simp: live_bucket_def split: option.splits if_splits)
      then have "?W (allowed_times rl k (t # ts)) = 0"
        using later by (intro in_window_late) auto
      then show ?thesis using Cons.prems(2) by (simp add: window_budget_def split: option.splits)
    next
      case False
      then have "maxAttempts rl \<le> window_budget rl k a"
        using Cons.prems(2) by (auto simp: window_budget_def split: option.splits)
      then show ?thesis using new one IH by simp
    qed
  next
    case (Some b)
    then have a: "live_bucket rl k a = Some b"
      using at by (auto simp: live_bucket_def split: option.splits if_splits)
    show ?thesis
    proof (cases "bucketCount b \<ge> maxAttempts rl")
      case True
      with Some have "rl_check rl k t = (fst (rl_check rl k t), rl)" "\<not> allowed (fst (rl_check rl k t))"
        by (simp_all add: rl_check_live)
      with IH show ?thesis by (metis allowed_times.simps(2) append_Nil snd_conv)
    next
      case False
      have live: "\<not> windowMs rl \<le> a - windowStart b"
        using a by (auto simp: live_bucket_def split: option.splits if_splits)
      have "window_budget ?rl k a = window_budget rl k a - 1"
        using False Some a live by (simp add: rl_check_live window_budget_def live_bucket_upd)
      then show ?thesis using one IH by simp
    qed
  qed
qed

lemma window_budget_le:
  "rl_inv rl \<Longrightarrow> 1 \<le> maxAttempts rl \<Longrightarrow> window_budget rl k a \<le> 2 * maxAttempts rl - 1"
  by (force simp: window_budget_def live_bucket_def rl_inv_def split: option.splits if_splits)

lemma granted_any_window:
  assumes "rl_inv rl" "1 \<le> windowMs rl" "1 \<le> maxAttempts rl" "sorted ts"
  shows "in_window a (windowMs rl) (allowed_times rl k ts) \<le> 2 * maxAttempts rl - 1"
  using assms
proof (induction ts arbitrary: rl)
  case (Cons t ts)
  show ?case
  proof (cases "t < a")
    case True
    with Cons show ?thesis
      using Cons.IH [OF rl_inv_check [OF Cons.prems(1)], of k t]
      by (simp add: in_window_single)
  next
    case False
    with Cons.prems have "\<forall>x \<in> set (t # ts). a \<le> x" by auto
    with granted_within_budget [of rl "t # ts" a k] window_budget_le [of rl k a] Cons.prems
    show ?thesis by simp
  qed
qed simp

lemma ceil_seconds_ge: "ms \<le> 1000 * ceil_seconds ms"
  unfolding ceil_seconds_def by linarith

lemma ceil_seconds_lt: "1000 * ceil_seconds ms < ms + 1000"
  unfolding ceil_seconds_def by linarith

lemma ceil_seconds_pred: "1000 * (ceil_seconds ms - 1) < ms"
  using ceil_seconds_lt [of ms] by (simp add: algebra_simps)

subsection \<open>createVerificationRateLimiter\<close>

record verification_limiter =
  maxPerWindow :: nat
  vWindowMs :: int
  attemptLog :: "string \<rightharpoonup> time_ms list"

definition createVerificationRateLimiter :: "nat \<Rightarrow> int \<Rightarrow> verification_limiter" where
  "createVerificationRateLimiter m w = \<lparr>maxPerWindow = m, vWindowMs = w, attemptLog = Map.empty\<rparr>"

definition recent :: "verification_limiter \<Rightarrow> string \<Rightarrow> time_ms \<Rightarrow> time_ms list" where
  "recent vl k now =
     filter (\<lambda>t. now - t < vWindowMs vl) (case attemptLog vl k of None \<Rightarrow> [] | Some ts \<Rightarrow> ts)"

definition tryAcquire :: "verification_limiter \<Rightarrow> string \<Rightarrow> time_ms \<Rightarrow> bool \<times> verification_limiter" where
  "tryAcquire vl k now =
     (let existing = recent vl k now
      in if length existing \<ge> maxPerWindow vl
         then (False, vl\<lparr>attemptLog := (attemptLog vl)(k \<mapsto> existing)\<rparr>)
         else (True, vl\<lparr>attemptLog := (attemptLog vl)(k \<mapsto> existing @ [now])\<rparr>))"

definition vl_admits :: "verification_limiter \<Rightarrow> string \<Rightarrow> time_ms \<Rightarrow> bool" where
  "vl_admits vl k now \<longleftrightarrow> length (recent vl k now) < maxPerWindow vl"

lemma recent_upd:
  "recent (vl\<lparr>attemptLog := (attemptLog vl)(k \<mapsto> ts)\<rparr>) k' now =
     (if k' = k then filter (\<lambda>t. now - t < vWindowMs vl) ts else recent vl k' now)"
  by (simp add: recent_def)

lemma tryAcquire_config [frame_simps, simp]:
  "maxPerWindow (snd (tryAcquire vl k t)) = maxPerWindow vl"
  "vWindowMs (snd (tryAcquire vl k t)) = vWindowMs vl"
  by (simp_all add: tryAcquire_def Let_def)

lemma filter_recent_later:
  "t \<le> t' \<Longrightarrow> filter (\<lambda>x. t' - x < vWindowMs vl) (recent vl k t) = recent vl k t'"
  unfolding recent_def filter_filter by (rule filter_cong) auto

interpretation sliding: attempt_limiter vl_admits tryAcquire
proof
  fix s k t
  show "fst (tryAcquire s k t) = vl_admits s k t"
    by (simp add: tryAcquire_def vl_admits_def Let_def)
next
  fix s k k' t t'
  assume "k' \<noteq> (k :: string)"
  then show "vl_admits (snd (tryAcquire s k t)) k' t' = vl_admits s k' t'"
    by (auto simp: tryAcquire_def vl_admits_def Let_def recent_upd)
next
  fix s k t k' and t' :: time_ms
  assume "\<not> vl_admits s k t" "t \<le> t'"
  then show "vl_admits (snd (tryAcquire s k t)) k' t' = vl_admits s k' t'"
    by (auto simp: tryAcquire_def vl_admits_def Let_def recent_upd filter_recent_later)
qed

text \<open>The log answers for the last window: a run's granted times, from an empty log.\<close>

primrec acquired_times :: "verification_limiter \<Rightarrow> string \<Rightarrow> time_ms list \<Rightarrow> time_ms list" where
  "acquired_times vl k [] = []"
| "acquired_times vl k (t # ts) =
     (if fst (tryAcquire vl k t) then [t] else []) @ acquired_times (snd (tryAcquire vl k t)) k ts"

lemma recent_tryAcquire:
  assumes "t \<le> t'" "0 < vWindowMs vl"
  shows "recent (snd (tryAcquire vl k t)) k t' =
     recent vl k t' @ (if vl_admits vl k t \<and> t' - t < vWindowMs vl then [t] else [])"
  using assms
  by (simp add: tryAcquire_def Let_def recent_upd vl_admits_def filter_recent_later)

lemma acquired_window:
  assumes "sorted ts" "0 < vWindowMs vl" "sorted past" "\<forall>x \<in> set past. \<forall>t \<in> set ts. x \<le> t"
    "\<forall>t \<in> set ts. recent vl k t = filter (\<lambda>x. t - x < vWindowMs vl) past"
    "\<forall>a. in_window a (vWindowMs vl) past \<le> int (maxPerWindow vl)"
  shows "in_window a (vWindowMs vl) (past @ acquired_times vl k ts) \<le> int (maxPerWindow vl)"
  using assms
proof (induction ts arbitrary: vl past)
  case (Cons t ts)
  let ?vl = "snd (tryAcquire vl k t)" and ?w = "vWindowMs vl"
  let ?new = "if vl_admits vl k t then [t] else []"
  have fst: "fst (tryAcquire vl k t) = vl_admits vl k t" by (rule sliding.attempt_result)
  have rec: "\<forall>x \<in> set ts. recent ?vl k x = filter (\<lambda>y. x - y < ?w) (past @ ?new)"
    using Cons.prems by (auto simp: recent_tryAcquire)
  have win: "in_window b ?w (past @ ?new) \<le> int (maxPerWindow vl)" for b
  proof (cases "vl_admits vl k t \<and> b \<le> t \<and> t < b + ?w")
    case True
    have "length (filter (\<lambda>x. b \<le> x \<and> x < b + ?w) past) \<le> length (filter (\<lambda>x. t - x < ?w) past)"
      using True by (induction past) auto
    also have "\<dots> < maxPerWindow vl"
      using True Cons.prems(5) by (auto simp: vl_admits_def)
    finally show ?thesis using True by (simp add: in_window_def)
  next
    case False
    then have "in_window b ?w ?new = 0" by (auto simp: in_window_single)
    then show ?thesis using Cons.prems(6) by simp
  qed
  have "in_window a ?w ((past @ ?new) @ acquired_times ?vl k ts) \<le> int (maxPerWindow vl)"
    using Cons.IH [of ?vl "past @ ?new"] Cons.prems rec win by (auto simp: sorted_append)
  then show ?case by (simp add: fst)
qed simp

subsection \<open>createInFlightGuard\<close>

definition guard_acquire :: "string set \<Rightarrow> string \<Rightarrow> bool \<times> string set" where
  "guard_acquire inFlight k = (if k \<in> inFlight then (False, inFlight) else (True, insert k inFlight))"

definition guard_release :: "string set \<Rightarrow> string \<Rightarrow> string set" where
  "guard_release inFlight k = inFlight - {k}"

lemma guard_acquire_release:
  "guard_acquire g k = (True, g') \<Longrightarrow> guard_release g' k = g \<and> \<not> fst (guard_acquire g' k)"
  by (auto simp: guard_acquire_def guard_release_def split: if_splits)

subsection \<open>Traffic of many keys\<close>

text \<open>The times at which a key was granted an attempt, in traffic of all keys.\<close>

primrec granted_to :: "rate_limiter \<Rightarrow> string \<Rightarrow> (string \<times> time_ms) list \<Rightarrow> time_ms list" where
  "granted_to rl k [] = []"
| "granted_to rl k (a # as) =
     (if fst a = k \<and> allowed (fst (rl_check rl (fst a) (snd a))) then [snd a] else [])
     @ granted_to (snd (rl_check rl (fst a) (snd a))) k as"

lemma rl_check_own:
  assumes "windowMs a = windowMs b" "maxAttempts a = maxAttempts b" "buckets a k = buckets b k"
  shows "fst (rl_check a k t) = fst (rl_check b k t)"
    and "buckets (snd (rl_check a k t)) k = buckets (snd (rl_check b k t)) k"
  using assms by (auto simp: rl_check_def Let_def split: option.splits)

lemma granted_to_own:
  assumes "windowMs a = windowMs b" "maxAttempts a = maxAttempts b" "buckets a k = buckets b k"
  shows "granted_to a k as = allowed_times b k (map snd (filter (\<lambda>x. fst x = k) as))"
  using assms
proof (induction as arbitrary: a b)
  case (Cons x as)
  show ?case
  proof (cases "fst x = k")
    case True
    with rl_check_own [OF Cons.prems, of "snd x"] Cons.IH [of "snd (rl_check a k (snd x))" "snd (rl_check b k (snd x))"]
      Cons.prems show ?thesis by simp
  next
    case False
    with Cons.IH [of "snd (rl_check a (fst x) (snd x))" b] Cons.prems show ?thesis
      by (simp add: rl_check_other)
  qed
qed simp

subsection \<open>What the limiters promise\<close>



text \<open>
  The window is fixed, not sliding. The header of rate-limiter.ts calls the limiter a
  sliding-window one. It is not: with two attempts a second, three attempts within three
  milliseconds are granted across the edge of a window, which is the most C7 allows.
\<close>

theorem limiter_is_not_sliding:
  "allowed_times (createRateLimiter 1000 2) ''a'' [0, 999, 1000, 1001] = [0, 999, 1000, 1001]
   \<and> in_window 999 3 (allowed_times (createRateLimiter 1000 2) ''a'' [0, 999, 1000, 1001]) = 2 * 2 - 1"
  by (simp add: createRateLimiter_def rl_check_def in_window_def)

text \<open>
  C31. The advice of a refusal is honest. A refused check changes nothing; a caller that waits
  the advised number of seconds is admitted, and if the advice is more than one second, one
  that comes back a second earlier than advised is refused again.
\<close>

theorem limiter_retry_after:
  assumes "\<not> allowed (fst (rl_check rl k t))"
  defines "s \<equiv> retryAfterSeconds (fst (rl_check rl k t))"
  shows "snd (rl_check rl k t) = rl \<and> 1 \<le> s \<and> remaining (fst (rl_check rl k t)) = 0
    \<and> allowed (fst (rl_check (snd (rl_check rl k t)) k (t + 1000 * s)))
    \<and> (1 < s \<longrightarrow> \<not> allowed (fst (rl_check (snd (rl_check rl k t)) k (t + 1000 * (s - 1)))))"
proof -
  obtain b where b: "live_bucket rl k t = Some b" "bucketCount b \<ge> maxAttempts rl"
    using assms(1) by (auto simp: rl_check_live split: option.splits if_splits)
  let ?left = "windowMs rl - (t - windowStart b)"
  have d: "rl_check rl k t =
      (\<lparr>allowed = False, retryAfterSeconds = max 1 (ceil_seconds ?left), remaining = 0\<rparr>, rl)"
    using b by (simp add: rl_check_live)
  have s: "s = max 1 (ceil_seconds ?left)" by (simp add: s_def d)
  have bb: "buckets rl k = Some b"
    using b(1) by (auto simp: live_bucket_def split: option.splits if_splits)
  have "?left \<le> 1000 * s" using ceil_seconds_ge [of ?left] s by linarith
  then have wait: "allowed (fst (rl_check rl k (t + 1000 * s)))"
    using bb by (simp add: rl_check_def Let_def)
  have "\<not> allowed (fst (rl_check rl k (t + 1000 * (s - 1))))" if "1 < s"
  proof -
    have "s = ceil_seconds ?left" using s that by simp
    then have "1000 * (s - 1) < ?left" using ceil_seconds_pred [of ?left] by simp
    then show ?thesis using bb b(2) by (simp add: rl_check_def Let_def)
  qed
  with wait show ?thesis by (simp add: d s)
qed

theorem limiter_retry_after_witness:
  "\<not> allowed (fst (rl_check (snd (rl_check (createRateLimiter 5000 1) ''a'' 0)) ''a'' (100 + 1000 * 4)))"
  using limiter_retry_after [of "snd (rl_check (createRateLimiter 5000 1) ''a'' 0)" "''a''" 100]
  by (simp add: createRateLimiter_def rl_check_def ceil_seconds_def)

text \<open>
  The periodic cleanup is unobservable. With a clock that does not go back, every check of
  a run is decided as it would be had the cleanup timer never fired.
\<close>

theorem limiter_cleanup_unobservable:
  assumes "sorted (map fst es)"
  shows "rl_run rl es = rl_run rl (filter (\<lambda>e. \<not> is_cleanup (snd e)) es)"
proof (cases es)
  case (Cons e es')
  then have "\<forall>x \<in> set es. fst e \<le> fst x" using assms by auto
  with assms show ?thesis by (intro rl_run_same [of "fst e"]) simp_all
qed simp

theorem limiter_cleanup_unobservable_witness:
  "rl_run (createRateLimiter 1000 1) [(0, Check ''a''), (500, Cleanup), (600, Check ''a'')]
   = rl_run (createRateLimiter 1000 1) [(0, Check ''a''), (600, Check ''a'')]"
  using limiter_cleanup_unobservable [of "[(0, Check ''a''), (500, Cleanup), (600, Check ''a'')]"]
  by (simp add: is_cleanup_def)

text \<open>
  The verification limiter is a sliding window: at most \<open>maxPerWindow\<close> verifications of one
  domain are admitted in any stretch of \<open>windowMs\<close> milliseconds.
\<close>

theorem verification_limiter_window:
  assumes "sorted ts" "0 < w"
  shows "in_window a w (acquired_times (createVerificationRateLimiter m w) k ts) \<le> int m"
  using acquired_window [of ts "createVerificationRateLimiter m w" "[]" k a] assms
  by (simp add: createVerificationRateLimiter_def recent_def)

theorem verification_limiter_window_witness:
  "in_window 999 1000 (acquired_times (createVerificationRateLimiter 2 1000) ''a'' [0, 999, 1000, 1001]) \<le> 2"
  using verification_limiter_window [of "[0, 999, 1000, 1001]" 1000 999 2 "''a''"]
  by (simp del: acquired_times.simps)

end
