(* ===== verification/Domains.thy ===== *)
theory Domains
  imports Access Origins RateLimiter
begin

section \<open>Projects, domains and domain verification\<close>

text \<open>
  src/services/project-service.ts, src/services/domain-service.ts, src/lib/verification-token.ts,
  src/lib/dns-verification.ts, src/services/domain-verification-service.ts and their handlers in
  src/routes/organizations.ts. The DNS answer and the fetched file are arguments; the body of the
  file is a string of bytes, which is enough for a pattern of ASCII characters. A verification
  has a part before the network check and a part after it, and other requests come between.
\<close>

subsection \<open>Verification tokens\<close>

definition verifyTokenAgainstHash :: "(string \<Rightarrow> string) \<Rightarrow> string \<Rightarrow> string \<Rightarrow> bool" where
  "verifyTokenAgainstHash hash token storedHash \<longleftrightarrow> length (hash token) = length storedHash \<and> hash token = storedHash"

definition dnsTxtRecordName :: "string \<Rightarrow> string" where
  "dnsTxtRecordName normalizedHostname = ''_prerender-verification.'' @ normalizedHostname"

definition dnsTxtRecordValue :: "string \<Rightarrow> string" where
  "dnsTxtRecordValue token = ''prerender-verification='' @ token"

definition htmlVerificationFileContent :: "string \<Rightarrow> string" where
  "htmlVerificationFileContent token = ''prerender-verification='' @ token @ [CHR 0x0A]"

definition HTML_VERIFICATION_PATH :: string where
  "HTML_VERIFICATION_PATH = ''/.well-known/prerender-verification.txt''"

text \<open>\<open>/prerender-verification=([a-f0-9]{64})/i\<close> at the start of a text, and its first match.\<close>

definition token_key :: string where "token_key = ''prerender-verification=''"

definition token_at :: "string \<Rightarrow> string option" where
  "token_at s =
     (let token = take 64 (drop (length token_key) s)
      in if js_lower (take (length token_key) s) = token_key \<and> length token = 64 \<and> list_all is_hex (js_lower token)
         then Some token else None)"

fun extractTokenFromBody :: "string \<Rightarrow> string option" where
  "extractTokenFromBody [] = None"
| "extractTokenFromBody (c # s) = (case token_at (c # s) of Some t \<Rightarrow> Some t | None \<Rightarrow> extractTokenFromBody s)"

lemma extract_Some: "extractTokenFromBody s = Some t \<Longrightarrow> \<exists>u v. s = u @ v \<and> token_at v = Some t"
proof (induction s)
  case (Cons c s)
  show ?case
  proof (cases "token_at (c # s)")
    case None
    with Cons obtain u v where "s = u @ v" "token_at v = Some t" by auto
    then show ?thesis by (intro exI [of _ "c # u"] exI [of _ v]) simp
  next
    case (Some t')
    with Cons.prems show ?thesis by (intro exI [of _ "[]"] exI [of _ "c # s"]) simp
  qed
qed simp

subsection \<open>The domain service\<close>

record verification_instructions =
  viMethod :: verification_method
  viRecordName :: "string option"
  viRecordType :: "string option"
  viRecordValue :: "string option"
  viFilePath :: "string option"
  viFileContent :: "string option"

definition buildVerificationInstructions :: "verification_method \<Rightarrow> string \<Rightarrow> string \<Rightarrow> verification_instructions" where
  "buildVerificationInstructions vmethod normalizedHostname token =
     (if vmethod = Dns_Txt
      then \<lparr>viMethod = vmethod, viRecordName = Some (dnsTxtRecordName normalizedHostname), viRecordType = Some ''TXT'',
            viRecordValue = Some (dnsTxtRecordValue token), viFilePath = None, viFileContent = None\<rparr>
      else \<lparr>viMethod = vmethod, viRecordName = None, viRecordType = None, viRecordValue = None,
            viFilePath = Some HTML_VERIFICATION_PATH, viFileContent = Some (htmlVerificationFileContent token)\<rparr>)"

text \<open>The domain as the API shows it: without its token hash.\<close>

record public_domain =
  pdId :: string
  pdProjectId :: string
  pdHostname :: string
  pdNormalizedHostname :: string
  pdStatus :: domain_status
  pdVerificationMethod :: verification_method
  pdVerifiedAt :: "time_ms option"
  pdLastVerificationAttemptAt :: "time_ms option"
  pdVerificationFailureCount :: int
  pdCreatedAt :: time_ms
  pdUpdatedAt :: time_ms

definition toPublicDomain :: "domain_row \<Rightarrow> public_domain" where
  "toPublicDomain d =
     \<lparr>pdId = dmId d, pdProjectId = dmProjectId d, pdHostname = dmHostname d, pdNormalizedHostname = dmNormalizedHostname d,
      pdStatus = dmStatus d, pdVerificationMethod = dmVerificationMethod d, pdVerifiedAt = dmVerifiedAt d,
      pdLastVerificationAttemptAt = dmLastVerificationAttemptAt d,
      pdVerificationFailureCount = dmVerificationFailureCount d, pdCreatedAt = dmCreatedAt d, pdUpdatedAt = dmUpdatedAt d\<rparr>"

record domain_result =
  drDomain :: domain_row
  drPlaintextToken :: string
  drVerification :: verification_instructions

text \<open>What a new token takes from outside: the random token, its hash, and the hostname libraries.\<close>

record domain_env =
  deTx :: tx_env
  deToken :: string
  deHash :: "string \<Rightarrow> string"
  deIp :: ip_library
  deToASCII :: "string \<Rightarrow> string option"

definition createDomain ::
  "domain_env \<Rightarrow> string \<Rightarrow> string \<Rightarrow> string \<Rightarrow> verification_method \<Rightarrow> string \<Rightarrow> string option \<Rightarrow> tenant_db
     \<Rightarrow> (tenant_error + domain_result) \<times> tenant_db" where
  "createDomain de organizationId projectId hostname vmethod actor requestId db =
     (case normalizeAndValidateHostname (deIp de) (deToASCII de) hostname of
        Inl _ \<Rightarrow> (Inl (App INVALID_DOMAIN), db)
      | Inr normalizedHostname \<Rightarrow>
          apfst (map_sum id (\<lambda>d. \<lparr>drDomain = d, drPlaintextToken = deToken de,
              drVerification = buildVerificationInstructions vmethod normalizedHostname (deToken de)\<rparr>))
            (createDomainForOrganization (deTx de) organizationId projectId
              \<lparr>cdHostname = hostname, cdNormalizedHostname = normalizedHostname, cdVerificationMethod = vmethod,
               cdVerificationTokenHash = deHash de (deToken de)\<rparr> actor requestId db))"

text \<open>The service looks the domain up, and so does the repository.\<close>

definition rotateToken ::
  "domain_env \<Rightarrow> string \<Rightarrow> string \<Rightarrow> string \<Rightarrow> string option \<Rightarrow> tenant_db \<Rightarrow> (tenant_error + domain_result) \<times> tenant_db" where
  "rotateToken de organizationId domainId actor requestId db =
     (case getDomainForOrganization db organizationId domainId of
        None \<Rightarrow> (Inl (App DOMAIN_NOT_FOUND), db)
      | Some _ \<Rightarrow>
          (case rotateVerificationTokenForOrganization (deTx de) organizationId domainId (deHash de (deToken de))
                  actor requestId db of
             (Inl e, db') \<Rightarrow> (Inl e, db')
           | (Inr None, db') \<Rightarrow> (Inl (App DOMAIN_NOT_FOUND), db')
           | (Inr (Some updated), db') \<Rightarrow>
               (Inr \<lparr>drDomain = updated, drPlaintextToken = deToken de,
                  drVerification = buildVerificationInstructions (dmVerificationMethod updated)
                    (dmNormalizedHostname updated) (deToken de)\<rparr>, db')))"

text \<open>The instructions publish what the checks below look for.\<close>

lemma instructions_token:
  "viRecordValue (buildVerificationInstructions Dns_Txt h token) = Some (token_key @ token)"
  "viFileContent (buildVerificationInstructions Html_File h token) = Some (token_key @ token @ [CHR 0x0A])"
  by (simp_all add: buildVerificationInstructions_def dnsTxtRecordValue_def htmlVerificationFileContent_def token_key_def)

lemma hex_lower: "list_all is_hex t \<Longrightarrow> js_lower t = t"
proof -
  have digits: "\<forall>c \<in> set ''0123456789abcdef''. js_lower_char c = c" by code_simp
  have "js_lower_char c = c" if "is_hex c" for c using digits that unfolding is_hex_def by (rule bspec)
  then show "list_all is_hex t \<Longrightarrow> ?thesis"
    unfolding js_lower_def list_all_iff by (intro map_idI) blast
qed

lemma published_token_found:
  assumes "length token = 64" "list_all is_hex token"
  shows "extractTokenFromBody (token_key @ token @ s) = Some token"
proof -
  have "js_lower token_key = token_key" by code_simp
  then have "token_at (token_key @ token @ s) = Some token"
    using assms by (simp add: token_at_def Let_def hex_lower)
  moreover obtain c r where "token_key @ token @ s = c # r" by (simp add: token_key_def)
  ultimately show ?thesis by simp
qed

subsection \<open>The checks\<close>

datatype verification_outcome = Verification_Success | Verification_Failure string

text \<open>\<open>resolver(recordName)\<close>: the records with their segments, or the code of the error.\<close>

datatype dns_answer = Dns_Records "string list list" | Dns_Error "string option"

definition dns_error_code :: "string option \<Rightarrow> string" where
  "dns_error_code code =
     (if code = Some ''ENOTFOUND'' \<or> code = Some ''ENODATA'' then ''dns_nxdomain''
      else if code = Some ''ETIMEOUT'' \<or> code = Some ''EAI_AGAIN'' then ''dns_timeout''
      else if code = Some ''ESERVFAIL'' then ''dns_servfail'' else ''dns_error'')"

definition token_proves :: "(string \<Rightarrow> string) \<Rightarrow> domain_row \<Rightarrow> string \<Rightarrow> bool" where
  "token_proves hash d seen \<longleftrightarrow>
     (case extractTokenFromBody seen of None \<Rightarrow> False | Some candidate \<Rightarrow>
        candidate \<noteq> [] \<and> verifyTokenAgainstHash hash candidate (dmVerificationTokenHash d))"

definition verifyDnsTxtAgainstHash :: "(string \<Rightarrow> string) \<Rightarrow> (string \<Rightarrow> dns_answer) \<Rightarrow> domain_row \<Rightarrow> verification_outcome" where
  "verifyDnsTxtAgainstHash hash resolver d =
     (case resolver (''_prerender-verification.'' @ dmNormalizedHostname d) of
        Dns_Error code \<Rightarrow> Verification_Failure (dns_error_code code)
      | Dns_Records records \<Rightarrow>
          (if list_ex (token_proves hash d) (map concat records) then Verification_Success
           else Verification_Failure ''dns_not_found''))"

record html_response = fetch_response +
  hrContentType :: "string option"

fun fetch_reason_name :: "safe_fetch_error \<Rightarrow> string" where
  "fetch_reason_name Fetch_Blocked_Url = ''html_blocked_url''"
| "fetch_reason_name Fetch_Too_Many_Redirects = ''html_too_many_redirects''"
| "fetch_reason_name Fetch_Redirect_Host_Mismatch = ''html_redirect_host_mismatch''"
| "fetch_reason_name Fetch_Redirect_Downgrade = ''html_redirect_downgrade''"
| "fetch_reason_name Fetch_Too_Large = ''html_too_large''"
| "fetch_reason_name Fetch_Timeout = ''html_timeout''"
| "fetch_reason_name Fetch_Network_Error = ''html_network_error''"
| "fetch_reason_name Fetch_Bad_Location = ''html_error''"

record html_fetch =
  hfMaxBytes :: nat
  hfMaxRedirects :: nat
  hfRequiredHostname :: string

definition HTML_MAX_BYTES :: nat where "HTML_MAX_BYTES = 8 * 1024"
definition HTML_MAX_REDIRECTS :: nat where "HTML_MAX_REDIRECTS = 2"

definition verifyHtmlFileAgainstHash ::
  "(string \<Rightarrow> string) \<Rightarrow> (string \<Rightarrow> html_fetch \<Rightarrow> safe_fetch_error + html_response) \<Rightarrow> domain_row \<Rightarrow> verification_outcome" where
  "verifyHtmlFileAgainstHash hash fetch d =
     (case fetch (''https://'' @ dmNormalizedHostname d @ HTML_VERIFICATION_PATH)
             \<lparr>hfMaxBytes = HTML_MAX_BYTES, hfMaxRedirects = HTML_MAX_REDIRECTS, hfRequiredHostname = dmNormalizedHostname d\<rparr> of
        Inl reason \<Rightarrow> Verification_Failure (fetch_reason_name reason)
      | Inr result \<Rightarrow>
          (if frStatus result \<noteq> 200 then Verification_Failure ''html_unexpected_status''
           else if truthy (hrContentType result) \<and> \<not> includes_str (js_lower (the (hrContentType result))) ''text/plain''
           then Verification_Failure ''html_unexpected_content_type''
           else if token_proves hash d (frBody result) then Verification_Success
           else Verification_Failure ''html_token_mismatch''))"

text \<open>The network as a verification sees it.\<close>

record verify_net =
  vnHash :: "string \<Rightarrow> string"
  vnResolver :: "string \<Rightarrow> dns_answer"
  vnFetch :: "string \<Rightarrow> html_fetch \<Rightarrow> safe_fetch_error + html_response"

definition performDomainVerification :: "verify_net \<Rightarrow> domain_row \<Rightarrow> verification_outcome" where
  "performDomainVerification net d =
     (if dmVerificationMethod d = Dns_Txt then verifyDnsTxtAgainstHash (vnHash net) (vnResolver net) d
      else verifyHtmlFileAgainstHash (vnHash net) (vnFetch net) d)"

text \<open>\<open>verifyDnsTxt\<close> of src/lib/dns-verification.ts, which compares whole values.\<close>

definition dns_failure_reason :: "string option \<Rightarrow> string" where
  "dns_failure_reason code =
     (if code = Some ''ENOTFOUND'' \<or> code = Some ''ENODATA'' then ''nxdomain''
      else if code = Some ''ETIMEOUT'' \<or> code = Some ''EAI_AGAIN'' then ''timeout''
      else if code = Some ''ESERVFAIL'' then ''servfail'' else ''dns_error'')"

definition verifyDnsTxt :: "(string \<Rightarrow> dns_answer) \<Rightarrow> string \<Rightarrow> string \<Rightarrow> string + unit" where
  "verifyDnsTxt resolver normalizedHostname expectedValue =
     (case resolver (dnsTxtRecordName normalizedHostname) of
        Dns_Error code \<Rightarrow> Inl (dns_failure_reason code)
      | Dns_Records records \<Rightarrow>
          (if expectedValue \<in> set (map concat records) then Inr () else Inl ''not_found''))"

text \<open>What was seen when a check succeeds: a text at the domain's place with the right token.\<close>

definition published :: "verify_net \<Rightarrow> domain_row \<Rightarrow> bool" where
  "published net d \<longleftrightarrow> (\<exists>seen token. extractTokenFromBody seen = Some token \<and> vnHash net token = dmVerificationTokenHash d
     \<and> (if dmVerificationMethod d = Dns_Txt
        then \<exists>records. vnResolver net (dnsTxtRecordName (dmNormalizedHostname d)) = Dns_Records records
               \<and> seen \<in> set (map concat records)
        else \<exists>r. vnFetch net (''https://'' @ dmNormalizedHostname d @ HTML_VERIFICATION_PATH)
               \<lparr>hfMaxBytes = HTML_MAX_BYTES, hfMaxRedirects = HTML_MAX_REDIRECTS, hfRequiredHostname = dmNormalizedHostname d\<rparr>
               = Inr r \<and> frStatus r = 200 \<and> seen = frBody r))"

lemma proves_token:
  "token_proves hash d seen \<Longrightarrow> \<exists>token. extractTokenFromBody seen = Some token \<and> hash token = dmVerificationTokenHash d"
  by (auto simp: token_proves_def verifyTokenAgainstHash_def split: option.splits)

lemma verification_sound: "performDomainVerification net d = Verification_Success \<Longrightarrow> published net d"
proof (cases "dmVerificationMethod d = Dns_Txt")
  case True
  assume "performDomainVerification net d = Verification_Success"
  with True obtain records seen where r: "vnResolver net (dnsTxtRecordName (dmNormalizedHostname d)) = Dns_Records records"
    and t: "seen \<in> set (map concat records)" "token_proves (vnHash net) d seen"
    by (auto simp: performDomainVerification_def verifyDnsTxtAgainstHash_def dnsTxtRecordName_def list_ex_iff
        split: dns_answer.splits if_splits)
  from proves_token [OF t(2)] r t(1) True show ?thesis by (auto simp: published_def)
next
  case False
  assume "performDomainVerification net d = Verification_Success"
  with False obtain r where r: "vnFetch net (''https://'' @ dmNormalizedHostname d @ HTML_VERIFICATION_PATH)
        \<lparr>hfMaxBytes = HTML_MAX_BYTES, hfMaxRedirects = HTML_MAX_REDIRECTS, hfRequiredHostname = dmNormalizedHostname d\<rparr> = Inr r"
    and t: "frStatus r = 200" "token_proves (vnHash net) d (frBody r)"
    by (auto simp: performDomainVerification_def verifyHtmlFileAgainstHash_def split: sum.splits if_splits)
  from proves_token [OF t(2)] r t(1) False show ?thesis unfolding published_def by auto
qed

end
