(* ===== verification/DomainVerification.thy ===== *)
theory DomainVerification
  imports Domains
begin

section \<open>Domain verification, step by step\<close>

text \<open>
  The verify handler of src/routes/organizations.ts with \<open>verifyDomainOrThrow\<close> of
  src/services/domain-verification-service.ts, cut at the network check: what runs before it
  reads the domain row, what runs after it writes the result. In between, tokens are rotated,
  domains are created and other verifications run.
\<close>

record verify_state =
  vsDb :: tenant_db
  vsLimiter :: verification_limiter
  vsInFlight :: "string set"

definition attempted_event :: "tenant_context \<Rightarrow> domain_row \<Rightarrow> string option \<Rightarrow> record_audit_input" where
  "attempted_event ctx d requestId =
     \<lparr>raOrganizationId = tcOrganizationId ctx, raActor = User_Actor (context_user ctx),
      raAction = Domain_Verification_Attempted, raTargetType = ''domain'', raTargetId = Some (dmId d),
      raResult = Audit_Success, raErrorCode = None, raRequestId = requestId, raMetadata = Some [method_meta d]\<rparr>"

text \<open>Up to the check: \<open>Inr\<close> carries the context and the row it will be done for.\<close>

definition verify_start ::
  "tx_env \<Rightarrow> auth_session \<Rightarrow> string \<Rightarrow> string \<Rightarrow> string option \<Rightarrow> verify_state
     \<Rightarrow> (public_domain reply + tenant_context \<times> domain_row) \<times> verify_state" where
  "verify_start env auth organizationId domainId requestId st =
     (case requireOrganizationPermission auth (vsDb st) organizationId domain_verify of
        Inl e \<Rightarrow> (Inl (sendAppError e), st)
      | Inr ctx \<Rightarrow>
          (case getDomainForOrganization (vsDb st) (tcOrganizationId ctx) domainId of
             None \<Rightarrow> (Inl (App_Reply DOMAIN_NOT_FOUND), st)
           | Some d \<Rightarrow>
               (case recordAuditEvent env (attempted_event ctx d requestId) (vsDb st) of
                  (Inl e, db1) \<Rightarrow> (Inl (sendAppError e), st\<lparr>vsDb := db1\<rparr>)
                | (Inr _, db1) \<Rightarrow>
                    (let (admitted, limiter) = tryAcquire (vsLimiter st) (dmId d) (txNow env);
                         st1 = st\<lparr>vsDb := db1, vsLimiter := limiter\<rparr>
                     in if \<not> admitted then (Inl (App_Reply DOMAIN_VERIFICATION_RATE_LIMITED), st1)
                        else let (acquired, inFlight) = guard_acquire (vsInFlight st1) (dmId d)
                             in if \<not> acquired then (Inl (App_Reply DOMAIN_VERIFICATION_IN_PROGRESS), st1)
                                else (Inr (ctx, d), st1\<lparr>vsInFlight := inFlight\<rparr>)))))"

fun failure_code :: "verification_outcome \<Rightarrow> string option" where
  "failure_code Verification_Success = None"
| "failure_code (Verification_Failure c) = Some c"

text \<open>From the outcome on; the guard is released on every path.\<close>

definition verify_finish ::
  "tx_env \<Rightarrow> tenant_context \<Rightarrow> domain_row \<Rightarrow> verification_outcome \<Rightarrow> string option \<Rightarrow> verify_state
     \<Rightarrow> public_domain reply \<times> verify_state" where
  "verify_finish env ctx d outcome requestId st =
     (let (r, db1) = markVerificationAttemptForOrganization env (tcOrganizationId ctx) (dmId d) (failure_code outcome)
                       (context_user ctx) requestId (vsDb st)
      in ((case r of
             Inl e \<Rightarrow> sendAppError e
           | Inr None \<Rightarrow> App_Reply DOMAIN_NOT_FOUND
           | Inr (Some updated) \<Rightarrow>
               (if outcome = Verification_Success then Reply 200 (toPublicDomain updated)
                else App_Reply DOMAIN_VERIFICATION_FAILED)),
          st\<lparr>vsDb := db1, vsInFlight := guard_release (vsInFlight st) (dmId d)\<rparr>))"

definition post_verify ::
  "tx_env \<Rightarrow> tx_env \<Rightarrow> verify_net \<Rightarrow> auth_session \<Rightarrow> string \<Rightarrow> string \<Rightarrow> string option \<Rightarrow> verify_state
     \<Rightarrow> public_domain reply \<times> verify_state" where
  "post_verify env env' net auth organizationId domainId requestId st =
     (case verify_start env auth organizationId domainId requestId st of
        (Inl reply, st1) \<Rightarrow> (reply, st1)
      | (Inr (ctx, d), st1) \<Rightarrow> verify_finish env' ctx d (performDomainVerification net d) requestId st1)"

subsection \<open>Runs\<close>

record verify_world =
  vdState :: verify_state
  vdRunning :: "nat \<Rightarrow> (tenant_context \<times> domain_row) option"
  vdProven :: "(verify_net \<times> domain_row) list"

definition with_domains_db :: "verify_world \<Rightarrow> tenant_db \<Rightarrow> verify_world" where
  "with_domains_db w db = w\<lparr>vdState := (vdState w)\<lparr>vsDb := db\<rparr>\<rparr>"

inductive verify_step :: "verify_world \<Rightarrow> verify_world \<Rightarrow> bool" where
  begin_check: "vdRunning w n = None \<Longrightarrow> verify_start env auth org did req (vdState w) = (Inr (ctx, d), st)
    \<Longrightarrow> verify_step w (w\<lparr>vdState := st, vdRunning := (vdRunning w)(n \<mapsto> (ctx, d))\<rparr>)"
| refused: "verify_start env auth org did req (vdState w) = (Inl reply, st) \<Longrightarrow> verify_step w (w\<lparr>vdState := st\<rparr>)"
| end_check: "vdRunning w n = Some (ctx, d)
    \<Longrightarrow> verify_finish env ctx d (performDomainVerification net d) req (vdState w) = (reply, st)
    \<Longrightarrow> verify_step w (w\<lparr>vdState := st, vdRunning := (vdRunning w)(n := None),
          vdProven := (if performDomainVerification net d = Verification_Success
                       then vdProven w @ [(net, d)] else vdProven w)\<rparr>)"
| rotate_domain_token: "rotateToken de org did actor req (vsDb (vdState w)) = (r, db')
    \<Longrightarrow> verify_step w (with_domains_db w db')"
| add_domain: "createDomain de org pid hostname vmethod actor req (vsDb (vdState w)) = (r, db')
    \<Longrightarrow> verify_step w (with_domains_db w db')"
| other_change: "dbDomains db' = dbDomains (vsDb (vdState w)) \<Longrightarrow> verify_step w (with_domains_db w db')"

subsection \<open>What the writes do to the domains\<close>

definition same_domain :: "domain_row \<Rightarrow> domain_row \<Rightarrow> bool" where
  "same_domain d e \<longleftrightarrow> dmId d = dmId e \<and> dmNormalizedHostname d = dmNormalizedHostname e
     \<and> dmVerificationMethod d = dmVerificationMethod e \<and> dmProjectId d = dmProjectId e"

lemma same_domain_refl [simp]: "same_domain d d"
  by (simp add: same_domain_def)

lemma same_domain_trans: "same_domain a b \<Longrightarrow> same_domain b c \<Longrightarrow> same_domain a c"
  by (simp add: same_domain_def)

text \<open>
  Every domain stays, as the same domain; a domain is verified afterwards only if it was before
  or its id is the one proven.
\<close>

definition domains_evolve :: "string option \<Rightarrow> tenant_db \<Rightarrow> tenant_db \<Rightarrow> bool" where
  "domains_evolve proven db db' \<longleftrightarrow>
     (unique_on dmId (dbDomains db) \<longrightarrow> unique_on dmId (dbDomains db'))
     \<and> (\<forall>d \<in> set (dbDomains db). \<exists>e \<in> set (dbDomains db'). same_domain d e)
     \<and> (\<forall>e \<in> set (dbDomains db'). dmStatus e = Domain_Verified \<longrightarrow>
          (\<exists>d \<in> set (dbDomains db). same_domain d e \<and> (dmStatus d = Domain_Verified \<or> proven = Some (dmId e))))"

lemma evolve_none: "dbDomains db' = dbDomains db \<Longrightarrow> domains_evolve p db db'"
  by (auto simp: domains_evolve_def intro: same_domain_refl)

lemma evolve_insert:
  assumes "dbDomains db' = dbDomains db @ [d]" "row_at dmId (dbDomains db) (dmId d) = None" "dmStatus d \<noteq> Domain_Verified"
  shows "domains_evolve p db db'"
  using assms by (auto simp: domains_evolve_def unique_on_append_at intro: same_domain_refl)

lemma evolve_domain_update:
  assumes db': "dbDomains db' = snd (update_where (\<lambda>d. dmId d = k) f (dbDomains db))"
    and f: "\<And>d. same_domain d (f d)"
    and s: "\<And>d. d \<in> set (dbDomains db) \<Longrightarrow> dmId d = k \<Longrightarrow> dmStatus (f d) = Domain_Verified \<Longrightarrow> dmStatus d = Domain_Verified \<or> p = Some k"
  shows "domains_evolve p db db'"
proof -
  have key: "dmId (f d) = dmId d" for d using f [of d] by (simp add: same_domain_def)
  have "unique_on dmId (dbDomains db')" if "unique_on dmId (dbDomains db)"
    unfolding db' by (rule unique_on_updateI) (rule key, rule that)
  moreover have "\<exists>e \<in> set (dbDomains db'). same_domain d e" if "d \<in> set (dbDomains db)" for d
    using that f unfolding db' update_where_def
    by (intro bexI [of _ "if dmId d = k then f d else d"]) auto
  moreover have "\<exists>d \<in> set (dbDomains db). same_domain d e \<and> (dmStatus d = Domain_Verified \<or> p = Some (dmId e))"
    if "e \<in> set (dbDomains db')" "dmStatus e = Domain_Verified" for e
  proof -
    have "\<exists>d \<in> set (dbDomains db). e = (if dmId d = k then f d else d)"
      using that(1) unfolding db' update_where_def snd_conv set_map image_iff .
    then obtain d where d: "d \<in> set (dbDomains db)" "e = (if dmId d = k then f d else d)" ..
    show ?thesis by (rule bexI [OF _ d(1)]) (use d f s [OF d(1)] that(2) key in \<open>auto split: if_splits\<close>)
  qed
  ultimately show ?thesis by (simp add: domains_evolve_def)
qed

lemma finish_domains: "finish_audited env i meta x db = (Inr y, db', a) \<Longrightarrow> dbDomains db' = dbDomains db"
  by (auto dest!: finish_audited_Inr)

text \<open>An audited update of one domain leaves the table alone or updates it.\<close>

lemma audited_domain_cases:
  assumes "runAuditedTransaction (\<lambda>tx.
            case update_domain k f tx of
              Inl e \<Rightarrow> (Inl e, tx, None)
            | Inr (None, tx1) \<Rightarrow> (Inr None, tx1, None)
            | Inr (Some row, tx1) \<Rightarrow> finish_audited env (ev row) (meta row) (Some row) tx1) db = (r, db')"
  shows "dbDomains db' = dbDomains db \<or> dbDomains db' = snd (update_where (\<lambda>d. dmId d = k) f (dbDomains db))"
proof (cases r)
  case (Inl e)
  with assms show ?thesis by (auto simp: audited_Inl)
next
  case (Inr x)
  with assms obtain d a where b: "(case update_domain k f db of
              Inl e \<Rightarrow> (Inl e, db, None)
            | Inr (None, tx1) \<Rightarrow> (Inr None, tx1, None)
            | Inr (Some row, tx1) \<Rightarrow> finish_audited env (ev row) (meta row) (Some row) tx1) = (Inr x, d, a)"
    and d: "db' = count_audit a Audit_Success d"
    by (auto simp: audited_Inr)
  show ?thesis
  proof (cases "update_domain k f db")
    case (Inr p)
    obtain y tx1 where p: "p = (y, tx1)" by (cases p)
    have "dbDomains tx1 = snd (update_where (\<lambda>d. dmId d = k) f (dbDomains db))"
      using Inr p by (auto simp: update_domain_def Let_def split: prod.splits if_splits)
    moreover have "dbDomains d = dbDomains tx1" using b Inr p by (cases y) (auto dest: finish_domains)
    ultimately show ?thesis using d by simp
  qed (use b in simp)
qed

lemma rotate_domains:
  assumes "rotateVerificationTokenForOrganization env org k h actor req db = (r, db')" "unique_on dmId (dbDomains db)"
  shows "domains_evolve p db db'"
proof (cases "getDomainForOrganization db org k")
  case (Some ex)
  have only: "d = ex" if "d \<in> set (dbDomains db)" "dmId d = k" for d
    using getDomain_Some [OF Some] unique_onD [OF assms(2) that(1)] that(2) by simp
  from audited_domain_cases [OF assms(1) [unfolded rotateVerificationTokenForOrganization_def Some option.case]]
  show ?thesis
  proof
    assume "dbDomains db' = snd (update_where (\<lambda>d. dmId d = k) (rotate_domain env h ex) (dbDomains db))"
    then show ?thesis
      by (rule evolve_domain_update) (auto simp: rotate_domain_def Let_def same_domain_def split: if_splits dest: only)
  qed (rule evolve_none)
qed (use assms in \<open>simp add: rotateVerificationTokenForOrganization_def evolve_none\<close>)

lemma mark_domains:
  assumes "markVerificationAttemptForOrganization env org k failure actor req db = (r, db')" "unique_on dmId (dbDomains db)"
  shows "domains_evolve (if failure = None then Some k else None) db db'"
proof (cases "getDomainForOrganization db org k")
  case (Some ex)
  have only: "d = ex" if "d \<in> set (dbDomains db)" "dmId d = k" for d
    using getDomain_Some [OF Some] unique_onD [OF assms(2) that(1)] that(2) by simp
  from audited_domain_cases [OF assms(1) [unfolded markVerificationAttemptForOrganization_def Some option.case]]
  show ?thesis
  proof
    assume "dbDomains db' = snd (update_where (\<lambda>d. dmId d = k) (mark_domain env failure ex) (dbDomains db))"
    then show ?thesis
      by (rule evolve_domain_update)
        (auto simp: mark_domain_def same_domain_def split: option.splits if_splits dest: only)
  qed (rule evolve_none)
qed (use assms in \<open>simp add: markVerificationAttemptForOrganization_def evolve_none\<close>)

subsection \<open>Only proven domains are verified\<close>

lemma record_audit_domains [simp]: "dbDomains (snd (recordAuditEvent env i db)) = dbDomains db"
  by (auto simp: recordAuditEvent_def createAuditEvent_def insertAudit_Inr split: sum.splits)

lemma start_effect:
  assumes "verify_start env auth org did req st = (r, st')"
  shows "dbDomains (vsDb st') = dbDomains (vsDb st)
    \<and> (case r of
         Inl _ \<Rightarrow> vsInFlight st' = vsInFlight st
       | Inr (ctx, d) \<Rightarrow> d \<in> set (dbDomains (vsDb st)) \<and> dmId d \<notin> vsInFlight st
           \<and> vsInFlight st' = insert (dmId d) (vsInFlight st))"
proof (cases "requireOrganizationPermission auth (vsDb st) org domain_verify")
  case (Inr ctx)
  show ?thesis
  proof (cases "getDomainForOrganization (vsDb st) (tcOrganizationId ctx) did")
    case (Some d)
    obtain x db1 where rec: "recordAuditEvent env (attempted_event ctx d req) (vsDb st) = (x, db1)" by fastforce
    have "dbDomains db1 = dbDomains (vsDb st)" using record_audit_domains [of env _ "vsDb st"] rec by (metis snd_conv)
    with assms Inr Some rec getDomain_Some [OF Some] show ?thesis
      by (auto simp: verify_start_def guard_acquire_def Let_def split: sum.splits prod.splits if_splits)
  qed (use assms Inr in \<open>auto simp: verify_start_def\<close>)
qed (use assms in \<open>auto simp: verify_start_def\<close>)

lemma finish_effect:
  assumes "verify_finish env ctx d out req st = (reply, st')" "unique_on dmId (dbDomains (vsDb st))"
  shows "domains_evolve (if out = Verification_Success then Some (dmId d) else None) (vsDb st) (vsDb st')
    \<and> vsInFlight st' = vsInFlight st - {dmId d}"
proof -
  obtain r db1 where m: "markVerificationAttemptForOrganization env (tcOrganizationId ctx) (dmId d) (failure_code out)
      (context_user ctx) req (vsDb st) = (r, db1)" by fastforce
  have "(failure_code out = None) = (out = Verification_Success)" by (cases out) simp_all
  with mark_domains [OF m assms(2)] assms(1) m show ?thesis
    by (auto simp: verify_finish_def guard_release_def)
qed

lemma create_domain_table:
  assumes "createDomainForOrganization env org pid i actor req db = (r, d)"
  shows "dbDomains d = dbDomains db \<or> (dbDomains d = dbDomains db @ [new_domain env pid i]
    \<and> row_at dmId (dbDomains db) (txNewId env) = None)"
proof -
  let ?new = "new_domain env pid i"
  let ?fin = "finish_audited env (user_event org actor req Domain_Created ''domain'' (dmId ?new))
                (Some (buildAuditMetadata [method_meta ?new])) ?new"
  let ?R = "\<lambda>d. dbDomains d = dbDomains db \<or> (dbDomains d = dbDomains db @ [?new]
    \<and> row_at dmId (dbDomains db) (txNewId env) = None)"
  have "?R (snd (createDomainForOrganization env org pid i actor req db))"
    unfolding createDomainForOrganization_def Let_def
  proof (rule audited_keeps, simp, goal_cases)
    case (1 x d1 a)
    show ?case
    proof (cases "project_in db org pid \<and> (\<exists>tx1. insert_domain ?new db = Inr tx1)")
      case True
      then obtain tx1 where ins: "insert_domain ?new db = Inr tx1" by blast
      obtain y d2 a2 where fin: "?fin tx1 = (y, d2, a2)" by (cases "?fin tx1")
      from 1 True ins fin have "unique_violation_as DOMAIN_ALREADY_EXISTS y = Inr x" "d1 = d2" by auto
      then have "dbDomains d1 = dbDomains tx1"
        using fin finish_domains by (auto simp: unique_violation_as_def split: if_splits)
      with ins show ?thesis by (auto simp: insert_domain_def insert_unique_def new_domain_def split: if_splits)
    qed (use 1 in \<open>auto simp: unique_violation_as_def split: if_splits sum.splits\<close>)
  qed simp
  with assms show ?thesis by simp
qed

lemma create_domains:
  assumes "createDomain de org pid hostname vmethod actor req db = (r, db')"
  shows "domains_evolve p db db'"
proof (cases "normalizeAndValidateHostname (deIp de) (deToASCII de) hostname")
  case (Inr h)
  let ?i = "\<lparr>cdHostname = hostname, cdNormalizedHostname = h, cdVerificationMethod = vmethod,
             cdVerificationTokenHash = deHash de (deToken de)\<rparr>"
  obtain x d where c: "createDomainForOrganization (deTx de) org pid ?i actor req db = (x, d)" by fastforce
  then have "d = db'" using assms Inr by (simp add: createDomain_def)
  with create_domain_table [OF c] show ?thesis
    by (auto intro: evolve_none evolve_insert [where d = "new_domain (deTx de) pid ?i"] simp: new_domain_def)
qed (use assms in \<open>simp add: createDomain_def evolve_none\<close>)

lemma rotate_token_domains:
  assumes "rotateToken de org did actor req db = (r, db')" "unique_on dmId (dbDomains db)"
  shows "domains_evolve p db db'"
proof (cases "getDomainForOrganization db org did")
  case (Some ex)
  obtain x d where rot: "rotateVerificationTokenForOrganization (deTx de) org did (deHash de (deToken de)) actor req db = (x, d)"
    by fastforce
  then have "db' = d" using assms(1) Some by (auto simp: rotateToken_def split: sum.splits option.splits)
  with rotate_domains [OF rot assms(2)] show ?thesis by simp
qed (use assms in \<open>simp add: rotateToken_def evolve_none\<close>)

definition world_domains :: "verify_world \<Rightarrow> domain_row list" where
  "world_domains w = dbDomains (vsDb (vdState w))"

definition verified_ok :: "domain_row list \<Rightarrow> verify_world \<Rightarrow> bool" where
  "verified_ok before w \<longleftrightarrow> (\<forall>d \<in> set (world_domains w). dmStatus d = Domain_Verified \<longrightarrow>
     (\<exists>d0 \<in> set before. dmStatus d0 = Domain_Verified \<and> same_domain d0 d)
     \<or> (\<exists>(net, s) \<in> set (vdProven w). same_domain s d))"

definition verify_world_ok :: "domain_row list \<Rightarrow> verify_world \<Rightarrow> bool" where
  "verify_world_ok before w \<longleftrightarrow> unique_on dmId (world_domains w)
     \<and> (\<forall>n c d. vdRunning w n = Some (c, d) \<longrightarrow> dmId d \<in> vsInFlight (vdState w)
          \<and> (\<exists>e \<in> set (world_domains w). same_domain d e))
     \<and> (\<forall>n m c d c' d'. vdRunning w n = Some (c, d) \<longrightarrow> vdRunning w m = Some (c', d') \<longrightarrow> dmId d = dmId d' \<longrightarrow> n = m)
     \<and> (\<forall>(net, s) \<in> set (vdProven w). published net s) \<and> verified_ok before w"

text \<open>A step that proves nothing.\<close>

lemma evolve_verified_ok:
  assumes "domains_evolve None (vsDb (vdState w)) (vsDb (vdState w'))" "set (vdProven w) \<subseteq> set (vdProven w')"
    "verified_ok before w"
  shows "verified_ok before w'"
  unfolding verified_ok_def
proof (intro ballI impI)
  fix e assume "e \<in> set (world_domains w')" "dmStatus e = Domain_Verified"
  with assms(1) obtain d where d: "d \<in> set (world_domains w)" "same_domain d e" "dmStatus d = Domain_Verified"
    unfolding domains_evolve_def world_domains_def by auto
  from assms(3) d(1,3) show "(\<exists>d0 \<in> set before. dmStatus d0 = Domain_Verified \<and> same_domain d0 e)
     \<or> (\<exists>(net, s) \<in> set (vdProven w'). same_domain s e)"
    unfolding verified_ok_def using same_domain_trans [OF _ d(2)] assms(2) by blast
qed

lemma evolve_running:
  assumes "domains_evolve p (vsDb (vdState w)) (vsDb (vdState w'))" "\<exists>e \<in> set (world_domains w). same_domain d e"
  shows "\<exists>e \<in> set (world_domains w'). same_domain d e"
  using assms same_domain_trans unfolding domains_evolve_def world_domains_def by blast

lemma evolve_unique:
  "domains_evolve p (vsDb (vdState w)) (vsDb (vdState w')) \<Longrightarrow> unique_on dmId (world_domains w) \<Longrightarrow> unique_on dmId (world_domains w')"
  by (simp add: domains_evolve_def world_domains_def)

lemma world_okD:
  assumes "verify_world_ok before w"
  shows "unique_on dmId (world_domains w)" "verified_ok before w" "\<forall>(net, s) \<in> set (vdProven w). published net s"
    and "vdRunning w n = Some (c, d) \<Longrightarrow> dmId d \<in> vsInFlight (vdState w)"
    and "vdRunning w n = Some (c, d) \<Longrightarrow> \<exists>e \<in> set (world_domains w). same_domain d e"
    and "vdRunning w n = Some (c, d) \<Longrightarrow> vdRunning w m = Some (c', d') \<Longrightarrow> dmId d = dmId d' \<Longrightarrow> n = m"
  using assms unfolding verify_world_ok_def by blast+

lemma world_okI:
  assumes "unique_on dmId (world_domains w)" "verified_ok before w" "\<forall>(net, s) \<in> set (vdProven w). published net s"
    and "\<And>n c d. vdRunning w n = Some (c, d) \<Longrightarrow> dmId d \<in> vsInFlight (vdState w) \<and> (\<exists>e \<in> set (world_domains w). same_domain d e)"
    and "\<And>n m c d c' d'. vdRunning w n = Some (c, d) \<Longrightarrow> vdRunning w m = Some (c', d') \<Longrightarrow> dmId d = dmId d' \<Longrightarrow> n = m"
  shows "verify_world_ok before w"
  using assms unfolding verify_world_ok_def by blast

text \<open>Steps outside a verification: same running checks, same guard, nothing proven.\<close>

lemma quiet_step_ok:
  assumes "domains_evolve None (vsDb (vdState w)) (vsDb (vdState w'))" "vdRunning w' = vdRunning w"
    "vdProven w' = vdProven w" "vsInFlight (vdState w') = vsInFlight (vdState w)" "verify_world_ok before w"
  shows "verify_world_ok before w'"
proof -
  have "verified_ok before w'"
    by (rule evolve_verified_ok [OF assms(1)]) (use assms in \<open>simp_all add: verify_world_ok_def\<close>)
  moreover have "unique_on dmId (world_domains w')"
    by (rule evolve_unique [OF assms(1)]) (use assms(5) in \<open>simp add: verify_world_ok_def\<close>)
  ultimately show ?thesis
    using assms(2-5) evolve_running [OF assms(1)] unfolding verify_world_ok_def by simp
qed

lemma begin_check_ok:
  assumes idle: "vdRunning w n = None" and start: "verify_start env auth org did req (vdState w) = (Inr (ctx, d), st)"
    and ok: "verify_world_ok before w"
  shows "verify_world_ok before (w\<lparr>vdState := st, vdRunning := (vdRunning w)(n \<mapsto> (ctx, d))\<rparr>)"
    (is "verify_world_ok before ?w")
proof -
  have same: "world_domains ?w = world_domains w" and d: "d \<in> set (world_domains w)" "dmId d \<notin> vsInFlight (vdState w)"
    and fl: "vsInFlight st = insert (dmId d) (vsInFlight (vdState w))"
    using start_effect [OF start] by (simp_all add: world_domains_def)
  have others: "dmId d' \<noteq> dmId d" if "vdRunning w m = Some (c, d')" for m c d'
    using world_okD(4) [OF ok that] d(2) by metis
  show ?thesis
  proof (rule world_okI)
    show "unique_on dmId (world_domains ?w)" unfolding same by (rule world_okD(1) [OF ok])
    show "verified_ok before ?w" using world_okD(2) [OF ok] by (simp add: verified_ok_def same)
    show "\<forall>(net, s) \<in> set (vdProven ?w). published net s" using world_okD(3) [OF ok] by simp
  next
    fix m c d' assume m: "vdRunning ?w m = Some (c, d')"
    show "dmId d' \<in> vsInFlight (vdState ?w) \<and> (\<exists>e \<in> set (world_domains ?w). same_domain d' e)"
    proof (cases "m = n")
      case True
      with m have "d' = d" by simp
      moreover have "\<exists>e \<in> set (world_domains w). same_domain d e" by (rule bexI [OF same_domain_refl d(1)])
      ultimately show ?thesis using fl same by simp
    next
      case False
      with m have "vdRunning w m = Some (c, d')" by simp
      from world_okD(4,5) [OF ok this] fl same show ?thesis by simp
    qed
  next
    fix m m' c c' d1 d2
    assume r: "vdRunning ?w m = Some (c, d1)" "vdRunning ?w m' = Some (c', d2)" "dmId d1 = dmId d2"
    show "m = m'"
    proof (cases "m = n \<or> m' = n")
      case True
      with r others show ?thesis by (auto split: if_splits)
    next
      case False
      with r show ?thesis using world_okD(6) [OF ok, of m c d1 m' c' d2] by simp
    qed
  qed
qed

lemma end_check_ok:
  assumes run: "vdRunning w n = Some (ctx, d)"
    and fin: "verify_finish env ctx d (performDomainVerification net d) req (vdState w) = (reply, st)"
    and ok: "verify_world_ok before w"
  shows "verify_world_ok before (w\<lparr>vdState := st, vdRunning := (vdRunning w)(n := None),
          vdProven := (if performDomainVerification net d = Verification_Success
                       then vdProven w @ [(net, d)] else vdProven w)\<rparr>)"
    (is "verify_world_ok before ?w")
proof -
  let ?p = "if performDomainVerification net d = Verification_Success then Some (dmId d) else None"
  note unique = world_okD(1) [OF ok]
  have ev: "domains_evolve ?p (vsDb (vdState w)) (vsDb (vdState ?w))" and fl: "vsInFlight st = vsInFlight (vdState w) - {dmId d}"
    using finish_effect [OF fin] unique by (simp_all add: world_domains_def)
  have proven: "\<forall>(net, s) \<in> set (vdProven ?w). published net s"
    using world_okD(3) [OF ok] verification_sound by auto
  have v: "verified_ok before ?w"
  proof (cases "performDomainVerification net d = Verification_Success")
    case False
    with ev have "domains_evolve None (vsDb (vdState w)) (vsDb (vdState ?w))" by simp
    then show ?thesis by (rule evolve_verified_ok) (use False world_okD(2) [OF ok] in simp_all)
  next
    case True
    obtain e0 where e0: "e0 \<in> set (world_domains w)" "same_domain d e0"
      using world_okD(5) [OF ok run] by blast
    show ?thesis
      unfolding verified_ok_def
    proof (intro ballI impI)
      fix e assume "e \<in> set (world_domains ?w)" "dmStatus e = Domain_Verified"
      then obtain x where x: "x \<in> set (world_domains w)" "same_domain x e"
        "dmStatus x = Domain_Verified \<or> dmId d = dmId e"
        using ev True unfolding domains_evolve_def world_domains_def by auto
      from x(3) show "(\<exists>d0 \<in> set before. dmStatus d0 = Domain_Verified \<and> same_domain d0 e)
         \<or> (\<exists>(net, s) \<in> set (vdProven ?w). same_domain s e)"
      proof
        assume "dmStatus x = Domain_Verified"
        with world_okD(2) [OF ok] x(1) have "(\<exists>d0 \<in> set before. dmStatus d0 = Domain_Verified \<and> same_domain d0 x)
           \<or> (\<exists>(net, s) \<in> set (vdProven w). same_domain s x)"
          unfolding verified_ok_def by blast
        then show ?thesis using same_domain_trans [OF _ x(2)] by (auto split: if_splits)
      next
        assume "dmId d = dmId e"
        then have "dmId x = dmId e0" using x(2) e0(2) by (simp add: same_domain_def)
        then have "x = e0" by (rule unique_onD [OF unique x(1) e0(1)])
        then have "same_domain d e" using same_domain_trans [OF e0(2)] x(2) by blast
        then show ?thesis using True by auto
      qed
    qed
  qed
  show ?thesis
  proof (rule world_okI [OF evolve_unique [OF ev unique] v proven])
    fix m c d' assume "vdRunning ?w m = Some (c, d')"
    then have m: "m \<noteq> n" "vdRunning w m = Some (c, d')" by (auto split: if_splits)
    then have "dmId d' \<noteq> dmId d" using world_okD(6) [OF ok m(2) run] by blast
    with world_okD(4) [OF ok m(2)] evolve_running [OF ev world_okD(5) [OF ok m(2)]] fl
    show "dmId d' \<in> vsInFlight (vdState ?w) \<and> (\<exists>e \<in> set (world_domains ?w). same_domain d' e)" by simp
  next
    fix m m' c c' d1 d2
    assume "vdRunning ?w m = Some (c, d1)" "vdRunning ?w m' = Some (c', d2)" "dmId d1 = dmId d2"
    then show "m = m'" using world_okD(6) [OF ok, of m c d1 m' c' d2] by (auto split: if_splits)
  qed
qed

lemma verify_step_ok:
  assumes "verify_step w w'" "verify_world_ok before w"
  shows "verify_world_ok before w'"
proof -
  have unique: "unique_on dmId (dbDomains (vsDb (vdState w)))"
    using world_okD(1) [OF assms(2)] by (simp add: world_domains_def)
  show ?thesis
    using assms(1)
  proof cases
    case (begin_check n env auth org did req ctx d st)
    with begin_check_ok assms(2) show ?thesis by blast
  next
    case (refused env auth org did req reply st)
    with start_effect [OF refused(2)] show ?thesis
      by (intro quiet_step_ok [OF _ _ _ _ assms(2)]) (simp_all add: evolve_none)
  next
    case (end_check n ctx d env net req reply st)
    with end_check_ok assms(2) show ?thesis by blast
  next
    case (rotate_domain_token de org did actor req r db')
    with rotate_token_domains [OF rotate_domain_token(2) unique] show ?thesis
      by (intro quiet_step_ok [OF _ _ _ _ assms(2)]) (simp_all add: with_domains_db_def)
  next
    case (add_domain de org pid hostname vmethod actor req r db')
    with create_domains [OF add_domain(2)] show ?thesis
      by (intro quiet_step_ok [OF _ _ _ _ assms(2)]) (simp_all add: with_domains_db_def)
  next
    case (other_change db')
    then show ?thesis
      by (intro quiet_step_ok [OF _ _ _ _ assms(2)]) (simp_all add: with_domains_db_def evolve_none)
  qed
qed

interpretation verification: step_system "verify_world_ok ds" verify_step "verify_world_ok ds"
  by unfold_locales (auto intro: verify_step_ok)

text \<open>
  C39. A verified domain was proven. With any interleaving of verifications, token rotations, new
  domains and other changes, at most one verification of a domain is in flight, and a domain that
  is verified was so at the start or a check has found, at the place for its very hostname, a
  token whose hash was the domain's when that check began.
\<close>

theorem verified_domains_were_proven:
  assumes "unique_on dmId (world_domains w0)" "vdRunning w0 = (\<lambda>_. None)" "vdProven w0 = []"
    and "rtranclp verify_step w0 w"
  shows "(\<forall>n m c d c' d'. vdRunning w n = Some (c, d) \<longrightarrow> vdRunning w m = Some (c', d') \<longrightarrow> dmId d = dmId d' \<longrightarrow> n = m)
    \<and> (\<forall>d \<in> set (world_domains w). dmStatus d = Domain_Verified \<longrightarrow>
         (\<exists>d0 \<in> set (world_domains w0). dmStatus d0 = Domain_Verified \<and> same_domain d0 d)
         \<or> (\<exists>(net, s) \<in> set (vdProven w). same_domain s d \<and> published net s))"
proof -
  have "verify_world_ok (world_domains w0) w0"
    using assms(1-3) by (auto simp: verify_world_ok_def verified_ok_def intro: same_domain_refl)
  then have "verify_world_ok (world_domains w0) w" by (rule verification.steps_inv [OF assms(4)])
  then show ?thesis unfolding verify_world_ok_def verified_ok_def by blast
qed

subsection \<open>A rotation during a check\<close>

text \<open>
  A member starts a verification; the token is rotated while the record is looked up; the check
  succeeds against the row it was started with, and the domain is verified although what is
  published is the token that was rotated away.
\<close>

definition demo_token :: string where
  "demo_token = replicate 64 (CHR ''a'')"

definition demo_domain :: domain_row where
  "demo_domain =
     \<lparr>dmId = ''d2'', dmProjectId = ''p2'', dmHostname = ''b.org'', dmNormalizedHostname = ''b.org'',
      dmStatus = Domain_Pending, dmVerificationMethod = Dns_Txt, dmVerificationTokenHash = rev demo_token, dmVerifiedAt = None,
      dmLastVerificationAttemptAt = None, dmVerificationFailureCount = 0, dmCreatedAt = 0, dmUpdatedAt = 0\<rparr>"

definition demo_verify :: verify_state where
  "demo_verify = \<lparr>vsDb = demo_db\<lparr>dbDomains := [demo_domain]\<rparr>, vsLimiter = createVerificationRateLimiter 5 60000, vsInFlight = {}\<rparr>"

definition demo_verify_world :: verify_world where
  "demo_verify_world = \<lparr>vdState = demo_verify, vdRunning = (\<lambda>_. None), vdProven = []\<rparr>"

definition demo_auth :: auth_session where
  "demo_auth = Some (Some None, Some \<lparr>auUserId = ''u2'', auEmail = ''b@x.org''\<rparr>)"

definition demo_net :: verify_net where
  "demo_net =
     \<lparr>vnHash = rev, vnResolver = (\<lambda>_. Dns_Records [[''v=spf1''], [token_key, demo_token]]),
      vnFetch = (\<lambda>_ _. Inl Fetch_Timeout)\<rparr>"

definition demo_new_token :: domain_env where
  "demo_new_token =
     \<lparr>deTx = demo_tx\<lparr>txAuditId := ''audit2''\<rparr>, deToken = replicate 64 (CHR ''b''), deHash = rev,
      deIp = demo_ip_library, deToASCII = Some\<rparr>"

definition demo_context :: tenant_context where
  "demo_context =
     \<lparr>tcSession = \<lparr>scUserId = ''u2'', scEmail = ''b@x.org'', scActiveOrganizationId = None\<rparr>,
      tcOrganizationId = ''o2'', tcRole = ''admin''\<rparr>"

definition demo_started :: verify_state where
  "demo_started = snd (verify_start demo_tx demo_auth ''o2'' ''d2'' None demo_verify)"

definition demo_rotated :: verify_world where
  "demo_rotated =
     with_domains_db \<lparr>vdState = demo_started, vdRunning = [0 \<mapsto> (demo_context, demo_domain)], vdProven = []\<rparr>
       (snd (rotateToken demo_new_token ''o2'' ''d2'' ''u2'' None (vsDb demo_started)))"

definition demo_finished :: verify_state where
  "demo_finished = snd (verify_finish (demo_tx\<lparr>txAuditId := ''audit3''\<rparr>) demo_context demo_domain Verification_Success None
     (vdState demo_rotated))"

lemma demo_verification:
  "fst (verify_start demo_tx demo_auth ''o2'' ''d2'' None demo_verify) = Inr (demo_context, demo_domain)"
  "performDomainVerification demo_net demo_domain = Verification_Success"
  by code_simp+

lemma rotated_while_checked:
  "map dmStatus (dbDomains (vsDb demo_finished)) = [Domain_Verified]"
  "map dmVerificationTokenHash (dbDomains (vsDb demo_finished)) = [replicate 64 (CHR ''b'')]"
  by code_simp+

lemma demo_verify_run:
  "rtranclp verify_step demo_verify_world
     \<lparr>vdState = demo_finished, vdRunning = Map.empty, vdProven = [(demo_net, demo_domain)]\<rparr>"
proof -
  let ?w1 = "\<lparr>vdState = demo_started, vdRunning = [0 \<mapsto> (demo_context, demo_domain)], vdProven = []\<rparr>"
  have "verify_start demo_tx demo_auth ''o2'' ''d2'' None (vdState demo_verify_world)
      = (Inr (demo_context, demo_domain), demo_started)"
    using demo_verification(1) by (simp add: demo_started_def demo_verify_world_def prod_eq_iff)
  from verify_step.begin_check [OF _ this, of 0] have 1: "verify_step demo_verify_world ?w1"
    by (simp add: demo_verify_world_def)
  have 2: "verify_step ?w1 demo_rotated"
    unfolding demo_rotated_def by (rule verify_step.rotate_domain_token) (simp add: prod_eq_iff)
  have "vdRunning demo_rotated 0 = Some (demo_context, demo_domain)"
    by (simp add: demo_rotated_def with_domains_db_def)
  from verify_step.end_check [OF this, of "demo_tx\<lparr>txAuditId := ''audit3''\<rparr>" demo_net None
      "fst (verify_finish (demo_tx\<lparr>txAuditId := ''audit3''\<rparr>) demo_context demo_domain Verification_Success None (vdState demo_rotated))"
      demo_finished]
  have 3: "verify_step demo_rotated
      \<lparr>vdState = demo_finished, vdRunning = Map.empty, vdProven = [(demo_net, demo_domain)]\<rparr>"
    unfolding demo_verification(2)
    by (simp add: demo_finished_def demo_rotated_def with_domains_db_def)
  from 1 2 3 show ?thesis by (meson rtranclp.rtrancl_refl rtranclp.rtrancl_into_rtrancl)
qed

theorem verified_domains_were_proven_witness:
  "list_all (\<lambda>d. dmStatus d = Domain_Verified \<and> same_domain demo_domain d) (dbDomains (vsDb demo_finished))"
proof -
  have "unique_on dmId (world_domains demo_verify_world)" "vdRunning demo_verify_world = (\<lambda>_. None)"
    "vdProven demo_verify_world = []"
    by (simp_all add: demo_verify_world_def world_domains_def demo_verify_def unique_on_def)
  from verified_domains_were_proven [OF this demo_verify_run]
  have "\<forall>d \<in> set (dbDomains (vsDb demo_finished)). dmStatus d = Domain_Verified \<longrightarrow> same_domain demo_domain d"
    by (auto simp: world_domains_def demo_verify_world_def demo_verify_def demo_domain_def)
  moreover have "dmStatus ` set (dbDomains (vsDb demo_finished)) = {Domain_Verified}"
    using rotated_while_checked(1) by (metis list.set(1,2) list.set_map)
  ultimately show ?thesis by (auto simp: list_all_iff)
qed

end
