(* ===== verification/SitemapParser.thy ===== *)
theory SitemapParser
  imports CachePolicy UrlSecurity
begin

section \<open>Sitemap documents and robots.txt\<close>

text \<open>
  src/lib/sitemap-parser.ts and src/lib/robots-parser.ts. The tokenizer is the package \<open>sax\<close> and
  the decompressor node:zlib; both are arguments, as the events they emit. What the source does on
  each event is the model: the XML handlers as a step on the parser state, the gunzip handlers as
  a fold over the chunks.
\<close>

subsection \<open>decompressGzipLimited\<close>

datatype sitemap_parse_failure_reason =
    Xml_Error | Dtd_Rejected | Unknown_Root | Limit_Exceeded | Decompress_Failed | Decompress_Too_Large

text \<open>
  Gunzip emits chunks of output and then \<open>end\<close> or \<open>error\<close>. The first event that settles the
  promise decides; the chunk that passes the limit is not kept.
\<close>

datatype gunzip_end = Gunzip_End | Gunzip_Error

fun gunzip_events :: "nat \<Rightarrow> string list \<Rightarrow> gunzip_end \<Rightarrow> string \<Rightarrow> sitemap_parse_failure_reason + string" where
  "gunzip_events maxBytes [] Gunzip_End acc = Inr acc"
| "gunzip_events maxBytes [] Gunzip_Error acc = Inl Decompress_Failed"
| "gunzip_events maxBytes (chunk # chunks) fin acc =
     (if length acc + length chunk > maxBytes then Inl Decompress_Too_Large
      else gunzip_events maxBytes chunks fin (acc @ chunk))"

definition decompressGzipLimited ::
  "(string \<Rightarrow> string list \<times> gunzip_end) \<Rightarrow> string \<Rightarrow> nat \<Rightarrow> sitemap_parse_failure_reason + string" where
  "decompressGzipLimited inflate input maxBytes =
     (let (chunks, fin) = inflate input in gunzip_events maxBytes chunks fin [])"

lemma gunzip_events_Inr:
  "gunzip_events m chunks fin acc = Inr out \<Longrightarrow> length acc \<le> m \<Longrightarrow>
     length out \<le> m \<and> fin = Gunzip_End \<and> out = acc @ concat chunks"
  by (induction m chunks fin acc rule: gunzip_events.induct) (auto split: if_splits)

lemma gunzip_events_too_large:
  "length acc \<le> m \<Longrightarrow> length acc + length (concat chunks) > m \<Longrightarrow> gunzip_events m chunks fin acc = Inl Decompress_Too_Large"
  by (induction m chunks fin acc rule: gunzip_events.induct) auto

text \<open>A bomb is refused, whatever comes after the limit; everything else is the whole output.\<close>

lemma decompress_limited:
  assumes "inflate input = (chunks, fin)"
  shows "decompressGzipLimited inflate input m =
    (if length (concat chunks) > m then Inl Decompress_Too_Large
     else if fin = Gunzip_End then Inr (concat chunks) else Inl Decompress_Failed)"
proof -
  have "gunzip_events m chunks fin acc = (if fin = Gunzip_End then Inr (acc @ concat chunks) else Inl Decompress_Failed)"
    if "length acc + length (concat chunks) \<le> m" for acc
    using that by (induction m chunks fin acc rule: gunzip_events.induct) auto
  then show ?thesis
    using gunzip_events_too_large [of "[]" m chunks fin] assms by (simp add: decompressGzipLimited_def)
qed

subsection \<open>parseSitemapXml\<close>

datatype sax_event = Sax_Doctype | Sax_Open string | Sax_Text string | Sax_Close string | Sax_Error

datatype document_kind = Urlset | Sitemapindex

record raw_sitemap_url =
  rsLoc :: string
  rsLastmod :: "string option"
  rsPriority :: "string option"
  rsChangefreq :: "string option"

record parsed_sitemap =
  psKind :: document_kind
  psUrls :: "raw_sitemap_url list"
  psTruncated :: bool

text \<open>\<open>Partial<ParsedSitemapUrl>\<close>\<close>

record partial_entry =
  peLoc :: "string option"
  peLastmod :: "string option"
  pePriority :: "string option"
  peChangefreq :: "string option"

definition empty_entry :: partial_entry where
  "empty_entry = \<lparr>peLoc = None, peLastmod = None, pePriority = None, peChangefreq = None\<rparr>"

definition entry_fields :: "string list" where
  "entry_fields = [''loc'', ''lastmod'', ''priority'', ''changefreq'']"

text \<open>\<open>currentEntry[name] = value\<close>, for a name of \<open>entry_fields\<close>.\<close>

definition set_field :: "string \<Rightarrow> string \<Rightarrow> partial_entry \<Rightarrow> partial_entry" where
  "set_field name v e =
     (if name = ''loc'' then e\<lparr>peLoc := Some v\<rparr>
      else if name = ''lastmod'' then e\<lparr>peLastmod := Some v\<rparr>
      else if name = ''priority'' then e\<lparr>pePriority := Some v\<rparr>
      else e\<lparr>peChangefreq := Some v\<rparr>)"

text \<open>The variables of the parser; \<open>aborted\<close> is set exactly when \<open>parseError\<close> is.\<close>

record sax_state =
  sxKind :: "document_kind option"
  sxUrls :: "raw_sitemap_url list"
  sxTruncated :: bool
  sxCurrent :: "partial_entry option"
  sxText :: string
  sxError :: "sitemap_parse_failure_reason option"

definition sax_start :: sax_state where
  "sax_start = \<lparr>sxKind = None, sxUrls = [], sxTruncated = False, sxCurrent = None, sxText = [], sxError = None\<rparr>"

definition entry_name :: "document_kind \<Rightarrow> string" where
  "entry_name k = (case k of Urlset \<Rightarrow> ''url'' | Sitemapindex \<Rightarrow> ''sitemap'')"

definition onopentag :: "nat \<Rightarrow> string \<Rightarrow> sax_state \<Rightarrow> sax_state" where
  "onopentag maxUrls name s =
     (case sxKind s of
        None \<Rightarrow>
          (if name = ''urlset'' then s\<lparr>sxKind := Some Urlset\<rparr>
           else if name = ''sitemapindex'' then s\<lparr>sxKind := Some Sitemapindex\<rparr>
           else s\<lparr>sxError := Some Unknown_Root\<rparr>)
      | Some k \<Rightarrow>
          (if name = entry_name k then
             (if length (sxUrls s) \<ge> maxUrls then s\<lparr>sxTruncated := True\<rparr>
              else s\<lparr>sxCurrent := Some empty_entry\<rparr>)
           else if sxCurrent s \<noteq> None \<and> name \<in> set entry_fields then s\<lparr>sxText := []\<rparr>
           else s))"

definition raw_of :: "string \<Rightarrow> partial_entry \<Rightarrow> raw_sitemap_url" where
  "raw_of loc e = \<lparr>rsLoc = loc, rsLastmod = peLastmod e, rsPriority = pePriority e, rsChangefreq = peChangefreq e\<rparr>"

definition onclosetag :: "nat \<Rightarrow> string \<Rightarrow> sax_state \<Rightarrow> sax_state" where
  "onclosetag maxUrls name s =
     (case sxCurrent s of
        None \<Rightarrow> s
      | Some e \<Rightarrow>
          (if name \<in> set entry_fields then
             (let v = js_trim (sxText s)
              in s\<lparr>sxText := [], sxCurrent := Some (if v \<noteq> [] then set_field name v e else e)\<rparr>)
           else if name = ''url'' \<or> name = ''sitemap'' then
             (case peLoc e of
                Some loc \<Rightarrow>
                  (if loc \<noteq> [] \<and> length (sxUrls s) < maxUrls
                   then s\<lparr>sxUrls := sxUrls s @ [raw_of loc e], sxCurrent := None\<rparr>
                   else s\<lparr>sxCurrent := None\<rparr>)
              | None \<Rightarrow> s\<lparr>sxCurrent := None\<rparr>)
           else s))"

fun sax_step :: "nat \<Rightarrow> sax_event \<Rightarrow> sax_state \<Rightarrow> sax_state" where
  "sax_step maxUrls Sax_Doctype s = s\<lparr>sxError := Some Dtd_Rejected\<rparr>"
| "sax_step maxUrls (Sax_Open name) s = (if sxError s \<noteq> None then s else onopentag maxUrls name s)"
| "sax_step maxUrls (Sax_Text t) s = (if sxError s \<noteq> None then s else s\<lparr>sxText := sxText s @ t\<rparr>)"
| "sax_step maxUrls (Sax_Close name) s = (if sxError s \<noteq> None then s else onclosetag maxUrls name s)"
| "sax_step maxUrls Sax_Error s = (if sxError s \<noteq> None then s else s\<lparr>sxError := Some Xml_Error\<rparr>)"

text \<open>The tokenizer: the events of a document, and whether \<open>write\<close> or \<open>close\<close> threw after them.\<close>

type_synonym sax_lib = "html_text \<Rightarrow> sax_event list \<times> bool"

definition parseSitemapXml :: "sax_lib \<Rightarrow> html_text \<Rightarrow> nat \<Rightarrow> sitemap_parse_failure_reason + parsed_sitemap" where
  "parseSitemapXml sax xml maxUrls =
     (let (events, threw) = sax xml;
          s = fold (sax_step maxUrls) events sax_start
      in if threw \<and> sxError s = None then Inl Xml_Error
         else case sxError s of
           Some e \<Rightarrow> Inl e
         | None \<Rightarrow>
             (case sxKind s of
                None \<Rightarrow> Inl Unknown_Root
              | Some k \<Rightarrow> Inr \<lparr>psKind = k, psUrls = sxUrls s, psTruncated = sxTruncated s\<rparr>))"

subsection \<open>Bounds of a parse\<close>

definition sax_ok :: "nat \<Rightarrow> sax_state \<Rightarrow> bool" where
  "sax_ok m s \<longleftrightarrow> length (sxUrls s) \<le> m \<and> (\<forall>u \<in> set (sxUrls s). rsLoc u \<noteq> [])
     \<and> (sxTruncated s \<longrightarrow> length (sxUrls s) = m)"

lemma sax_step_ok: "sax_ok m s \<Longrightarrow> sax_ok m (sax_step m e s)"
  by (cases e) (auto simp: sax_ok_def onopentag_def onclosetag_def raw_of_def Let_def split: option.splits)

lemma sax_fold_ok: "sax_ok m s \<Longrightarrow> sax_ok m (fold (sax_step m) es s)"
  by (induction es arbitrary: s) (auto intro: sax_step_ok)

lemma parse_bounds:
  assumes "parseSitemapXml sax xml m = Inr p"
  shows "length (psUrls p) \<le> m \<and> (\<forall>u \<in> set (psUrls p). rsLoc u \<noteq> []) \<and> (psTruncated p \<longrightarrow> length (psUrls p) = m)"
proof -
  have "sax_ok m (fold (sax_step m) (fst (sax xml)) sax_start)"
    by (rule sax_fold_ok) (simp add: sax_ok_def sax_start_def)
  with assms show ?thesis
    by (auto simp: parseSitemapXml_def sax_ok_def Let_def split: prod.splits option.splits if_splits)
qed

text \<open>A document type declaration anywhere, and no document gets through.\<close>

lemma sax_error_stays: "sxError s \<noteq> None \<Longrightarrow> sxError (fold (sax_step m) es s) \<noteq> None"
proof (induction es arbitrary: s)
  case (Cons e es)
  have "sxError (sax_step m e s) \<noteq> None" using Cons.prems by (cases e) auto
  then show ?case using Cons.IH by simp
qed simp

lemma doctype_rejected:
  assumes "Sax_Doctype \<in> set (fst (sax xml))"
  shows "\<exists>e. parseSitemapXml sax xml m = Inl e"
proof -
  obtain es fs where "fst (sax xml) = es @ Sax_Doctype # fs" using assms by (meson split_list)
  then have "sxError (fold (sax_step m) (fst (sax xml)) sax_start) \<noteq> None"
    using sax_error_stays [of "sax_step m Sax_Doctype (fold (sax_step m) es sax_start)" m fs] by simp
  then show ?thesis by (auto simp: parseSitemapXml_def Let_def split: prod.splits)
qed

subsection \<open>What a sitemap says is what is read\<close>

text \<open>The events of a document that lists entries, one element per field that is present.\<close>

definition field_events :: "string \<Rightarrow> string option \<Rightarrow> sax_event list" where
  "field_events name v = (case v of None \<Rightarrow> [] | Some t \<Rightarrow> [Sax_Open name, Sax_Text t, Sax_Close name])"

definition entry_events :: "document_kind \<Rightarrow> raw_sitemap_url \<Rightarrow> sax_event list" where
  "entry_events k u =
     Sax_Open (entry_name k) # field_events ''loc'' (Some (rsLoc u)) @ field_events ''lastmod'' (rsLastmod u)
       @ field_events ''priority'' (rsPriority u) @ field_events ''changefreq'' (rsChangefreq u) @ [Sax_Close (entry_name k)]"

definition root_name :: "document_kind \<Rightarrow> string" where
  "root_name k = (case k of Urlset \<Rightarrow> ''urlset'' | Sitemapindex \<Rightarrow> ''sitemapindex'')"

definition document_events :: "document_kind \<Rightarrow> raw_sitemap_url list \<Rightarrow> sax_event list" where
  "document_events k us = Sax_Open (root_name k) # concat (map (entry_events k) us) @ [Sax_Close (root_name k)]"

text \<open>Values that survive trimming.\<close>

definition clean :: "string \<Rightarrow> bool" where
  "clean v \<longleftrightarrow> v \<noteq> [] \<and> js_trim v = v"

definition clean_entry :: "raw_sitemap_url \<Rightarrow> bool" where
  "clean_entry u \<longleftrightarrow> clean (rsLoc u) \<and> pred_option clean (rsLastmod u) \<and> pred_option clean (rsPriority u)
     \<and> pred_option clean (rsChangefreq u)"

definition reading_kind :: "document_kind \<Rightarrow> raw_sitemap_url list \<Rightarrow> bool \<Rightarrow> sax_state \<Rightarrow> bool" where
  "reading_kind k us t s \<longleftrightarrow> sxKind s = Some k \<and> sxUrls s = us \<and> sxTruncated s = t \<and> sxCurrent s = None \<and> sxError s = None"

lemma field_fold:
  assumes "name \<in> set entry_fields" "pred_option clean v" "sxError s = None" "sxKind s = Some k" "sxCurrent s = Some e"
  shows "\<exists>txt. fold (sax_step m) (field_events name v) s
    = s\<lparr>sxText := txt, sxCurrent := Some (case v of None \<Rightarrow> e | Some w \<Rightarrow> set_field name w e)\<rparr>"
proof (cases v)
  case None
  with assms show ?thesis by (intro exI [of _ "sxText s"]) (cases s, simp add: field_events_def)
next
  case (Some w)
  have "name \<noteq> entry_name k" using assms(1) by (cases k) (auto simp: entry_fields_def entry_name_def)
  with Some assms show ?thesis
    by (intro exI [of _ "[]"]) (simp add: field_events_def onopentag_def onclosetag_def clean_def Let_def)
qed

lemma field_ignored:
  assumes "name \<in> set entry_fields" "sxError s = None" "sxKind s = Some k" "sxCurrent s = None"
  shows "\<exists>txt. fold (sax_step m) (field_events name v) s = s\<lparr>sxText := txt\<rparr>"
proof (cases v)
  case None
  then show ?thesis by (intro exI [of _ "sxText s"]) (cases s, simp add: field_events_def)
next
  case (Some w)
  have "name \<noteq> entry_name k" using assms(1) by (cases k) (auto simp: entry_fields_def entry_name_def)
  with Some assms show ?thesis
    by (intro exI [of _ "sxText s @ w"]) (simp add: field_events_def onopentag_def onclosetag_def)
qed

lemma fields_in: "''loc'' \<in> set entry_fields" "''lastmod'' \<in> set entry_fields" "''priority'' \<in> set entry_fields"
  "''changefreq'' \<in> set entry_fields"
  by (simp_all add: entry_fields_def)

lemma entry_name_not_field: "entry_name k \<notin> set entry_fields"
  by (cases k) (auto simp: entry_fields_def entry_name_def)

lemma entry_kept:
  assumes "clean_entry u" "reading_kind k us t s" "length us < m"
  shows "reading_kind k (us @ [u]) t (fold (sax_step m) (entry_events k u) s)"
proof -
  note c = assms(1) [unfolded clean_entry_def] and r = assms(2) [unfolded reading_kind_def]
  let ?s0 = "s\<lparr>sxCurrent := Some empty_entry\<rparr>"
  have o: "sax_step m (Sax_Open (entry_name k)) s = ?s0" using r assms(3) by (simp add: onopentag_def)
  obtain t1 where f1: "fold (sax_step m) (field_events ''loc'' (Some (rsLoc u))) ?s0
      = ?s0\<lparr>sxText := t1, sxCurrent := Some (set_field ''loc'' (rsLoc u) empty_entry)\<rparr>" (is "_ = ?s1")
    using field_fold [of "''loc''" "Some (rsLoc u)" ?s0 k empty_entry m] fields_in c r by auto
  let ?e2 = "case rsLastmod u of None \<Rightarrow> set_field ''loc'' (rsLoc u) empty_entry | Some w \<Rightarrow> set_field ''lastmod'' w (set_field ''loc'' (rsLoc u) empty_entry)"
  obtain t2 where f2: "fold (sax_step m) (field_events ''lastmod'' (rsLastmod u)) ?s1 = ?s1\<lparr>sxText := t2, sxCurrent := Some ?e2\<rparr>" (is "_ = ?s2")
    using field_fold [of "''lastmod''" "rsLastmod u" ?s1 k _ m] fields_in c r by auto
  let ?e3 = "case rsPriority u of None \<Rightarrow> ?e2 | Some w \<Rightarrow> set_field ''priority'' w ?e2"
  obtain t3 where f3: "fold (sax_step m) (field_events ''priority'' (rsPriority u)) ?s2 = ?s2\<lparr>sxText := t3, sxCurrent := Some ?e3\<rparr>" (is "_ = ?s3")
    using field_fold [of "''priority''" "rsPriority u" ?s2 k ?e2 m] fields_in c r by auto
  let ?e4 = "case rsChangefreq u of None \<Rightarrow> ?e3 | Some w \<Rightarrow> set_field ''changefreq'' w ?e3"
  obtain t4 where f4: "fold (sax_step m) (field_events ''changefreq'' (rsChangefreq u)) ?s3 = ?s3\<lparr>sxText := t4, sxCurrent := Some ?e4\<rparr>" (is "_ = ?s4")
    using field_fold [of "''changefreq''" "rsChangefreq u" ?s3 k ?e3 m] fields_in c r by auto
  have e: "peLoc ?e4 = Some (rsLoc u)" "raw_of (rsLoc u) ?e4 = u"
    by (auto simp: set_field_def empty_entry_def raw_of_def split: option.splits)
  have "sax_step m (Sax_Close (entry_name k)) ?s4 = ?s4\<lparr>sxUrls := sxUrls ?s4 @ [u], sxCurrent := None\<rparr>"
    using r c e assms(3) entry_name_not_field [of k]
    by (cases k) (simp_all add: onclosetag_def entry_name_def clean_def)
  then have "fold (sax_step m) (entry_events k u) s = ?s4\<lparr>sxUrls := sxUrls ?s4 @ [u], sxCurrent := None\<rparr>"
    unfolding entry_events_def by (simp only: fold_simps fold_append comp_apply o f1 f2 f3 f4)
  with r show ?thesis by (simp add: reading_kind_def)
qed

lemma entry_dropped:
  assumes "reading_kind k us t s" "length us \<ge> m"
  shows "reading_kind k us True (fold (sax_step m) (entry_events k u) s)"
proof -
  note r = assms(1) [unfolded reading_kind_def]
  let ?s0 = "s\<lparr>sxTruncated := True\<rparr>"
  have ig: "\<exists>txt. fold (sax_step m) (field_events name v) (?s0\<lparr>sxText := t0\<rparr>) = ?s0\<lparr>sxText := txt\<rparr>"
    if "name \<in> set entry_fields" for name v t0
    using field_ignored [OF that, of "?s0\<lparr>sxText := t0\<rparr>" k m v] r by auto
  have o: "sax_step m (Sax_Open (entry_name k)) s = ?s0\<lparr>sxText := sxText s\<rparr>" using r assms(2) by (simp add: onopentag_def)
  obtain t1 where f1: "fold (sax_step m) (field_events ''loc'' (Some (rsLoc u))) (?s0\<lparr>sxText := sxText s\<rparr>) = ?s0\<lparr>sxText := t1\<rparr>"
    using ig fields_in by metis
  obtain t2 where f2: "fold (sax_step m) (field_events ''lastmod'' (rsLastmod u)) (?s0\<lparr>sxText := t1\<rparr>) = ?s0\<lparr>sxText := t2\<rparr>"
    using ig fields_in by metis
  obtain t3 where f3: "fold (sax_step m) (field_events ''priority'' (rsPriority u)) (?s0\<lparr>sxText := t2\<rparr>) = ?s0\<lparr>sxText := t3\<rparr>"
    using ig fields_in by metis
  obtain t4 where f4: "fold (sax_step m) (field_events ''changefreq'' (rsChangefreq u)) (?s0\<lparr>sxText := t3\<rparr>) = ?s0\<lparr>sxText := t4\<rparr>"
    using ig fields_in by metis
  have "sax_step m (Sax_Close (entry_name k)) (?s0\<lparr>sxText := t4\<rparr>) = ?s0\<lparr>sxText := t4\<rparr>"
    using r by (simp add: onclosetag_def)
  then have "fold (sax_step m) (entry_events k u) s = ?s0\<lparr>sxText := t4\<rparr>"
    unfolding entry_events_def by (simp only: fold_simps fold_append comp_apply o f1 f2 f3 f4)
  with r show ?thesis by (simp add: reading_kind_def)
qed

lemma entries_fold:
  assumes "list_all clean_entry us" "reading_kind k done_urls t s" "length done_urls \<le> m"
  shows "reading_kind k (take m (done_urls @ us)) (t \<or> length (done_urls @ us) > m)
    (fold (sax_step m) (concat (map (entry_events k) us)) s)"
  using assms
proof (induction us arbitrary: done_urls t s)
  case (Cons u us)
  let ?s = "fold (sax_step m) (entry_events k u) s"
  show ?case
  proof (cases "length done_urls < m")
    case True
    have "reading_kind k (done_urls @ [u]) t ?s" by (rule entry_kept) (use Cons.prems True in auto)
    from Cons.IH [OF _ this] Cons.prems True show ?thesis by simp
  next
    case False
    have "reading_kind k done_urls True ?s" by (rule entry_dropped) (use Cons.prems False in auto)
    from Cons.IH [OF _ this] Cons.prems False show ?thesis by simp
  qed
qed simp

lemma parse_document:
  assumes sax: "sax xml = (document_events k us, False)" and clean: "list_all clean_entry us"
  shows "parseSitemapXml sax xml m = Inr \<lparr>psKind = k, psUrls = take m us, psTruncated = (length us > m)\<rparr>"
proof -
  let ?s0 = "sax_start\<lparr>sxKind := Some k\<rparr>"
  have o: "sax_step m (Sax_Open (root_name k)) sax_start = ?s0"
    by (cases k) (simp_all add: onopentag_def root_name_def sax_start_def)
  have "reading_kind k [] False ?s0" by (simp add: reading_kind_def sax_start_def)
  from entries_fold [OF clean this, of m]
  have r: "reading_kind k (take m us) (length us > m) (fold (sax_step m) (concat (map (entry_events k) us)) ?s0)" by simp
  then have "sax_step m (Sax_Close (root_name k)) (fold (sax_step m) (concat (map (entry_events k) us)) ?s0)
      = fold (sax_step m) (concat (map (entry_events k) us)) ?s0"
    by (simp add: reading_kind_def onclosetag_def)
  then have "fold (sax_step m) (document_events k us) sax_start = fold (sax_step m) (concat (map (entry_events k) us)) ?s0"
    by (simp only: document_events_def fold_simps fold_append comp_apply o)
  with r show ?thesis by (simp add: parseSitemapXml_def sax reading_kind_def)
qed

text \<open>
  C24. A sitemap that lists entries is read back as these entries, in order and field by field, up
  to the limit of URLs of one document; it is reported as truncated exactly when it lists more.
\<close>

theorem sitemap_roundtrip:
  assumes "sax xml = (document_events k us, False)" "list_all clean_entry us"
  shows "parseSitemapXml sax xml m = Inr \<lparr>psKind = k, psUrls = take m us, psTruncated = (length us > m)\<rparr>"
  by (rule parse_document) (use assms in auto)

definition demo_entries :: "raw_sitemap_url list" where
  "demo_entries =
     [\<lparr>rsLoc = ''https://a.example/x'', rsLastmod = Some ''2024-01-01'', rsPriority = None, rsChangefreq = Some ''daily''\<rparr>,
      \<lparr>rsLoc = ''https://a.example/y'', rsLastmod = None, rsPriority = Some ''0.5'', rsChangefreq = None\<rparr>,
      \<lparr>rsLoc = ''https://a.example/z'', rsLastmod = None, rsPriority = None, rsChangefreq = None\<rparr>]"

lemma sitemap_roundtrip_witness:
  "list_all clean_entry demo_entries
   \<and> parseSitemapXml (\<lambda>_. (document_events Urlset demo_entries, False)) [] 2
       = Inr \<lparr>psKind = Urlset, psUrls = take 2 demo_entries, psTruncated = True\<rparr>"
proof -
  have c: "list_all clean_entry demo_entries"
    by (simp add: demo_entries_def clean_entry_def clean_def js_trim_def js_space_def char_code_def)
  show ?thesis
    using c sitemap_roundtrip [of "\<lambda>_. (document_events Urlset demo_entries, False)" "[]" Urlset demo_entries 2]
    by (simp add: demo_entries_def)
qed

text \<open>
  The comment says that parsing stops at the limit. It reads on: an error after the limit still
  loses the whole document.
\<close>

lemma error_after_the_limit:
  "parseSitemapXml (\<lambda>_. (document_events Urlset demo_entries @ [Sax_Error], True)) [] 1 = Inl Xml_Error"
  by code_simp

subsection \<open>extractSitemapDirectives\<close>

text \<open>\<open>split(/\r\n|\r|\n/)\<close>\<close>

fun js_lines :: "string \<Rightarrow> string list" where
  "js_lines [] = [[]]"
| "js_lines (c # cs) =
     (if char_code c = 13 \<and> cs \<noteq> [] \<and> char_code (hd cs) = 10 then [] # js_lines (tl cs)
      else if char_code c = 13 \<or> char_code c = 10 then [] # js_lines cs
      else (case js_lines cs of [] \<Rightarrow> [[c]] | w # ws \<Rightarrow> (c # w) # ws))"

text \<open>
  \<open>/^sitemap\s*:\s*(.+)$/i\<close> on a trimmed line, with the trimmed group: after the name and blanks
  there is a colon, and something after it.
\<close>

definition sitemap_directive :: "string \<Rightarrow> string option" where
  "sitemap_directive line =
     (if js_lower (take 7 line) \<noteq> ''sitemap'' then None
      else case dropWhile js_space (drop 7 line) of
        [] \<Rightarrow> None
      | c # rest \<Rightarrow> (if c = CHR '':'' \<and> rest \<noteq> [] then Some (js_trim rest) else None))"

definition line_directive :: "string \<Rightarrow> string option" where
  "line_directive rawLine =
     (let line = js_trim (hd (js_split (CHR 0x23) rawLine))
      in if line = [] then None
         else case sitemap_directive line of
           None \<Rightarrow> None
         | Some u \<Rightarrow> (if u \<noteq> [] then Some u else None))"

fun directives_loop :: "nat \<Rightarrow> string list \<Rightarrow> string list \<Rightarrow> string list" where
  "directives_loop maxEntries [] urls = urls"
| "directives_loop maxEntries (l # ls) urls =
     (if length urls \<ge> maxEntries then urls
      else case line_directive l of
        None \<Rightarrow> directives_loop maxEntries ls urls
      | Some u \<Rightarrow> directives_loop maxEntries ls (urls @ [u]))"

definition extractSitemapDirectives :: "string \<Rightarrow> nat \<Rightarrow> string list" where
  "extractSitemapDirectives robotsBody maxEntries = directives_loop maxEntries (js_lines robotsBody) []"

lemma directives_loop_take:
  "length urls \<le> m \<Longrightarrow> directives_loop m ls urls = take m (urls @ List.map_filter line_directive ls)"
proof (induction ls arbitrary: urls)
  case (Cons l ls)
  show ?case
  proof (cases "length urls < m")
    case True
    with Cons.IH [of urls] Cons.IH [of "urls @ [the (line_directive l)]"] show ?thesis
      by (cases "line_directive l") (simp_all add: map_filter_simps)
  next
    case False
    with Cons.prems show ?thesis by simp
  qed
qed (simp add: map_filter_simps)

text \<open>The first directives of the file, in its order.\<close>

lemma directives_are_the_first:
  "extractSitemapDirectives body m = take m (List.map_filter line_directive (js_lines body))"
  by (simp add: extractSitemapDirectives_def directives_loop_take)

lemma directive_examples:
  "extractSitemapDirectives (''SiteMap : https://a.example/s.xml # main'' @ [char_of (13::nat), char_of (10::nat)] @ ''Disallow: /'' @ [char_of (10::nat)] @ ''sitemap:'' @ [char_of (13::nat)] @ ''sitemap:x'') 50
     = [''https://a.example/s.xml'', ''x'']"
  by code_simp

end
