(* ===== verification/SitemapFetch.thy ===== *)
theory SitemapFetch
  imports SitemapParser TenantRepository "HOL-Library.AList"
begin

section \<open>Sitemap discovery and the fetch of a sitemap tree\<close>

text \<open>
  src/services/sitemap-discovery-service.ts and src/services/sitemap-fetch-service.ts, which work
  on the network only. Every document goes through \<open>safeFetch\<close> of UrlSecurity; the network, the
  address validator, \<open>sax\<close> and the decompressor are a \<open>sitemap_net\<close>. The fetches of one
  operation are numbered, so that the same URL may answer differently when it is asked again.
  The recursion state carries, besides the two fields of the source, the requests made so far.
\<close>

subsection \<open>One request\<close>

text \<open>What comes back on the wire: an error, a timeout, or a response whose body comes in chunks.\<close>

datatype net_answer = Net_Timeout | Net_Error | Net_Response int "string list" string "string option"

definition singleRequest :: "nat \<Rightarrow> net_answer \<Rightarrow> safe_fetch_error + fetch_response" where
  "singleRequest maxBytes answer =
     (case answer of
        Net_Timeout \<Rightarrow> Inl Fetch_Timeout
      | Net_Error \<Rightarrow> Inl Fetch_Network_Error
      | Net_Response status chunks location encoding \<Rightarrow>
          (case collect_body maxBytes chunks [] of
             Inl e \<Rightarrow> Inl e
           | Inr body \<Rightarrow>
               Inr \<lparr>frStatus = status, frBody = body, frLocation = location, frContentEncoding = encoding\<rparr>))"

record sitemap_net =
  snValidate :: "nat \<Rightarrow> nat \<Rightarrow> string \<Rightarrow> url option"
  snAnswer :: "nat \<Rightarrow> nat \<Rightarrow> url \<Rightarrow> net_answer"
  snResolve :: "string \<Rightarrow> url \<Rightarrow> string option"
  snParseUrl :: "string \<Rightarrow> url option"
  snInflate :: "string \<Rightarrow> string list \<times> gunzip_end"
  snSax :: sax_lib

definition fetch_world_at :: "sitemap_net \<Rightarrow> nat \<Rightarrow> nat \<Rightarrow> fetch_world" where
  "fetch_world_at net maxBytes n =
     \<lparr>fwValidate = snValidate net n,
      fwRequest = (\<lambda>hop u. singleRequest maxBytes (snAnswer net n hop u)),
      fwResolve = snResolve net\<rparr>"

text \<open>\<open>body.toString('utf8')\<close>\<close>

definition body_bytes :: "string \<Rightarrow> byte list" where
  "body_bytes body = map (\<lambda>c. of_nat (char_code c)) body"

definition body_text :: "string \<Rightarrow> html_text" where
  "body_text body = utf8_decode (body_bytes body)"

subsection \<open>scanForSitemapCandidates\<close>

definition MAX_DISCOVERED_SOURCES :: nat where "MAX_DISCOVERED_SOURCES = 20"
definition ROBOTS_MAX_BYTES :: nat where "ROBOTS_MAX_BYTES = 512 * 1024"
definition MAX_REDIRECTS :: nat where "MAX_REDIRECTS = 2"

text \<open>The directives of a robots.txt that was fetched with status 200; every failure is ignored.\<close>

definition robots_directives :: "sitemap_net \<Rightarrow> string \<Rightarrow> string list option" where
  "robots_directives net hostname =
     (case fst (safeFetch (fetch_world_at net ROBOTS_MAX_BYTES 0) (Some hostname) MAX_REDIRECTS
                  (''https://'' @ hostname @ ''/robots.txt'')) of
        Inl _ \<Rightarrow> None
      | Inr r \<Rightarrow>
          (if frStatus r = 200
           then Some (extractSitemapDirectives (map char_of (body_text (frBody r))) MAX_DISCOVERED_SOURCES) else None))"

text \<open>\<open>candidateUrls\<close>, a Map: setting a key again keeps its place.\<close>

definition candidate_map :: "string \<Rightarrow> string list \<Rightarrow> (string \<times> sitemap_source_type) list" where
  "candidate_map hostname directives =
     AList.update (''https://'' @ hostname @ ''/sitemap_index.xml'') Source_Sitemap_Index
       (AList.update (''https://'' @ hostname @ ''/sitemap.xml'') Source_Sitemap
         (fold (\<lambda>u. AList.update u Source_Sitemap) directives []))"

fun candidates_loop ::
  "(string \<Rightarrow> url option) \<Rightarrow> string \<Rightarrow> (string \<times> sitemap_source_type) list \<Rightarrow> upsert_source_input list \<Rightarrow> upsert_source_input list" where
  "candidates_loop parse_url hostname [] cs = cs"
| "candidates_loop parse_url hostname ((rawUrl, type) # rest) cs =
     (if length cs \<ge> MAX_DISCOVERED_SOURCES then cs
      else case normalizeTargetUrl parse_url rawUrl hostname of
        Inl _ \<Rightarrow> candidates_loop parse_url hostname rest cs
      | Inr n \<Rightarrow>
          candidates_loop parse_url hostname rest
            (cs @ [\<lparr>usUrl = rawUrl, usNormalizedUrl = ntNormalizedUrl n, usType = type\<rparr>]))"

definition scanForSitemapCandidates :: "sitemap_net \<Rightarrow> domain_row \<Rightarrow> upsert_source_input list \<times> bool" where
  "scanForSitemapCandidates net d =
     (let hostname = dmNormalizedHostname d; directives = robots_directives net hostname
      in (candidates_loop (snParseUrl net) hostname
            (candidate_map hostname (case directives of None \<Rightarrow> [] | Some us \<Rightarrow> us)) [],
          directives \<noteq> None))"

definition assertDomainVerifiedForSitemap :: "domain_row option \<Rightarrow> app_error_code + domain_row" where
  "assertDomainVerifiedForSitemap domain =
     (case domain of
        None \<Rightarrow> Inl DOMAIN_NOT_FOUND
      | Some d \<Rightarrow> (if dmStatus d \<noteq> Domain_Verified then Inl DOMAIN_NOT_VERIFIED else Inr d))"

subsection \<open>fetchAndParseOne\<close>

definition maxResponseBytes :: nat where "maxResponseBytes = 20 * 1024 * 1024"
definition maxDecompressedBytes :: nat where "maxDecompressedBytes = 50 * 1024 * 1024"
definition maxUrlsPerSitemap :: nat where "maxUrlsPerSitemap = 50000"
definition maxTotalUrlsPerDomain :: nat where "maxTotalUrlsPerDomain = 200000"
definition maxIndexDepth :: nat where "maxIndexDepth = 3"
definition maxNestedSitemapsPerIndex :: nat where "maxNestedSitemapsPerIndex = 500"
definition maxSitemapRedirects :: nat where "maxSitemapRedirects = 2"

definition looksGzipped :: "string \<Rightarrow> string option \<Rightarrow> string \<Rightarrow> bool" where
  "looksGzipped body contentEncoding url \<longleftrightarrow>
     (case contentEncoding of Some e \<Rightarrow> includes_str (js_lower e) ''gzip'' | None \<Rightarrow> False)
     \<or> ends_with (js_lower url) ''.gz''
     \<or> length body > 2 \<and> char_code (body ! 0) = 0x1F \<and> char_code (body ! 1) = 0x8B"

datatype sitemap_error =
    Sitemap_Fetch safe_fetch_error
  | Sitemap_Parse sitemap_parse_failure_reason
  | Sitemap_App app_error_code

fun safe_fetch_reason :: "safe_fetch_error \<Rightarrow> string option" where
  "safe_fetch_reason Fetch_Blocked_Url = Some ''blocked_url''"
| "safe_fetch_reason Fetch_Too_Many_Redirects = Some ''too_many_redirects''"
| "safe_fetch_reason Fetch_Redirect_Host_Mismatch = Some ''redirect_host_mismatch''"
| "safe_fetch_reason Fetch_Redirect_Downgrade = Some ''redirect_downgrade''"
| "safe_fetch_reason Fetch_Too_Large = Some ''too_large''"
| "safe_fetch_reason Fetch_Timeout = Some ''timeout''"
| "safe_fetch_reason Fetch_Network_Error = Some ''network_error''"
| "safe_fetch_reason Fetch_Bad_Location = None"

fun parse_reason :: "sitemap_parse_failure_reason \<Rightarrow> string" where
  "parse_reason Xml_Error = ''xml_error''"
| "parse_reason Dtd_Rejected = ''dtd_rejected''"
| "parse_reason Unknown_Root = ''unknown_root''"
| "parse_reason Limit_Exceeded = ''limit_exceeded''"
| "parse_reason Decompress_Failed = ''decompress_failed''"
| "parse_reason Decompress_Too_Large = ''decompress_too_large''"

text \<open>The names of the codes that can occur here.\<close>

definition app_code_name :: "app_error_code \<Rightarrow> string" where
  "app_code_name c = (if c = SITEMAP_FETCH_FAILED then ''SITEMAP_FETCH_FAILED'' else ''SITEMAP_LIMIT_EXCEEDED'')"

fun errorCodeFor :: "sitemap_error \<Rightarrow> string" where
  "errorCodeFor (Sitemap_Fetch e) =
     (case safe_fetch_reason e of Some r \<Rightarrow> ''fetch_'' @ r | None \<Rightarrow> ''unknown'')"
| "errorCodeFor (Sitemap_Parse r) = ''parse_'' @ parse_reason r"
| "errorCodeFor (Sitemap_App c) = app_code_name c"

text \<open>The document, and the URLs requested for it.\<close>

definition fetchAndParseOne ::
  "sitemap_net \<Rightarrow> nat \<Rightarrow> string \<Rightarrow> string \<Rightarrow> (sitemap_error + parsed_sitemap) \<times> url list" where
  "fetchAndParseOne net n hostname url =
     (let (result, requested) = safeFetch (fetch_world_at net maxResponseBytes n) (Some hostname) maxSitemapRedirects url
      in (case result of
            Inl e \<Rightarrow> Inl (Sitemap_Fetch e)
          | Inr r \<Rightarrow>
              (if frStatus r \<noteq> 200 then Inl (Sitemap_App SITEMAP_FETCH_FAILED)
               else case (if looksGzipped (frBody r) (frContentEncoding r) url
                          then decompressGzipLimited (snInflate net) (frBody r) maxDecompressedBytes
                          else Inr (frBody r)) of
                 Inl e \<Rightarrow> Inl (Sitemap_Parse e)
               | Inr raw \<Rightarrow> map_sum Sitemap_Parse id (parseSitemapXml (snSax net) (body_text raw) maxUrlsPerSitemap)),
          requested))"

subsection \<open>buildSitemapFetchTree\<close>

record parsed_sitemap_url =
  puUrl :: string
  puNormalizedUrl :: string
  puPath :: string
  puLastmod :: "string option"
  puPriority :: "string option"
  puChangefreq :: "string option"

datatype sitemap_node_outcome = Node_Success "parsed_sitemap_url list" | Node_Failed string

datatype sitemap_fetch_node =
  Fetch_Node (node_url: string) (node_normalized_url: string) (node_outcome: sitemap_node_outcome)
    (node_children: "sitemap_fetch_node list")

text \<open>\<open>nestedCount\<close>, \<open>remainingUrlBudget\<close>, and per fetch the URLs requested.\<close>

record recursion_state =
  reNestedCount :: nat
  reRemainingUrlBudget :: nat
  reRequests :: "url list list"

text \<open>The loop over the entries of an index, \<open>visit\<close> being the recursive call on a nested sitemap.\<close>

fun index_entries ::
  "(string \<Rightarrow> url option) \<Rightarrow> string \<Rightarrow> (string \<Rightarrow> recursion_state \<Rightarrow> (sitemap_error + sitemap_fetch_node) \<times> recursion_state)
     \<Rightarrow> raw_sitemap_url list \<Rightarrow> recursion_state \<Rightarrow> sitemap_fetch_node list \<times> recursion_state" where
  "index_entries parse_url hostname visit [] st = ([], st)"
| "index_entries parse_url hostname visit (e # es) st =
     (if reNestedCount st \<ge> maxNestedSitemapsPerIndex then ([], st)
      else case normalizeTargetUrl parse_url (rsLoc e) hostname of
        Inl _ \<Rightarrow> index_entries parse_url hostname visit es st
      | Inr n \<Rightarrow>
          (let (r, st1) = visit (ntNormalizedUrl n) (st\<lparr>reNestedCount := Suc (reNestedCount st)\<rparr>);
               child = (case r of
                   Inr node \<Rightarrow> node
                 | Inl err \<Rightarrow> Fetch_Node (rsLoc e) (ntNormalizedUrl n) (Node_Failed (errorCodeFor err)) []);
               (children, st2) = index_entries parse_url hostname visit es st1
           in (child # children, st2)))"

text \<open>The loop over the pages of a \<open>urlset\<close>, with the budget that is left.\<close>

fun urlset_entries ::
  "(string \<Rightarrow> url option) \<Rightarrow> string \<Rightarrow> raw_sitemap_url list \<Rightarrow> nat \<Rightarrow> parsed_sitemap_url list \<times> nat" where
  "urlset_entries parse_url hostname [] budget = ([], budget)"
| "urlset_entries parse_url hostname (e # es) budget =
     (if budget = 0 then ([], budget)
      else case normalizeTargetUrl parse_url (rsLoc e) hostname of
        Inl _ \<Rightarrow> urlset_entries parse_url hostname es budget
      | Inr n \<Rightarrow>
          (let (urls, left) = urlset_entries parse_url hostname es (budget - 1)
           in (\<lparr>puUrl = rsLoc e, puNormalizedUrl = ntNormalizedUrl n, puPath = ntPath n, puLastmod = rsLastmod e,
                puPriority = rsPriority e, puChangefreq = rsChangefreq e\<rparr> # urls, left)))"

text \<open>The error of the top-level document is normalised, that of a nested one is not.\<close>

definition top_error :: "nat \<Rightarrow> sitemap_error \<Rightarrow> sitemap_error" where
  "top_error depth err =
     (if depth = 0 then (case err of Sitemap_App c \<Rightarrow> err | _ \<Rightarrow> Sitemap_App SITEMAP_FETCH_FAILED) else err)"

function buildSitemapFetchTree ::
  "sitemap_net \<Rightarrow> string \<Rightarrow> nat \<Rightarrow> string \<Rightarrow> recursion_state
     \<Rightarrow> (sitemap_error + sitemap_fetch_node) \<times> recursion_state" where
  "buildSitemapFetchTree net hostname depth url st =
     (if depth > maxIndexDepth then (Inl (Sitemap_App SITEMAP_LIMIT_EXCEEDED), st)
      else
        let (r, requested) = fetchAndParseOne net (length (reRequests st)) hostname url;
            st1 = st\<lparr>reRequests := reRequests st @ [requested]\<rparr>
        in case r of
          Inl err \<Rightarrow> (Inl (top_error depth err), st1)
        | Inr p \<Rightarrow>
            (if psKind p = Sitemapindex then
               (let (children, st2) = index_entries (snParseUrl net) hostname
                      (buildSitemapFetchTree net hostname (Suc depth)) (psUrls p) st1
                in (Inr (Fetch_Node url url (Node_Success []) children), st2))
             else if reRemainingUrlBudget st1 = 0 then (Inl (Sitemap_App SITEMAP_LIMIT_EXCEEDED), st1)
             else let (urls, left) = urlset_entries (snParseUrl net) hostname (psUrls p) (reRemainingUrlBudget st1)
                  in (Inr (Fetch_Node url url (Node_Success urls) []), st1\<lparr>reRemainingUrlBudget := left\<rparr>)))"
  by pat_completeness auto
termination
  by (relation "measure (\<lambda>(net, hostname, depth, url, st). Suc maxIndexDepth - depth)") auto

declare buildSitemapFetchTree.simps [simp del]

fun countDiscoveredUrls :: "sitemap_fetch_node \<Rightarrow> nat" where
  "countDiscoveredUrls (Fetch_Node u n outcome children) =
     (case outcome of Node_Success urls \<Rightarrow> length urls | Node_Failed _ \<Rightarrow> 0)
     + sum_list (map countDiscoveredUrls children)"

subsection \<open>Trees\<close>

fun all_nodes :: "sitemap_fetch_node \<Rightarrow> sitemap_fetch_node list" where
  "all_nodes (Fetch_Node u n outcome children) = Fetch_Node u n outcome children # concat (map all_nodes children)"

fun tree_levels :: "sitemap_fetch_node \<Rightarrow> nat" where
  "tree_levels (Fetch_Node u n outcome children) = Suc (fold (\<lambda>t k. max (tree_levels t) k) children 0)"

definition outcome_urls :: "sitemap_node_outcome \<Rightarrow> parsed_sitemap_url list" where
  "outcome_urls outcome = (case outcome of Node_Success urls \<Rightarrow> urls | Node_Failed _ \<Rightarrow> [])"

definition tree_urls :: "sitemap_fetch_node \<Rightarrow> parsed_sitemap_url list" where
  "tree_urls t = concat (map (\<lambda>n. outcome_urls (node_outcome n)) (all_nodes t))"

lemma tree_urls_list: "concat (map (\<lambda>n. outcome_urls (node_outcome n)) (concat (map all_nodes ts))) = concat (map tree_urls ts)"
  by (induction ts) (simp_all add: tree_urls_def)

lemma tree_urls_simp:
  "tree_urls (Fetch_Node u n outcome children) = outcome_urls outcome @ concat (map tree_urls children)"
  unfolding tree_urls_list [symmetric] by (simp add: tree_urls_def)

lemma count_is_length: "countDiscoveredUrls t = length (tree_urls t)"
proof (induction t)
  case (Fetch_Node u n outcome children)
  then have "map countDiscoveredUrls children = map (\<lambda>t. length (tree_urls t)) children" by simp
  then have "sum_list (map countDiscoveredUrls children) = (\<Sum>t\<leftarrow>children. length (tree_urls t))" by (rule arg_cong)
  then show ?case
    by (simp add: tree_urls_simp length_concat outcome_urls_def comp_def split: sitemap_node_outcome.splits)
qed

lemma levels_le: "fold (\<lambda>t k. max (tree_levels t) k) ts k \<le> m \<longleftrightarrow> k \<le> m \<and> (\<forall>t \<in> set ts. tree_levels t \<le> m)"
  by (induction ts arbitrary: k) auto

lemma normalize_target_Inr:
  "normalizeTargetUrl parse_url raw h = Inr n \<Longrightarrow> starts_with (ntNormalizedUrl n) (''https://'' @ h) \<and> length raw \<le> MAX_URL_LENGTH"
  by (auto simp: normalizeTargetUrl_def and_then_Inr_iff Let_def split: if_splits option.splits)

definition on_host :: "string \<Rightarrow> parsed_sitemap_url \<Rightarrow> bool" where
  "on_host h p \<longleftrightarrow> starts_with (puNormalizedUrl p) (''https://'' @ h)"

text \<open>A tree of at most so many levels, every document within its limit and all pages on the host.\<close>

definition tree_ok :: "string \<Rightarrow> nat \<Rightarrow> sitemap_fetch_node \<Rightarrow> bool" where
  "tree_ok h levels t \<longleftrightarrow> tree_levels t \<le> levels
     \<and> (\<forall>n \<in> set (all_nodes t). length (outcome_urls (node_outcome n)) \<le> maxUrlsPerSitemap
          \<and> list_all (on_host h) (outcome_urls (node_outcome n))
          \<and> (node_children n = [] \<or> node_outcome n = Node_Success []))"

lemma tree_ok_leaf:
  "length (outcome_urls outcome) \<le> maxUrlsPerSitemap \<Longrightarrow> list_all (on_host h) (outcome_urls outcome)
    \<Longrightarrow> tree_ok h (Suc k) (Fetch_Node u n outcome [])"
  by (simp add: tree_ok_def)

lemma tree_ok_index:
  "list_all (tree_ok h k) children \<Longrightarrow> tree_ok h (Suc k) (Fetch_Node u n (Node_Success []) children)"
  by (auto simp: tree_ok_def levels_le list_all_iff outcome_urls_def)

subsection \<open>What a fetch spends\<close>

text \<open>
  What one request made: within the redirect budget, every URL accepted by the validator, https
  and on the host.
\<close>

definition request_ok :: "sitemap_net \<Rightarrow> string \<Rightarrow> url list \<Rightarrow> bool" where
  "request_ok net h us \<longleftrightarrow> length us \<le> Suc maxSitemapRedirects
     \<and> (\<forall>u \<in> set us. (\<exists>n hop raw. snValidate net n hop raw = Some u) \<and> uProtocol u = ''https:'' \<and> (h = [] \<or> uHostname u = h))"

lemma fetch_one_requests: "request_ok net h (snd (fetchAndParseOne net n h url))"
proof -
  obtain r us where f: "safeFetch (fetch_world_at net maxResponseBytes n) (Some h) maxSitemapRedirects url = (r, us)"
    by fastforce
  have hops: "\<forall>u \<in> set us. hop_ok (fetch_world_at net maxResponseBytes n) (Some h) u" "length us \<le> Suc maxSitemapRedirects"
    using safeFetch_loop_hops [of 0 maxSitemapRedirects "fetch_world_at net maxResponseBytes n" "Some h" url r us] f
    by (simp_all add: safeFetch_def)
  have "(\<exists>n hop raw. snValidate net n hop raw = Some u) \<and> uProtocol u = ''https:'' \<and> (h = [] \<or> uHostname u = h)"
    if "u \<in> set us" for u
    using hops(1) that unfolding hop_ok_def fetch_world_at_def assertValidHop_def and_then_Inr_iff by (simp, blast)
  with hops(2) f show ?thesis by (simp add: fetchAndParseOne_def request_ok_def)
qed

definition spent :: "sitemap_net \<Rightarrow> string \<Rightarrow> nat \<Rightarrow> recursion_state \<Rightarrow> recursion_state \<Rightarrow> bool" where
  "spent net h k st st' \<longleftrightarrow> reNestedCount st \<le> reNestedCount st'
     \<and> reNestedCount st' \<le> max maxNestedSitemapsPerIndex (reNestedCount st)
     \<and> (\<exists>new. reRequests st' = reRequests st @ new \<and> length new + reNestedCount st \<le> k + reNestedCount st'
          \<and> list_all (request_ok net h) new)"

lemma spent_refl: "spent net h k st st"
  by (simp add: spent_def)

lemma spent_trans: "spent net h k s t \<Longrightarrow> spent net h m t u \<Longrightarrow> spent net h (k + m) s u"
proof -
  assume a: "spent net h k s t" and b: "spent net h m t u"
  obtain xs where x: "reRequests t = reRequests s @ xs" "length xs + reNestedCount s \<le> k + reNestedCount t"
    "list_all (request_ok net h) xs" using a by (auto simp: spent_def)
  obtain ys where y: "reRequests u = reRequests t @ ys" "length ys + reNestedCount t \<le> m + reNestedCount u"
    "list_all (request_ok net h) ys" using b by (auto simp: spent_def)
  have "reRequests u = reRequests s @ (xs @ ys)" "length (xs @ ys) + reNestedCount s \<le> (k + m) + reNestedCount u"
    "list_all (request_ok net h) (xs @ ys)" using x y by simp_all
  moreover have "reNestedCount s \<le> reNestedCount u" "reNestedCount u \<le> max maxNestedSitemapsPerIndex (reNestedCount s)"
    using a b by (auto simp: spent_def)
  ultimately show ?thesis unfolding spent_def by blast
qed

text \<open>A result, with the state it leaves: what was spent, what was found, and the shape of the tree.\<close>

definition visit_ok ::
  "sitemap_net \<Rightarrow> string \<Rightarrow> nat \<Rightarrow> recursion_state \<Rightarrow> (sitemap_error + sitemap_fetch_node) \<times> recursion_state \<Rightarrow> bool" where
  "visit_ok net h levels st x \<longleftrightarrow> spent net h 1 st (snd x)
     \<and> (case fst x of
          Inl _ \<Rightarrow> reRemainingUrlBudget (snd x) = reRemainingUrlBudget st
        | Inr t \<Rightarrow> tree_ok h levels t \<and> countDiscoveredUrls t + reRemainingUrlBudget (snd x) = reRemainingUrlBudget st
            \<and> length (all_nodes t) + reNestedCount st \<le> 1 + reNestedCount (snd x))"

lemma index_entries_ok:
  assumes visit: "\<And>u s. visit_ok net h (Suc k) s (visit u s)"
    and r: "index_entries parse_url h visit es st = (cs, st')"
  shows "spent net h 0 st st' \<and> list_all (tree_ok h (Suc k)) cs
    \<and> sum_list (map countDiscoveredUrls cs) + reRemainingUrlBudget st' = reRemainingUrlBudget st
    \<and> length (concat (map all_nodes cs)) + reNestedCount st \<le> reNestedCount st'"
  using r
proof (induction es arbitrary: st cs)
  case (Cons e es)
  show ?case
  proof (cases "reNestedCount st \<ge> maxNestedSitemapsPerIndex \<or> (\<exists>x. normalizeTargetUrl parse_url (rsLoc e) h = Inl x)")
    case True
    with Cons show ?thesis by (auto simp: spent_refl split: if_splits)
  next
    case False
    then obtain n where room: "reNestedCount st < maxNestedSitemapsPerIndex" and n: "normalizeTargetUrl parse_url (rsLoc e) h = Inr n"
      by (metis linorder_not_le sumE)
    let ?s = "st\<lparr>reNestedCount := Suc (reNestedCount st)\<rparr>"
    obtain x s1 where v: "visit (ntNormalizedUrl n) ?s = (x, s1)" by fastforce
    obtain ds s2 where i: "index_entries parse_url h visit es s1 = (ds, s2)" by fastforce
    define c where "c = (case x of Inr node \<Rightarrow> node | Inl err \<Rightarrow> Fetch_Node (rsLoc e) (ntNormalizedUrl n) (Node_Failed (errorCodeFor err)) [])"
    have res: "cs = c # ds" "st' = s2" using Cons.prems room n v i by (simp_all add: c_def Let_def split: sum.splits)
    have ok: "visit_ok net h (Suc k) ?s (x, s1)" using visit [of ?s "ntNormalizedUrl n"] v by simp
    then have "spent net h 0 st s1" using room by (auto simp: visit_ok_def spent_def)
    moreover have "tree_ok h (Suc k) c \<and> countDiscoveredUrls c + reRemainingUrlBudget s1 = reRemainingUrlBudget st
        \<and> length (all_nodes c) + reNestedCount st \<le> reNestedCount s1"
      using ok by (auto simp: visit_ok_def c_def spent_def outcome_urls_def intro!: tree_ok_leaf split: sum.splits)
    ultimately show ?thesis
      using Cons.IH [of s1 ds] i res spent_trans [of net h 0 st s1 0 s2] by auto
  qed
qed (simp add: spent_refl)

lemma urlset_entries_ok:
  "urlset_entries parse_url h es b = (us, left) \<Longrightarrow>
     length us + left = b \<and> length us \<le> length es \<and> list_all (on_host h) us"
proof (induction es arbitrary: b us left)
  case (Cons e es)
  show ?case
  proof (cases "b = 0 \<or> (\<exists>x. normalizeTargetUrl parse_url (rsLoc e) h = Inl x)")
    case True
    then show ?thesis using Cons.prems Cons.IH [of b us left] by (cases "b = 0") auto
  next
    case False
    then obtain n where n: "normalizeTargetUrl parse_url (rsLoc e) h = Inr n" by (metis sumE)
    obtain vs l where r: "urlset_entries parse_url h es (b - 1) = (vs, l)" by fastforce
    then show ?thesis using Cons.prems False n Cons.IH [OF r] normalize_target_Inr [OF n] by (auto simp: on_host_def)
  qed
qed simp

lemma fetch_one_spent:
  "spent net h 1 st (st\<lparr>reRequests := reRequests st @ [snd (fetchAndParseOne net n h url)]\<rparr>)"
  by (simp add: spent_def fetch_one_requests)

lemma parsed_urls_bound:
  "fetchAndParseOne net n h url = (Inr p, us) \<Longrightarrow> length (psUrls p) \<le> maxUrlsPerSitemap"
  unfolding fetchAndParseOne_def
  by (auto simp: map_sum_def dest!: parse_bounds split: prod.splits sum.splits if_splits)

lemma build_ok: "visit_ok net h (5 - depth) st (buildSitemapFetchTree net h depth url st)"
proof (induction net h depth url st rule: buildSitemapFetchTree.induct)
  case (1 net h depth url st)
  show ?case
  proof (cases "depth > maxIndexDepth")
    case True
    then show ?thesis by (simp add: buildSitemapFetchTree.simps [of _ _ depth] visit_ok_def spent_refl)
  next
    case False
    then have d: "5 - depth = Suc (5 - Suc depth)" "5 - Suc depth = Suc (3 - depth)" by (simp_all add: maxIndexDepth_def)
    obtain r us where f: "fetchAndParseOne net (length (reRequests st)) h url = (r, us)" by fastforce
    let ?s1 = "st\<lparr>reRequests := reRequests st @ [us]\<rparr>"
    have s1: "spent net h 1 st ?s1" using fetch_one_spent [of net h st "length (reRequests st)" url] f by simp
    show ?thesis
    proof (cases r)
      case (Inl e)
      then show ?thesis using False f s1 by (simp add: buildSitemapFetchTree.simps [of _ _ depth] visit_ok_def)
    next
      case (Inr p)
      show ?thesis
      proof (cases "psKind p = Sitemapindex")
        case True
        obtain cs s2 where i: "index_entries (snParseUrl net) h (buildSitemapFetchTree net h (Suc depth)) (psUrls p) ?s1 = (cs, s2)"
          by fastforce
        have "visit_ok net h (Suc (3 - depth)) s (buildSitemapFetchTree net h (Suc depth) u s)" for u s
          using "1.IH" [OF False f [symmetric] refl refl Inr True] d(2) by simp
        note io = index_entries_ok [OF this i]
        have "spent net h (1 + 0) st s2" using s1 io by (blast intro: spent_trans)
        then show ?thesis using False f Inr True i io d
          by (auto simp: buildSitemapFetchTree.simps [of _ _ depth] visit_ok_def intro!: tree_ok_index)
      next
        case kind: False
        obtain vs l where ue: "urlset_entries (snParseUrl net) h (psUrls p) (reRemainingUrlBudget st) = (vs, l)" by fastforce
        note uo = urlset_entries_ok [OF ue]
        have "length vs \<le> maxUrlsPerSitemap" using uo parsed_urls_bound f Inr by (metis le_trans)
        then have "tree_ok h (5 - depth) (Fetch_Node url url (Node_Success vs) [])"
          unfolding d(1) by (intro tree_ok_leaf) (simp_all add: outcome_urls_def uo)
        moreover have "spent net h 1 st (?s1\<lparr>reRemainingUrlBudget := l\<rparr>)" using s1 by (simp add: spent_def)
        ultimately show ?thesis using False f Inr kind ue uo s1
          by (cases "reRemainingUrlBudget st = 0")
            (simp_all add: buildSitemapFetchTree.simps [of _ _ depth] visit_ok_def Let_def outcome_urls_def)
      qed
    qed
  qed
qed

definition top_state :: "nat \<Rightarrow> recursion_state" where
  "top_state budget = \<lparr>reNestedCount = 0, reRemainingUrlBudget = budget, reRequests = []\<rparr>"

text \<open>A top-level failure has one of two codes: the reason of the fetch or parse error is dropped.\<close>

lemma top_level_errors:
  assumes "buildSitemapFetchTree net h 0 url st = (Inl e, st')"
  shows "e = Sitemap_App SITEMAP_FETCH_FAILED \<or> e = Sitemap_App SITEMAP_LIMIT_EXCEEDED"
proof -
  obtain r us where f: "fetchAndParseOne net (length (reRequests st)) h url = (r, us)" by fastforce
  have app: "c = SITEMAP_FETCH_FAILED" if "r = Inl (Sitemap_App c)" for c
    using f that by (auto simp: fetchAndParseOne_def map_sum_def split: prod.splits sum.splits if_splits)
  then have "top_error 0 err = Sitemap_App SITEMAP_FETCH_FAILED" if "r = Inl err" for err
    using that by (cases err) (simp_all add: top_error_def)
  then show ?thesis
    using assms f by (auto simp: buildSitemapFetchTree.simps [of _ _ 0] Let_def split: prod.splits sum.splits if_splits)
qed


subsection \<open>A small site\<close>

definition demo_site_url :: "string \<Rightarrow> url option" where
  "demo_site_url raw =
     (if starts_with raw ''https://a.example/''
      then Some \<lparr>uProtocol = ''https:'', uUsername = [], uPassword = [], uHostname = ''a.example'', uPort = [],
                 uPathname = drop 17 raw, uSearch = [], uHash = []\<rparr> else None)"

definition demo_page :: "string \<Rightarrow> raw_sitemap_url" where
  "demo_page loc = \<lparr>rsLoc = loc, rsLastmod = None, rsPriority = None, rsChangefreq = None\<rparr>"

text \<open>An index of two sitemaps, the second of which is broken.\<close>

definition demo_sitemap_net :: sitemap_net where
  "demo_sitemap_net =
     \<lparr>snValidate = (\<lambda>_ _. demo_site_url),
      snAnswer = (\<lambda>_ _ u. Net_Response 200 [uPathname u] [] None),
      snResolve = (\<lambda>_ _. None),
      snParseUrl = demo_site_url,
      snInflate = (\<lambda>s. ([s], Gunzip_End)),
      snSax = (\<lambda>xml.
        if xml = map char_code ''/i'' then (document_events Sitemapindex [demo_page ''https://a.example/s'', demo_page ''https://a.example/t''], False)
        else if xml = map char_code ''/s'' then (document_events Urlset [demo_page ''https://a.example/p'', demo_page ''https://b.example/q''], False)
        else ([Sax_Error], True))\<rparr>"

definition demo_tree :: sitemap_fetch_node where
  "demo_tree =
     Fetch_Node ''https://a.example/i'' ''https://a.example/i'' (Node_Success [])
       [Fetch_Node ''https://a.example/s'' ''https://a.example/s''
          (Node_Success [\<lparr>puUrl = ''https://a.example/p'', puNormalizedUrl = ''https://a.example/p'', puPath = ''/p'',
                          puLastmod = None, puPriority = None, puChangefreq = None\<rparr>]) [],
        Fetch_Node ''https://a.example/t'' ''https://a.example/t'' (Node_Failed ''parse_xml_error'') []]"

lemma body_text_ascii: "list_all (\<lambda>c. char_code c < 128) s \<Longrightarrow> body_text s = map char_code s"
  by (induction s) (simp_all add: body_text_def body_bytes_def unat_of_nat)

definition demo_document_url :: "char \<Rightarrow> url" where
  "demo_document_url c =
     \<lparr>uProtocol = ''https:'', uUsername = [], uPassword = [], uHostname = ''a.example'', uPort = [],
      uPathname = [CHR ''/'', c], uSearch = [], uHash = []\<rparr>"

lemma demo_document:
  assumes v: "demo_site_url url = Some (demo_document_url c)" and g: "\<not> looksGzipped [CHR ''/'', c] None url"
    and c: "char_code c < 128"
  shows "fetchAndParseOne demo_sitemap_net n ''a.example'' url
    = (map_sum Sitemap_Parse id (parseSitemapXml (snSax demo_sitemap_net) (map char_code [CHR ''/'', c]) maxUrlsPerSitemap),
       [demo_document_url c])"
proof -
  have f: "safeFetch (fetch_world_at demo_sitemap_net maxResponseBytes n) (Some ''a.example'') maxSitemapRedirects url
      = (Inr \<lparr>frStatus = 200, frBody = [CHR ''/'', c], frLocation = [], frContentEncoding = None\<rparr>, [demo_document_url c])"
    using v by (simp add: safeFetch_def safeFetch_loop.simps [of _ _ _ 0] fetch_world_at_def demo_sitemap_net_def assertValidHop_def
        demo_document_url_def singleRequest_def maxResponseBytes_def is_redirect_def)
  have "body_text [CHR ''/'', c] = map char_code [CHR ''/'', c]"
    by (rule body_text_ascii) (use c in \<open>simp add: char_code_def\<close>)
  with f g show ?thesis by (simp add: fetchAndParseOne_def)
qed

lemma demo_documents:
  "fetchAndParseOne demo_sitemap_net n ''a.example'' ''https://a.example/i''
     = (Inr \<lparr>psKind = Sitemapindex, psUrls = [demo_page ''https://a.example/s'', demo_page ''https://a.example/t''], psTruncated = False\<rparr>,
        [demo_document_url (CHR ''i'')])"
  "fetchAndParseOne demo_sitemap_net n ''a.example'' ''https://a.example/s''
     = (Inr \<lparr>psKind = Urlset, psUrls = [demo_page ''https://a.example/p'', demo_page ''https://b.example/q''], psTruncated = False\<rparr>,
        [demo_document_url (CHR ''s'')])"
  "fetchAndParseOne demo_sitemap_net n ''a.example'' ''https://a.example/t''
     = (Inl (Sitemap_Parse Xml_Error), [demo_document_url (CHR ''t'')])"
proof -
  have u: "demo_site_url ''https://a.example/i'' = Some (demo_document_url (CHR ''i''))"
    "demo_site_url ''https://a.example/s'' = Some (demo_document_url (CHR ''s''))"
    "demo_site_url ''https://a.example/t'' = Some (demo_document_url (CHR ''t''))"
    by (simp_all add: demo_site_url_def demo_document_url_def)
  have g: "\<not> looksGzipped ''/i'' None ''https://a.example/i''" "\<not> looksGzipped ''/s'' None ''https://a.example/s''"
    "\<not> looksGzipped ''/t'' None ''https://a.example/t''"
    by code_simp+
  have c: "list_all clean_entry [demo_page ''https://a.example/s'', demo_page ''https://a.example/t'']"
    "list_all clean_entry [demo_page ''https://a.example/p'', demo_page ''https://b.example/q'']"
    by (simp_all add: demo_page_def clean_entry_def clean_def js_trim_def js_space_def char_code_def)
  have x: "snSax demo_sitemap_net (map char_code ''/i'') = (document_events Sitemapindex [demo_page ''https://a.example/s'', demo_page ''https://a.example/t''], False)"
    "snSax demo_sitemap_net (map char_code ''/s'') = (document_events Urlset [demo_page ''https://a.example/p'', demo_page ''https://b.example/q''], False)"
    "snSax demo_sitemap_net (map char_code ''/t'') = ([Sax_Error], True)"
    by (simp_all add: demo_sitemap_net_def char_code_def)
  have p: "parseSitemapXml (snSax demo_sitemap_net) (map char_code ''/i'') maxUrlsPerSitemap
      = Inr \<lparr>psKind = Sitemapindex, psUrls = [demo_page ''https://a.example/s'', demo_page ''https://a.example/t''], psTruncated = False\<rparr>"
    "parseSitemapXml (snSax demo_sitemap_net) (map char_code ''/s'') maxUrlsPerSitemap
      = Inr \<lparr>psKind = Urlset, psUrls = [demo_page ''https://a.example/p'', demo_page ''https://b.example/q''], psTruncated = False\<rparr>"
    "parseSitemapXml (snSax demo_sitemap_net) (map char_code ''/t'') maxUrlsPerSitemap = Inl Xml_Error"
    using parse_document [of "snSax demo_sitemap_net", OF x(1) c(1)] parse_document [of "snSax demo_sitemap_net", OF x(2) c(2)]
    by (simp_all add: maxUrlsPerSitemap_def) (simp add: parseSitemapXml_def x(3) [simplified] sax_start_def)
  show "fetchAndParseOne demo_sitemap_net n ''a.example'' ''https://a.example/i''
     = (Inr \<lparr>psKind = Sitemapindex, psUrls = [demo_page ''https://a.example/s'', demo_page ''https://a.example/t''], psTruncated = False\<rparr>,
        [demo_document_url (CHR ''i'')])"
    using demo_document [OF u(1) g(1), of n, unfolded p(1)] by (simp add: char_code_def)
  show "fetchAndParseOne demo_sitemap_net n ''a.example'' ''https://a.example/s''
     = (Inr \<lparr>psKind = Urlset, psUrls = [demo_page ''https://a.example/p'', demo_page ''https://b.example/q''], psTruncated = False\<rparr>,
        [demo_document_url (CHR ''s'')])"
    using demo_document [OF u(2) g(2), of n, unfolded p(2)] by (simp add: char_code_def)
  show "fetchAndParseOne demo_sitemap_net n ''a.example'' ''https://a.example/t'' = (Inl (Sitemap_Parse Xml_Error), [demo_document_url (CHR ''t'')])"
    using demo_document [OF u(3) g(3), of n, unfolded p(3)] by (simp add: char_code_def)
qed

lemma demo_targets:
  "normalizeTargetUrl demo_site_url ''https://a.example/s'' ''a.example''
     = Inr \<lparr>ntNormalizedUrl = ''https://a.example/s'', ntHostname = ''a.example'', ntPath = ''/s''\<rparr>"
  "normalizeTargetUrl demo_site_url ''https://a.example/t'' ''a.example''
     = Inr \<lparr>ntNormalizedUrl = ''https://a.example/t'', ntHostname = ''a.example'', ntPath = ''/t''\<rparr>"
  "normalizeTargetUrl demo_site_url ''https://a.example/p'' ''a.example''
     = Inr \<lparr>ntNormalizedUrl = ''https://a.example/p'', ntHostname = ''a.example'', ntPath = ''/p''\<rparr>"
  "normalizeTargetUrl demo_site_url ''https://b.example/q'' ''a.example'' = Inl Invalid_Url"
  by (simp_all add: normalizeTargetUrl_def demo_site_url_def MAX_URL_LENGTH_def MAX_PATH_LENGTH_def MAX_QUERY_LENGTH_def
      normalizeHostname_def strip_trailing_dots_def js_lower_def js_lower_char_def char_code_def)

lemma demo_parse_url: "snParseUrl demo_sitemap_net = demo_site_url"
  by (simp add: demo_sitemap_net_def)

lemma demo_fetch:
  assumes "b > 0"
  shows "fst (buildSitemapFetchTree demo_sitemap_net ''a.example'' 0 ''https://a.example/i'' (top_state b)) = Inr demo_tree"
proof -
  have s: "buildSitemapFetchTree demo_sitemap_net ''a.example'' (Suc 0) ''https://a.example/s'' st
      = (Inr (Fetch_Node ''https://a.example/s'' ''https://a.example/s''
          (Node_Success [\<lparr>puUrl = ''https://a.example/p'', puNormalizedUrl = ''https://a.example/p'', puPath = ''/p'',
                          puLastmod = None, puPriority = None, puChangefreq = None\<rparr>]) []),
         st\<lparr>reRemainingUrlBudget := reRemainingUrlBudget st - 1, reRequests := reRequests st @ [[demo_document_url (CHR ''s'')]]\<rparr>)"
    if "reRemainingUrlBudget st > 0" for st
    using that
    by (simp add: buildSitemapFetchTree.simps [of _ _ "Suc 0"] maxIndexDepth_def demo_documents demo_parse_url demo_page_def demo_targets)
  have t: "buildSitemapFetchTree demo_sitemap_net ''a.example'' (Suc 0) ''https://a.example/t'' st
      = (Inl (Sitemap_Parse Xml_Error), st\<lparr>reRequests := reRequests st @ [[demo_document_url (CHR ''t'')]]\<rparr>)" for st
    by (simp add: buildSitemapFetchTree.simps [of _ _ "Suc 0"] maxIndexDepth_def demo_documents top_error_def)
  show ?thesis
    using assms
    by (simp add: buildSitemapFetchTree.simps [of _ _ 0] maxIndexDepth_def demo_documents demo_parse_url demo_page_def demo_targets
        s t top_state_def maxNestedSitemapsPerIndex_def demo_tree_def)
qed


subsection \<open>Discovery\<close>

lemma candidates_loop_ok:
  assumes "length cs \<le> MAX_DISCOVERED_SOURCES" "\<And>c. c \<in> set cs \<Longrightarrow> starts_with (usNormalizedUrl c) (''https://'' @ h)"
    and "c \<in> set (candidates_loop parse_url h kvs cs)"
  shows "starts_with (usNormalizedUrl c) (''https://'' @ h)"
  using assms
proof (induction parse_url h kvs cs rule: candidates_loop.induct)
  case (2 parse_url h rawUrl type rest cs)
  show ?case
  proof (cases "length cs \<ge> MAX_DISCOVERED_SOURCES")
    case True
    with "2.prems" show ?thesis by simp
  next
    case False
    show ?thesis
    proof (cases "normalizeTargetUrl parse_url rawUrl h")
      case (Inl e)
      then show ?thesis using "2.IH"(1) [OF False Inl] "2.prems" False by simp
    next
      case (Inr n)
      show ?thesis by (rule "2.IH"(2) [OF False Inr]) (use "2.prems" False Inr normalize_target_Inr [OF Inr] in auto)
    qed
  qed
qed simp

lemma candidates_loop_length:
  "length cs \<le> MAX_DISCOVERED_SOURCES \<Longrightarrow> length (candidates_loop parse_url h kvs cs) \<le> MAX_DISCOVERED_SOURCES"
  by (induction parse_url h kvs cs rule: candidates_loop.induct) (auto split: sum.splits)

text \<open>At most 20 sources, each an https URL of the host.\<close>

lemma discovery_bounds:
  "length (fst (scanForSitemapCandidates net d)) \<le> 20
   \<and> (\<forall>c \<in> set (fst (scanForSitemapCandidates net d)). starts_with (usNormalizedUrl c) (''https://'' @ dmNormalizedHostname d))"
  using candidates_loop_length [of "[]"] candidates_loop_ok [of "[]"]
  by (auto simp: scanForSitemapCandidates_def Let_def MAX_DISCOVERED_SOURCES_def)

text \<open>Without a robots.txt the two conventional places are the candidates.\<close>

lemma discovery_defaults:
  assumes "robots_directives net (dmNormalizedHostname d) = None"
  shows "scanForSitemapCandidates net d =
    (candidates_loop (snParseUrl net) (dmNormalizedHostname d)
       [(''https://'' @ dmNormalizedHostname d @ ''/sitemap.xml'', Source_Sitemap),
        (''https://'' @ dmNormalizedHostname d @ ''/sitemap_index.xml'', Source_Sitemap_Index)] [], False)"
  using assms unfolding scanForSitemapCandidates_def candidate_map_def Let_def by simp

text \<open>A nested sitemap that cannot be fetched is a failed leaf; the index does not fail with it.\<close>

lemma index_never_fails:
  assumes "fetchAndParseOne net (length (reRequests st)) h url = (Inr p, us)" "psKind p = Sitemapindex" "depth \<le> maxIndexDepth"
  shows "\<exists>children. fst (buildSitemapFetchTree net h depth url st) = Inr (Fetch_Node url url (Node_Success []) children)"
  using assms by (simp add: buildSitemapFetchTree.simps [of _ _ depth] split: prod.splits)

end
