(* ===== verification/SitemapPersistence.thy ===== *)
theory SitemapPersistence
  imports SitemapFetch TenantAudit
begin

section \<open>Persisting what a sitemap operation has found\<close>

text \<open>
  src/repositories/postgres/sitemap-persistence-repository.ts and
  postgres-discovered-url-repository.ts: the upserts of sources and pages and the one transaction
  that commits a whole fetch tree together with its audit row. The ids that the database draws
  are a sequence, and the state of a transaction is the database with the number of ids drawn.
  Domains are never deleted by the program, so the foreign keys to them hold.
\<close>

subsection \<open>Discovered URLs\<close>

type_synonym id_source = "nat \<Rightarrow> string"

type_synonym tx_state = "tenant_db \<times> nat"

record upsert_url_input =
  uuDomainId :: string
  uuSitemapSourceId :: "string option"
  uuUrl :: string
  uuNormalizedUrl :: string
  uuPath :: string
  uuLastmod :: "string option"
  uuPriority :: "string option"
  uuChangefreq :: "string option"

definition new_url :: "time_ms \<Rightarrow> string \<Rightarrow> upsert_url_input \<Rightarrow> discovered_url_row" where
  "new_url now i input =
     \<lparr>duId = i, duDomainId = uuDomainId input, duSitemapSourceId = uuSitemapSourceId input, duUrl = uuUrl input,
      duNormalizedUrl = uuNormalizedUrl input, duPath = uuPath input, duStatus = Url_Active, duLastmod = uuLastmod input,
      duPriority = uuPriority input, duChangefreq = uuChangefreq input, duFirstDiscoveredAt = now,
      duLastDiscoveredAt = now, duUpdatedAt = now\<rparr>"

definition refresh_url :: "time_ms \<Rightarrow> upsert_url_input \<Rightarrow> discovered_url_row \<Rightarrow> discovered_url_row" where
  "refresh_url now input r =
     r\<lparr>duSitemapSourceId := uuSitemapSourceId input, duLastmod := uuLastmod input, duPriority := uuPriority input,
       duChangefreq := uuChangefreq input, duLastDiscoveredAt := now, duUpdatedAt := now\<rparr>"

definition url_key :: "discovered_url_row \<Rightarrow> string \<times> string" where
  "url_key r = (duDomainId r, duNormalizedUrl r)"

text \<open>\<open>INSERT ... ON CONFLICT (domain_id, normalized_url) DO UPDATE\<close>; the id is drawn in any case.\<close>

definition upsert_url :: "time_ms \<Rightarrow> id_source \<Rightarrow> upsert_url_input \<Rightarrow> tx_state \<Rightarrow> tenant_error + tx_state" where
  "upsert_url now ids input s =
     (let db = fst s; row = new_url now (ids (snd s)) input
      in if row_at url_key (dbUrls db) (url_key row) \<noteq> None
         then Inr (db\<lparr>dbUrls := snd (update_where (\<lambda>r. url_key r = url_key row) (refresh_url now input) (dbUrls db))\<rparr>, Suc (snd s))
         else case insert_unique duId row (dbUrls db) of
           Inl e \<Rightarrow> Inl (Db e)
         | Inr t \<Rightarrow> Inr (db\<lparr>dbUrls := t\<rparr>, Suc (snd s)))"

fun upsert_urls :: "time_ms \<Rightarrow> id_source \<Rightarrow> upsert_url_input list \<Rightarrow> tx_state \<Rightarrow> tenant_error + tx_state" where
  "upsert_urls now ids [] s = Inr s"
| "upsert_urls now ids (i # is) s = and_then (upsert_url now ids i s) (upsert_urls now ids is)"

text \<open>The repository: a transaction around the loop, and the two reads.\<close>

definition upsertMany :: "time_ms \<Rightarrow> id_source \<Rightarrow> upsert_url_input list \<Rightarrow> tenant_db \<Rightarrow> (tenant_error + nat) \<times> tenant_db" where
  "upsertMany now ids inputs db =
     (if inputs = [] then (Inr 0, db)
      else case upsert_urls now ids inputs (db, 0) of
        Inl e \<Rightarrow> (Inl e, db)
      | Inr s \<Rightarrow> (Inr (length inputs), fst s))"

definition countByDomain :: "tenant_db \<Rightarrow> string \<Rightarrow> nat" where
  "countByDomain db domainId = length (filter (\<lambda>r. duDomainId r = domainId) (dbUrls db))"

definition listByDomain :: "tenant_db \<Rightarrow> string \<Rightarrow> list_options \<Rightarrow> discovered_url_row page_result" where
  "listByDomain db domainId options = page_by_id duId options (filter (\<lambda>r. duDomainId r = domainId) (dbUrls db))"

subsection \<open>persistSitemapDiscovery\<close>

fun upsert_candidates ::
  "tx_env \<Rightarrow> id_source \<Rightarrow> string \<Rightarrow> upsert_source_input list \<Rightarrow> tx_state \<Rightarrow> tenant_error + sitemap_source_row list \<times> tx_state" where
  "upsert_candidates env ids domainId [] s = Inr ([], s)"
| "upsert_candidates env ids domainId (c # cs) s =
     (case upsert_source (new_source (env\<lparr>txNewId := ids (snd s)\<rparr>) domainId c) (\<lambda>r. r\<lparr>ssUpdatedAt := txNow env\<rparr>) (fst s) of
        Inl e \<Rightarrow> Inl e
      | Inr (row, db1) \<Rightarrow>
          (case upsert_candidates env ids domainId cs (db1, Suc (snd s)) of
             Inl e \<Rightarrow> Inl e
           | Inr (rows, s2) \<Rightarrow> Inr (row # rows, s2)))"

definition persistSitemapDiscovery ::
  "tx_env \<Rightarrow> id_source \<Rightarrow> string \<Rightarrow> string \<Rightarrow> upsert_source_input list \<Rightarrow> string \<Rightarrow> string option \<Rightarrow> tenant_db
     \<Rightarrow> (tenant_error + sitemap_source_row list) \<times> tenant_db" where
  "persistSitemapDiscovery env ids organizationId domainId candidates actor requestId db =
     runAuditedTransaction (\<lambda>tx.
       if \<not> domain_in tx organizationId domainId then (Inl (App DOMAIN_NOT_FOUND), tx, None)
       else case upsert_candidates env ids domainId candidates (tx, 0) of
         Inl e \<Rightarrow> (Inl e, tx, None)
       | Inr (created, s) \<Rightarrow>
           finish_audited env (user_event organizationId actor requestId Sitemap_Discovery_Completed ''domain'' domainId)
             (Some (buildAuditMetadata [(''discoveredCount'', Meta_Number (int (length created)))])) created (fst s)) db"

subsection \<open>persistNode\<close>

definition set_source :: "string \<Rightarrow> (sitemap_source_row \<Rightarrow> sitemap_source_row) \<Rightarrow> tenant_db \<Rightarrow> tenant_db" where
  "set_source sourceId f db = db\<lparr>dbSources := snd (update_where (\<lambda>s. ssId s = sourceId) f (dbSources db))\<rparr>"

definition fetched_source :: "time_ms \<Rightarrow> nat \<Rightarrow> sitemap_source_row \<Rightarrow> sitemap_source_row" where
  "fetched_source now n s =
     s\<lparr>ssStatus := Source_Success, ssLastFetchedAt := Some now, ssLastHttpStatus := Some 200,
       ssDiscoveredUrlCount := int n, ssUpdatedAt := now\<rparr>"

definition failed_source :: "time_ms \<Rightarrow> string \<Rightarrow> sitemap_source_row \<Rightarrow> sitemap_source_row" where
  "failed_source now code s =
     s\<lparr>ssStatus := Source_Failed, ssLastFetchedAt := Some now, ssLastErrorCode := Some code, ssUpdatedAt := now\<rparr>"

definition url_input :: "string \<Rightarrow> string \<Rightarrow> parsed_sitemap_url \<Rightarrow> upsert_url_input" where
  "url_input domainId sourceId p =
     \<lparr>uuDomainId = domainId, uuSitemapSourceId = Some sourceId, uuUrl = puUrl p, uuNormalizedUrl = puNormalizedUrl p,
      uuPath = puPath p, uuLastmod = puLastmod p, uuPriority = puPriority p, uuChangefreq = puChangefreq p\<rparr>"

definition child_input :: "sitemap_fetch_node \<Rightarrow> upsert_source_input" where
  "child_input c = \<lparr>usUrl = node_url c, usNormalizedUrl = node_normalized_url c, usType = Source_Sitemap\<rparr>"

text \<open>The outcome of a node, at the source it belongs to.\<close>

definition persist_outcome ::
  "tx_env \<Rightarrow> id_source \<Rightarrow> string \<Rightarrow> string \<Rightarrow> sitemap_node_outcome \<Rightarrow> tx_state \<Rightarrow> tenant_error + tx_state" where
  "persist_outcome env ids domainId sourceId outcome s =
     (case outcome of
        Node_Success urls \<Rightarrow>
          upsert_urls (txNow env) ids (map (url_input domainId sourceId) urls)
            (set_source sourceId (fetched_source (txNow env) (length urls)) (fst s), snd s)
      | Node_Failed code \<Rightarrow> Inr (set_source sourceId (failed_source (txNow env) code) (fst s), snd s))"

fun persistNode :: "tx_env \<Rightarrow> id_source \<Rightarrow> string \<Rightarrow> string \<Rightarrow> sitemap_fetch_node \<Rightarrow> tx_state \<Rightarrow> tenant_error + tx_state"
  and persist_children :: "tx_env \<Rightarrow> id_source \<Rightarrow> string \<Rightarrow> sitemap_fetch_node list \<Rightarrow> tx_state \<Rightarrow> tenant_error + tx_state" where
  "persistNode env ids domainId sourceId (Fetch_Node u n outcome children) s =
     and_then (persist_outcome env ids domainId sourceId outcome s) (persist_children env ids domainId children)"
| "persist_children env ids domainId [] s = Inr s"
| "persist_children env ids domainId (c # cs) s =
     (case upsert_source (new_source (env\<lparr>txNewId := ids (snd s)\<rparr>) domainId (child_input c))
             (\<lambda>r. r\<lparr>ssUpdatedAt := txNow env\<rparr>) (fst s) of
        Inl e \<Rightarrow> Inl e
      | Inr (row, db1) \<Rightarrow>
          and_then (persistNode env ids domainId (ssId row) c (db1, Suc (snd s))) (persist_children env ids domainId cs))"

subsection \<open>persistSitemapFetch and persistSitemapFetchFailure\<close>

fun source_type_name :: "sitemap_source_type \<Rightarrow> string" where
  "source_type_name Source_Robots = ''robots''"
| "source_type_name Source_Sitemap = ''sitemap''"
| "source_type_name Source_Sitemap_Index = ''sitemap_index''"
| "source_type_name Source_Manual = ''manual''"

definition persistSitemapFetchFailure ::
  "tx_env \<Rightarrow> string \<Rightarrow> string \<Rightarrow> sitemap_source_type \<Rightarrow> string \<Rightarrow> string \<Rightarrow> string option \<Rightarrow> tenant_db
     \<Rightarrow> (tenant_error + unit) \<times> tenant_db" where
  "persistSitemapFetchFailure env organizationId sourceId type errorCode actor requestId db =
     runAuditedTransaction (\<lambda>tx.
       finish_audited env (user_event organizationId actor requestId Sitemap_Fetch_Failed ''sitemap_source'' sourceId)
         (Some (buildAuditMetadata [(''sitemapType'', Meta_String (source_type_name type)), (''reasonCode'', Meta_String errorCode)]))
         () (set_source sourceId (failed_source (txNow env) errorCode) tx)) db"

definition fetch_action :: "sitemap_node_outcome \<Rightarrow> audit_action" where
  "fetch_action outcome = (case outcome of Node_Success _ \<Rightarrow> Sitemap_Fetch_Completed | Node_Failed _ \<Rightarrow> Sitemap_Fetch_Failed)"

definition fetch_meta :: "sitemap_source_type \<Rightarrow> sitemap_fetch_node \<Rightarrow> (string \<times> meta_value) list" where
  "fetch_meta type tree =
     (''sitemapType'', Meta_String (source_type_name type)) #
     (case node_outcome tree of
        Node_Success _ \<Rightarrow> [(''discoveredCount'', Meta_Number (int (countDiscoveredUrls tree)))]
      | Node_Failed code \<Rightarrow> [(''reasonCode'', Meta_String code)])"

definition persistSitemapFetch ::
  "tx_env \<Rightarrow> id_source \<Rightarrow> string \<Rightarrow> string \<Rightarrow> string \<Rightarrow> sitemap_source_type \<Rightarrow> sitemap_fetch_node \<Rightarrow> string \<Rightarrow> string option \<Rightarrow> tenant_db
     \<Rightarrow> (tenant_error + nat) \<times> tenant_db" where
  "persistSitemapFetch env ids organizationId domainId sourceId type tree actor requestId db =
     runAuditedTransaction (\<lambda>tx.
       case persistNode env ids domainId sourceId tree (tx, 0) of
         Inl e \<Rightarrow> (Inl e, tx, None)
       | Inr s \<Rightarrow>
           finish_audited env
             (user_event organizationId actor requestId (fetch_action (node_outcome tree)) ''sitemap_source'' sourceId)
             (Some (buildAuditMetadata (fetch_meta type tree))) (countDiscoveredUrls tree) (fst s)) db"

subsection \<open>What a write to the sitemap tables keeps and adds\<close>

text \<open>The pages of a domain that were last seen at a time.\<close>

definition found :: "time_ms \<Rightarrow> string \<Rightarrow> tenant_db \<Rightarrow> string set" where
  "found now did db = {k. \<exists>r \<in> set (dbUrls db). url_key r = (did, k) \<and> duLastDiscoveredAt r = now}"

definition only_sitemaps :: "tenant_db \<Rightarrow> tenant_db \<Rightarrow> bool" where
  "only_sitemaps db db' \<longleftrightarrow> db' = db\<lparr>dbSources := dbSources db', dbUrls := dbUrls db'\<rparr>"

definition persisted :: "string \<Rightarrow> string \<Rightarrow> time_ms \<Rightarrow> nat \<Rightarrow> string set \<Rightarrow> tenant_db \<Rightarrow> tenant_db \<Rightarrow> bool" where
  "persisted org did now n ks db db' \<longleftrightarrow> scoped org db db' \<and> only_sitemaps db db'
     \<and> countByDomain db' did \<le> countByDomain db did + n \<and> found now did db \<union> ks \<subseteq> found now did db'"

lemma persisted_refl: "db_ok db \<Longrightarrow> persisted org did now n {} db db"
  by (simp add: persisted_def scoped_refl only_sitemaps_def)

lemma only_sitemaps_trans: "only_sitemaps a b \<Longrightarrow> only_sitemaps b c \<Longrightarrow> only_sitemaps a c"
  unfolding only_sitemaps_def by (cases a; cases b; cases c) simp

lemma persisted_trans:
  "persisted org did now n ks a b \<Longrightarrow> persisted org did now m ls b c \<Longrightarrow> persisted org did now (n + m) (ks \<union> ls) a c"
  unfolding persisted_def by (auto intro: scoped_trans only_sitemaps_trans)

lemma only_sitemaps_joins: "only_sitemaps db db' \<Longrightarrow> domain_in db' = domain_in db"
  unfolding only_sitemaps_def by (metis other_table_joins(2,4))

lemma persisted_domain: "persisted org did now n ks db db' \<Longrightarrow> domain_in db' = domain_in db"
  unfolding persisted_def using only_sitemaps_joins by blast

lemma persisted_ok: "persisted org did now n ks db db' \<Longrightarrow> db_ok db'"
  by (simp add: persisted_def scoped_def)

text \<open>A write to the sources leaves the pages alone.\<close>

lemma sources_persisted:
  "scoped org db (db\<lparr>dbSources := t\<rparr>) \<Longrightarrow> persisted org did now n {} db (db\<lparr>dbSources := t\<rparr>)"
  by (simp add: persisted_def only_sitemaps_def found_def countByDomain_def)

subsection \<open>Upserts\<close>

lemma url_key_fun: "(\<lambda>u. (duDomainId u, duNormalizedUrl u)) = url_key"
  by (simp add: url_key_def fun_eq_iff)

lemma refresh_key [simp]: "url_key (refresh_url now i r) = url_key r" "duId (refresh_url now i r) = duId r"
  "duDomainId (refresh_url now i r) = duDomainId r" "duLastDiscoveredAt (refresh_url now i r) = now"
  by (simp_all add: url_key_def refresh_url_def)

lemma new_url_key [simp]: "url_key (new_url now j i) = (uuDomainId i, uuNormalizedUrl i)" "duId (new_url now j i) = j"
  "duDomainId (new_url now j i) = uuDomainId i" "duLastDiscoveredAt (new_url now j i) = now"
  by (simp_all add: url_key_def new_url_def)

lemma count_update: "(\<And>r. duDomainId (f r) = duDomainId r) \<Longrightarrow>
    length (filter (\<lambda>r. duDomainId r = d) (snd (update_where P f t))) = length (filter (\<lambda>r. duDomainId r = d) t)"
  by (induction t) (auto simp: update_where_def)

lemma urls_ok:
  assumes "db_ok db" "unique_on duId t" "unique_on url_key t"
    and "\<And>B. B \<noteq> org \<Longrightarrow> filter (\<lambda>r. domain_in db B (duDomainId r)) t = filter (\<lambda>r. domain_in db B (duDomainId r)) (dbUrls db)"
  shows "scoped org db (db\<lparr>dbUrls := t\<rparr>)"
proof -
  have "db_ok (db\<lparr>dbUrls := t\<rparr>)" using assms(1-3) by (simp add: db_ok_def url_key_fun)
  moreover have "org_view B (db\<lparr>dbUrls := t\<rparr>) = org_view B db" if "B \<noteq> org" for B
    using assms(4) [OF that] by (rule view_urlsI)
  ultimately show ?thesis by (simp add: scoped_def)
qed

lemma upsert_url_persists:
  assumes up: "upsert_url now ids i s = Inr s'" and ok: "db_ok (fst s)" and d: "domain_in (fst s) org (uuDomainId i)"
  shows "persisted org (uuDomainId i) now 1 {uuNormalizedUrl i} (fst s) (fst s')"
proof -
  let ?db = "fst s" and ?key = "(uuDomainId i, uuNormalizedUrl i)"
  have ids: "unique_on duId (dbUrls ?db)" and keys: "unique_on url_key (dbUrls ?db)"
    using ok by (simp_all add: db_ok_def url_key_fun)
  show ?thesis
  proof (cases "row_at url_key (dbUrls ?db) ?key")
    case (Some old)
    let ?t = "snd (update_where (\<lambda>r. url_key r = ?key) (refresh_url now i) (dbUrls ?db))"
    have s': "fst s' = ?db\<lparr>dbUrls := ?t\<rparr>" using up Some by (auto simp: upsert_url_def Let_def)
    have "scoped org ?db (?db\<lparr>dbUrls := ?t\<rparr>)"
    proof (rule urls_ok [OF ok])
      show "unique_on duId ?t" "unique_on url_key ?t" using ids keys by (simp_all add: unique_on_update)
      fix B assume "B \<noteq> org"
      then show "filter (\<lambda>r. domain_in ?db B (duDomainId r)) ?t = filter (\<lambda>r. domain_in ?db B (duDomainId r)) (dbUrls ?db)"
        using domain_in_one [OF ok d] by (intro filter_update_other) (auto simp: url_key_def)
    qed
    moreover have "found now (uuDomainId i) ?db \<union> {uuNormalizedUrl i} \<subseteq> found now (uuDomainId i) (?db\<lparr>dbUrls := ?t\<rparr>)"
    proof -
      have kept: "\<exists>r' \<in> set ?t. url_key r' = url_key r \<and> (url_key r = ?key \<or> duLastDiscoveredAt r = now \<longrightarrow> duLastDiscoveredAt r' = now)"
        if "r \<in> set (dbUrls ?db)" for r
        by (rule bexI [of _ "if url_key r = ?key then refresh_url now i r else r"])
          (use that in \<open>auto simp: update_where_def\<close>)
      have "k \<in> found now (uuDomainId i) (?db\<lparr>dbUrls := ?t\<rparr>)" if k: "k \<in> found now (uuDomainId i) ?db" for k
      proof -
        obtain r where r: "r \<in> set (dbUrls ?db)" "url_key r = (uuDomainId i, k)" "duLastDiscoveredAt r = now"
          using k by (auto simp: found_def)
        from kept [OF r(1)] r(2,3) show ?thesis by (auto simp: found_def)
      qed
      moreover have "uuNormalizedUrl i \<in> found now (uuDomainId i) (?db\<lparr>dbUrls := ?t\<rparr>)"
        using kept [of old] row_at_SomeD [OF Some] by (auto simp: found_def)
      ultimately show ?thesis by blast
    qed
    ultimately show ?thesis
      unfolding s' by (simp add: persisted_def only_sitemaps_def countByDomain_def count_update)
  next
    case None
    then have fresh: "row_at duId (dbUrls ?db) (ids (snd s)) = None"
      and s': "fst s' = ?db\<lparr>dbUrls := dbUrls ?db @ [new_url now (ids (snd s)) i]\<rparr>"
      using up by (auto simp: upsert_url_def Let_def insert_unique_def split: if_splits)
    have "scoped org ?db (?db\<lparr>dbUrls := dbUrls ?db @ [new_url now (ids (snd s)) i]\<rparr>)"
      by (rule urls_ok [OF ok])
        (use ids keys fresh None domain_in_one [OF ok d] in \<open>auto intro!: unique_on_append_at\<close>)
    then show ?thesis
      unfolding s' by (auto simp: persisted_def only_sitemaps_def countByDomain_def found_def)
  qed
qed

lemma upsert_urls_persist:
  assumes "upsert_urls now ids is s = Inr s'" "db_ok (fst s)" "domain_in (fst s) org did" "list_all (\<lambda>i. uuDomainId i = did) is"
  shows "persisted org did now (length is) (uuNormalizedUrl ` set is) (fst s) (fst s')"
  using assms
proof (induction "is" arbitrary: s)
  case (Cons i "is")
  from Cons.prems(1) obtain s1 where s1: "upsert_url now ids i s = Inr s1" "upsert_urls now ids is s1 = Inr s'"
    by (auto simp: and_then_Inr_iff)
  have p: "persisted org did now 1 {uuNormalizedUrl i} (fst s) (fst s1)"
    using upsert_url_persists [OF s1(1) Cons.prems(2), of org] Cons.prems(3,4) by simp
  have "persisted org did now (length is) (uuNormalizedUrl ` set is) (fst s1) (fst s')"
    by (rule Cons.IH [OF s1(2) persisted_ok [OF p]]) (use Cons.prems persisted_domain [OF p] in auto)
  from persisted_trans [OF p this] show ?case by simp
qed (simp add: persisted_refl)

subsection \<open>Trees\<close>

text \<open>The rows with the id of a source belong to the organization.\<close>

definition owns_source :: "tenant_db \<Rightarrow> string \<Rightarrow> string \<Rightarrow> bool" where
  "owns_source db org sid \<longleftrightarrow> (\<forall>s \<in> set (dbSources db). ssId s = sid \<longrightarrow> domain_in db org (ssDomainId s))"

lemma set_source_persists:
  assumes "db_ok db" "owns_source db org sid" "\<And>s. ssId (f s) = ssId s \<and> source_key (f s) = source_key s"
  shows "persisted org did now n {} db (set_source sid f db)"
  unfolding set_source_def
  by (rule sources_persisted) (use assms in \<open>auto simp: owns_source_def intro!: source_update_scoped\<close>)

lemma outcome_persists:
  assumes "persist_outcome env ids did sid outcome s = Inr s'" "db_ok (fst s)" "domain_in (fst s) org did" "owns_source (fst s) org sid"
  shows "persisted org did (txNow env) (length (outcome_urls outcome)) (puNormalizedUrl ` set (outcome_urls outcome)) (fst s) (fst s')"
proof (cases outcome)
  case (Node_Success urls)
  let ?s1 = "set_source sid (fetched_source (txNow env) (length urls)) (fst s)"
  have p: "persisted org did (txNow env) 0 {} (fst s) ?s1"
    by (rule set_source_persists) (use assms in \<open>auto simp: fetched_source_def source_key_def\<close>)
  have "persisted org did (txNow env) (length (map (url_input did sid) urls)) (uuNormalizedUrl ` set (map (url_input did sid) urls)) ?s1 (fst s')"
    using upsert_urls_persist [of "txNow env" ids "map (url_input did sid) urls" "(?s1, snd s)" s' org did]
      assms(1,3) Node_Success persisted_ok [OF p] persisted_domain [OF p]
    by (simp add: persist_outcome_def url_input_def list_all_iff)
  from persisted_trans [OF p this] show ?thesis
    by (simp add: Node_Success outcome_urls_def image_image url_input_def)
next
  case (Node_Failed code)
  have "persisted org did (txNow env) 0 {} (fst s) (set_source sid (failed_source (txNow env) code) (fst s))"
    by (rule set_source_persists) (use assms in \<open>auto simp: failed_source_def source_key_def\<close>)
  with assms(1) Node_Failed show ?thesis by (auto simp: persist_outcome_def outcome_urls_def)
qed

text \<open>The row of an upsert, which belongs to the domain, and so does every row with its id.\<close>

lemma upsert_source_persists:
  assumes up: "upsert_source row f db = Inr (r, db')" and ok: "db_ok db" and d: "domain_in db org (ssDomainId row)"
    and f: "\<And>s. ssId (f s) = ssId s \<and> source_key (f s) = source_key s"
  shows "persisted org did now 0 {} db db' \<and> owns_source db' org (ssId r)"
proof -
  have s: "scoped org db db'" by (rule upsert_source_scoped [OF up ok d f])
  obtain t where t: "db' = db\<lparr>dbSources := t\<rparr>"
    using up by (auto simp: upsert_source_def split: option.splits sum.splits)
  have r: "r \<in> set (dbSources db') \<and> ssDomainId r = ssDomainId row"
  proof (cases "row_at source_key (dbSources db) (source_key row)")
    case None
    then show ?thesis using up by (auto simp: upsert_source_def insert_unique_def split: if_splits)
  next
    case (Some old)
    then have "r = f old" and mem: "dbSources db' = snd (update_where (\<lambda>s. source_key s = source_key row) f (dbSources db))"
      using up by (auto simp: upsert_source_def)
    moreover have "source_key (f old) = source_key row" using f row_at_SomeD [OF Some] by simp
    ultimately show ?thesis using row_at_SomeD [OF Some] by (auto simp: update_where_def source_key_def image_iff)
  qed
  have "unique_on ssId (dbSources db')" using s by (simp add: scoped_def db_ok_def)
  then have "owns_source db' org (ssId r)"
    using r d unique_onD [of ssId] t unfolding owns_source_def by (metis other_table_joins(2))
  then show ?thesis using sources_persisted s t by metis
qed

lemma new_source_simps [simp]: "ssDomainId (new_source env did c) = did"
  by (simp add: new_source_def)

lemma touch_source [simp]: "ssId (s\<lparr>ssUpdatedAt := t\<rparr>) = ssId s \<and> source_key (s\<lparr>ssUpdatedAt := t\<rparr>) = source_key s"
  by (simp add: source_key_def)

lemma tree_persists:
  "persistNode env ids did sid t s = Inr s' \<Longrightarrow> db_ok (fst s) \<Longrightarrow> domain_in (fst s) org did \<Longrightarrow> owns_source (fst s) org sid \<Longrightarrow>
     persisted org did (txNow env) (length (tree_urls t)) (puNormalizedUrl ` set (tree_urls t)) (fst s) (fst s')"
  "persist_children env ids did ts s = Inr s' \<Longrightarrow> db_ok (fst s) \<Longrightarrow> domain_in (fst s) org did \<Longrightarrow>
     persisted org did (txNow env) (length (concat (map tree_urls ts))) (puNormalizedUrl ` set (concat (map tree_urls ts))) (fst s) (fst s')"
proof (induction env ids did sid t s and env ids did ts s arbitrary: s' and s' rule: persistNode_persist_children.induct)
  case (1 env ids did sid u n outcome children s)
  then obtain s1 where s1: "persist_outcome env ids did sid outcome s = Inr s1" "persist_children env ids did children s1 = Inr s'"
    by (auto simp: and_then_Inr_iff)
  note p = outcome_persists [OF s1(1) "1.prems"(2-4)]
  have "persisted org did (txNow env) (length (concat (map tree_urls children))) (puNormalizedUrl ` set (concat (map tree_urls children))) (fst s1) (fst s')"
    by (rule "1.IH" [OF s1(2) persisted_ok [OF p]]) (use "1.prems" persisted_domain [OF p] in simp)
  from persisted_trans [OF p this] show ?case by (simp add: tree_urls_simp image_Un)
next
  case (2 env ids did s)
  then show ?case by (simp add: persisted_refl)
next
  case (3 env ids did c cs s)
  obtain row db1 where u: "upsert_source (new_source (env\<lparr>txNewId := ids (snd s)\<rparr>) did (child_input c)) (\<lambda>r. r\<lparr>ssUpdatedAt := txNow env\<rparr>) (fst s)
      = Inr (row, db1)"
    using "3.prems"(1) by (auto split: sum.splits)
  obtain s2 where s2: "persistNode env ids did (ssId row) c (db1, Suc (snd s)) = Inr s2" "persist_children env ids did cs s2 = Inr s'"
    using "3.prems"(1) u by (auto simp: and_then_Inr_iff)
  have p: "persisted org did (txNow env) 0 {} (fst s) db1" and o: "owns_source db1 org (ssId row)"
    using upsert_source_persists [OF u "3.prems"(2)] "3.prems"(3) by auto
  have q: "persisted org did (txNow env) (length (tree_urls c)) (puNormalizedUrl ` set (tree_urls c)) db1 (fst s2)"
    using "3.IH"(1) [OF u refl s2(1)] "3.prems"(3) persisted_ok [OF p] persisted_domain [OF p] o by simp
  have pq: "persisted org did (txNow env) (length (tree_urls c)) (puNormalizedUrl ` set (tree_urls c)) (fst s) (fst s2)"
    using persisted_trans [OF p q] by simp
  have "persisted org did (txNow env) (length (concat (map tree_urls cs))) (puNormalizedUrl ` set (concat (map tree_urls cs))) (fst s2) (fst s')"
    by (rule "3.IH"(2) [OF u refl s2(2)]) (use "3.prems"(3) persisted_ok [OF pq] persisted_domain [OF pq] in auto)
  from persisted_trans [OF pq this] show ?case by (simp add: image_Un)
qed

end
