(* ===== verification/ApiKeys.thy ===== *)
theory ApiKeys
  imports TenantAudit
begin

section \<open>Render API keys\<close>

text \<open>
  src/repositories/postgres/api-key-repository.ts and src/services/api-key-service.ts: keys of a
  project live in Better Auth's \<open>apikey\<close> table, with the project and the rotation links in the
  JSON metadata of the row. The hash of a key, the random secret and \<open>Date\<close> parsing are
  arguments. The last part lets creations, rotations and revocations run interleaved.
\<close>

subsection \<open>Metadata\<close>

record api_key_metadata =
  kmProjectId :: string
  kmCreatedByUserId :: string
  kmRevokedAt :: "string option"
  kmRotatedFromKeyId :: "string option"
  kmRotatedToKeyId :: "string option"

definition KEY_SECRET_BYTES :: nat where "KEY_SECRET_BYTES = 32"
definition START_CHARS_LENGTH :: nat where "START_CHARS_LENGTH = 6"

text \<open>\<open>/^[0-9a-f]{8}-[0-9a-f]{4}-[0-9a-f]{4}-[0-9a-f]{4}-[0-9a-f]{12}$/i\<close>\<close>

definition UUID_RE :: "string \<Rightarrow> bool" where
  "UUID_RE s \<longleftrightarrow>
     (let parts = js_split CHR ''-'' (js_lower s)
      in map length parts = [8, 4, 4, 4, 12] \<and> list_all (list_all is_hex) parts)"

definition auth_id_char :: "char \<Rightarrow> bool" where
  "auth_id_char c \<longleftrightarrow> is_lower c \<or> is_upper c \<or> is_digit c \<or> c = CHR ''_'' \<or> c = CHR ''-''"

definition BETTER_AUTH_ID_RE :: "string \<Rightarrow> bool" where
  "BETTER_AUTH_ID_RE s \<longleftrightarrow> list_all auth_id_char s \<and> 1 \<le> length s \<and> length s \<le> 64"

text \<open>
  An optional member of the object: absent or null is fine, otherwise it must be a string that
  satisfies the test. \<open>None\<close> is the rejection.
\<close>

definition optional_member :: "(string \<Rightarrow> bool) \<Rightarrow> json option \<Rightarrow> string option option" where
  "optional_member P j =
     (case j of None \<Rightarrow> Some None | Some Json_Null \<Rightarrow> Some None
      | Some (Json_String s) \<Rightarrow> (if P s then Some (Some s) else None) | Some _ \<Rightarrow> None)"

definition validateApiKeyMetadataObject :: "cursor_codec \<Rightarrow> json \<Rightarrow> api_key_metadata option" where
  "validateApiKeyMetadataObject cd parsed =
     (case parsed of
        Json_Object obj \<Rightarrow>
          (case map_of obj ''projectId'' of
             Some (Json_String pid) \<Rightarrow>
               (if \<not> UUID_RE pid then None
                else case (case map_of obj ''createdByUserId'' of None \<Rightarrow> Some []
                           | Some (Json_String u) \<Rightarrow> (if BETTER_AUTH_ID_RE u then Some u else None) | Some _ \<Rightarrow> None) of
                  None \<Rightarrow> None
                | Some creator \<Rightarrow>
                    (case optional_member (\<lambda>s. dateOf cd s \<noteq> None) (map_of obj ''revokedAt'') of
                       None \<Rightarrow> None
                     | Some revoked \<Rightarrow>
                         (case optional_member UUID_RE (map_of obj ''rotatedFromKeyId'') of
                            None \<Rightarrow> None
                          | Some rf \<Rightarrow>
                              (case optional_member UUID_RE (map_of obj ''rotatedToKeyId'') of
                                 None \<Rightarrow> None
                               | Some rt \<Rightarrow>
                                   Some \<lparr>kmProjectId = pid, kmCreatedByUserId = creator, kmRevokedAt = revoked,
                                         kmRotatedFromKeyId = rf, kmRotatedToKeyId = rt\<rparr>))))
           | _ \<Rightarrow> None)
      | _ \<Rightarrow> None)"

text \<open>The column holds a JSON value, or \<open>None\<close>: null, the empty text or no JSON at all.\<close>

definition parseAndValidateMetadata :: "cursor_codec \<Rightarrow> json option \<Rightarrow> api_key_metadata option" where
  "parseAndValidateMetadata cd raw = (case raw of None \<Rightarrow> None | Some j \<Rightarrow> validateApiKeyMetadataObject cd j)"

definition json_nullable :: "string option \<Rightarrow> json" where
  "json_nullable s = (case s of None \<Rightarrow> Json_Null | Some t \<Rightarrow> Json_String t)"

text \<open>\<open>JSON.stringify(metadata)\<close>\<close>

definition metadata_json :: "api_key_metadata \<Rightarrow> json" where
  "metadata_json m =
     Json_Object [(''projectId'', Json_String (kmProjectId m)), (''createdByUserId'', Json_String (kmCreatedByUserId m)),
       (''revokedAt'', json_nullable (kmRevokedAt m)), (''rotatedFromKeyId'', json_nullable (kmRotatedFromKeyId m)),
       (''rotatedToKeyId'', json_nullable (kmRotatedToKeyId m))]"

definition metadata_ok :: "cursor_codec \<Rightarrow> api_key_metadata \<Rightarrow> bool" where
  "metadata_ok cd m \<longleftrightarrow> UUID_RE (kmProjectId m) \<and> BETTER_AUTH_ID_RE (kmCreatedByUserId m)
     \<and> (\<forall>s. kmRevokedAt m = Some s \<longrightarrow> dateOf cd s \<noteq> None)
     \<and> (\<forall>s. kmRotatedFromKeyId m = Some s \<longrightarrow> UUID_RE s) \<and> (\<forall>s. kmRotatedToKeyId m = Some s \<longrightarrow> UUID_RE s)"

lemma optional_member_nullable:
  "(\<And>t. s = Some t \<Longrightarrow> P t) \<Longrightarrow> optional_member P (Some (json_nullable s)) = Some s"
  by (cases s) (simp_all add: optional_member_def json_nullable_def)

text \<open>What is stored is read back.\<close>

lemma metadata_roundtrip: "metadata_ok cd m \<Longrightarrow> parseAndValidateMetadata cd (Some (metadata_json m)) = Some m"
  by (simp add: parseAndValidateMetadata_def metadata_json_def validateApiKeyMetadataObject_def metadata_ok_def
      optional_member_nullable)

lemma validated_project: "validateApiKeyMetadataObject cd j = Some m \<Longrightarrow> UUID_RE (kmProjectId m)"
  by (auto simp: validateApiKeyMetadataObject_def split: json.splits option.splits if_splits)

subsection \<open>The repository\<close>

record key_row =
  krId :: string
  krName :: "string option"
  krPrefix :: "string option"
  krStart :: "string option"
  krEnabled :: bool
  krCreatedAt :: time_ms
  krExpiresAt :: "time_ms option"
  krLastRequest :: "time_ms option"
  krMetadata :: "api_key_metadata option"

definition to_key_row :: "cursor_codec \<Rightarrow> api_key_row \<Rightarrow> key_row" where
  "to_key_row cd r =
     \<lparr>krId = akId r, krName = akName r, krPrefix = akPrefix r, krStart = akStart r,
      krEnabled = case_option True id (akEnabled r), krCreatedAt = akCreatedAt r, krExpiresAt = akExpiresAt r,
      krLastRequest = akLastRequest r, krMetadata = parseAndValidateMetadata cd (akMetadata r)\<rparr>"

text \<open>What key creation draws: the transaction, the secret of \<open>randomBytes\<close>, and the hash.\<close>

record key_env =
  keTx :: tx_env
  keSecret :: string
  keHash :: "string \<Rightarrow> string"

definition generateKeyMaterial :: "key_env \<Rightarrow> string \<Rightarrow> string \<times> string \<times> string" where
  "generateKeyMaterial ke pfx =
     (let plaintext = pfx @ keSecret ke
      in (plaintext, keHash ke plaintext, take START_CHARS_LENGTH plaintext))"

definition getApiKeyForProject :: "cursor_codec \<Rightarrow> tenant_db \<Rightarrow> string \<Rightarrow> string \<Rightarrow> string \<Rightarrow> key_row option" where
  "getApiKeyForProject cd db organizationId projectId keyId =
     (case find (\<lambda>r. akId r = keyId \<and> akReferenceId r = organizationId) (dbApiKeys db) of
        None \<Rightarrow> None
      | Some row \<Rightarrow>
          (let parsed = to_key_row cd row
           in case krMetadata parsed of
                None \<Rightarrow> None
              | Some m \<Rightarrow> (if kmProjectId m \<noteq> projectId then None else Some parsed)))"

record create_key_params =
  ckOrganizationId :: string
  ckName :: string
  ckPrefix :: string
  ckExpiresAt :: time_ms
  ckRateLimitMax :: int
  ckRateLimitTimeWindowMs :: int
  ckMetadata :: api_key_metadata
  ckRequestId :: "string option"

definition new_key_row :: "key_env \<Rightarrow> create_key_params \<Rightarrow> api_key_row" where
  "new_key_row ke p =
     (case generateKeyMaterial ke (ckPrefix p) of
        (plaintext, hashed, start) \<Rightarrow>
          \<lparr>akId = txNewId (keTx ke), akName = Some (ckName p), akPrefix = Some (ckPrefix p), akStart = Some start,
           akKey = hashed, akReferenceId = ckOrganizationId p, akEnabled = Some True, akExpiresAt = Some (ckExpiresAt p),
           akCreatedAt = txNow (keTx ke), akUpdatedAt = txNow (keTx ke), akLastRequest = None,
           akRateLimitMax = ckRateLimitMax p, akRateLimitTimeWindow = ckRateLimitTimeWindowMs p,
           akMetadata = Some (metadata_json (ckMetadata p))\<rparr>)"

definition insert_key :: "api_key_row \<Rightarrow> tenant_db \<Rightarrow> tenant_error + tenant_db" where
  "insert_key row db =
     (case insert_unique akId row (dbApiKeys db) of Inl e \<Rightarrow> Inl (Db e) | Inr t \<Rightarrow> Inr (db\<lparr>dbApiKeys := t\<rparr>))"

definition key_event :: "string \<Rightarrow> string option \<Rightarrow> string option \<Rightarrow> audit_action \<Rightarrow> string \<Rightarrow> create_audit_event_input" where
  "key_event org actor request action keyId =
     \<lparr>caOrganizationId = org, caActor = \<lparr>actorUserId = actor, actorApiKeyId = None\<rparr>, caAction = action,
      caTargetType = ''api_key'', caTargetId = Some keyId, caResult = Audit_Success, caErrorCode = None,
      caRequestId = request, caMetadata = None\<rparr>"

definition text_meta :: "string option \<Rightarrow> meta_value" where
  "text_meta s = (case s of None \<Rightarrow> Meta_Undefined | Some t \<Rightarrow> Meta_String t)"

definition key_meta :: "string option \<Rightarrow> string option \<Rightarrow> (metadata_error + (string \<times> meta_value) list) option" where
  "key_meta name pfx = Some (buildAuditMetadata [(''apiKeyName'', text_meta name), (''apiKeyPrefix'', text_meta pfx)])"

definition createApiKeyForProject ::
  "cursor_codec \<Rightarrow> key_env \<Rightarrow> create_key_params \<Rightarrow> tenant_db \<Rightarrow> (tenant_error + key_row \<times> string) \<times> tenant_db" where
  "createApiKeyForProject cd ke p db =
     runAuditedTransaction (\<lambda>tx.
       let row = new_key_row ke p; creator = kmCreatedByUserId (ckMetadata p)
       in case insert_key row tx of
            Inl e \<Rightarrow> (Inl e, tx, None)
          | Inr tx1 \<Rightarrow>
              finish_audited (keTx ke)
                (key_event (ckOrganizationId p) (if creator = [] then None else Some creator) (ckRequestId p)
                  Api_Key_Created (krId (to_key_row cd row)))
                (key_meta (Some (ckName p)) (Some (ckPrefix p)))
                (to_key_row cd row, fst (generateKeyMaterial ke (ckPrefix p))) tx1) db"

definition listApiKeysForProject :: "cursor_codec \<Rightarrow> tenant_db \<Rightarrow> string \<Rightarrow> string \<Rightarrow> key_row list" where
  "listApiKeysForProject cd db organizationId projectId =
     filter (\<lambda>r. map_option kmProjectId (krMetadata r) = Some projectId)
       (map (to_key_row cd) (filter (\<lambda>r. akReferenceId r = organizationId) (dbApiKeys db)))"

definition set_enabled :: "tx_env \<Rightarrow> bool \<Rightarrow> api_key_metadata \<Rightarrow> api_key_row \<Rightarrow> api_key_row" where
  "set_enabled env enabled m r =
     r\<lparr>akEnabled := Some enabled, akMetadata := Some (metadata_json m), akUpdatedAt := txNow env\<rparr>"

definition update_keys :: "(api_key_row \<Rightarrow> bool) \<Rightarrow> (api_key_row \<Rightarrow> api_key_row) \<Rightarrow> tenant_db \<Rightarrow> tenant_db" where
  "update_keys P f db = db\<lparr>dbApiKeys := snd (update_where P f (dbApiKeys db))\<rparr>"

definition setEnabledAndMetadataForProject ::
  "cursor_codec \<Rightarrow> tx_env \<Rightarrow> string \<Rightarrow> string \<Rightarrow> string \<Rightarrow> bool \<Rightarrow> api_key_metadata \<Rightarrow> string \<Rightarrow> string option \<Rightarrow> tenant_db
     \<Rightarrow> (tenant_error + bool) \<times> tenant_db" where
  "setEnabledAndMetadataForProject cd env organizationId projectId keyId enabled m actor requestId db =
     (case getApiKeyForProject cd db organizationId projectId keyId of
        None \<Rightarrow> (Inr False, db)
      | Some existing \<Rightarrow>
          runAuditedTransaction (\<lambda>tx.
            finish_audited env (key_event organizationId (Some actor) requestId Api_Key_Revoked keyId)
              (key_meta (krName existing) (krPrefix existing)) True
              (update_keys (\<lambda>r. akId r = keyId \<and> akReferenceId r = organizationId) (set_enabled env enabled m) tx)) db)"

datatype rotate_outcome =
    Key_Rotated key_row string | Key_Not_Found | Key_Already_Revoked | Key_Already_Rotated | Key_Expired

record rotate_key_params =
  rkOrganizationId :: string
  rkProjectId :: string
  rkKeyId :: string
  rkName :: string
  rkPrefix :: string
  rkExpiresAt :: time_ms
  rkRateLimitMax :: int
  rkRateLimitTimeWindowMs :: int
  rkCreatedByUserId :: string
  rkRequestId :: "string option"

text \<open>The decision on the locked row, in the order of the early returns.\<close>

definition rotate_decision :: "tx_env \<Rightarrow> string \<Rightarrow> key_row \<Rightarrow> rotate_outcome option" where
  "rotate_decision env projectId existing =
     (case krMetadata existing of
        None \<Rightarrow> Some Key_Not_Found
      | Some m \<Rightarrow>
          (if kmProjectId m \<noteq> projectId then Some Key_Not_Found
           else if \<not> krEnabled existing \<or> truthy (kmRevokedAt m) then Some Key_Already_Revoked
           else if truthy (kmRotatedToKeyId m) then Some Key_Already_Rotated
           else case krExpiresAt existing of
                  Some t \<Rightarrow> (if t \<le> txNow env then Some Key_Expired else None)
                | None \<Rightarrow> None))"

definition successor_params :: "rotate_key_params \<Rightarrow> create_key_params" where
  "successor_params p =
     \<lparr>ckOrganizationId = rkOrganizationId p, ckName = rkName p, ckPrefix = rkPrefix p, ckExpiresAt = rkExpiresAt p,
      ckRateLimitMax = rkRateLimitMax p, ckRateLimitTimeWindowMs = rkRateLimitTimeWindowMs p,
      ckMetadata = \<lparr>kmProjectId = rkProjectId p, kmCreatedByUserId = rkCreatedByUserId p, kmRevokedAt = None,
        kmRotatedFromKeyId = Some (rkKeyId p), kmRotatedToKeyId = None\<rparr>,
      ckRequestId = rkRequestId p\<rparr>"

text \<open>The row returned for the successor is built from the parameters, not read back.\<close>

definition rotated_row :: "key_env \<Rightarrow> rotate_key_params \<Rightarrow> key_row" where
  "rotated_row ke p =
     \<lparr>krId = txNewId (keTx ke), krName = Some (rkName p), krPrefix = Some (rkPrefix p),
      krStart = Some (snd (snd (generateKeyMaterial ke (rkPrefix p)))), krEnabled = True,
      krCreatedAt = txNow (keTx ke), krExpiresAt = Some (rkExpiresAt p), krLastRequest = None,
      krMetadata = Some (ckMetadata (successor_params p))\<rparr>"

definition rotateApiKeyForProject ::
  "cursor_codec \<Rightarrow> key_env \<Rightarrow> rotate_key_params \<Rightarrow> tenant_db \<Rightarrow> (tenant_error + rotate_outcome) \<times> tenant_db" where
  "rotateApiKeyForProject cd ke p db =
     runAuditedTransaction (\<lambda>tx.
       case find (\<lambda>r. akId r = rkKeyId p \<and> akReferenceId r = rkOrganizationId p) (dbApiKeys tx) of
         None \<Rightarrow> (Inr Key_Not_Found, tx, None)
       | Some row \<Rightarrow>
           (let existing = to_key_row cd row; env = keTx ke
            in case rotate_decision env (rkProjectId p) existing of
                 Some out \<Rightarrow> (Inr out, tx, None)
               | None \<Rightarrow>
                   (case insert_key (new_key_row ke (successor_params p)) tx of
                      Inl e \<Rightarrow> (Inl e, tx, None)
                    | Inr tx1 \<Rightarrow>
                        finish_audited env
                          (key_event (rkOrganizationId p) (Some (rkCreatedByUserId p)) (rkRequestId p)
                            Api_Key_Rotated (txNewId env))
                          (key_meta (Some (rkName p)) (Some (rkPrefix p)))
                          (Key_Rotated (rotated_row ke p) (fst (generateKeyMaterial ke (rkPrefix p))))
                          (update_keys (\<lambda>r. akId r = rkKeyId p)
                            (set_enabled env False
                              ((the (krMetadata existing))
                                \<lparr>kmRevokedAt := Some (isoOf cd (txNow env)), kmRotatedToKeyId := Some (txNewId env)\<rparr>))
                            tx1)))) db"

subsection \<open>The service\<close>

definition KEY_PREFIX :: string where "KEY_PREFIX = ''pr_live_''"
definition MAX_EXPIRES_IN_DAYS :: int where "MAX_EXPIRES_IN_DAYS = 365"
definition MIN_EXPIRES_IN_DAYS :: int where "MIN_EXPIRES_IN_DAYS = 1"
definition DEFAULT_EXPIRES_IN_DAYS :: int where "DEFAULT_EXPIRES_IN_DAYS = 90"
definition MIN_NAME_LENGTH :: nat where "MIN_NAME_LENGTH = 1"
definition MAX_NAME_LENGTH :: nat where "MAX_NAME_LENGTH = 100"
definition KEY_RATE_LIMIT_MAX :: int where "KEY_RATE_LIMIT_MAX = 120"
definition KEY_RATE_LIMIT_WINDOW_MS :: int where "KEY_RATE_LIMIT_WINDOW_MS = 60 * 1000"

definition DAY_MS :: int where "DAY_MS = 24 * 60 * 60 * 1000"

datatype key_status = Key_Status_Active | Key_Status_Revoked | Key_Status_Expired

record key_summary =
  kyId :: string
  kyName :: "string option"
  kyPrefix :: "string option"
  kyStart :: "string option"
  kyStatus :: key_status
  kyCreatedAt :: time_ms
  kyExpiresAt :: "time_ms option"
  kyRevokedAt :: "time_ms option"
  kyLastUsedAt :: "time_ms option"

definition computeStatus :: "time_ms \<Rightarrow> bool \<Rightarrow> time_ms option \<Rightarrow> key_status" where
  "computeStatus now enabled expiresAt =
     (if \<not> enabled then Key_Status_Revoked
      else case expiresAt of
             Some t \<Rightarrow> (if t \<le> now then Key_Status_Expired else Key_Status_Active)
           | None \<Rightarrow> Key_Status_Active)"

definition toSummary :: "cursor_codec \<Rightarrow> time_ms \<Rightarrow> key_row \<Rightarrow> key_summary" where
  "toSummary cd now row =
     \<lparr>kyId = krId row, kyName = krName row, kyPrefix = krPrefix row, kyStart = krStart row,
      kyStatus = computeStatus now (krEnabled row) (krExpiresAt row), kyCreatedAt = krCreatedAt row,
      kyExpiresAt = krExpiresAt row,
      kyRevokedAt = (case krMetadata row of None \<Rightarrow> None
        | Some m \<Rightarrow> (if truthy (kmRevokedAt m) then dateOf cd (the (kmRevokedAt m)) else None)),
      kyLastUsedAt = krLastRequest row\<rparr>"

definition validateApiKeyName :: "string \<Rightarrow> app_error_code + string" where
  "validateApiKeyName name =
     (let trimmed = js_trim name
      in if length trimmed < MIN_NAME_LENGTH \<or> length trimmed > MAX_NAME_LENGTH then Inl INVALID_DOMAIN else Inr trimmed)"

record create_key_request =
  cqOrganizationId :: string
  cqProjectId :: string
  cqName :: string
  cqExpiresInDays :: "int option"
  cqCreatedByUserId :: string
  cqRequestId :: "string option"

definition key_params :: "time_ms \<Rightarrow> create_key_request \<Rightarrow> string \<Rightarrow> int \<Rightarrow> create_key_params" where
  "key_params now q name days =
     \<lparr>ckOrganizationId = cqOrganizationId q, ckName = name, ckPrefix = KEY_PREFIX, ckExpiresAt = now + days * DAY_MS,
      ckRateLimitMax = KEY_RATE_LIMIT_MAX, ckRateLimitTimeWindowMs = KEY_RATE_LIMIT_WINDOW_MS,
      ckMetadata = \<lparr>kmProjectId = cqProjectId q, kmCreatedByUserId = cqCreatedByUserId q, kmRevokedAt = None,
        kmRotatedFromKeyId = None, kmRotatedToKeyId = None\<rparr>,
      ckRequestId = cqRequestId q\<rparr>"

definition createKey ::
  "cursor_codec \<Rightarrow> key_env \<Rightarrow> create_key_request \<Rightarrow> tenant_db \<Rightarrow> (tenant_error + key_summary \<times> string) \<times> tenant_db" where
  "createKey cd ke q db =
     (case getProjectForOrganization db (cqOrganizationId q) (cqProjectId q) of
        None \<Rightarrow> (Inl (App PROJECT_NOT_FOUND), db)
      | Some _ \<Rightarrow>
          (case validateApiKeyName (cqName q) of
             Inl e \<Rightarrow> (Inl (App e), db)
           | Inr name \<Rightarrow>
               (let now = txNow (keTx ke); days = case_option DEFAULT_EXPIRES_IN_DAYS id (cqExpiresInDays q)
                in if days < MIN_EXPIRES_IN_DAYS \<or> days > MAX_EXPIRES_IN_DAYS then (Inl (App INVALID_DOMAIN), db)
                   else apfst (map_sum id (\<lambda>(row, plaintext). (toSummary cd now row, plaintext)))
                          (createApiKeyForProject cd ke (key_params now q name days) db))))"

definition listKeys :: "cursor_codec \<Rightarrow> time_ms \<Rightarrow> tenant_db \<Rightarrow> string \<Rightarrow> string \<Rightarrow> tenant_error + key_summary list" where
  "listKeys cd now db organizationId projectId =
     (case getProjectForOrganization db organizationId projectId of
        None \<Rightarrow> Inl (App PROJECT_NOT_FOUND)
      | Some _ \<Rightarrow> Inr (map (toSummary cd now) (listApiKeysForProject cd db organizationId projectId)))"

datatype revoke_result = Revoked | Revoke_Not_Found | Revoke_Already_Revoked

text \<open>The metadata a revocation will write, computed from the row read before.\<close>

definition revoked_metadata :: "cursor_codec \<Rightarrow> time_ms \<Rightarrow> string \<Rightarrow> key_row \<Rightarrow> api_key_metadata" where
  "revoked_metadata cd now projectId existing =
     (the (krMetadata existing))\<lparr>kmProjectId := projectId, kmRevokedAt := Some (isoOf cd now)\<rparr>"

definition revokeKey ::
  "cursor_codec \<Rightarrow> tx_env \<Rightarrow> string \<Rightarrow> string \<Rightarrow> string \<Rightarrow> string \<Rightarrow> string option \<Rightarrow> tenant_db
     \<Rightarrow> (tenant_error + revoke_result) \<times> tenant_db" where
  "revokeKey cd env organizationId projectId keyId actor requestId db =
     (case getApiKeyForProject cd db organizationId projectId keyId of
        None \<Rightarrow> (Inr Revoke_Not_Found, db)
      | Some existing \<Rightarrow>
          (if \<not> krEnabled existing then (Inr Revoke_Already_Revoked, db)
           else apfst (map_sum id (\<lambda>_. Revoked))
                  (setEnabledAndMetadataForProject cd env organizationId projectId keyId False
                    (revoked_metadata cd (txNow env) projectId existing) actor requestId db)))"

text \<open>\<open>Math.ceil\<close> of a number of milliseconds in days.\<close>

definition ceil_days :: "int \<Rightarrow> int" where
  "ceil_days ms = - ((- ms) div DAY_MS)"

definition rotation_days :: "time_ms \<Rightarrow> time_ms option \<Rightarrow> int" where
  "rotation_days now expiresAt =
     (case expiresAt of
        Some t \<Rightarrow> max MIN_EXPIRES_IN_DAYS (ceil_days (t - now))
      | None \<Rightarrow> DEFAULT_EXPIRES_IN_DAYS)"

definition rotation_params ::
  "time_ms \<Rightarrow> string \<Rightarrow> string \<Rightarrow> string \<Rightarrow> string \<Rightarrow> string option \<Rightarrow> key_row \<Rightarrow> rotate_key_params" where
  "rotation_params now organizationId projectId keyId createdBy requestId existing =
     \<lparr>rkOrganizationId = organizationId, rkProjectId = projectId, rkKeyId = keyId,
      rkName = case_option ''Rotated key'' id (krName existing), rkPrefix = KEY_PREFIX,
      rkExpiresAt = now + min (rotation_days now (krExpiresAt existing)) MAX_EXPIRES_IN_DAYS * DAY_MS,
      rkRateLimitMax = KEY_RATE_LIMIT_MAX, rkRateLimitTimeWindowMs = KEY_RATE_LIMIT_WINDOW_MS,
      rkCreatedByUserId = createdBy, rkRequestId = requestId\<rparr>"

datatype rotate_result = Rotated key_summary string | Not_Rotated rotate_outcome

definition rotate_result_of :: "cursor_codec \<Rightarrow> time_ms \<Rightarrow> rotate_outcome \<Rightarrow> rotate_result" where
  "rotate_result_of cd now out =
     (case out of Key_Rotated row plaintext \<Rightarrow> Rotated (toSummary cd now row) plaintext | _ \<Rightarrow> Not_Rotated out)"

definition rotateKey ::
  "cursor_codec \<Rightarrow> key_env \<Rightarrow> string \<Rightarrow> string \<Rightarrow> string \<Rightarrow> string \<Rightarrow> string option \<Rightarrow> tenant_db
     \<Rightarrow> (tenant_error + rotate_result) \<times> tenant_db" where
  "rotateKey cd ke organizationId projectId keyId createdBy requestId db =
     (case getApiKeyForProject cd db organizationId projectId keyId of
        None \<Rightarrow> (Inr (Not_Rotated Key_Not_Found), db)
      | Some existing \<Rightarrow>
          apfst (map_sum id (rotate_result_of cd (txNow (keTx ke))))
            (rotateApiKeyForProject cd ke
              (rotation_params (txNow (keTx ke)) organizationId projectId keyId createdBy requestId existing) db))"

subsection \<open>The writes are confined and audited\<close>

lemma insert_key_Inr:
  "insert_key row db = Inr db' \<longleftrightarrow> row_at akId (dbApiKeys db) (akId row) = None \<and> db' = db\<lparr>dbApiKeys := dbApiKeys db @ [row]\<rparr>"
  by (auto simp: insert_key_def insert_unique_def)

lemma insert_key_scoped:
  assumes "insert_key row db = Inr db'" "db_ok db" "akReferenceId row = org"
  shows "scoped org db db'"
proof -
  have db': "db' = db\<lparr>dbApiKeys := dbApiKeys db @ [row]\<rparr>" and f: "row_at akId (dbApiKeys db) (akId row) = None"
    using assms(1) by (simp_all add: insert_key_Inr)
  have "db_ok db'" using assms(2) f by (simp add: db' db_ok_def unique_on_append_at)
  moreover have "org_view B db' = org_view B db" if "B \<noteq> org" for B
    unfolding db' using that assms(3) by (intro view_keysI) simp
  ultimately show ?thesis by (simp add: scoped_def db')
qed

lemma update_keys_scoped:
  assumes "db_ok db" "\<And>r. r \<in> set (dbApiKeys db) \<Longrightarrow> P r \<Longrightarrow> akReferenceId r = org"
    and "\<And>r. akId (f r) = akId r \<and> akReferenceId (f r) = akReferenceId r"
  shows "scoped org db (update_keys P f db)"
proof -
  have "unique_on akId (snd (update_where P f (dbApiKeys db)))"
    using assms(1,3) unique_on_update [of akId f] by (simp add: db_ok_def)
  then have "db_ok (update_keys P f db)" using assms(1) by (simp add: update_keys_def db_ok_def)
  moreover have "org_view B (update_keys P f db) = org_view B db" if "B \<noteq> org" for B
    unfolding update_keys_def using that assms(2,3) by (intro view_keysI filter_update_other) auto
  ultimately show ?thesis by (simp add: scoped_def update_keys_def)
qed

lemma set_enabled_keys [simp]:
  "akId (set_enabled env b m r) = akId r" "akReferenceId (set_enabled env b m r) = akReferenceId r"
  "akEnabled (set_enabled env b m r) = Some b" "akMetadata (set_enabled env b m r) = Some (metadata_json m)"
  by (simp_all add: set_enabled_def)

lemma key_event_simps [simp]:
  "caOrganizationId (key_event org actor req a k) = org" "caAction (key_event org actor req a k) = a"
  by (simp_all add: key_event_def)

lemma new_key_row_simps [simp]:
  "akId (new_key_row ke p) = txNewId (keTx ke)" "akReferenceId (new_key_row ke p) = ckOrganizationId p"
  "akEnabled (new_key_row ke p) = Some True" "akMetadata (new_key_row ke p) = Some (metadata_json (ckMetadata p))"
  by (simp_all add: new_key_row_def split: prod.splits)

lemma getApiKey_Some:
  "getApiKeyForProject cd db org pid k = Some x \<Longrightarrow>
     \<exists>r \<in> set (dbApiKeys db). akId r = k \<and> akReferenceId r = org \<and> x = to_key_row cd r
       \<and> (\<exists>m. krMetadata x = Some m \<and> kmProjectId m = pid)"
  by (force simp: getApiKeyForProject_def Let_def find_Some_iff split: option.splits if_splits)

text \<open>The shape of an audited insert.\<close>

lemma audited_insert_scoped:
  assumes "db_ok db" "\<And>tx1. ins db = Inr tx1 \<Longrightarrow> scoped org db tx1" "caOrganizationId ev = org"
  shows "scoped org db (snd (runAuditedTransaction (\<lambda>tx.
      case ins tx of Inl e \<Rightarrow> (Inl e, tx, None) | Inr tx1 \<Rightarrow> finish_audited env ev meta x tx1) db))"
proof (rule scoped_audited [OF assms(1)])
  fix y d a
  assume b: "(case ins db of Inl e \<Rightarrow> (Inl e, db, None) | Inr tx1 \<Rightarrow> finish_audited env ev meta x tx1) = (Inr y, d, a)"
  show "scoped org db d"
  proof (cases "ins db")
    case (Inr tx1)
    with b have "finish_audited env ev meta x tx1 = (Inr y, d, a)" by simp
    then show ?thesis by (rule scoped_finish) (rule assms(3), rule assms(2) [OF Inr])
  qed (use b in simp)
qed

lemma create_key_tx_scoped:
  assumes ok: "db_ok db" and org: "ckOrganizationId p = org"
  shows "scoped org db (snd (createApiKeyForProject cd ke p db))"
  unfolding createApiKeyForProject_def Let_def
  by (rule audited_insert_scoped [OF ok]) (erule insert_key_scoped, rule ok, simp_all add: org)

lemma audited_change_scoped:
  assumes "db_ok db" "scoped org db (chg db)" "caOrganizationId ev = org"
  shows "scoped org db (snd (runAuditedTransaction (\<lambda>tx. finish_audited env ev meta x (chg tx)) db))"
  by (rule scoped_audited [OF assms(1)]) (erule scoped_finish, rule assms(3), rule assms(2))

lemma revoke_tx_scoped:
  assumes ok: "db_ok db"
  shows "scoped org db (snd (setEnabledAndMetadataForProject cd env org pid k b m actor req db))"
proof (cases "getApiKeyForProject cd db org pid k")
  case None
  with ok show ?thesis by (simp add: setEnabledAndMetadataForProject_def scoped_refl)
next
  case (Some x)
  show ?thesis
    unfolding setEnabledAndMetadataForProject_def Some option.case
    by (rule audited_change_scoped [OF ok]) (rule update_keys_scoped [OF ok], simp_all)
qed

lemma rotate_tx_scoped:
  assumes ok: "db_ok db" and org: "rkOrganizationId p = org"
  shows "scoped org db (snd (rotateApiKeyForProject cd ke p db))"
  unfolding rotateApiKeyForProject_def
proof (rule scoped_audited [OF ok], goal_cases)
  case (1 x d a)
  let ?P = "\<lambda>r. akId r = rkKeyId p \<and> akReferenceId r = rkOrganizationId p"
  show ?case
  proof (cases "find ?P (dbApiKeys db)")
    case (Some row)
    then have row: "row \<in> set (dbApiKeys db)" "akId row = rkKeyId p" "akReferenceId row = org"
      by (auto simp: find_Some_iff org)
    show ?thesis
    proof (cases "rotate_decision (keTx ke) (rkProjectId p) (to_key_row cd row)")
      case None
      with 1 Some obtain tx1 where tx1: "insert_key (new_key_row ke (successor_params p)) db = Inr tx1"
        by (auto simp: Let_def split: sum.splits)
      let ?f = "set_enabled (keTx ke) False ((the (krMetadata (to_key_row cd row)))
                  \<lparr>kmRevokedAt := Some (isoOf cd (txNow (keTx ke))), kmRotatedToKeyId := Some (txNewId (keTx ke))\<rparr>)"
      have s1: "scoped org db tx1"
        by (rule insert_key_scoped [OF tx1 ok]) (simp add: successor_params_def org)
      then have ok1: "db_ok tx1" by (simp add: scoped_def)
      have u1: "unique_on akId (dbApiKeys tx1)" using ok1 by (simp add: db_ok_def)
      have row1: "row \<in> set (dbApiKeys tx1)" using tx1 row by (auto simp: insert_key_Inr)
      have "scoped org tx1 (update_keys (\<lambda>r. akId r = rkKeyId p) ?f tx1)"
      proof (rule update_keys_scoped [OF ok1])
        fix r assume "r \<in> set (dbApiKeys tx1)" "akId r = rkKeyId p"
        then show "akReferenceId r = org" using unique_onD [OF u1 _ row1] row by metis
      qed simp
      with s1 have s: "scoped org db (update_keys (\<lambda>r. akId r = rkKeyId p) ?f tx1)" by (rule scoped_trans)
      from 1 Some None tx1 show ?thesis
        by (simp add: Let_def) (erule scoped_finish, simp add: org, rule s)
    qed (use 1 Some ok in \<open>simp add: Let_def scoped_refl\<close>)
  qed (use 1 ok in \<open>simp add: scoped_refl\<close>)
qed

subsection \<open>Rotations and revocations that interleave\<close>

text \<open>
  The transactions are atomic (the row is locked), but \<open>revokeKey\<close> decides on a row it has read
  before, and \<open>rotateKey\<close> takes its parameters from one. The world keeps the pending revocations,
  every id ever drawn (\<open>randomUUID\<close> draws none twice) and the rotations so far. Better Auth itself
  records uses of a key and deletes keys that have expired.
\<close>

record key_world =
  kwDb :: tenant_db
  kwIssued :: "string set"
  kwRevoking :: "nat \<Rightarrow> (string \<times> string \<times> string \<times> api_key_metadata) option"
  kwRotations :: "(string \<times> string) list"

inductive key_step :: "cursor_codec \<Rightarrow> key_world \<Rightarrow> key_world \<Rightarrow> bool" for cd where
  create_key: "txNewId (keTx ke) \<notin> kwIssued w \<Longrightarrow> createKey cd ke q (kwDb w) = (r, db')
    \<Longrightarrow> key_step cd w (w\<lparr>kwDb := db', kwIssued := insert (txNewId (keTx ke)) (kwIssued w)\<rparr>)"
| rotate_key: "txNewId (keTx ke) \<notin> kwIssued w \<Longrightarrow> rotateApiKeyForProject cd ke p (kwDb w) = (r, db')
    \<Longrightarrow> key_step cd w (w\<lparr>kwDb := db', kwIssued := insert (txNewId (keTx ke)) (kwIssued w),
          kwRotations := (case r of Inr (Key_Rotated row _) \<Rightarrow> kwRotations w @ [(rkKeyId p, krId row)]
                          | _ \<Rightarrow> kwRotations w)\<rparr>)"
| begin_revoke: "getApiKeyForProject cd (kwDb w) org pid k = Some ex \<Longrightarrow> krEnabled ex
    \<Longrightarrow> key_step cd w (w\<lparr>kwRevoking := (kwRevoking w)(n \<mapsto> (org, pid, k, revoked_metadata cd now pid ex))\<rparr>)"
| end_revoke: "kwRevoking w n = Some (org, pid, k, m)
    \<Longrightarrow> setEnabledAndMetadataForProject cd env org pid k False m actor req (kwDb w) = (r, db')
    \<Longrightarrow> key_step cd w (w\<lparr>kwDb := db', kwRevoking := (kwRevoking w)(n := None)\<rparr>)"
| use_key: "key_step cd w (w\<lparr>kwDb := update_keys (\<lambda>r. akId r = k) (\<lambda>r. r\<lparr>akLastRequest := Some t\<rparr>) (kwDb w)\<rparr>)"
| delete_key: "key_step cd w (w\<lparr>kwDb := (kwDb w)\<lparr>dbApiKeys := filter (\<lambda>r. akId r \<noteq> k) (dbApiKeys (kwDb w))\<rparr>\<rparr>)"
| other_tables: "dbApiKeys db' = dbApiKeys (kwDb w) \<Longrightarrow> key_step cd w (w\<lparr>kwDb := db'\<rparr>)"

text \<open>A key that is disabled, or gone, whose id will not be drawn again.\<close>

definition key_dead :: "key_world \<Rightarrow> string \<Rightarrow> bool" where
  "key_dead w k \<longleftrightarrow> k \<in> kwIssued w \<and> (\<forall>r \<in> set (dbApiKeys (kwDb w)). akId r = k \<longrightarrow> akEnabled r = Some False)"

definition key_world_ok :: "key_world \<Rightarrow> bool" where
  "key_world_ok w \<longleftrightarrow> akId ` set (dbApiKeys (kwDb w)) \<subseteq> kwIssued w
     \<and> distinct (map fst (kwRotations w)) \<and> (\<forall>k \<in> fst ` set (kwRotations w). key_dead w k)"

text \<open>What each operation does to the table of keys.\<close>

lemma audited_keys:
  assumes "\<And>x d a. body db = (Inr x, d, a) \<Longrightarrow> Q (Inr x) (dbApiKeys d)"
    and "\<And>e. Q (Inl e) (dbApiKeys db)"
    and "runAuditedTransaction body db = (r, db')"
  shows "Q r (dbApiKeys db')"
  using assms(3) by (cases r) (auto simp: audited_Inr audited_Inl assms(1,2))

lemma finish_keys: "finish_audited env i meta x db = (Inr y, db', a) \<Longrightarrow> y = x \<and> dbApiKeys db' = dbApiKeys db"
  by (auto dest!: finish_audited_Inr)

lemma createKey_cases:
  "snd (createKey cd ke q db) = db
   \<or> (\<exists>p. ckOrganizationId p = cqOrganizationId q \<and> snd (createKey cd ke q db) = snd (createApiKeyForProject cd ke p db))"
proof -
  have "ckOrganizationId (key_params now q name days) = cqOrganizationId q" for now name days
    by (simp add: key_params_def)
  then show ?thesis
    by (auto simp: createKey_def Let_def snd_apfst simp del: map_sum.simps split: option.splits sum.splits)
qed

lemma create_tx_effect:
  assumes "createApiKeyForProject cd ke p db = (x, d)"
  shows "dbApiKeys d = dbApiKeys db \<or> dbApiKeys d = dbApiKeys db @ [new_key_row ke p]"
  using assms unfolding createApiKeyForProject_def
  by (rule audited_keys [where Q = "\<lambda>_ t. t = dbApiKeys db \<or> t = dbApiKeys db @ [new_key_row ke p]", rotated 2])
    (auto simp: Let_def insert_key_Inr dest!: finish_keys split: sum.splits)

lemma create_effect:
  assumes "createKey cd ke q db = (r, db')"
  shows "dbApiKeys db' = dbApiKeys db \<or> (\<exists>p. dbApiKeys db' = dbApiKeys db @ [new_key_row ke p])"
  using createKey_cases [of cd ke q db] create_tx_effect [OF prod.collapse [symmetric]] assms by force

lemma revoke_effect:
  assumes "setEnabledAndMetadataForProject cd env org pid k False m actor req db = (r, db')"
  shows "dbApiKeys db' = dbApiKeys db
    \<or> dbApiKeys db' = snd (update_where (\<lambda>r. akId r = k \<and> akReferenceId r = org) (set_enabled env False m) (dbApiKeys db))"
proof (cases "getApiKeyForProject cd db org pid k")
  case (Some x)
  show ?thesis
    using assms unfolding setEnabledAndMetadataForProject_def Some option.case
    by (rule audited_keys [where Q = "\<lambda>_ t. t = dbApiKeys db \<or> t = snd (update_where
        (\<lambda>r. akId r = k \<and> akReferenceId r = org) (set_enabled env False m) (dbApiKeys db))", rotated 2])
      (auto simp: update_keys_def dest!: finish_keys)
qed (use assms in \<open>simp add: setEnabledAndMetadataForProject_def\<close>)

lemma rotate_decision_None:
  "rotate_decision env pid (to_key_row cd row) = None \<Longrightarrow>
     akEnabled row \<noteq> Some False \<and> (\<exists>m. krMetadata (to_key_row cd row) = Some m \<and> kmProjectId m = pid)"
  by (auto simp: rotate_decision_def to_key_row_def split: option.splits if_splits)

definition rotated_keys :: "cursor_codec \<Rightarrow> key_env \<Rightarrow> rotate_key_params \<Rightarrow> api_key_metadata \<Rightarrow> api_key_row list \<Rightarrow> api_key_row list" where
  "rotated_keys cd ke p m t =
     snd (update_where (\<lambda>r. akId r = rkKeyId p) (set_enabled (keTx ke) False m) (t @ [new_key_row ke (successor_params p)]))"

lemma rotate_effect:
  assumes "rotateApiKeyForProject cd ke p db = (r, db')"
  shows "(dbApiKeys db' = dbApiKeys db \<and> (\<forall>row s. r \<noteq> Inr (Key_Rotated row s)))
    \<or> (\<exists>row \<in> set (dbApiKeys db). \<exists>m s. akId row = rkKeyId p \<and> akEnabled row \<noteq> Some False
        \<and> dbApiKeys db' = rotated_keys cd ke p m (dbApiKeys db) \<and> r = Inr (Key_Rotated (rotated_row ke p) s))"
    (is "?Q r (dbApiKeys db')")
  using assms unfolding rotateApiKeyForProject_def
proof (rule audited_keys [where Q = ?Q, rotated 2], goal_cases)
  case (1 x d a)
  let ?P = "\<lambda>r. akId r = rkKeyId p \<and> akReferenceId r = rkOrganizationId p"
  show ?case
  proof (cases "find ?P (dbApiKeys db)")
    case (Some row)
    then have row: "row \<in> set (dbApiKeys db)" "akId row = rkKeyId p" by (auto simp: find_Some_iff)
    show ?thesis
    proof (cases "rotate_decision (keTx ke) (rkProjectId p) (to_key_row cd row)")
      case None
      from 1 Some None have "\<exists>m s. dbApiKeys d = rotated_keys cd ke p m (dbApiKeys db) \<and> x = Key_Rotated (rotated_row ke p) s"
        by (auto simp: Let_def insert_key_Inr update_keys_def rotated_keys_def dest!: finish_keys split: sum.splits)
      with row rotate_decision_None [OF None] show ?thesis by blast
    next
      case (Some out)
      with 1 \<open>find ?P (dbApiKeys db) = _\<close> show ?thesis
        by (auto simp: Let_def rotate_decision_def split: option.splits if_splits)
    qed
  qed (use 1 in simp)
qed simp

subsection \<open>One successor\<close>

text \<open>
  A step that adds no key but one with a fresh id, and re-enables none, keeps the dead dead and
  the ids issued.
\<close>

definition keys_evolve :: "string set \<Rightarrow> api_key_row list \<Rightarrow> api_key_row list \<Rightarrow> bool" where
  "keys_evolve new t t' \<longleftrightarrow>
     (\<forall>r' \<in> set t'. akId r' \<in> new
        \<or> (\<exists>r \<in> set t. akId r = akId r' \<and> (akEnabled r = Some False \<longrightarrow> akEnabled r' = Some False)))"

lemma evolve_refl: "keys_evolve new t t"
  by (auto simp: keys_evolve_def)

lemma evolve_append: "keys_evolve {akId x} t (t @ [x])"
  by (auto simp: keys_evolve_def)

lemma evolve_filter: "keys_evolve new t (filter P t)"
  by (auto simp: keys_evolve_def)

lemma evolve_update:
  "keys_evolve new t t' \<Longrightarrow> (\<And>r. akId (f r) = akId r \<and> (akEnabled r = Some False \<longrightarrow> akEnabled (f r) = Some False))
     \<Longrightarrow> keys_evolve new t (snd (update_where P f t'))"
  unfolding keys_evolve_def update_where_def by (auto simp: image_iff)

lemma evolve_dead:
  assumes "keys_evolve new (dbApiKeys (kwDb w)) (dbApiKeys (kwDb w'))" "kwIssued w \<subseteq> kwIssued w'"
    "key_dead w k" "k \<notin> new"
  shows "key_dead w' k"
  using assms unfolding keys_evolve_def key_dead_def by (metis subsetD)

lemma evolve_ok:
  assumes "keys_evolve new (dbApiKeys (kwDb w)) (dbApiKeys (kwDb w'))" "kwIssued w' = new \<union> kwIssued w"
    "new \<inter> kwIssued w = {}" "kwRotations w' = kwRotations w" "key_world_ok w"
  shows "key_world_ok w'"
proof -
  have "akId ` set (dbApiKeys (kwDb w')) \<subseteq> kwIssued w'"
    using assms(1,2,5) unfolding keys_evolve_def key_world_ok_def by (fastforce simp: image_subset_iff)
  moreover have "key_dead w' k" if "key_dead w k" for k
    by (rule evolve_dead [OF assms(1) _ that]) (use assms(2,3) that in \<open>auto simp: key_dead_def\<close>)
  ultimately show ?thesis using assms(4,5) by (simp add: key_world_ok_def)
qed

lemma evolve_rotated:
  "keys_evolve {txNewId (keTx ke)} t (rotated_keys cd ke p m t)"
proof -
  have "keys_evolve {akId (new_key_row ke (successor_params p))} t (t @ [new_key_row ke (successor_params p)])"
    by (rule evolve_append)
  then show ?thesis unfolding rotated_keys_def by (intro evolve_update) simp_all
qed

lemma rotated_dead: "r \<in> set (rotated_keys cd ke p m t) \<Longrightarrow> akId r = rkKeyId p \<Longrightarrow> akEnabled r = Some False"
  by (auto simp: rotated_keys_def update_where_def split: if_splits)

lemma key_step_evolves:
  assumes "key_step cd w w'"
  shows "\<exists>new. keys_evolve new (dbApiKeys (kwDb w)) (dbApiKeys (kwDb w')) \<and> kwIssued w' = new \<union> kwIssued w
     \<and> new \<inter> kwIssued w = {}"
  using assms
proof cases
  case (create_key ke q r db')
  then have "keys_evolve {txNewId (keTx ke)} (dbApiKeys (kwDb w)) (dbApiKeys db')"
    using create_effect [OF create_key(3)] evolve_append [of "new_key_row ke _"] evolve_refl by fastforce
  with create_key(1,2) show ?thesis by (intro exI [of _ "{txNewId (keTx ke)}"]) simp
next
  case (rotate_key ke p r db')
  then have "keys_evolve {txNewId (keTx ke)} (dbApiKeys (kwDb w)) (dbApiKeys db')"
    using rotate_effect [OF rotate_key(3)] evolve_rotated evolve_refl by fastforce
  with rotate_key(1,2) show ?thesis by (intro exI [of _ "{txNewId (keTx ke)}"]) simp
next
  case (end_revoke n org pid k m env actor req r db')
  then have "keys_evolve {} (dbApiKeys (kwDb w)) (dbApiKeys db')"
    using revoke_effect [OF end_revoke(3)] evolve_update [OF evolve_refl] evolve_refl by fastforce
  with end_revoke(1) show ?thesis by (intro exI [of _ "{}"]) simp
next
  case (use_key k t)
  then show ?thesis
    by (intro exI [of _ "{}"]) (simp add: update_keys_def evolve_update [OF evolve_refl])
next
  case (delete_key k)
  then show ?thesis by (intro exI [of _ "{}"]) (simp add: evolve_filter)
qed (auto intro!: exI [of _ "{}"] simp: evolve_refl)

lemma key_step_rotations:
  assumes "key_step cd w w'"
  shows "kwRotations w' = kwRotations w
    \<or> (\<exists>ke p m s row. row \<in> set (dbApiKeys (kwDb w)) \<and> akId row = rkKeyId p \<and> akEnabled row \<noteq> Some False
        \<and> kwRotations w' = kwRotations w @ [(rkKeyId p, s)] \<and> dbApiKeys (kwDb w') = rotated_keys cd ke p m (dbApiKeys (kwDb w)))"
  using assms
proof cases
  case (rotate_key ke p r db')
  from rotate_effect [OF rotate_key(3)] show ?thesis
  proof (elim disjE bexE exE conjE)
    assume "\<forall>row s. r \<noteq> Inr (Key_Rotated row s)"
    with rotate_key(1) show ?thesis by (auto split: sum.splits rotate_outcome.splits)
  next
    fix row m s
    assume "row \<in> set (dbApiKeys (kwDb w))" "akId row = rkKeyId p" "akEnabled row \<noteq> Some False"
      "dbApiKeys db' = rotated_keys cd ke p m (dbApiKeys (kwDb w))" "r = Inr (Key_Rotated (rotated_row ke p) s)"
    with rotate_key(1) show ?thesis
      by (intro disjI2 exI [of _ ke] exI [of _ p] exI [of _ m] exI [of _ "krId (rotated_row ke p)"] exI [of _ row]) simp
  qed
qed simp_all

lemma key_step_ok:
  assumes "key_step cd w w'" "key_world_ok w"
  shows "key_world_ok w'"
proof -
  obtain new where new: "keys_evolve new (dbApiKeys (kwDb w)) (dbApiKeys (kwDb w'))"
    "kwIssued w' = new \<union> kwIssued w" "new \<inter> kwIssued w = {}"
    using key_step_evolves [OF assms(1)] by blast
  from key_step_rotations [OF assms(1)] show ?thesis
  proof (elim disjE exE conjE)
    assume "kwRotations w' = kwRotations w"
    from evolve_ok [OF new this assms(2)] show ?thesis .
  next
    fix ke p m s row
    assume row: "row \<in> set (dbApiKeys (kwDb w))" "akId row = rkKeyId p" "akEnabled row \<noteq> Some False"
      and rot: "kwRotations w' = kwRotations w @ [(rkKeyId p, s)]"
      and keys: "dbApiKeys (kwDb w') = rotated_keys cd ke p m (dbApiKeys (kwDb w))"
    let ?w = "w'\<lparr>kwRotations := kwRotations w\<rparr>"
    have ok: "key_world_ok ?w" by (rule evolve_ok [OF _ _ new(3) _ assms(2)]) (simp_all add: new)
    have "rkKeyId p \<in> kwIssued w" using row(1,2) assms(2) by (auto simp: key_world_ok_def)
    then have "key_dead w' (rkKeyId p)" using new(2) rotated_dead by (simp add: key_dead_def keys)
    moreover have "rkKeyId p \<notin> fst ` set (kwRotations w)"
      using row assms(2) unfolding key_world_ok_def key_dead_def by metis
    ultimately show ?thesis using ok by (simp add: key_world_ok_def rot key_dead_def)
  qed
qed

interpretation keys: step_system key_world_ok "key_step cd" key_world_ok
  by unfold_locales (auto intro: key_step_ok)

lemmas key_run_ok = keys.steps_inv

lemma key_run_dead:
  assumes "rtranclp (key_step cd) w w'" "key_dead w k"
  shows "key_dead w' k"
  using assms
proof (induction rule: rtranclp_induct)
  case (step y z)
  then have d: "key_dead y k" by blast
  from key_step_evolves [OF step.hyps(2)] obtain new where
    new: "keys_evolve new (dbApiKeys (kwDb y)) (dbApiKeys (kwDb z))" "kwIssued z = new \<union> kwIssued y" "new \<inter> kwIssued y = {}"
    by blast
  show ?case by (rule evolve_dead [OF new(1) _ d]) (use new(2,3) d in \<open>auto simp: key_dead_def\<close>)
qed

text \<open>
  C36. A key has one successor and never comes back. With any interleaving of creations, rotations
  on stale parameters, revocations on stale rows, uses and deletions, no key is rotated twice,
  every key that was rotated is disabled or gone, and a key that was once disabled stays so.
\<close>

theorem key_rotation_one_successor:
  assumes "key_world_ok w0" "rtranclp (key_step cd) w0 w"
  shows "distinct (map fst (kwRotations w))
    \<and> (\<forall>(k, s) \<in> set (kwRotations w). \<forall>r \<in> set (dbApiKeys (kwDb w)). akId r = k \<longrightarrow> akEnabled r = Some False)
    \<and> (\<forall>k. key_dead w0 k \<longrightarrow> key_dead w k)"
  using key_run_ok [OF assms(2,1)] key_run_dead [OF assms(2)]
  by (fastforce simp: key_world_ok_def key_dead_def)

text \<open>The row a rotation leaves behind says revoked, so \<open>already_rotated\<close> is never answered for it.\<close>

lemma second_rotation_says_revoked:
  assumes "metadata_ok cd m" "kmProjectId m = pid"
  shows "rotate_decision env pid (to_key_row cd (set_enabled env' False m r)) = Some Key_Already_Revoked"
  using assms by (simp add: rotate_decision_def to_key_row_def metadata_roundtrip)

definition demo_uuid :: string where
  "demo_uuid = ''00000000-0000-0000-0000-000000000001''"

definition demo_key :: api_key_row where
  "demo_key =
     \<lparr>akId = ''k1'', akName = Some ''ci'', akPrefix = Some KEY_PREFIX, akStart = None, akKey = ''h'', akReferenceId = ''o2'',
      akEnabled = None, akExpiresAt = Some 5000, akCreatedAt = 0, akUpdatedAt = 0, akLastRequest = None,
      akRateLimitMax = 120, akRateLimitTimeWindow = 60000,
      akMetadata = Some (metadata_json \<lparr>kmProjectId = demo_uuid, kmCreatedByUserId = ''u2'', kmRevokedAt = None,
        kmRotatedFromKeyId = None, kmRotatedToKeyId = None\<rparr>)\<rparr>"

definition demo_key_env :: key_env where
  "demo_key_env = \<lparr>keTx = demo_tx, keSecret = ''s'', keHash = rev\<rparr>"

definition demo_key_world :: key_world where
  "demo_key_world =
     \<lparr>kwDb = demo_db\<lparr>dbApiKeys := [demo_key]\<rparr>, kwIssued = {''k1''}, kwRevoking = (\<lambda>_. None), kwRotations = []\<rparr>"

definition demo_rotation :: rotate_key_params where
  "demo_rotation = rotation_params 1000 ''o2'' demo_uuid ''k1'' ''u2'' None (to_key_row demo_codec demo_key)"

lemma demo_rotation_works:
  "case fst (rotateApiKeyForProject demo_codec demo_key_env demo_rotation (kwDb demo_key_world)) of
     Inr (Key_Rotated row s) \<Rightarrow> krId row = ''new'' | _ \<Rightarrow> False"
  by code_simp

theorem key_rotation_one_successor_witness:
  "\<exists>w. rtranclp (key_step demo_codec) demo_key_world w \<and> kwRotations w = [(''k1'', ''new'')]
     \<and> (\<forall>r \<in> set (dbApiKeys (kwDb w)). akId r = ''k1'' \<longrightarrow> akEnabled r = Some False)"
proof -
  have ok: "key_world_ok demo_key_world" by (simp add: key_world_ok_def demo_key_world_def demo_key_def)
  obtain row s db' where rot: "rotateApiKeyForProject demo_codec demo_key_env demo_rotation (kwDb demo_key_world)
      = (Inr (Key_Rotated row s), db')" and row: "krId row = ''new''"
    using demo_rotation_works
    by (cases "rotateApiKeyForProject demo_codec demo_key_env demo_rotation (kwDb demo_key_world)")
      (auto split: sum.splits rotate_outcome.splits)
  have fresh: "txNewId (keTx demo_key_env) \<notin> kwIssued demo_key_world"
    by (simp add: demo_key_env_def demo_tx_def demo_key_world_def)
  from key_step.rotate_key [OF fresh rot] obtain w where w: "key_step demo_codec demo_key_world w"
    "kwRotations w = [(''k1'', ''new'')]"
    using row by (auto simp: demo_rotation_def rotation_params_def demo_key_world_def)
  then have run: "rtranclp (key_step demo_codec) demo_key_world w" by blast
  from key_rotation_one_successor [OF ok run] w(2) run show ?thesis by fastforce
qed

end
