(* ===== verification/Memberships.thy ===== *)
theory Memberships
  imports Access RateLimiter
begin

section \<open>Members and invitations\<close>

text \<open>
  The member and invitation handlers of src/routes/organizations.ts and
  src/services/invitation-service.ts. An acceptance reads the invitation, reads it again inside
  its transaction, and then writes; each of these is a definition of its own, so that other
  requests can come between them. Better Auth's sign-in and sign-up are arguments.
\<close>

subsection \<open>Member handlers\<close>

definition invitation_role_enum :: "(string \<times> invitation_role) list" where
  "invitation_role_enum = [(''admin'', Invite_Admin), (''member'', Invite_Member)]"

definition updateMemberRoleSchema :: "json \<Rightarrow> invitation_role option" where
  "updateMemberRoleSchema body = z_enum invitation_role_enum (json_field body ''role'')"

text \<open>The check of the target, before the write.\<close>

definition member_target :: "tenant_db \<Rightarrow> string \<Rightarrow> string \<Rightarrow> tenant_error + member_summary" where
  "member_target db organizationId memberId =
     (case getMemberForOrganization db organizationId memberId of
        None \<Rightarrow> Inl (App MEMBER_NOT_FOUND)
      | Some target \<Rightarrow> (if msRole target = ''owner'' then Inl (App FORBIDDEN_ROLE) else Inr target))"

definition patch_member ::
  "tx_env \<Rightarrow> auth_session \<Rightarrow> string \<Rightarrow> string \<Rightarrow> json \<Rightarrow> string option \<Rightarrow> tenant_db \<Rightarrow> member_summary reply \<times> tenant_db" where
  "patch_member env auth organizationId memberId body requestId db =
     with_permission auth member_role_change organizationId db (\<lambda>ctx.
       with_body (updateMemberRoleSchema body) db (\<lambda>role.
         case member_target db (tcOrganizationId ctx) memberId of
           Inl e \<Rightarrow> (sendAppError e, db)
         | Inr _ \<Rightarrow>
             reply_of (case_option (App_Reply MEMBER_NOT_FOUND) (Reply 200))
               (updateMemberRoleForOrganization env (tcOrganizationId ctx) memberId role (context_user ctx) requestId db)))"

definition delete_member ::
  "tx_env \<Rightarrow> auth_session \<Rightarrow> string \<Rightarrow> string \<Rightarrow> string option \<Rightarrow> tenant_db \<Rightarrow> unit reply \<times> tenant_db" where
  "delete_member env auth organizationId memberId requestId db =
     with_permission auth member_remove organizationId db (\<lambda>ctx.
       case member_target db (tcOrganizationId ctx) memberId of
         Inl e \<Rightarrow> (sendAppError e, db)
       | Inr _ \<Rightarrow>
           reply_of (\<lambda>r. if r = Member_Not_Found then App_Reply MEMBER_NOT_FOUND else Reply 200 ())
             (removeMemberForOrganization env (tcOrganizationId ctx) memberId (context_user ctx) requestId db))"

subsection \<open>Creating and cancelling invitations\<close>

definition INVITATION_TTL_MS :: int where "INVITATION_TTL_MS = 24 * 60 * 60 * 1000"

record create_invitation_input =
  ciOrganizationId :: string
  ciEmail :: string
  ciRole :: invitation_role
  ciInvitedByUserId :: string
  ciRequestId :: "string option"

record create_invitation_result =
  crId :: string
  crToken :: string
  crExpiresAt :: time_ms

definition new_invitation :: "tx_env \<Rightarrow> create_invitation_input \<Rightarrow> string \<Rightarrow> invitation_row" where
  "new_invitation env i tokenHash =
     \<lparr>inId = txNewId env, inOrganizationId = ciOrganizationId i, inEmail = js_lower (js_trim (ciEmail i)),
      inRole = ciRole i, inTokenHash = tokenHash, inStatus = Invitation_Pending,
      inInvitedByUserId = ciInvitedByUserId i, inAcceptedByUserId = None,
      inExpiresAt = txNow env + INVITATION_TTL_MS, inAcceptedAt = None, inCreatedAt = txNow env, inUpdatedAt = txNow env\<rparr>"

definition insert_invitation :: "invitation_row \<Rightarrow> tenant_db \<Rightarrow> tenant_error + tenant_db" where
  "insert_invitation row db =
     (if \<not> has_org db (inOrganizationId row) \<or> \<not> has_user db (inInvitedByUserId row) then Inl (Db Foreign_Key_Violation)
      else case insert_unique inId row (dbInvitations db) of
        Inl e \<Rightarrow> Inl (Db e)
      | Inr _ \<Rightarrow>
          (case insert_unique inTokenHash row (dbInvitations db) of
             Inl e \<Rightarrow> Inl (Db e)
           | Inr t \<Rightarrow> Inr (db\<lparr>dbInvitations := t\<rparr>)))"

text \<open>The token is drawn by \<open>randomBytes\<close>, its hash is the argument \<open>hash\<close>.\<close>

definition createInvitation ::
  "tx_env \<Rightarrow> (string \<Rightarrow> string) \<Rightarrow> string \<Rightarrow> create_invitation_input \<Rightarrow> tenant_db
     \<Rightarrow> (tenant_error + create_invitation_result) \<times> tenant_db" where
  "createInvitation env hash token i db =
     (if \<not> has_org db (ciOrganizationId i) then (Inl (App ORGANIZATION_NOT_FOUND), db)
      else runAuditedTransaction (\<lambda>tx.
        let row = new_invitation env i (hash token)
        in case insert_invitation row tx of
             Inl e \<Rightarrow> (Inl e, tx, None)
           | Inr tx1 \<Rightarrow>
               finish_audited env
                 (user_event (ciOrganizationId i) (ciInvitedByUserId i) (ciRequestId i)
                   Organization_Invitation_Created ''invitation'' (inId row))
                 (Some (buildAuditMetadata [(''roleAfter'', Meta_String (invitation_role_name (ciRole i)))]))
                 \<lparr>crId = inId row, crToken = token, crExpiresAt = txNow env + INVITATION_TTL_MS\<rparr> tx1) db)"

record invitation_body =
  ibEmail :: string
  ibRole :: invitation_role

text \<open>\<open>z.string().email()\<close> is the argument \<open>is_email\<close>.\<close>

definition createInvitationSchema :: "(string \<Rightarrow> bool) \<Rightarrow> json \<Rightarrow> invitation_body option" where
  "createInvitationSchema is_email body =
     (case (z_string 0 320 (json_field body ''email''), z_enum invitation_role_enum (json_field body ''role'')) of
        (Some email, Some role) \<Rightarrow> (if is_email email then Some \<lparr>ibEmail = email, ibRole = role\<rparr> else None)
      | _ \<Rightarrow> None)"

text \<open>The one handler that looks at the body before the permission, which depends on the role.\<close>

definition post_invitation ::
  "tx_env \<Rightarrow> (string \<Rightarrow> string) \<Rightarrow> string \<Rightarrow> (string \<Rightarrow> bool) \<Rightarrow> auth_session \<Rightarrow> string \<Rightarrow> json \<Rightarrow> string option \<Rightarrow> tenant_db
     \<Rightarrow> create_invitation_result reply \<times> tenant_db" where
  "post_invitation env hash token is_email auth organizationId body requestId db =
     with_body (createInvitationSchema is_email body) db (\<lambda>b.
       with_permission auth
         (if ibRole b = Invite_Admin then invitation_create_admin else invitation_create_member)
         organizationId db (\<lambda>ctx.
           reply_of (Reply 201)
             (createInvitation env hash token
               \<lparr>ciOrganizationId = tcOrganizationId ctx, ciEmail = ibEmail b, ciRole = ibRole b,
                ciInvitedByUserId = context_user ctx, ciRequestId = requestId\<rparr> db)))"

definition delete_invitation ::
  "tx_env \<Rightarrow> auth_session \<Rightarrow> string \<Rightarrow> string \<Rightarrow> string option \<Rightarrow> tenant_db \<Rightarrow> unit reply \<times> tenant_db" where
  "delete_invitation env auth organizationId invitationId requestId db =
     with_permission auth invitation_cancel organizationId db (\<lambda>ctx.
       reply_of (\<lambda>r. case r of
           Invitation_Not_Found \<Rightarrow> App_Reply INVITATION_NOT_FOUND
         | Invitation_Already_Used \<Rightarrow> Error_Reply 409 ''INVITATION_ALREADY_USED''
         | Invitation_Cancelled \<Rightarrow> Reply 200 ())
         (cancelInvitationForOrganization env (tcOrganizationId ctx) invitationId (context_user ctx) requestId db))"

subsection \<open>Accepting an invitation\<close>

text \<open>The hashes are hexadecimal digests of one length; \<open>timingSafeEqual\<close> is equality.\<close>

definition verifyInvitationToken :: "(string \<Rightarrow> string) \<Rightarrow> string \<Rightarrow> string \<Rightarrow> bool" where
  "verifyInvitationToken hash token storedHash \<longleftrightarrow>
     length (hash token) = length storedHash \<and> hash token = storedHash"

text \<open>The candidates, outside of any transaction: a pending row, not known or expired, or the match.\<close>

datatype invitation_match = No_Match | Match_Expired invitation_row | Match invitation_row

definition accept_match :: "(string \<Rightarrow> string) \<Rightarrow> string \<Rightarrow> time_ms \<Rightarrow> tenant_db \<Rightarrow> invitation_match" where
  "accept_match hash token now db =
     (case find (\<lambda>c. verifyInvitationToken hash token (inTokenHash c))
             (filter (\<lambda>c. inStatus c = Invitation_Pending) (dbInvitations db)) of
        None \<Rightarrow> No_Match
      | Some m \<Rightarrow> (if inExpiresAt m < now then Match_Expired m else Match m))"

definition set_invitation :: "string \<Rightarrow> (invitation_row \<Rightarrow> invitation_row) \<Rightarrow> tenant_db \<Rightarrow> tenant_db" where
  "set_invitation k f db = db\<lparr>dbInvitations := snd (update_where (\<lambda>i. inId i = k) f (dbInvitations db))\<rparr>"

definition expire_invitation :: "string \<Rightarrow> tenant_db \<Rightarrow> tenant_db" where
  "expire_invitation k db = set_invitation k (\<lambda>i. i\<lparr>inStatus := Invitation_Expired\<rparr>) db"

text \<open>The second look, inside the transaction.\<close>

definition accept_fresh :: "string \<Rightarrow> tenant_db \<Rightarrow> tenant_error + invitation_row" where
  "accept_fresh k db =
     (case find (\<lambda>i. inId i = k) (dbInvitations db) of
        None \<Rightarrow> Inl (App INVITATION_ALREADY_USED)
      | Some fresh \<Rightarrow> (if inStatus fresh \<noteq> Invitation_Pending then Inl (App INVITATION_ALREADY_USED) else Inr fresh))"

record accept_env =
  aeTx :: tx_env
  aeSignIn :: "string \<Rightarrow> string \<Rightarrow> bool"
  aeSignUp :: "string \<Rightarrow> string \<Rightarrow> string \<Rightarrow> string option"

text \<open>
  The user: an existing account has to sign in, a new one is signed up. \<open>input.auth\<close> is bound to
  the connection pool and not to the transaction, so a new account is committed on its own.
\<close>

definition insert_user :: "user_row \<Rightarrow> tenant_db \<Rightarrow> tenant_error + tenant_db" where
  "insert_user row db =
     (if row_at usId (dbUsers db) (usId row) \<noteq> None \<or> row_at usEmail (dbUsers db) (usEmail row) \<noteq> None
      then Inl Auth_Error else Inr (db\<lparr>dbUsers := dbUsers db @ [row]\<rparr>))"

definition accept_user ::
  "accept_env \<Rightarrow> string \<Rightarrow> string \<Rightarrow> string \<Rightarrow> tenant_db \<Rightarrow> (tenant_error + string) \<times> tenant_db" where
  "accept_user ae email name password db =
     (case find (\<lambda>u. usEmail u = email) (dbUsers db) of
        Some existingUser \<Rightarrow>
          (if \<not> aeSignIn ae email password then (Inl (App INVITATION_EMAIL_MISMATCH), db) else (Inr (usId existingUser), db))
      | None \<Rightarrow>
          (case aeSignUp ae email name password of
             None \<Rightarrow> (Inl Auth_Error, db)
           | Some userId \<Rightarrow>
               (case insert_user \<lparr>usId = userId, usEmail = email, usName = name\<rparr> db of
                  Inl e \<Rightarrow> (Inl e, db)
                | Inr db' \<Rightarrow> (Inr userId, db'))))"

definition member_id :: "string \<Rightarrow> string \<Rightarrow> string" where
  "member_id userId organizationId = ''mem_'' @ userId @ ''_'' @ organizationId"

definition invited_member :: "tx_env \<Rightarrow> invitation_row \<Rightarrow> string \<Rightarrow> member_row" where
  "invited_member env fresh userId =
     \<lparr>mbId = member_id userId (inOrganizationId fresh), mbOrganizationId = inOrganizationId fresh, mbUserId = userId,
      mbRole = invitation_role_name (inRole fresh), mbCreatedAt = txNow env\<rparr>"

definition insert_member :: "member_row \<Rightarrow> tenant_db \<Rightarrow> tenant_error + tenant_db" where
  "insert_member row db =
     (if \<not> has_org db (mbOrganizationId row) \<or> \<not> has_user db (mbUserId row) then Inl (Db Foreign_Key_Violation)
      else case insert_unique mbId row (dbMembers db) of
        Inl e \<Rightarrow> Inl (Db e)
      | Inr t \<Rightarrow> Inr (db\<lparr>dbMembers := t\<rparr>))"

definition join_organization :: "tx_env \<Rightarrow> invitation_row \<Rightarrow> string \<Rightarrow> tenant_db \<Rightarrow> tenant_error + tenant_db" where
  "join_organization env fresh userId db =
     (case find (\<lambda>m. mbOrganizationId m = inOrganizationId fresh \<and> mbUserId m = userId) (dbMembers db) of
        Some _ \<Rightarrow> Inr db
      | None \<Rightarrow> insert_member (invited_member env fresh userId) db)"

definition mark_accepted :: "tx_env \<Rightarrow> string \<Rightarrow> invitation_row \<Rightarrow> invitation_row" where
  "mark_accepted env userId i =
     i\<lparr>inStatus := Invitation_Accepted, inAcceptedAt := Some (txNow env), inAcceptedByUserId := Some userId\<rparr>"

definition accept_tx ::
  "tx_env \<Rightarrow> invitation_row \<Rightarrow> string \<Rightarrow> string option \<Rightarrow> (string \<times> string) tx_body" where
  "accept_tx env fresh userId requestId tx =
     (case join_organization env fresh userId tx of
        Inl e \<Rightarrow> (Inl e, tx, None)
      | Inr tx1 \<Rightarrow>
          finish_audited env
            (user_event (inOrganizationId fresh) userId requestId Organization_Invitation_Accepted ''invitation'' (inId fresh))
            (Some (buildAuditMetadata [(''roleAfter'', Meta_String (invitation_role_name (inRole fresh)))]))
            (userId, inOrganizationId fresh)
            (set_invitation (inId fresh) (mark_accepted env userId) tx1))"

text \<open>Everything after the second look, with the row \<open>fresh\<close> it returned.\<close>

definition accept_commit ::
  "accept_env \<Rightarrow> invitation_row \<Rightarrow> string \<Rightarrow> string \<Rightarrow> string option \<Rightarrow> tenant_db \<Rightarrow> (tenant_error + string \<times> string) \<times> tenant_db" where
  "accept_commit ae fresh name password requestId db =
     (case accept_user ae (inEmail fresh) name password db of
        (Inl e, db1) \<Rightarrow> (Inl e, db1)
      | (Inr userId, db1) \<Rightarrow> runAuditedTransaction (accept_tx (aeTx ae) fresh userId requestId) db1)"

definition acceptInvitation ::
  "accept_env \<Rightarrow> (string \<Rightarrow> string) \<Rightarrow> string \<Rightarrow> string \<Rightarrow> string \<Rightarrow> string option \<Rightarrow> tenant_db
     \<Rightarrow> (tenant_error + string \<times> string) \<times> tenant_db" where
  "acceptInvitation ae hash token name password requestId db =
     (case accept_match hash token (txNow (aeTx ae)) db of
        No_Match \<Rightarrow> (Inl (App INVITATION_NOT_FOUND), db)
      | Match_Expired m \<Rightarrow> (Inl (App INVITATION_EXPIRED), expire_invitation (inId m) db)
      | Match m \<Rightarrow>
          (case accept_fresh (inId m) db of
             Inl e \<Rightarrow> (Inl e, db)
           | Inr fresh \<Rightarrow> accept_commit ae fresh name password requestId db))"

subsection \<open>The onboarding route (src/routes/onboarding.ts)\<close>

record accept_body =
  abToken :: string
  abName :: string
  abPassword :: string

definition acceptSchema :: "json \<Rightarrow> accept_body option" where
  "acceptSchema body =
     (case (z_string 1 256 (json_field body ''token''), z_string 1 200 (json_field body ''name''),
            z_string 12 128 (json_field body ''password'')) of
        (Some token, Some name, Some password) \<Rightarrow> Some \<lparr>abToken = token, abName = name, abPassword = password\<rparr>
      | _ \<Rightarrow> None)"

text \<open>The limiters by source address and by a keyed digest of the token (src/lib/rate-limit-keys.ts).\<close>

record onboarding =
  obIpLimiter :: rate_limiter
  obTokenLimiter :: rate_limiter

definition too_many :: "int \<Rightarrow> 'a reply" where
  "too_many retryAfter = Error_Reply 429 ''RATE_LIMITED''"

definition post_accept ::
  "accept_env \<Rightarrow> (string \<Rightarrow> string) \<Rightarrow> (string \<Rightarrow> string) \<Rightarrow> string \<Rightarrow> json \<Rightarrow> string option \<Rightarrow> onboarding \<Rightarrow> tenant_db
     \<Rightarrow> string reply \<times> onboarding \<times> tenant_db" where
  "post_accept ae hash invitationTokenDigest ip body requestId ob db =
     (let now = txNow (aeTx ae); (ipDecision, ipl) = rl_check (obIpLimiter ob) ip now;
          ob1 = ob\<lparr>obIpLimiter := ipl\<rparr>
      in if \<not> allowed ipDecision then (too_many (retryAfterSeconds ipDecision), ob1, db)
         else case acceptSchema body of
           None \<Rightarrow> (Thrown Zod_Error, ob1, db)
         | Some b \<Rightarrow>
             (let tokenKey = invitationTokenDigest (abToken b);
                  (tokenDecision, tl) = rl_check (obTokenLimiter ob1) tokenKey now;
                  ob2 = ob1\<lparr>obTokenLimiter := tl\<rparr>
              in if \<not> allowed tokenDecision then (too_many (retryAfterSeconds tokenDecision), ob2, db)
                 else case acceptInvitation ae hash (abToken b) (abName b) (abPassword b) requestId db of
                   (Inl e, db') \<Rightarrow> (sendAppError e, ob2, db')
                 | (Inr result, db') \<Rightarrow>
                     (Reply 200 (snd result), ob2\<lparr>obTokenLimiter := rl_reset tl tokenKey\<rparr>, db')))"

subsection \<open>Requests that interleave\<close>

text \<open>
  A request that has passed its checks and has yet to write: a change of a role, a removal, the
  note that an invitation has expired, an acceptance.
\<close>

datatype team_task =
    Will_Change_Role string string invitation_role string
  | Will_Remove string string string
  | Will_Expire string
  | Will_Accept invitation_row

record team_world =
  twDb :: tenant_db
  twTasks :: "nat \<Rightarrow> team_task option"

definition with_db :: "team_world \<Rightarrow> tenant_db \<Rightarrow> team_world" where
  "with_db w db = w\<lparr>twDb := db\<rparr>"

definition start_task :: "team_world \<Rightarrow> nat \<Rightarrow> team_task \<Rightarrow> team_world" where
  "start_task w n t = w\<lparr>twTasks := (twTasks w)(n \<mapsto> t)\<rparr>"

definition end_task :: "team_world \<Rightarrow> nat \<Rightarrow> tenant_db \<Rightarrow> team_world" where
  "end_task w n db = w\<lparr>twDb := db, twTasks := (twTasks w)(n := None)\<rparr>"

inductive team_step :: "(string \<Rightarrow> string) \<Rightarrow> team_world \<Rightarrow> team_world \<Rightarrow> bool" for hash where
  check_role: "requireOrganizationPermission auth (twDb w) org member_role_change = Inr ctx
    \<Longrightarrow> member_target (twDb w) org k = Inr target
    \<Longrightarrow> team_step hash w (start_task w n (Will_Change_Role org k role (context_user ctx)))"
| change_role: "twTasks w n = Some (Will_Change_Role org k role actor)
    \<Longrightarrow> updateMemberRoleForOrganization env org k role actor req (twDb w) = (r, db')
    \<Longrightarrow> team_step hash w (end_task w n db')"
| check_removal: "requireOrganizationPermission auth (twDb w) org member_remove = Inr ctx
    \<Longrightarrow> member_target (twDb w) org k = Inr target
    \<Longrightarrow> team_step hash w (start_task w n (Will_Remove org k (context_user ctx)))"
| remove: "twTasks w n = Some (Will_Remove org k actor)
    \<Longrightarrow> removeMemberForOrganization env org k actor req (twDb w) = (r, db')
    \<Longrightarrow> team_step hash w (end_task w n db')"
| invite: "createInvitation env hash token i (twDb w) = (r, db') \<Longrightarrow> team_step hash w (with_db w db')"
| cancel: "cancelInvitationForOrganization env org k actor req (twDb w) = (r, db')
    \<Longrightarrow> team_step hash w (with_db w db')"
| begin_accept: "accept_match hash token now (twDb w) = Match m \<Longrightarrow> accept_fresh (inId m) (twDb w) = Inr fresh
    \<Longrightarrow> team_step hash w (start_task w n (Will_Accept fresh))"
| end_accept: "twTasks w n = Some (Will_Accept fresh)
    \<Longrightarrow> accept_commit ae fresh name password req (twDb w) = (r, db')
    \<Longrightarrow> team_step hash w (end_task w n db')"
| begin_expiry: "accept_match hash token now (twDb w) = Match_Expired m
    \<Longrightarrow> team_step hash w (start_task w n (Will_Expire (inId m)))"
| end_expiry: "twTasks w n = Some (Will_Expire k) \<Longrightarrow> team_step hash w (end_task w n (expire_invitation k (twDb w)))"
| give_up: "team_step hash w (end_task w n (twDb w))"
| elsewhere: "dbMembers db' = dbMembers (twDb w) \<Longrightarrow> dbInvitations db' = dbInvitations (twDb w)
    \<Longrightarrow> more_users (twDb w) db' \<Longrightarrow> team_step hash w (with_db w db')"

lemma world_simps [simp]:
  "twDb (with_db w db) = db" "twTasks (with_db w db) = twTasks w"
  "twDb (start_task w n t) = twDb w" "twTasks (start_task w n t) = (twTasks w)(n \<mapsto> t)"
  "twDb (end_task w n db) = db" "twTasks (end_task w n db) = (twTasks w)(n := None)"
  by (simp_all add: with_db_def start_task_def end_task_def)

subsection \<open>What the writes do to members, invitations and users\<close>

lemma finish_tables:
  "finish_audited env i meta x db = (Inr y, db', a) \<Longrightarrow>
     y = x \<and> dbMembers db' = dbMembers db \<and> dbInvitations db' = dbInvitations db \<and> dbUsers db' = dbUsers db"
  by (auto dest!: finish_audited_Inr)

lemma audited_finish_cases:
  assumes "runAuditedTransaction (\<lambda>tx. finish_audited env ev meta x (chg tx)) db = (r, db')"
  obtains (failed) e where "r = Inl e" "dbMembers db' = dbMembers db" "dbInvitations db' = dbInvitations db" "dbUsers db' = dbUsers db"
  | (written) "r = Inr x" "dbMembers db' = dbMembers (chg db)" "dbInvitations db' = dbInvitations (chg db)"
      "dbUsers db' = dbUsers (chg db)"
proof (cases r)
  case (Inl e)
  with assms show ?thesis by (auto simp: audited_Inl intro: failed)
next
  case (Inr y)
  then obtain db1 a where "finish_audited env ev meta x (chg db) = (Inr y, db1, a)" "db' = count_audit a Audit_Success db1"
    using assms by (auto simp: audited_Inr)
  with finish_tables Inr show ?thesis by (metis written count_audit_simps(1,3,8))
qed

lemma update_role_effect:
  assumes "updateMemberRoleForOrganization env org k role actor req db = (r, db')"
  shows "dbInvitations db' = dbInvitations db \<and> dbUsers db' = dbUsers db
    \<and> (dbMembers db' = dbMembers db
       \<or> dbMembers db' = snd (update_where (\<lambda>m. mbId m = k) (\<lambda>m. m\<lparr>mbRole := invitation_role_name role\<rparr>) (dbMembers db)))"
proof (cases "member_of db org k")
  case (Some existing)
  let ?chg = "\<lambda>tx. tx\<lparr>dbMembers := snd (update_where (\<lambda>m. mbId m = k)
      (\<lambda>m. m\<lparr>mbRole := invitation_role_name role\<rparr>) (dbMembers tx))\<rparr>"
  let ?tx = "runAuditedTransaction (\<lambda>tx. finish_audited env
      (user_event org actor req Organization_Member_Role_Changed ''member'' k)
      (Some (buildAuditMetadata [(''roleBefore'', Meta_String (mbRole existing)),
         (''roleAfter'', Meta_String (invitation_role_name role))])) () (?chg tx)) db"
  obtain x where "?tx = (x, db')"
    using assms Some by (auto simp: updateMemberRoleForOrganization_def Let_def split: prod.splits sum.splits)
  then show ?thesis by (cases rule: audited_finish_cases) simp_all
qed (use assms in \<open>simp add: updateMemberRoleForOrganization_def\<close>)

lemma remove_effect:
  assumes "removeMemberForOrganization env org k actor req db = (r, db')"
  shows "dbInvitations db' = dbInvitations db \<and> dbUsers db' = dbUsers db
    \<and> (dbMembers db' = dbMembers db \<or> dbMembers db' = filter (\<lambda>m. mbId m \<noteq> k) (dbMembers db))"
proof (cases "member_of db org k")
  case (Some existing)
  then show ?thesis
    using assms unfolding removeMemberForOrganization_def Some option.case
    by (elim audited_finish_cases [where chg = "\<lambda>tx. tx\<lparr>dbMembers := filter (\<lambda>m. mbId m \<noteq> k) (dbMembers tx)\<rparr>"])
      simp_all
qed (use assms in \<open>simp add: removeMemberForOrganization_def\<close>)

text \<open>Updates of an invitation change its status and its dates, never what it grants and to whom.\<close>

definition same_invitation :: "invitation_row \<Rightarrow> invitation_row \<Rightarrow> bool" where
  "same_invitation i j \<longleftrightarrow> inId i = inId j \<and> inOrganizationId i = inOrganizationId j \<and> inEmail i = inEmail j
     \<and> inRole i = inRole j \<and> inTokenHash i = inTokenHash j \<and> inExpiresAt i = inExpiresAt j"

definition invitations_kept :: "tenant_db \<Rightarrow> tenant_db \<Rightarrow> bool" where
  "invitations_kept db db' \<longleftrightarrow> (\<forall>i \<in> set (dbInvitations db). \<exists>j \<in> set (dbInvitations db'). same_invitation i j)"

lemma same_invitation_refl [simp]: "same_invitation i i"
  by (simp add: same_invitation_def)

lemma kept_same: "dbInvitations db' = dbInvitations db \<Longrightarrow> invitations_kept db db'"
  by (auto simp: invitations_kept_def intro: same_invitation_refl)

lemma kept_update:
  assumes "dbInvitations db' = snd (update_where P f (dbInvitations db))" "\<And>i. same_invitation i (f i)"
  shows "invitations_kept db db'"
  unfolding invitations_kept_def
proof
  fix i assume "i \<in> set (dbInvitations db)"
  then have "(if P i then f i else i) \<in> set (dbInvitations db')" using assms(1) by (auto simp: update_where_def)
  moreover have "same_invitation i (if P i then f i else i)" using assms(2) by simp
  ultimately show "\<exists>j \<in> set (dbInvitations db'). same_invitation i j" by blast
qed

lemma audited_insert_cases:
  assumes "runAuditedTransaction (\<lambda>tx. case ins tx of Inl e \<Rightarrow> (Inl e, tx, None)
      | Inr tx1 \<Rightarrow> finish_audited env ev meta x (chg tx1)) db = (r, db')"
  obtains (failed) e where "r = Inl e" "dbMembers db' = dbMembers db" "dbInvitations db' = dbInvitations db" "dbUsers db' = dbUsers db"
  | (written) tx1 where "r = Inr x" "ins db = Inr tx1" "dbMembers db' = dbMembers (chg tx1)"
      "dbInvitations db' = dbInvitations (chg tx1)" "dbUsers db' = dbUsers (chg tx1)"
proof (cases r)
  case (Inl e)
  with assms show ?thesis by (auto simp: audited_Inl intro: failed)
next
  case (Inr y)
  then obtain d a where b: "(case ins db of Inl e \<Rightarrow> (Inl e, db, None)
      | Inr tx1 \<Rightarrow> finish_audited env ev meta x (chg tx1)) = (Inr y, d, a)" and d: "db' = count_audit a Audit_Success d"
    using assms by (auto simp: audited_Inr)
  show ?thesis
  proof (cases "ins db")
    case (Inr tx1)
    with b have "finish_audited env ev meta x (chg tx1) = (Inr y, d, a)" by simp
    from finish_tables [OF this] d \<open>r = Inr y\<close> Inr show ?thesis by (intro written) simp_all
  qed (use b in simp)
qed

lemma invite_effect:
  assumes "createInvitation env hash token i db = (r, db')"
  shows "dbMembers db' = dbMembers db \<and> dbUsers db' = dbUsers db \<and> invitations_kept db db'"
proof (cases "has_org db (ciOrganizationId i)")
  case True
  let ?row = "new_invitation env i (hash token)"
  show ?thesis
    using assms True unfolding createInvitation_def Let_def
  proof (simp only: not_True_eq_False if_False, elim audited_insert_cases [where chg = "\<lambda>t. t"])
    fix tx1 assume t: "insert_invitation ?row db = Inr tx1" "dbMembers db' = dbMembers tx1"
      "dbInvitations db' = dbInvitations tx1" "dbUsers db' = dbUsers tx1"
    from t(1) have "tx1 = db\<lparr>dbInvitations := dbInvitations db @ [?row]\<rparr>"
      by (auto simp: insert_invitation_def insert_unique_def split: if_splits)
    with t show ?thesis by (auto simp: invitations_kept_def intro: same_invitation_refl)
  qed (simp add: kept_same)
qed (use assms in \<open>simp add: createInvitation_def kept_same\<close>)

lemma cancel_effect:
  assumes "cancelInvitationForOrganization env org k actor req db = (r, db')"
  shows "dbMembers db' = dbMembers db \<and> dbUsers db' = dbUsers db \<and> invitations_kept db db'"
proof -
  let ?f = "\<lambda>i. i\<lparr>inStatus := Invitation_Revoked, inUpdatedAt := txNow env\<rparr>"
  let ?P = "\<lambda>i. inId i = k \<and> inStatus i = Invitation_Pending"
  have "dbMembers d = dbMembers db \<and> dbUsers d = dbUsers db \<and> invitations_kept db d"
    if "runAuditedTransaction (cancel_tx env org k actor req) db = (x, d)" for x d
    using that unfolding cancel_tx_def
    by (rule audited_finish_cases [where chg = "\<lambda>tx. tx\<lparr>dbInvitations := snd (update_where ?P ?f (dbInvitations tx))\<rparr>"])
      (auto intro: kept_same kept_update [where P = ?P and f = ?f] simp: same_invitation_def)
  with assms show ?thesis
    by (auto simp: cancelInvitationForOrganization_def kept_same split: option.splits if_splits)
qed

lemma set_invitation_kept: "(\<And>i. same_invitation i (f i)) \<Longrightarrow> invitations_kept db (set_invitation k f db)"
  by (rule kept_update [where P = "\<lambda>i. inId i = k" and f = f]) (simp_all add: set_invitation_def)

lemma set_invitation_tables [simp]:
  "dbMembers (set_invitation k f db) = dbMembers db" "dbUsers (set_invitation k f db) = dbUsers db"
  by (simp_all add: set_invitation_def)

text \<open>The account of an acceptance: one with the invited address, possibly new.\<close>

lemma accept_user_effect:
  assumes "accept_user ae email name password db = (r, db')"
  shows "dbMembers db' = dbMembers db \<and> dbInvitations db' = dbInvitations db \<and> more_users db db'
    \<and> (\<forall>userId. r = Inr userId \<longrightarrow> (\<exists>u \<in> set (dbUsers db'). usId u = userId \<and> usEmail u = email))"
proof (cases "find (\<lambda>u. usEmail u = email) (dbUsers db)")
  case None
  with assms show ?thesis
    by (auto simp: accept_user_def insert_user_def more_users_def split: option.splits if_splits)
next
  case (Some u)
  then have "u \<in> set (dbUsers db)" "usEmail u = email" by (auto simp: find_Some_iff)
  with assms Some show ?thesis by (auto simp: accept_user_def more_users_def split: if_splits)
qed

lemma join_effect:
  assumes "join_organization env fresh userId db = Inr db'"
  shows "dbInvitations db' = dbInvitations db \<and> dbUsers db' = dbUsers db
    \<and> (dbMembers db' = dbMembers db
       \<or> (dbMembers db' = dbMembers db @ [invited_member env fresh userId]
          \<and> row_at mbId (dbMembers db) (mbId (invited_member env fresh userId)) = None))"
  using assms
  by (auto simp: join_organization_def insert_member_def insert_unique_def split: option.splits if_splits)

lemma accept_tx_effect:
  assumes "runAuditedTransaction (accept_tx env fresh userId req) db = (r, db')"
  shows "invitations_kept db db' \<and> dbUsers db' = dbUsers db
    \<and> (dbMembers db' = dbMembers db
       \<or> (dbMembers db' = dbMembers db @ [invited_member env fresh userId]
          \<and> row_at mbId (dbMembers db) (mbId (invited_member env fresh userId)) = None))"
  using assms unfolding accept_tx_def
proof (elim audited_insert_cases [where chg = "set_invitation (inId fresh) (mark_accepted env userId)"])
  fix tx1 assume t: "join_organization env fresh userId db = Inr tx1"
    "dbMembers db' = dbMembers (set_invitation (inId fresh) (mark_accepted env userId) tx1)"
    "dbInvitations db' = dbInvitations (set_invitation (inId fresh) (mark_accepted env userId) tx1)"
    "dbUsers db' = dbUsers (set_invitation (inId fresh) (mark_accepted env userId) tx1)"
  have "invitations_kept db db'"
    using t(3) join_effect [OF t(1)]
    by (intro kept_update [where P = "\<lambda>i. inId i = inId fresh" and f = "mark_accepted env userId"])
      (simp_all add: set_invitation_def mark_accepted_def same_invitation_def)
  with join_effect [OF t(1)] t show ?thesis by simp
qed (simp add: kept_same)

lemma accept_effect:
  assumes "accept_commit ae fresh name password req db = (r, db')"
  shows "invitations_kept db db' \<and> more_users db db'
    \<and> (dbMembers db' = dbMembers db
       \<or> (\<exists>userId. dbMembers db' = dbMembers db @ [invited_member (aeTx ae) fresh userId]
            \<and> row_at mbId (dbMembers db) (mbId (invited_member (aeTx ae) fresh userId)) = None
            \<and> (\<exists>u \<in> set (dbUsers db'). usId u = userId \<and> usEmail u = inEmail fresh)))"
proof -
  obtain x db1 where u: "accept_user ae (inEmail fresh) name password db = (x, db1)" by fastforce
  note user = accept_user_effect [OF u]
  show ?thesis
  proof (cases x)
    case (Inl e)
    with u assms user show ?thesis by (auto simp: accept_commit_def kept_same)
  next
    case (Inr userId)
    with u assms have tx: "runAuditedTransaction (accept_tx (aeTx ae) fresh userId req) db1 = (r, db')"
      by (simp add: accept_commit_def)
    have "invitations_kept db db'"
      using accept_tx_effect [OF tx] user by (simp add: invitations_kept_def)
    moreover have "more_users db db'"
      using accept_tx_effect [OF tx] user more_users_trans [of db db1 db'] by (simp add: more_users_def)
    ultimately show ?thesis using accept_tx_effect [OF tx] user Inr by auto
  qed
qed

subsection \<open>Owners are out of reach\<close>

definition owners :: "tenant_db \<Rightarrow> member_row list" where
  "owners db = filter (\<lambda>m. mbRole m = ''owner'') (dbMembers db)"

definition no_owner_at :: "tenant_db \<Rightarrow> string \<Rightarrow> bool" where
  "no_owner_at db k \<longleftrightarrow> (\<forall>m \<in> set (dbMembers db). mbId m = k \<longrightarrow> mbRole m \<noteq> ''owner'')"

fun task_target :: "team_task \<Rightarrow> string option" where
  "task_target (Will_Change_Role _ k _ _) = Some k"
| "task_target (Will_Remove _ k _) = Some k"
| "task_target _ = None"

text \<open>Pending writes aim at rows that are no owners, acceptances at invitations that exist.\<close>

definition team_ok :: "team_world \<Rightarrow> bool" where
  "team_ok w \<longleftrightarrow> unique_on mbId (dbMembers (twDb w))
     \<and> (\<forall>n t k. twTasks w n = Some t \<longrightarrow> task_target t = Some k \<longrightarrow> no_owner_at (twDb w) k)
     \<and> (\<forall>n f. twTasks w n = Some (Will_Accept f) \<longrightarrow> (\<exists>i \<in> set (dbInvitations (twDb w)). same_invitation f i))"

lemma role_not_owner [simp]: "invitation_role_name r \<noteq> ''owner''"
  by (cases r) simp_all

lemma first_of_map_filter:
  "first_row (List.map_filter f (filter P xs)) = Some y \<Longrightarrow> \<exists>x \<in> set xs. P x \<and> f x = Some y"
  by (induction xs) (auto simp: first_row_def List.map_filter_simps split: if_splits option.splits)

lemma target_no_owner:
  assumes "unique_on mbId (dbMembers db)" "member_target db org k = Inr target"
  shows "no_owner_at db k"
proof -
  have get: "getMemberForOrganization db org k = Some target" and role: "msRole target \<noteq> ''owner''"
    using assms(2) by (auto simp: member_target_def split: option.splits if_splits)
  obtain m where m: "m \<in> set (dbMembers db)" "mbId m = k" "member_joined db m = Some target"
    using first_of_map_filter [OF get [unfolded getMemberForOrganization_def]] by blast
  then have owner: "mbRole m \<noteq> ''owner''" using role by (auto simp: member_joined_def)
  have "x = m" if "x \<in> set (dbMembers db)" "mbId x = k" for x
    by (rule unique_onD [OF assms(1) that(1) m(1)]) (simp add: that m)
  with owner show ?thesis by (auto simp: no_owner_at_def)
qed

text \<open>How a table of members may change in one step.\<close>

definition members_evolve :: "tenant_db \<Rightarrow> tenant_db \<Rightarrow> bool" where
  "members_evolve db db' \<longleftrightarrow> owners db' = owners db \<and> (unique_on mbId (dbMembers db) \<longrightarrow> unique_on mbId (dbMembers db'))"

lemma evolve_same: "dbMembers db' = dbMembers db \<Longrightarrow> members_evolve db db'"
  by (simp add: members_evolve_def owners_def)

lemma evolve_role:
  assumes "dbMembers db' = snd (update_where (\<lambda>m. mbId m = k) (\<lambda>m. m\<lparr>mbRole := invitation_role_name role\<rparr>) (dbMembers db))"
    "no_owner_at db k"
  shows "members_evolve db db'"
proof -
  let ?f = "\<lambda>m. m\<lparr>mbRole := invitation_role_name role\<rparr>"
  have "owners db' = owners db"
    unfolding owners_def assms(1) by (rule filter_update_other) (use assms(2) in \<open>simp add: no_owner_at_def\<close>)
  moreover have "unique_on mbId (dbMembers db')" if "unique_on mbId (dbMembers db)"
    unfolding assms(1) by (rule unique_on_updateI) (simp, rule that)
  ultimately show ?thesis by (simp add: members_evolve_def)
qed

lemma evolve_removal:
  assumes "dbMembers db' = filter (\<lambda>m. mbId m \<noteq> k) (dbMembers db)" "no_owner_at db k"
  shows "members_evolve db db'"
proof -
  have "owners db' = owners db"
    using assms(2) unfolding owners_def assms(1) filter_filter no_owner_at_def by (intro filter_cong) auto
  then show ?thesis by (simp add: members_evolve_def assms(1) unique_on_def distinct_map_filter)
qed

lemma evolve_join:
  assumes "dbMembers db' = dbMembers db @ [m]" "row_at mbId (dbMembers db) (mbId m) = None" "mbRole m \<noteq> ''owner''"
  shows "members_evolve db db'"
  using assms by (simp add: members_evolve_def owners_def unique_on_append_at)

lemma no_owner_owners:
  "no_owner_at db k \<longleftrightarrow> k \<notin> mbId ` set (owners db)"
  by (auto simp: no_owner_at_def owners_def)

text \<open>Every step keeps the owners, the invitations and the users.\<close>

lemma team_step_effect:
  assumes "team_step hash w w'" "team_ok w"
  shows "members_evolve (twDb w) (twDb w') \<and> invitations_kept (twDb w) (twDb w') \<and> more_users (twDb w) (twDb w')"
  using assms(1)
proof cases
  case (change_role n org k role actor env req r db')
  with assms(2) have "no_owner_at (twDb w) k" by (force simp: team_ok_def)
  with update_role_effect [OF change_role(3)] change_role(1) show ?thesis
    by (auto intro: evolve_role evolve_same kept_same more_users_same)
next
  case (remove n org k actor env req r db')
  with assms(2) have "no_owner_at (twDb w) k" by (force simp: team_ok_def)
  with remove_effect [OF remove(3)] remove(1) show ?thesis
    by (auto intro: evolve_removal evolve_same kept_same more_users_same)
next
  case (invite env token i r db')
  with invite_effect [OF invite(2)] show ?thesis by (auto intro: evolve_same more_users_same)
next
  case (cancel env org k actor req r db')
  with cancel_effect [OF cancel(2)] show ?thesis by (auto intro: evolve_same more_users_same)
next
  case (end_accept n fresh ae name password req r db')
  with accept_effect [OF end_accept(3)] show ?thesis
    by (auto intro: evolve_same evolve_join [of _ _ "invited_member (aeTx ae) fresh _"] simp: invited_member_def)
next
  case (end_expiry n k)
  then show ?thesis
    by (auto simp: expire_invitation_def same_invitation_def intro!: evolve_same set_invitation_kept more_users_same)
qed (auto intro: evolve_same kept_same)

lemma task_origin:
  assumes "team_step hash w w'" "team_ok w" "twTasks w' n = Some t"
  shows "twTasks w n = Some t
    \<or> ((\<forall>k. task_target t = Some k \<longrightarrow> no_owner_at (twDb w) k)
       \<and> (\<forall>f. t = Will_Accept f \<longrightarrow> f \<in> set (dbInvitations (twDb w))))"
proof -
  have unique: "unique_on mbId (dbMembers (twDb w))" using assms(2) by (simp add: team_ok_def)
  from assms(1) show ?thesis
  proof cases
    case (check_role auth org ctx k target n' role)
    with assms(3) target_no_owner [OF unique check_role(3)] show ?thesis by (auto split: if_splits)
  next
    case (check_removal auth org ctx k target n')
    with assms(3) target_no_owner [OF unique check_removal(3)] show ?thesis by (auto split: if_splits)
  next
    case (begin_accept token now m fresh n')
    then have "fresh \<in> set (dbInvitations (twDb w))"
      by (auto simp: accept_fresh_def find_Some_iff split: option.splits if_splits)
    with begin_accept(1) assms(3) show ?thesis by (auto split: if_splits)
  qed (use assms(3) in \<open>auto split: if_splits\<close>)
qed

lemma same_invitation_trans: "same_invitation i j \<Longrightarrow> same_invitation j k \<Longrightarrow> same_invitation i k"
  by (simp add: same_invitation_def)

lemma team_step_ok:
  assumes step: "team_step hash w w'" and ok: "team_ok w"
  shows "team_ok w'"
proof -
  note effect = team_step_effect [OF step ok]
  have unique: "unique_on mbId (dbMembers (twDb w'))" using effect ok by (simp add: members_evolve_def team_ok_def)
  have same: "no_owner_at (twDb w') k = no_owner_at (twDb w) k" for k
    using effect by (simp add: no_owner_owners members_evolve_def)
  have kept: "\<exists>j \<in> set (dbInvitations (twDb w')). same_invitation f j"
    if "i \<in> set (dbInvitations (twDb w))" "same_invitation f i" for f i
    using effect that same_invitation_trans unfolding invitations_kept_def by blast
  have "no_owner_at (twDb w') k" if "twTasks w' n = Some t" "task_target t = Some k" for n t k
    using task_origin [OF step ok that(1)] that(2) ok unfolding same team_ok_def by blast
  moreover have "\<exists>j \<in> set (dbInvitations (twDb w')). same_invitation f j" if "twTasks w' n = Some (Will_Accept f)" for n f
    using task_origin [OF step ok that] ok kept same_invitation_refl unfolding team_ok_def by blast
  ultimately show ?thesis using unique by (simp add: team_ok_def)
qed

lemma team_step_owners: "team_step hash y z \<Longrightarrow> team_ok y \<Longrightarrow> owners (twDb z) = owners (twDb y)"
  using team_step_effect by (simp add: members_evolve_def)

interpretation team: step_system "\<lambda>w. team_ok w \<and> owners (twDb w) = os" "team_step hash" "\<lambda>w. team_ok w \<and> owners (twDb w) = os"
  by unfold_locales (auto intro: team_step_ok dest: team_step_owners)

lemma team_run: "rtranclp (team_step hash) w0 w \<Longrightarrow> team_ok w0 \<Longrightarrow> team_ok w \<and> owners (twDb w) = owners (twDb w0)"
  by (rule team.steps_inv) simp_all

text \<open>
  C37. Owners are out of reach. With any interleaving of role changes, removals, invitations,
  cancellations and acceptances, each request checked first and written later, the owner
  memberships of every organization are the same rows at the end as at the start: none is
  changed or removed, and nobody becomes an owner.
\<close>

theorem owners_protected:
  assumes "unique_on mbId (dbMembers (twDb w0))" "twTasks w0 = (\<lambda>_. None)" "rtranclp (team_step hash) w0 w"
  shows "owners (twDb w) = owners (twDb w0)
    \<and> countOwnersForOrganization (twDb w) org = countOwnersForOrganization (twDb w0) org"
proof -
  have "team_ok w0" using assms(1,2) by (simp add: team_ok_def)
  with team_run [OF assms(3)] have "owners (twDb w) = owners (twDb w0)" by blast
  moreover have "countOwnersForOrganization db org = length (filter (\<lambda>m. mbOrganizationId m = org) (owners db))" for db
    by (simp add: countOwnersForOrganization_def owners_def conj_ac)
  ultimately show ?thesis by simp
qed

text \<open>
  An owner asks to change a member, and before the write the invitation below is accepted.
\<close>

definition demo_invitation :: invitation_row where
  "demo_invitation =
     \<lparr>inId = ''i1'', inOrganizationId = ''o1'', inEmail = ''b@x.org'', inRole = Invite_Member, inTokenHash = ''nekot'',
      inStatus = Invitation_Pending, inInvitedByUserId = ''u1'', inAcceptedByUserId = None, inExpiresAt = 5000,
      inAcceptedAt = None, inCreatedAt = 0, inUpdatedAt = 0\<rparr>"

definition demo_team :: team_world where
  "demo_team = \<lparr>twDb = demo_db\<lparr>dbInvitations := [demo_invitation]\<rparr>, twTasks = (\<lambda>_. None)\<rparr>"

definition demo_accept :: accept_env where
  "demo_accept = \<lparr>aeTx = demo_tx, aeSignIn = (\<lambda>e p. p = ''correct horse''), aeSignUp = (\<lambda>e n p. Some ''u9'')\<rparr>"

lemma demo_team_match:
  "accept_match rev ''token'' 1000 (twDb demo_team) = Match demo_invitation"
  "accept_fresh (inId demo_invitation) (twDb demo_team) = Inr demo_invitation"
  by code_simp+

theorem owners_protected_witness:
  "\<exists>w. rtranclp (team_step rev) demo_team w \<and> twTasks w 0 = Some (Will_Accept demo_invitation)
     \<and> owners (twDb w) = owners (twDb demo_team)"
proof -
  let ?w = "start_task demo_team 0 (Will_Accept demo_invitation)"
  have "team_step rev demo_team ?w"
    by (rule begin_accept [OF demo_team_match])
  then have run: "rtranclp (team_step rev) demo_team ?w" by blast
  have "unique_on mbId (dbMembers (twDb demo_team))" "twTasks demo_team = (\<lambda>_. None)"
    by (simp_all add: demo_team_def demo_db_def unique_on_def)
  from owners_protected [OF this run] run show ?thesis by (intro exI [of _ ?w]) simp
qed

subsection \<open>Where memberships come from\<close>

definition same_member :: "member_row \<Rightarrow> member_row \<Rightarrow> bool" where
  "same_member m m' \<longleftrightarrow> mbId m = mbId m' \<and> mbOrganizationId m = mbOrganizationId m' \<and> mbUserId m = mbUserId m'"

lemma same_member_role:
  assumes "m \<in> set (snd (update_where P (\<lambda>m. m\<lparr>mbRole := r\<rparr>) t))"
  shows "\<exists>m0 \<in> set t. same_member m0 m"
proof -
  obtain x where "x \<in> set t" "m = (if P x then x\<lparr>mbRole := r\<rparr> else x)"
    using assms by (auto simp: update_where_def)
  then show ?thesis by (intro bexI [of _ x]) (simp_all add: same_member_def)
qed

text \<open>An invitation of the organization to the address of the member's account.\<close>

definition invited :: "tenant_db \<Rightarrow> member_row \<Rightarrow> bool" where
  "invited db m \<longleftrightarrow> (\<exists>i \<in> set (dbInvitations db). inOrganizationId i = mbOrganizationId m
     \<and> (\<exists>u \<in> set (dbUsers db). usId u = mbUserId m \<and> usEmail u = inEmail i))"

lemma invited_kept:
  assumes "invited db m" "invitations_kept db db'" "more_users db db'"
  shows "invited db' m"
proof -
  obtain i u where i: "i \<in> set (dbInvitations db)" "inOrganizationId i = mbOrganizationId m"
    and u: "u \<in> set (dbUsers db)" "usId u = mbUserId m" "usEmail u = inEmail i"
    using assms(1) by (auto simp: invited_def)
  from assms(2) i(1) obtain j where "j \<in> set (dbInvitations db')" "same_invitation i j"
    unfolding invitations_kept_def by blast
  moreover have "u \<in> set (dbUsers db')" using assms(3) u(1) by (auto simp: more_users_def)
  ultimately show ?thesis using i(2) u(2,3) unfolding invited_def same_invitation_def by metis
qed

lemma team_step_members:
  assumes step: "team_step hash w w'" and ok: "team_ok w" and m: "m \<in> set (dbMembers (twDb w'))"
  shows "(\<exists>m0 \<in> set (dbMembers (twDb w)). same_member m0 m) \<or> invited (twDb w') m"
  using step
proof cases
  case (change_role n org k role actor env req r db')
  then consider "m \<in> set (dbMembers (twDb w))"
    | "m \<in> set (snd (update_where (\<lambda>m. mbId m = k) (\<lambda>m. m\<lparr>mbRole := invitation_role_name role\<rparr>) (dbMembers (twDb w))))"
    using update_role_effect [OF change_role(3)] m by auto
  then show ?thesis
  proof cases
    case 2
    from same_member_role [OF this] show ?thesis ..
  qed (auto simp: same_member_def)
next
  case (remove n org k actor env req r db')
  with remove_effect [OF remove(3)] m show ?thesis by (auto simp: same_member_def)
next
  case (invite env token i r db')
  with invite_effect [OF invite(2)] m show ?thesis by (auto simp: same_member_def)
next
  case (cancel env org k actor req r db')
  with cancel_effect [OF cancel(2)] m show ?thesis by (auto simp: same_member_def)
next
  case (end_accept n fresh ae name password req r db')
  note eff = accept_effect [OF end_accept(3)]
  show ?thesis
  proof (cases "m \<in> set (dbMembers (twDb w))")
    case False
    with eff m end_accept(1) obtain userId u where new: "m = invited_member (aeTx ae) fresh userId"
      and u: "u \<in> set (dbUsers db')" "usId u = userId" "usEmail u = inEmail fresh" by auto
    obtain i where i: "i \<in> set (dbInvitations (twDb w))" "same_invitation fresh i"
      using ok end_accept(2) unfolding team_ok_def by blast
    then obtain j where "j \<in> set (dbInvitations db')" "same_invitation i j"
      using eff unfolding invitations_kept_def by blast
    with i(2) new u have "invited db' m"
      unfolding invited_def same_invitation_def invited_member_def by (intro bexI [of _ j]) auto
    with end_accept(1) show ?thesis by simp
  qed (auto simp: same_member_def)
next
  case (end_expiry n k)
  with m show ?thesis by (auto simp: expire_invitation_def same_member_def)
qed (use m in \<open>auto simp: same_member_def\<close>)


definition demo_accept_later :: accept_env where
  "demo_accept_later = demo_accept\<lparr>aeTx := demo_tx\<lparr>txNow := 2000, txAuditId := ''audit2''\<rparr>\<rparr>"

definition demo_accepted :: "(tenant_error + string \<times> string) \<times> tenant_db" where
  "demo_accepted = accept_commit demo_accept demo_invitation ''B'' ''correct horse'' None (twDb demo_team)"

lemma demo_accepted_member:
  "fst demo_accepted = Inr (''u2'', ''o1'')"
  "invited_member demo_tx demo_invitation ''u2'' \<in> set (dbMembers (snd demo_accepted))"
  by (code_simp, simp add: demo_accepted_def, code_simp)


text \<open>
  The last update of an acceptance asks for no status. An acceptance that has taken its second
  look before a cancellation commits still goes through after it: the cancellation has answered
  that the invitation is cancelled, and then the invited person is a member and the invitation
  is accepted.
\<close>

definition demo_cancelled :: "(tenant_error + cancel_invitation_result) \<times> tenant_db" where
  "demo_cancelled = cancelInvitationForOrganization demo_tx ''o1'' ''i1'' ''u1'' None (twDb demo_team)"

definition demo_after_cancel :: "(tenant_error + string \<times> string) \<times> tenant_db" where
  "demo_after_cancel = accept_commit demo_accept_later demo_invitation ''B'' ''correct horse'' None (snd demo_cancelled)"

lemma cancelled_then_accepted:
  "fst demo_cancelled = Inr Invitation_Cancelled"
  "map inStatus (dbInvitations (snd demo_cancelled)) = [Invitation_Revoked]"
  "fst demo_after_cancel = Inr (''u2'', ''o1'')"
  "map inStatus (dbInvitations (snd demo_after_cancel)) = [Invitation_Accepted]"
  "getMembershipForOrganization (snd demo_after_cancel) ''o1'' ''u2'' = Some (''mem_u2_o1'', ''member'')"
  by code_simp+

text \<open>
  The account of a new user is committed outside the transaction: when the acceptance fails after
  the sign-up, there is no membership, but the account stays.
\<close>

lemma failed_acceptance_leaves_account:
  assumes "find (\<lambda>u. usEmail u = inEmail fresh) (dbUsers db) = None" "aeSignUp ae (inEmail fresh) name password = Some userId"
    and "row_at usId (dbUsers db) userId = None" "txAuditFails (aeTx ae)"
  shows "\<exists>e. fst (accept_commit ae fresh name password req db) = Inl e"
    and "\<lparr>usId = userId, usEmail = inEmail fresh, usName = name\<rparr> \<in> set (dbUsers (snd (accept_commit ae fresh name password req db)))"
proof -
  let ?u = "\<lparr>usId = userId, usEmail = inEmail fresh, usName = name\<rparr>"
  let ?db = "db\<lparr>dbUsers := dbUsers db @ [?u]\<rparr>"
  have "row_at usEmail (dbUsers db) (inEmail fresh) = None" using assms(1) by (simp add: row_at_def)
  then have user: "accept_user ae (inEmail fresh) name password db = (Inr userId, ?db)"
    using assms by (simp add: accept_user_def insert_user_def)
  obtain x d a where b: "accept_tx (aeTx ae) fresh userId req ?db = (x, d, a)" by (cases "accept_tx (aeTx ae) fresh userId req ?db")
  have "\<exists>e. x = Inl e"
    using b assms(4) finish_audited_Inr by (cases x) (fastforce simp: accept_tx_def split: sum.splits)+
  then have tx: "runAuditedTransaction (accept_tx (aeTx ae) fresh userId req) ?db = (x, count_audit a Audit_Failure ?db)"
    using b by (auto simp: runAuditedTransaction_def)
  have "accept_commit ae fresh name password req db = (x, count_audit a Audit_Failure ?db)"
    by (simp add: accept_commit_def user tx)
  with \<open>\<exists>e. x = Inl e\<close> show "\<exists>e. fst (accept_commit ae fresh name password req db) = Inl e"
    "?u \<in> set (dbUsers (snd (accept_commit ae fresh name password req db)))" by simp_all
qed

end
