(* ===== verification/Management.thy ===== *)
theory Management
  imports ApiKeys Memberships Domains
begin

section \<open>The management routes\<close>

text \<open>
  The handlers of src/routes/organizations.ts that are one request and one answer, behind the
  origin check that the plugin installs for all of them, with src/services/project-service.ts.
  The handlers that wait for the network (verify, discover-sitemaps, sitemap fetch) have theories
  of their own. What zod decides about numbers, UUIDs and email addresses is an argument.
\<close>

subsection \<open>Schemas\<close>

record management_env =
  mgTx :: tx_env
  mgCodec :: cursor_codec
  mgSecret :: string
  mgKeyHash :: "string \<Rightarrow> string"
  mgToken :: string
  mgTokenHash :: "string \<Rightarrow> string"
  mgIp :: ip_library
  mgToASCII :: "string \<Rightarrow> string option"
  mgParseUrl :: "string \<Rightarrow> url option"
  mgIsEmail :: "string \<Rightarrow> bool"
  mgIsUuid :: "string \<Rightarrow> bool"
  mgCoerceInt :: "json \<Rightarrow> int option"

definition mg_key_env :: "management_env \<Rightarrow> key_env" where
  "mg_key_env env = \<lparr>keTx = mgTx env, keSecret = mgSecret env, keHash = mgKeyHash env\<rparr>"

definition mg_domain_env :: "management_env \<Rightarrow> domain_env" where
  "mg_domain_env env =
     \<lparr>deTx = mgTx env, deToken = mgToken env, deHash = mgTokenHash env, deIp = mgIp env, deToASCII = mgToASCII env\<rparr>"

text \<open>\<open>z.coerce.number().int().min(lo).max(hi)\<close>\<close>

definition z_int :: "management_env \<Rightarrow> int \<Rightarrow> int \<Rightarrow> json option \<Rightarrow> int option" where
  "z_int env lo hi j =
     (case j of None \<Rightarrow> None
      | Some v \<Rightarrow> (case mgCoerceInt env v of Some n \<Rightarrow> (if lo \<le> n \<and> n \<le> hi then Some n else None) | None \<Rightarrow> None))"

definition z_default :: "'a \<Rightarrow> (json option \<Rightarrow> 'a option) \<Rightarrow> json option \<Rightarrow> 'a option" where
  "z_default d p j = (case j of None \<Rightarrow> Some d | Some _ \<Rightarrow> p j)"

definition z_uuid :: "management_env \<Rightarrow> json option \<Rightarrow> string option" where
  "z_uuid env j = (case j of Some (Json_String s) \<Rightarrow> (if mgIsUuid env s then Some s else None) | _ \<Rightarrow> None)"

record create_project_body =
  pbName :: string
  pbSlug :: "string option"

definition createProjectSchema :: "json \<Rightarrow> create_project_body option" where
  "createProjectSchema body =
     (case (z_string 1 200 (json_field body ''name''), z_optional (z_string 1 200) (json_field body ''slug'')) of
        (Some name, Some slug) \<Rightarrow> (if is_object body then Some \<lparr>pbName = name, pbSlug = slug\<rparr> else None)
      | _ \<Rightarrow> None)"

definition project_status_enum :: "(string \<times> project_status) list" where
  "project_status_enum = [(''active'', Project_Active), (''suspended'', Project_Suspended), (''deleted'', Project_Deleted)]"

definition updateProjectSchema :: "json \<Rightarrow> update_project_input option" where
  "updateProjectSchema body =
     (case (z_optional (z_string 1 200) (json_field body ''name''), z_optional (z_string 1 200) (json_field body ''slug''),
            z_optional (z_enum project_status_enum) (json_field body ''status'')) of
        (Some name, Some slug, Some status) \<Rightarrow>
          (if is_object body then Some \<lparr>upName = name, upSlug = slug, upStatus = status\<rparr> else None)
      | _ \<Rightarrow> None)"

definition verification_method_enum :: "(string \<times> verification_method) list" where
  "verification_method_enum = [(''dns_txt'', Dns_Txt), (''html_file'', Html_File)]"

definition createDomainSchema :: "json \<Rightarrow> (string \<times> verification_method) option" where
  "createDomainSchema body =
     (case (z_string 1 253 (json_field body ''hostname''), z_enum verification_method_enum (json_field body ''verificationMethod'')) of
        (Some hostname, Some vmethod) \<Rightarrow> Some (hostname, vmethod)
      | _ \<Rightarrow> None)"

definition createApiKeySchema :: "management_env \<Rightarrow> json \<Rightarrow> (string \<times> int option) option" where
  "createApiKeySchema env body =
     (case (z_string 1 100 (json_field body ''name''), z_optional (z_int env 1 365) (json_field body ''expiresInDays'')) of
        (Some name, Some days) \<Rightarrow> Some (name, days)
      | _ \<Rightarrow> None)"

definition listQuerySchema :: "management_env \<Rightarrow> json \<Rightarrow> list_options option" where
  "listQuerySchema env q =
     (case (z_default 20 (z_int env 1 100) (json_field q ''limit''), z_optional (z_uuid env) (json_field q ''cursor'')) of
        (Some limit, Some cursor) \<Rightarrow> (if is_object q then Some \<lparr>loLimit = nat limit, loCursor = cursor\<rparr> else None)
      | _ \<Rightarrow> None)"

definition AUDIT_TARGET_TYPES :: "string list" where
  "AUDIT_TARGET_TYPES = [''api_key'', ''invitation'', ''member'', ''project'', ''domain'', ''sitemap_source'']"

definition audit_action_enum :: "(string \<times> audit_action) list" where
  "audit_action_enum =
     [(''auth.login.success'', Auth_Login_Success), (''auth.login.failure'', Auth_Login_Failure), (''auth.logout'', Auth_Logout),
      (''organization.invitation.created'', Organization_Invitation_Created),
      (''organization.invitation.accepted'', Organization_Invitation_Accepted),
      (''organization.member.role_changed'', Organization_Member_Role_Changed),
      (''project.created'', Project_Created), (''project.updated'', Project_Updated), (''project.deleted'', Project_Deleted_Action),
      (''domain.created'', Domain_Created), (''domain.verification.attempted'', Domain_Verification_Attempted),
      (''domain.verification.succeeded'', Domain_Verification_Succeeded),
      (''domain.verification.failed'', Domain_Verification_Failed),
      (''api_key.created'', Api_Key_Created), (''api_key.rotated'', Api_Key_Rotated), (''api_key.revoked'', Api_Key_Revoked),
      (''render.authorization_rejected'', Render_Authorization_Rejected),
      (''organization.invitation.cancelled'', Organization_Invitation_Cancelled),
      (''organization.member.removed'', Organization_Member_Removed),
      (''domain.verification_token.rotated'', Domain_Verification_Token_Rotated),
      (''sitemap.discovery.started'', Sitemap_Discovery_Started), (''sitemap.discovery.completed'', Sitemap_Discovery_Completed),
      (''sitemap.discovery.failed'', Sitemap_Discovery_Failed), (''sitemap.fetch.started'', Sitemap_Fetch_Started),
      (''sitemap.fetch.completed'', Sitemap_Fetch_Completed), (''sitemap.fetch.failed'', Sitemap_Fetch_Failed)]"

definition audit_result_enum :: "(string \<times> audit_result) list" where
  "audit_result_enum = [(''success'', Audit_Success), (''failure'', Audit_Failure)]"

text \<open>The parsed query, for an organization that the handler fills in.\<close>

definition listAuditEventsQuerySchema :: "management_env \<Rightarrow> string \<Rightarrow> json \<Rightarrow> list_audit_input option" where
  "listAuditEventsQuerySchema env organizationId q =
     (case z_default 20 (z_int env 1 100) (json_field q ''limit'') of
        None \<Rightarrow> None
      | Some limit \<Rightarrow>
          (case (z_optional (z_string 1 200) (json_field q ''cursor''),
                 z_optional (z_enum audit_action_enum) (json_field q ''action''),
                 z_optional (z_enum audit_result_enum) (json_field q ''result''),
                 z_optional (z_enum (map (\<lambda>t. (t, t)) AUDIT_TARGET_TYPES)) (json_field q ''targetType'')) of
             (Some cursor, Some action, Some res, Some targetType) \<Rightarrow>
               (if is_object q
                then Some \<lparr>laOrganizationId = organizationId, laLimit = Some limit, laCursor = cursor, laAction = action,
                           laResult = res, laTargetType = targetType\<rparr>
                else None)
           | _ \<Rightarrow> None))"

subsection \<open>Bodies of the answers\<close>

record organization_item =
  oiId :: string
  oiName :: string
  oiSlug :: string
  oiRole :: string

record audit_item =
  aiId :: string
  aiAction :: audit_action
  aiResult :: audit_result
  aiActorType :: actor_type
  aiActor :: actor_fields
  aiTargetType :: string
  aiTargetId :: "string option"
  aiErrorCode :: "string option"
  aiRequestId :: "string option"
  aiMetadata :: "(string \<times> meta_value) list"
  aiCreatedAt :: time_ms

record source_item =
  siId :: string
  siDomainId :: string
  siUrl :: string
  siType :: sitemap_source_type
  siStatus :: sitemap_source_status
  siDiscoveredUrlCount :: int

datatype management_body =
    Organizations_Body "organization_item list"
  | Organization_Body organization_item
  | Members_Body "member_summary list"
  | Audit_Body "audit_item list" "string option"
  | Project_Body project_row
  | Projects_Body "project_row page_result"
  | Domain_Body public_domain
  | Domains_Body "public_domain list" "string option"
  | Domain_Token_Body public_domain verification_instructions string
  | Invitation_Body create_invitation_result
  | Invitations_Body "invitation_summary list"
  | Member_Body member_summary
  | Source_Body source_item
  | Key_Body key_summary string
  | Keys_Body "key_summary list"
  | Status_Body

subsection \<open>Handlers\<close>

definition organization_item_of :: "tenant_db \<Rightarrow> member_row \<Rightarrow> organization_item option" where
  "organization_item_of db m =
     map_option (\<lambda>r. \<lparr>oiId = ogId r, oiName = ogName r, oiSlug = ogSlug r, oiRole = mbRole m\<rparr>)
       (find (\<lambda>r. ogId r = mbOrganizationId m) (dbOrganizations db))"

definition get_organizations :: "auth_session \<Rightarrow> tenant_db \<Rightarrow> management_body reply" where
  "get_organizations auth db =
     (case requireSession auth of
        Inl e \<Rightarrow> sendAppError (App e)
      | Inr s \<Rightarrow> Reply 200 (Organizations_Body
          (List.map_filter (organization_item_of db) (filter (\<lambda>m. mbUserId m = scUserId s) (dbMembers db)))))"

definition get_organization :: "tenant_context \<Rightarrow> tenant_db \<Rightarrow> management_body reply" where
  "get_organization ctx db =
     (case find (\<lambda>r. ogId r = tcOrganizationId ctx) (dbOrganizations db) of
        None \<Rightarrow> App_Reply ORGANIZATION_NOT_FOUND
      | Some r \<Rightarrow> Reply 200 (Organization_Body \<lparr>oiId = ogId r, oiName = ogName r, oiSlug = ogSlug r, oiRole = tcRole ctx\<rparr>))"

text \<open>A row with two actors is left out.\<close>

definition audit_item_of :: "audit_event \<Rightarrow> audit_item option" where
  "audit_item_of row =
     map_option (\<lambda>t. \<lparr>aiId = aeId row, aiAction = aeAction row, aiResult = aeResult row, aiActorType = t,
        aiActor = aeActor row, aiTargetType = aeTargetType row, aiTargetId = aeTargetId row,
        aiErrorCode = aeErrorCode row, aiRequestId = aeRequestId row,
        aiMetadata = sanitizeStoredMetadata (case_option No_Object Object_Entries (aeMetadata row)),
        aiCreatedAt = aeCreatedAtMicros row div 1000\<rparr>)
       (deriveActorType (aeActor row))"

definition get_audit_events :: "management_env \<Rightarrow> tenant_context \<Rightarrow> json \<Rightarrow> tenant_db \<Rightarrow> management_body reply" where
  "get_audit_events env ctx q db =
     (case listAuditEventsQuerySchema env (tcOrganizationId ctx) q of
        None \<Rightarrow> invalid_request
      | Some i \<Rightarrow>
          (case audit_list (mgCodec env) (dbAudit db) i of
             None \<Rightarrow> Error_Reply 400 ''invalid_cursor''
           | Some page \<Rightarrow> Reply 200 (Audit_Body (List.map_filter audit_item_of (pgItems page)) (pgNextCursor page))))"

definition createProject ::
  "tx_env \<Rightarrow> string \<Rightarrow> create_project_body \<Rightarrow> string \<Rightarrow> string option \<Rightarrow> tenant_db \<Rightarrow> (tenant_error + project_row) \<times> tenant_db" where
  "createProject env organizationId b actor requestId db =
     createProjectForOrganization env organizationId
       \<lparr>cpName = pbName b,
        cpSlug = (case pbSlug b of Some s \<Rightarrow> (if s \<noteq> [] then js_lower s else slugFromName (pbName b))
                  | None \<Rightarrow> slugFromName (pbName b))\<rparr> actor requestId db"

definition or_not_found :: "app_error_code \<Rightarrow> ('a \<Rightarrow> management_body) \<Rightarrow> 'a option \<Rightarrow> management_body reply" where
  "or_not_found code f r = (case r of None \<Rightarrow> App_Reply code | Some x \<Rightarrow> Reply 200 (f x))"

definition post_domain ::
  "management_env \<Rightarrow> tenant_context \<Rightarrow> string \<Rightarrow> string \<times> verification_method \<Rightarrow> string option \<Rightarrow> tenant_db
     \<Rightarrow> management_body reply \<times> tenant_db" where
  "post_domain env ctx projectId b requestId db =
     (case getProjectForOrganization db (tcOrganizationId ctx) projectId of
        None \<Rightarrow> (App_Reply PROJECT_NOT_FOUND, db)
      | Some project \<Rightarrow>
          reply_of (\<lambda>r. Reply 201 (Domain_Token_Body (toPublicDomain (drDomain r)) (drVerification r) (drPlaintextToken r)))
            (createDomain (mg_domain_env env) (tcOrganizationId ctx) (pjId project) (fst b) (snd b) (context_user ctx) requestId db))"

definition get_domains :: "management_env \<Rightarrow> tenant_context \<Rightarrow> string \<Rightarrow> list_options \<Rightarrow> tenant_db \<Rightarrow> management_body reply" where
  "get_domains env ctx projectId options db =
     (case getProjectForOrganization db (tcOrganizationId ctx) projectId of
        None \<Rightarrow> App_Reply PROJECT_NOT_FOUND
      | Some project \<Rightarrow>
          (let page = listDomainsForOrganizationProject db (tcOrganizationId ctx) (pjId project) options
           in Reply 200 (Domains_Body (map toPublicDomain (prItems page)) (prNextCursor page))))"

definition source_item_of :: "sitemap_source_row \<Rightarrow> source_item" where
  "source_item_of s =
     \<lparr>siId = ssId s, siDomainId = ssDomainId s, siUrl = ssUrl s, siType = ssType s, siStatus = ssStatus s,
      siDiscoveredUrlCount = ssDiscoveredUrlCount s\<rparr>"

fun revoke_reply :: "revoke_result \<Rightarrow> management_body reply" where
  "revoke_reply Revoke_Not_Found = App_Reply API_KEY_NOT_FOUND"
| "revoke_reply Revoke_Already_Revoked = Error_Reply 409 ''API_KEY_REVOKED''"
| "revoke_reply Revoked = Reply 200 Status_Body"

definition rotate_reply :: "rotate_result \<Rightarrow> management_body reply" where
  "rotate_reply r =
     (case r of
        Rotated s key \<Rightarrow> Reply 201 (Key_Body s key)
      | Not_Rotated out \<Rightarrow>
          (if out = Key_Not_Found then App_Reply API_KEY_NOT_FOUND
           else if out = Key_Expired then Error_Reply 409 ''API_KEY_EXPIRED''
           else Error_Reply 409 ''API_KEY_REVOKED''))"

subsection \<open>The plugin\<close>

datatype management_route =
    Get_Organizations
  | Get_Organization
  | Get_Members
  | Get_Audit_Events json
  | Post_Project json
  | Get_Projects json
  | Get_Project string
  | Patch_Project string json
  | Delete_Project_Route string
  | Post_Domain string json
  | Get_Domains string json
  | Get_Domain string
  | Post_Rotate_Token string
  | Post_Invitation json
  | Get_Invitations
  | Delete_Invitation string
  | Patch_Member string json
  | Delete_Member string
  | Get_Source string
  | Post_Key string json
  | Get_Keys string
  | Delete_Key string string
  | Post_Rotate_Key string string

fun route_method :: "management_route \<Rightarrow> string" where
  "route_method (Post_Project _) = ''POST''"
| "route_method (Patch_Project _ _) = ''PATCH''"
| "route_method (Delete_Project_Route _) = ''DELETE''"
| "route_method (Post_Domain _ _) = ''POST''"
| "route_method (Post_Rotate_Token _) = ''POST''"
| "route_method (Post_Invitation _) = ''POST''"
| "route_method (Delete_Invitation _) = ''DELETE''"
| "route_method (Patch_Member _ _) = ''PATCH''"
| "route_method (Delete_Member _) = ''DELETE''"
| "route_method (Post_Key _ _) = ''POST''"
| "route_method (Delete_Key _ _) = ''DELETE''"
| "route_method (Post_Rotate_Key _ _) = ''POST''"
| "route_method _ = ''GET''"

record management_request =
  mrOrigin :: "string option"
  mrSession :: auth_session
  mrOrganizationId :: string
  mrRequestId :: "string option"

text \<open>Replies of handlers modelled elsewhere, in the common type.\<close>

fun map_reply :: "('a \<Rightarrow> 'b) \<Rightarrow> 'a reply \<Rightarrow> 'b reply" where
  "map_reply f (Reply s x) = Reply s (f x)"
| "map_reply f (Error_Reply s c) = Error_Reply s c"
| "map_reply f (App_Reply c) = App_Reply c"
| "map_reply f (Thrown e) = Thrown e"

definition reading :: "tenant_db \<Rightarrow> management_body reply \<Rightarrow> management_body reply \<times> tenant_db" where
  "reading db r = (r, db)"

definition organization_handler ::
  "management_env \<Rightarrow> management_request \<Rightarrow> tenant_db \<Rightarrow> management_body reply \<times> tenant_db" where
  "organization_handler env rq db =
     with_permission (mrSession rq) organization_read (mrOrganizationId rq) db (\<lambda>ctx. reading db (get_organization ctx db))"

definition members_handler ::
  "management_env \<Rightarrow> management_request \<Rightarrow> tenant_db \<Rightarrow> management_body reply \<times> tenant_db" where
  "members_handler env rq db =
     with_permission (mrSession rq) member_list (mrOrganizationId rq) db (\<lambda>ctx.
       reading db (Reply 200 (Members_Body (listMembersForOrganization db (mrOrganizationId rq)))))"

definition audit_events_handler ::
  "management_env \<Rightarrow> management_request \<Rightarrow> json \<Rightarrow> tenant_db \<Rightarrow> management_body reply \<times> tenant_db" where
  "audit_events_handler env rq q db =
     with_permission (mrSession rq) audit_read (mrOrganizationId rq) db (\<lambda>ctx. reading db (get_audit_events env ctx q db))"

definition create_project_handler ::
  "management_env \<Rightarrow> management_request \<Rightarrow> json \<Rightarrow> tenant_db \<Rightarrow> management_body reply \<times> tenant_db" where
  "create_project_handler env rq body db =
     with_permission (mrSession rq) project_create (mrOrganizationId rq) db (\<lambda>ctx.
       with_body (createProjectSchema body) db (\<lambda>b.
         reply_of (\<lambda>p. Reply 201 (Project_Body p))
           (createProject (mgTx env) (tcOrganizationId ctx) b (context_user ctx) (mrRequestId rq) db)))"

definition projects_handler ::
  "management_env \<Rightarrow> management_request \<Rightarrow> json \<Rightarrow> tenant_db \<Rightarrow> management_body reply \<times> tenant_db" where
  "projects_handler env rq q db =
     with_permission (mrSession rq) project_read (mrOrganizationId rq) db (\<lambda>ctx.
       with_body (listQuerySchema env q) db (\<lambda>options.
         reading db (Reply 200 (Projects_Body (listProjectsForOrganization db (tcOrganizationId ctx) options)))))"

definition project_handler ::
  "management_env \<Rightarrow> management_request \<Rightarrow> string \<Rightarrow> tenant_db \<Rightarrow> management_body reply \<times> tenant_db" where
  "project_handler env rq p db =
     with_permission (mrSession rq) project_read (mrOrganizationId rq) db (\<lambda>ctx.
       reading db (or_not_found PROJECT_NOT_FOUND Project_Body (getProjectForOrganization db (tcOrganizationId ctx) p)))"

definition update_project_handler ::
  "management_env \<Rightarrow> management_request \<Rightarrow> string \<Rightarrow> json \<Rightarrow> tenant_db \<Rightarrow> management_body reply \<times> tenant_db" where
  "update_project_handler env rq p body db =
     with_permission (mrSession rq) project_update (mrOrganizationId rq) db (\<lambda>ctx.
       with_body (updateProjectSchema body) db (\<lambda>b.
         reply_of (or_not_found PROJECT_NOT_FOUND Project_Body)
           (updateProjectForOrganization (mgTx env) (tcOrganizationId ctx) p b (context_user ctx) (mrRequestId rq) db)))"

definition delete_project_handler ::
  "management_env \<Rightarrow> management_request \<Rightarrow> string \<Rightarrow> tenant_db \<Rightarrow> management_body reply \<times> tenant_db" where
  "delete_project_handler env rq p db =
     with_permission (mrSession rq) project_delete (mrOrganizationId rq) db (\<lambda>ctx.
       reply_of (or_not_found PROJECT_NOT_FOUND Project_Body)
         (softDeleteProjectForOrganization (mgTx env) (tcOrganizationId ctx) p (context_user ctx) (mrRequestId rq) db))"

definition create_domain_handler ::
  "management_env \<Rightarrow> management_request \<Rightarrow> string \<Rightarrow> json \<Rightarrow> tenant_db \<Rightarrow> management_body reply \<times> tenant_db" where
  "create_domain_handler env rq p body db =
     with_permission (mrSession rq) domain_create (mrOrganizationId rq) db (\<lambda>ctx.
       with_body (createDomainSchema body) db (\<lambda>b. post_domain env ctx p b (mrRequestId rq) db))"

definition domains_handler ::
  "management_env \<Rightarrow> management_request \<Rightarrow> string \<Rightarrow> json \<Rightarrow> tenant_db \<Rightarrow> management_body reply \<times> tenant_db" where
  "domains_handler env rq p q db =
     with_permission (mrSession rq) domain_read (mrOrganizationId rq) db (\<lambda>ctx.
       with_body (listQuerySchema env q) db (\<lambda>options. reading db (get_domains env ctx p options db)))"

definition domain_handler ::
  "management_env \<Rightarrow> management_request \<Rightarrow> string \<Rightarrow> tenant_db \<Rightarrow> management_body reply \<times> tenant_db" where
  "domain_handler env rq d db =
     with_permission (mrSession rq) domain_read (mrOrganizationId rq) db (\<lambda>ctx.
       reading db (or_not_found DOMAIN_NOT_FOUND (\<lambda>r. Domain_Body (toPublicDomain r))
         (getDomainForOrganization db (tcOrganizationId ctx) d)))"

definition rotate_token_handler ::
  "management_env \<Rightarrow> management_request \<Rightarrow> string \<Rightarrow> tenant_db \<Rightarrow> management_body reply \<times> tenant_db" where
  "rotate_token_handler env rq d db =
     with_permission (mrSession rq) domain_rotate_token (mrOrganizationId rq) db (\<lambda>ctx.
       reply_of (\<lambda>r. Reply 200 (Domain_Token_Body (toPublicDomain (drDomain r)) (drVerification r) (drPlaintextToken r)))
         (rotateToken (mg_domain_env env) (tcOrganizationId ctx) d (context_user ctx) (mrRequestId rq) db))"

definition invitations_handler ::
  "management_env \<Rightarrow> management_request \<Rightarrow> tenant_db \<Rightarrow> management_body reply \<times> tenant_db" where
  "invitations_handler env rq db =
     with_permission (mrSession rq) invitation_list (mrOrganizationId rq) db (\<lambda>ctx.
       reading db (Reply 200 (Invitations_Body (listInvitationsForOrganization db (tcOrganizationId ctx)))))"

definition source_handler ::
  "management_env \<Rightarrow> management_request \<Rightarrow> string \<Rightarrow> tenant_db \<Rightarrow> management_body reply \<times> tenant_db" where
  "source_handler env rq s db =
     with_permission (mrSession rq) sitemap_read (mrOrganizationId rq) db (\<lambda>ctx.
       reading db (or_not_found SITEMAP_SOURCE_NOT_FOUND (\<lambda>r. Source_Body (source_item_of r))
         (getSitemapSourceForOrganization db (tcOrganizationId ctx) s)))"

definition create_key_handler ::
  "management_env \<Rightarrow> management_request \<Rightarrow> string \<Rightarrow> json \<Rightarrow> tenant_db \<Rightarrow> management_body reply \<times> tenant_db" where
  "create_key_handler env rq p body db =
     with_permission (mrSession rq) api_key_create (mrOrganizationId rq) db (\<lambda>ctx.
       with_body (createApiKeySchema env body) db (\<lambda>b.
         reply_of (\<lambda>(s, key). Reply 201 (Key_Body s key))
           (createKey (mgCodec env) (mg_key_env env)
             \<lparr>cqOrganizationId = tcOrganizationId ctx, cqProjectId = p, cqName = fst b, cqExpiresInDays = snd b,
              cqCreatedByUserId = context_user ctx, cqRequestId = mrRequestId rq\<rparr> db)))"

definition keys_handler ::
  "management_env \<Rightarrow> management_request \<Rightarrow> string \<Rightarrow> tenant_db \<Rightarrow> management_body reply \<times> tenant_db" where
  "keys_handler env rq p db =
     with_permission (mrSession rq) api_key_list (mrOrganizationId rq) db (\<lambda>ctx.
       reading db (case listKeys (mgCodec env) (txNow (mgTx env)) db (tcOrganizationId ctx) p of
           Inl e \<Rightarrow> sendAppError e | Inr items \<Rightarrow> Reply 200 (Keys_Body items)))"

definition revoke_key_handler ::
  "management_env \<Rightarrow> management_request \<Rightarrow> string \<Rightarrow> string \<Rightarrow> tenant_db \<Rightarrow> management_body reply \<times> tenant_db" where
  "revoke_key_handler env rq p k db =
     with_permission (mrSession rq) api_key_revoke (mrOrganizationId rq) db (\<lambda>ctx.
       reply_of revoke_reply
         (revokeKey (mgCodec env) (mgTx env) (tcOrganizationId ctx) p k (context_user ctx) (mrRequestId rq) db))"

definition rotate_key_handler ::
  "management_env \<Rightarrow> management_request \<Rightarrow> string \<Rightarrow> string \<Rightarrow> tenant_db \<Rightarrow> management_body reply \<times> tenant_db" where
  "rotate_key_handler env rq p k db =
     with_permission (mrSession rq) api_key_rotate (mrOrganizationId rq) db (\<lambda>ctx.
       reply_of rotate_reply
         (rotateKey (mgCodec env) (mg_key_env env) (tcOrganizationId ctx) p k (context_user ctx) (mrRequestId rq) db))"

lemmas handler_defs =
  organization_handler_def members_handler_def audit_events_handler_def create_project_handler_def projects_handler_def project_handler_def update_project_handler_def delete_project_handler_def create_domain_handler_def domains_handler_def domain_handler_def rotate_token_handler_def invitations_handler_def source_handler_def create_key_handler_def keys_handler_def revoke_key_handler_def rotate_key_handler_def

fun handle_route ::
  "management_env \<Rightarrow> management_request \<Rightarrow> management_route \<Rightarrow> tenant_db \<Rightarrow> management_body reply \<times> tenant_db" where
  "handle_route env rq Get_Organizations db = reading db (get_organizations (mrSession rq) db)"
| "handle_route env rq Get_Organization db = organization_handler env rq db"
| "handle_route env rq Get_Members db = members_handler env rq db"
| "handle_route env rq (Get_Audit_Events q) db = audit_events_handler env rq q db"
| "handle_route env rq (Post_Project body) db = create_project_handler env rq body db"
| "handle_route env rq (Get_Projects q) db = projects_handler env rq q db"
| "handle_route env rq (Get_Project p) db = project_handler env rq p db"
| "handle_route env rq (Patch_Project p body) db = update_project_handler env rq p body db"
| "handle_route env rq (Delete_Project_Route p) db = delete_project_handler env rq p db"
| "handle_route env rq (Post_Domain p body) db = create_domain_handler env rq p body db"
| "handle_route env rq (Get_Domains p q) db = domains_handler env rq p q db"
| "handle_route env rq (Get_Domain d) db = domain_handler env rq d db"
| "handle_route env rq (Post_Rotate_Token d) db = rotate_token_handler env rq d db"
| "handle_route env rq (Post_Invitation body) db =
     apfst (map_reply Invitation_Body)
       (post_invitation (mgTx env) (mgTokenHash env) (mgToken env) (mgIsEmail env) (mrSession rq) (mrOrganizationId rq) body
         (mrRequestId rq) db)"
| "handle_route env rq Get_Invitations db = invitations_handler env rq db"
| "handle_route env rq (Delete_Invitation i) db = apfst (map_reply (\<lambda>_. Status_Body)) (delete_invitation (mgTx env) (mrSession rq) (mrOrganizationId rq) i (mrRequestId rq) db)"
| "handle_route env rq (Patch_Member m body) db = apfst (map_reply Member_Body) (patch_member (mgTx env) (mrSession rq) (mrOrganizationId rq) m body (mrRequestId rq) db)"
| "handle_route env rq (Delete_Member m) db = apfst (map_reply (\<lambda>_. Status_Body)) (delete_member (mgTx env) (mrSession rq) (mrOrganizationId rq) m (mrRequestId rq) db)"
| "handle_route env rq (Get_Source s) db = source_handler env rq s db"
| "handle_route env rq (Post_Key p body) db = create_key_handler env rq p body db"
| "handle_route env rq (Get_Keys p) db = keys_handler env rq p db"
| "handle_route env rq (Delete_Key p k) db = revoke_key_handler env rq p k db"
| "handle_route env rq (Post_Rotate_Key p k) db = rotate_key_handler env rq p k db"

text \<open>The origin check comes before every handler.\<close>

definition manage ::
  "management_env \<Rightarrow> string list \<Rightarrow> management_request \<Rightarrow> management_route \<Rightarrow> tenant_db \<Rightarrow> management_body reply \<times> tenant_db" where
  "manage env trustedOrigins rq route db =
     (case checkOrigin (mgParseUrl env) trustedOrigins (route_method route) (mrOrigin rq) of
        Inl r \<Rightarrow> (App_Reply (snd (sendRejection r)), db)
      | Inr _ \<Rightarrow> handle_route env rq route db)"

end
