(* ===== verification/ManagementGate.thy ===== *)
theory ManagementGate
  imports Management
begin

section \<open>What every management request keeps\<close>

text \<open>
  Two properties of all routes of Management at once: who can change anything and where, and
  that a request that is refused or fails has changed no table.
\<close>

subsection \<open>Confined to the organization of the path\<close>

lemma insert_invitation_scoped:
  assumes "insert_invitation row db = Inr db'" "db_ok db" "inOrganizationId row = org"
  shows "scoped org db db'"
proof -
  have db': "db' = db\<lparr>dbInvitations := dbInvitations db @ [row]\<rparr>"
    and f: "row_at inId (dbInvitations db) (inId row) = None" "row_at inTokenHash (dbInvitations db) (inTokenHash row) = None"
    using assms(1) by (auto simp: insert_invitation_def insert_unique_def split: if_splits option.splits)
  show ?thesis
    unfolding db' using assms(2,3) f
    by (intro invitations_scoped) (simp_all add: db_ok_def unique_on_append_at)
qed

lemma create_invitation_scoped:
  assumes ok: "db_ok db" and org: "ciOrganizationId i = org"
  shows "scoped org db (snd (createInvitation env hash token i db))"
proof (cases "has_org db (ciOrganizationId i)")
  case True
  then show ?thesis
    unfolding createInvitation_def Let_def
    by (simp, intro audited_insert_scoped [OF ok])
      (erule insert_invitation_scoped, rule ok, simp_all add: new_invitation_def org)
qed (simp add: createInvitation_def scoped_refl ok)

lemma create_domain_service_scoped:
  "db_ok db \<Longrightarrow> scoped org db (snd (createDomain de org p h m actor req db))"
  by (simp add: createDomain_def snd_apfst create_domain_scoped scoped_refl split: sum.splits)

lemma rotate_service_scoped:
  assumes "db_ok db"
  shows "scoped org db (snd (rotateToken de org d actor req db))"
proof -
  have "scoped org db (snd (rotateVerificationTokenForOrganization (deTx de) org d (deHash de (deToken de)) actor req db))"
    using assms by (rule rotate_token_scoped)
  with assms show ?thesis
    by (auto simp: rotateToken_def scoped_refl split: option.splits prod.splits sum.splits)
qed

lemma create_key_scoped: "db_ok db \<Longrightarrow> scoped (cqOrganizationId q) db (snd (createKey cd ke q db))"
  using createKey_cases [of cd ke q db] create_key_tx_scoped scoped_refl by metis

lemma revoke_key_scoped: "db_ok db \<Longrightarrow> scoped org db (snd (revokeKey cd env org p k actor req db))"
  by (auto simp: revokeKey_def snd_apfst scoped_refl intro: revoke_tx_scoped split: option.splits)

lemma rotate_key_scoped: "db_ok db \<Longrightarrow> scoped org db (snd (rotateKey cd ke org p k by req db))"
  by (auto simp: rotateKey_def snd_apfst scoped_refl rotation_params_def intro: rotate_tx_scoped split: option.splits)

lemma with_permission_scoped:
  assumes "db_ok db" "\<And>ctx. tcOrganizationId ctx = org \<Longrightarrow> scoped org db (snd (h ctx))"
  shows "scoped org db (snd (with_permission auth p org db h))"
  using assms permission_Inr by (auto simp: with_permission_def scoped_refl split: sum.splits)

lemma with_body_scoped:
  assumes "db_ok db" "\<And>b. scoped org db (snd (h b))"
  shows "scoped org db (snd (with_body parsed db h))"
  using assms by (auto simp: with_body_def scoped_refl split: option.splits)

lemma snd_reading [simp]: "snd (reading db r) = db"
  by (simp add: reading_def)

lemma post_domain_scoped:
  "db_ok db \<Longrightarrow> tcOrganizationId ctx = org \<Longrightarrow> scoped org db (snd (post_domain env ctx p b req db))"
  by (auto simp: post_domain_def scoped_refl intro: create_domain_service_scoped split: option.splits)

lemma post_invitation_scoped:
  "db_ok db \<Longrightarrow> scoped org db (snd (post_invitation env hash token is_email auth org body req db))"
  unfolding post_invitation_def
  by (intro with_body_scoped with_permission_scoped) (auto intro: create_invitation_scoped)

lemma delete_invitation_scoped: "db_ok db \<Longrightarrow> scoped org db (snd (delete_invitation env auth org i req db))"
  unfolding delete_invitation_def
  by (intro with_permission_scoped) (auto intro: cancel_invitation_scoped)

lemma patch_member_scoped: "db_ok db \<Longrightarrow> scoped org db (snd (patch_member env auth org m body req db))"
  unfolding patch_member_def
  by (intro with_permission_scoped with_body_scoped)
    (auto intro: update_role_scoped simp: scoped_refl split: sum.splits)

lemma delete_member_scoped: "db_ok db \<Longrightarrow> scoped org db (snd (delete_member env auth org m req db))"
  unfolding delete_member_def
  by (intro with_permission_scoped) (auto intro: remove_member_scoped simp: scoped_refl split: sum.splits)

lemmas management_scoped_intros =
  with_permission_scoped with_body_scoped post_domain_scoped post_invitation_scoped delete_invitation_scoped
  patch_member_scoped delete_member_scoped

lemma handle_route_scoped:
  assumes ok: "db_ok db"
  shows "scoped (mrOrganizationId rq) db (snd (handle_route env rq route db))"
proof (cases route)
  case (Post_Key p body)
  show ?thesis
    unfolding Post_Key handle_route.simps handler_defs
    by (intro with_permission_scoped with_body_scoped ok) (simp, metis create_key_scoped [OF ok] create_key_request.select_convs(1))
qed (use ok in \<open>auto intro!: management_scoped_intros simp: scoped_refl snd_apfst createProject_def handler_defs
    intro: create_project_scoped update_project_op_scoped delete_project_scoped rotate_service_scoped revoke_key_scoped rotate_key_scoped\<close>)

lemma manage_scoped: "db_ok db \<Longrightarrow> scoped (mrOrganizationId rq) db (snd (manage env T rq route db))"
  by (auto simp: manage_def scoped_refl intro: handle_route_scoped split: sum.splits)

text \<open>The plugin is the second provider of the tenant-scoped contract.\<close>

definition manage_exec ::
  "tx_env \<Rightarrow> string \<Rightarrow> management_env \<times> string list \<times> management_request \<times> management_route \<Rightarrow> tenant_db \<Rightarrow> tenant_db" where
  "manage_exec tx org op db =
     (case op of (env, T, rq, route) \<Rightarrow> snd (manage (env\<lparr>mgTx := tx\<rparr>) T (rq\<lparr>mrOrganizationId := org\<rparr>) route db))"

interpretation plugin: tenant_scoped manage_exec
proof
  fix db org env and op :: "management_env \<times> string list \<times> management_request \<times> management_route"
  assume ok: "db_ok db"
  obtain e T rq route where op: "op = (e, T, rq, route)" by (cases op)
  show "scoped org db (manage_exec env org op db)"
    using manage_scoped [OF ok, of "rq\<lparr>mrOrganizationId := org\<rparr>" "e\<lparr>mgTx := env\<rparr>" T route]
    by (simp add: manage_exec_def op)
qed

subsection \<open>The permission of a route\<close>

fun route_permission :: "management_env \<Rightarrow> management_route \<Rightarrow> organization_permission option" where
  "route_permission env (Post_Project _) = Some project_create"
| "route_permission env (Patch_Project _ _) = Some project_update"
| "route_permission env (Delete_Project_Route _) = Some project_delete"
| "route_permission env (Post_Domain _ _) = Some domain_create"
| "route_permission env (Post_Rotate_Token _) = Some domain_rotate_token"
| "route_permission env (Post_Invitation body) =
     map_option (\<lambda>b. if ibRole b = Invite_Admin then invitation_create_admin else invitation_create_member)
       (createInvitationSchema (mgIsEmail env) body)"
| "route_permission env (Delete_Invitation _) = Some invitation_cancel"
| "route_permission env (Patch_Member _ _) = Some member_role_change"
| "route_permission env (Delete_Member _) = Some member_remove"
| "route_permission env (Post_Key _ _) = Some api_key_create"
| "route_permission env (Delete_Key _ _) = Some api_key_revoke"
| "route_permission env (Post_Rotate_Key _ _) = Some api_key_rotate"
| "route_permission env _ = None"

lemma with_permission_change:
  "snd (with_permission auth p org db h) \<noteq> db \<Longrightarrow> \<exists>ctx. requireOrganizationPermission auth db org p = Inr ctx"
  by (auto simp: with_permission_def split: sum.splits)

lemma with_permission_reading [simp]: "snd (with_permission auth p org db (\<lambda>ctx. reading db (f ctx))) = db"
  by (simp add: with_permission_def split: sum.splits)

lemma with_body_reading [simp]: "snd (with_body parsed db (\<lambda>b. reading db (f b))) = db"
  by (simp add: with_body_def split: option.splits)

lemma with_permission_body_reading [simp]:
  "snd (with_permission auth p org db (\<lambda>ctx. with_body parsed db (\<lambda>b. reading db (f ctx b)))) = db"
  by (simp add: with_permission_def split: sum.splits)

lemma handle_route_change:
  assumes "snd (handle_route env rq route db) \<noteq> db"
  shows "\<exists>p ctx. route_permission env route = Some p
    \<and> requireOrganizationPermission (mrSession rq) db (mrOrganizationId rq) p = Inr ctx
    \<and> route_method route \<in> set MUTATING_METHODS"
proof (cases route)
  case (Post_Invitation body)
  with assms show ?thesis
    by (cases "createInvitationSchema (mgIsEmail env) body")
      (auto simp: snd_apfst post_invitation_def with_body_def MUTATING_METHODS_def dest: with_permission_change)
qed (use assms in \<open>auto simp: snd_apfst handler_defs patch_member_def delete_member_def delete_invitation_def MUTATING_METHODS_def
    dest: with_permission_change\<close>)


subsection \<open>All or nothing\<close>

text \<open>An operation that fails, or ends with a result that is an error to its caller, changes no table.\<close>

definition all_or_nothing :: "('a \<Rightarrow> bool) \<Rightarrow> (tenant_error + 'a) \<times> tenant_db \<Rightarrow> tenant_db \<Rightarrow> bool" where
  "all_or_nothing bad out db \<longleftrightarrow>
     ((case fst out of Inl _ \<Rightarrow> True | Inr x \<Rightarrow> bad x) \<longrightarrow> tables_of (snd out) = tables_of db)"

lemma aon_same: "tables_of (snd out) = tables_of db \<Longrightarrow> all_or_nothing bad out db"
  by (simp add: all_or_nothing_def)

lemma aon_audited:
  assumes "\<And>x d a. body db = (Inr x, d, a) \<Longrightarrow> bad x \<Longrightarrow> tables_of d = tables_of db"
  shows "all_or_nothing bad (runAuditedTransaction body db) db"
proof (cases "runAuditedTransaction body db")
  case (Pair r d)
  then show ?thesis
    unfolding all_or_nothing_def Pair fst_conv snd_conv
    using assms Pair by (cases r) (auto simp: audited_Inl audited_Inr)
qed

lemma aon_never: "all_or_nothing (\<lambda>_. False) (runAuditedTransaction body db) db"
  by (rule aon_audited) simp

lemma aon_map:
  assumes "all_or_nothing bad out db" "\<And>x. bad' (f x) \<Longrightarrow> bad x"
  shows "all_or_nothing bad' (apfst (map_sum id f) out) db"
  using assms by (auto simp: all_or_nothing_def split: sum.splits)

lemma aon_violation: "all_or_nothing bad (apfst (unique_violation_as c) out) db = all_or_nothing bad out db"
  by (auto simp: all_or_nothing_def unique_violation_as_def split: sum.splits)

lemma aon_mono: "all_or_nothing bad out db \<Longrightarrow> (\<And>x. bad' x \<Longrightarrow> bad x) \<Longrightarrow> all_or_nothing bad' out db"
  by (auto simp: all_or_nothing_def split: sum.splits)

lemma finish_result: "finish_audited env i meta x db = (Inr y, d, a) \<Longrightarrow> y = x"
  by (auto dest: finish_audited_Inr)

lemma aon_update:
  assumes "\<And>r tx1. upd db = Inr (r, tx1) \<Longrightarrow> r = None \<Longrightarrow> tables_of tx1 = tables_of db"
  shows "all_or_nothing (\<lambda>x. x = None) (runAuditedTransaction (\<lambda>tx.
      case upd tx of
        Inl e \<Rightarrow> (Inl e, tx, None)
      | Inr (None, tx1) \<Rightarrow> (Inr None, tx1, None)
      | Inr (Some row, tx1) \<Rightarrow> finish_audited env (ev row) (meta tx row) (Some (res row)) tx1) db) db"
proof (rule aon_audited)
  fix x d a
  assume b: "(case upd db of
        Inl e \<Rightarrow> (Inl e, db, None)
      | Inr (None, tx1) \<Rightarrow> (Inr None, tx1, None)
      | Inr (Some row, tx1) \<Rightarrow> finish_audited env (ev row) (meta db row) (Some (res row)) tx1) = (Inr x, d, a)" and x: "x = None"
  show "tables_of d = tables_of db"
  proof (cases "upd db")
    case (Inr p)
    obtain r tx1 where p: "p = (r, tx1)" by (cases p)
    show ?thesis
    proof (cases r)
      case None
      with b Inr p assms show ?thesis by simp
    next
      case (Some row)
      with b Inr p have "finish_audited env (ev row) (meta db row) (Some (res row)) tx1 = (Inr x, d, a)" by simp
      from finish_result [OF this] x show ?thesis by simp
    qed
  qed (use b in simp)
qed

lemma update_project_aon:
  "all_or_nothing (\<lambda>x. x = None) (updateProjectForOrganization env org p i actor req db) db"
  unfolding updateProjectForOrganization_def aon_violation Let_def
  by (rule aon_update [where res = "\<lambda>row. row"]) (auto dest: update_project_logged)

lemma delete_project_aon:
  "all_or_nothing (\<lambda>x. x = None) (softDeleteProjectForOrganization env org p actor req db) db"
  unfolding softDeleteProjectForOrganization_def Let_def
  by (rule aon_update [where res = "\<lambda>row. row"]) (auto dest: update_project_logged)

lemma rotate_domain_aon:
  "all_or_nothing (\<lambda>x. x = None) (rotateVerificationTokenForOrganization env org d h actor req db) db"
proof (cases "getDomainForOrganization db org d")
  case (Some ex)
  show ?thesis
    unfolding rotateVerificationTokenForOrganization_def Some option.case
    by (rule aon_update [where res = "\<lambda>row. row"]) (auto dest: update_domain_logged)
qed (simp add: rotateVerificationTokenForOrganization_def aon_same)

lemma create_domain_aon: "all_or_nothing (\<lambda>_. False) (createDomain de org p h m actor req db) db"
proof (cases "normalizeAndValidateHostname (deIp de) (deToASCII de) h")
  case (Inr host)
  show ?thesis
    unfolding createDomain_def Inr sum.case createDomainForOrganization_def
    by (rule aon_map [OF aon_never])
qed (simp add: createDomain_def aon_same)

lemma rotate_token_aon: "all_or_nothing (\<lambda>_. False) (rotateToken de org d actor req db) db"
proof (cases "getDomainForOrganization db org d")
  case (Some ex)
  obtain r db' where rot: "rotateVerificationTokenForOrganization (deTx de) org d (deHash de (deToken de)) actor req db = (r, db')"
    by fastforce
  have "all_or_nothing (\<lambda>x. x = None) (r, db') db" unfolding rot [symmetric] by (rule rotate_domain_aon)
  then show ?thesis
    using Some rot by (auto simp: rotateToken_def all_or_nothing_def split: sum.splits option.splits)
qed (simp add: rotateToken_def aon_same)

lemma create_invitation_aon: "all_or_nothing (\<lambda>_. False) (createInvitation env hash token i db) db"
  unfolding createInvitation_def by (simp add: aon_same aon_never)

lemma cancel_invitation_aon:
  "all_or_nothing (\<lambda>r. r \<noteq> Invitation_Cancelled) (cancelInvitationForOrganization env org k actor req db) db"
proof -
  have "all_or_nothing (\<lambda>r. r \<noteq> Invitation_Cancelled) (runAuditedTransaction (cancel_tx env org k actor req) db) db"
    by (rule aon_audited) (auto simp: cancel_tx_def dest: finish_result)
  then show ?thesis by (auto simp: cancelInvitationForOrganization_def intro: aon_same split: option.splits)
qed

lemma remove_member_aon:
  "all_or_nothing (\<lambda>r. r \<noteq> Member_Removed) (removeMemberForOrganization env org k actor req db) db"
proof (cases "member_of db org k")
  case (Some ex)
  show ?thesis
    unfolding removeMemberForOrganization_def Some option.case
    by (rule aon_audited) (auto dest: finish_result)
qed (simp add: removeMemberForOrganization_def aon_same)

text \<open>The member whose role was changed is read back after the commit; it is still there.\<close>

lemma update_role_aon:
  assumes ok: "db_ok db"
  shows "all_or_nothing (\<lambda>x. x = None) (updateMemberRoleForOrganization env org k role actor req db) db"
proof (cases "member_of db org k")
  case (Some ex)
  let ?body = "\<lambda>tx. let tx1 = tx\<lparr>dbMembers := snd (update_where (\<lambda>m. mbId m = k)
                         (\<lambda>m. m\<lparr>mbRole := invitation_role_name role\<rparr>) (dbMembers tx))\<rparr>
             in finish_audited env (user_event org actor req Organization_Member_Role_Changed ''member'' k)
                  (Some (buildAuditMetadata
                    [(''roleBefore'', Meta_String (mbRole ex)), (''roleAfter'', Meta_String (invitation_role_name role))])) () tx1"
  obtain r d where run: "runAuditedTransaction ?body db = (r, d)" by fastforce
  show ?thesis
  proof (cases r)
    case (Inl e)
    with run have "tables_of d = tables_of db" by (auto simp: audited_Inl)
    with run Inl Some show ?thesis by (simp add: updateMemberRoleForOrganization_def all_or_nothing_def)
  next
    case (Inr u)
    have ex: "ex \<in> set (dbMembers db)" "mbId ex = k" using Some by (auto simp: member_of_def find_Some_iff)
    have users: "dbUsers d = dbUsers db"
      using run Inr by (auto simp: audited_Inr Let_def dest!: finish_audited_Inr)
    let ?t = "filter (\<lambda>m. mbId m = k) (dbMembers d)"
    let ?f = "\<lambda>m. m\<lparr>mbRole := invitation_role_name role\<rparr>"
    have t: "dbMembers d = snd (update_where (\<lambda>m. mbId m = k) ?f (dbMembers db))"
      using run Inr by (auto simp: audited_Inr Let_def dest!: finish_audited_Inr)
    then have "?f ex \<in> set ?t" using ex by (auto simp: update_where_def)
    then have ne: "?t \<noteq> []" by (metis empty_iff empty_set)
    have "list_all (\<lambda>m. member_joined d m \<noteq> None) ?t"
    proof -
      have "has_user d (mbUserId m)" if m: "m \<in> set ?t" for m
      proof -
        have "m \<in> (\<lambda>r. if mbId r = k then ?f r else r) ` set (dbMembers db)"
          using m unfolding t update_where_def snd_conv set_filter set_map by blast
        then obtain m0 where m0: "m0 \<in> set (dbMembers db)" "m = (if mbId m0 = k then ?f m0 else m0)" by blast
        then have "mbUserId m = mbUserId m0" by simp
        with m0(1)
        show ?thesis using ok users by (auto simp: db_ok_def has_user_def)
      qed
      then show ?thesis
        unfolding list_all_iff member_joined_def has_user_def list_ex_iff by (auto simp: find_None_iff)
    qed
    with ne have "first_row (List.map_filter (member_joined d) ?t) \<noteq> None"
      by (cases ?t) (auto simp: List.map_filter_simps first_row_def)
    with run Inr Some show ?thesis by (auto simp: updateMemberRoleForOrganization_def all_or_nothing_def)
  qed
qed (simp add: updateMemberRoleForOrganization_def aon_same)

lemma create_key_aon: "all_or_nothing (\<lambda>_. False) (createKey cd ke q db) db"
  unfolding createKey_def Let_def createApiKeyForProject_def
  by (auto simp: aon_same intro: aon_map [OF aon_never] split: option.splits sum.splits)

lemma revoke_key_aon: "all_or_nothing (\<lambda>r. r \<noteq> Revoked) (revokeKey cd env org p k actor req db) db"
proof (cases "getApiKeyForProject cd db org p k")
  case (Some ex)
  have "all_or_nothing (\<lambda>_. False) (setEnabledAndMetadataForProject cd env org p k False m actor req db) db" for m
    unfolding setEnabledAndMetadataForProject_def Some option.case by (rule aon_never)
  then show ?thesis using Some by (auto simp: revokeKey_def aon_same intro: aon_map)
qed (simp add: revokeKey_def aon_same)

lemma rotate_key_aon:
  "all_or_nothing (\<lambda>r. \<forall>s key. r \<noteq> Rotated s key) (rotateKey cd ke org p k by req db) db"
proof (cases "getApiKeyForProject cd db org p k")
  case (Some ex)
  have "all_or_nothing (\<lambda>r. \<forall>row key. r \<noteq> Key_Rotated row key) (rotateApiKeyForProject cd ke q db) db" for q
    unfolding rotateApiKeyForProject_def
    by (rule aon_audited)
      (auto simp: Let_def dest: finish_result split: option.splits sum.splits)
  then show ?thesis
    unfolding rotateKey_def Some option.case
    by (rule aon_map) (auto simp: rotate_result_of_def)
qed (simp add: rotateKey_def aon_same)

text \<open>Through the handlers.\<close>

definition quiet_error :: "'a reply \<times> tenant_db \<Rightarrow> tenant_db \<Rightarrow> bool" where
  "quiet_error out db \<longleftrightarrow> (400 \<le> reply_status (fst out) \<longrightarrow> tables_of (snd out) = tables_of db)"

lemma quiet_same: "snd out = db \<Longrightarrow> quiet_error out db"
  by (simp add: quiet_error_def)

lemma quiet_permission: "(\<And>ctx. quiet_error (h ctx) db) \<Longrightarrow> quiet_error (with_permission auth p org db h) db"
  by (auto simp: with_permission_def quiet_same split: sum.splits)

lemma quiet_body: "(\<And>b. quiet_error (h b) db) \<Longrightarrow> quiet_error (with_body parsed db h) db"
  by (auto simp: with_body_def quiet_same split: option.splits)

lemma quiet_reading: "quiet_error (reading db r) db"
  by (simp add: quiet_same)

lemma quiet_reply_of:
  assumes "all_or_nothing bad out db" "\<And>x. 400 \<le> reply_status (f x) \<Longrightarrow> bad x"
  shows "quiet_error (reply_of f out) db"
  using assms by (cases out; cases "fst out") (auto simp: quiet_error_def reply_of_def all_or_nothing_def)

lemma map_reply_status [simp]: "reply_status (map_reply f r) = reply_status r"
  by (cases r) simp_all

lemma quiet_map: "quiet_error out db \<Longrightarrow> quiet_error (apfst (map_reply f) out) db"
  by (simp add: quiet_error_def)

lemmas quiet_intros = quiet_permission quiet_body quiet_reading quiet_map

lemma quiet_member_target:
  assumes "\<And>t. quiet_error (h t) db"
  shows "quiet_error (case member_target db org k of Inl e \<Rightarrow> (sendAppError e, db) | Inr t \<Rightarrow> h t) db"
  using assms by (auto simp: quiet_same split: sum.splits)

lemma create_project_aon: "all_or_nothing (\<lambda>_. False) (createProject env org b actor req db) db"
  unfolding createProject_def createProjectForOrganization_def aon_violation by (rule aon_never)

lemma quiet_post_domain: "quiet_error (post_domain env ctx p b req db) db"
  by (auto simp: post_domain_def quiet_same intro: quiet_reply_of [OF create_domain_aon] split: option.splits)

lemma quiet_patch_member: "db_ok db \<Longrightarrow> quiet_error (patch_member env auth org m body req db) db"
  unfolding patch_member_def
  by (intro quiet_permission quiet_body quiet_member_target quiet_reply_of [OF update_role_aon]) (auto split: option.splits)

lemma quiet_delete_member: "quiet_error (delete_member env auth org m req db) db"
  unfolding delete_member_def
  by (intro quiet_permission quiet_member_target quiet_reply_of [OF remove_member_aon]) (auto split: if_splits intro: remove_member_result.exhaust)

lemma quiet_delete_invitation: "quiet_error (delete_invitation env auth org i req db) db"
  unfolding delete_invitation_def
  by (intro quiet_permission quiet_reply_of [OF cancel_invitation_aon]) auto

lemma quiet_post_invitation: "quiet_error (post_invitation env hash token is_email auth org body req db) db"
  unfolding post_invitation_def
  by (intro quiet_permission quiet_body quiet_reply_of [OF create_invitation_aon]) simp

lemma revoke_reply_bad: "400 \<le> reply_status (revoke_reply r) \<Longrightarrow> r \<noteq> Revoked"
  by (cases r) simp_all

lemma rotate_reply_bad: "400 \<le> reply_status (rotate_reply r) \<Longrightarrow> \<forall>s key. r \<noteq> Rotated s key"
  by (cases r) (simp_all add: rotate_reply_def)

lemma or_not_found_bad: "400 \<le> reply_status (or_not_found code f r) \<Longrightarrow> r = None"
  by (cases r) (simp_all add: or_not_found_def)

lemma handle_route_quiet:
  assumes ok: "db_ok db"
  shows "quiet_error (handle_route env rq route db) db"
proof (cases route)
  case (Post_Project body)
  show ?thesis unfolding Post_Project handle_route.simps handler_defs
    by (intro quiet_permission quiet_body quiet_reply_of [OF create_project_aon]) simp
next
  case (Patch_Project p body)
  show ?thesis unfolding Patch_Project handle_route.simps handler_defs
    by (intro quiet_permission quiet_body quiet_reply_of [OF update_project_aon]) (rule or_not_found_bad)
next
  case (Delete_Project_Route p)
  show ?thesis unfolding Delete_Project_Route handle_route.simps handler_defs
    by (intro quiet_permission quiet_reply_of [OF delete_project_aon]) (rule or_not_found_bad)
next
  case (Post_Domain p body)
  show ?thesis unfolding Post_Domain handle_route.simps handler_defs by (intro quiet_permission quiet_body quiet_post_domain)
next
  case (Post_Rotate_Token d)
  show ?thesis unfolding Post_Rotate_Token handle_route.simps handler_defs
    by (intro quiet_permission quiet_reply_of [OF rotate_token_aon]) simp
next
  case (Post_Key p body)
  show ?thesis unfolding Post_Key handle_route.simps handler_defs
    by (intro quiet_permission quiet_body quiet_reply_of [OF create_key_aon]) (simp split: prod.splits)
next
  case (Delete_Key p k)
  show ?thesis unfolding Delete_Key handle_route.simps handler_defs
    by (intro quiet_permission quiet_reply_of [OF revoke_key_aon]) (rule revoke_reply_bad)
next
  case (Post_Rotate_Key p k)
  show ?thesis unfolding Post_Rotate_Key handle_route.simps handler_defs
    by (intro quiet_permission quiet_reply_of [OF rotate_key_aon]) (rule rotate_reply_bad)
qed (use ok in \<open>auto intro!: quiet_intros quiet_patch_member quiet_delete_member quiet_delete_invitation quiet_post_invitation
    simp: handler_defs\<close>)


subsection \<open>An example\<close>

definition demo_manager :: management_env where
  "demo_manager =
     \<lparr>mgTx = demo_tx, mgCodec = demo_codec, mgSecret = ''s'', mgKeyHash = rev, mgToken = ''t'', mgTokenHash = rev,
      mgIp = demo_ip_library, mgToASCII = Some, mgParseUrl = (\<lambda>_. Some demo_origin_url), mgIsEmail = (\<lambda>_. True),
      mgIsUuid = (\<lambda>_. True), mgCoerceInt = (\<lambda>_. None)\<rparr>"

definition demo_trusted :: "string list" where
  "demo_trusted = [url_origin demo_origin_url]"

definition demo_managing :: management_request where
  "demo_managing =
     \<lparr>mrOrigin = Some ''https://app.test'', mrSession = Some (Some None, Some \<lparr>auUserId = ''u2'', auEmail = ''b@x.org''\<rparr>),
      mrOrganizationId = ''o2'', mrRequestId = None\<rparr>"

definition demo_managed :: "management_route \<Rightarrow> management_body reply \<times> tenant_db" where
  "demo_managed route = manage demo_manager demo_trusted demo_managing route demo_db"

lemma demo_managed_results:
  "reply_status (fst (demo_managed (Delete_Project_Route ''p2''))) = 200"
  "map pjStatus (dbProjects (snd (demo_managed (Delete_Project_Route ''p2'')))) = [Project_Active, Project_Deleted]"
  "reply_status (fst (demo_managed (Delete_Project_Route ''p1''))) = 404"
  by code_simp+



end
