(* ===== verification/SitemapRoutes.thy ===== *)
theory SitemapRoutes
  imports SitemapPersistence ManagementGate
begin

section \<open>The sitemap routes\<close>

text \<open>
  The handlers discover-sitemaps and fetch of src/routes/organizations.ts. Both are cut at the
  network phase, as their comments describe: a first part that reads and records the started
  event, the network, and one transaction that persists the outcome with its audit row. Between
  the parts other requests run; the composed handlers take what they do as an argument. The
  origin check in front of both is that of Management; the metrics are left out.
\<close>

datatype sitemap_body =
    Sources_Found "(string \<times> string \<times> sitemap_source_type \<times> sitemap_source_status) list" bool
  | Sitemap_Fetched string nat

definition started_event ::
  "tenant_context \<Rightarrow> audit_action \<Rightarrow> string \<Rightarrow> string \<Rightarrow> audit_result \<Rightarrow> string option \<Rightarrow> (string \<times> meta_value) list option \<Rightarrow> record_audit_input" where
  "started_event ctx action targetType targetId res requestId meta =
     \<lparr>raOrganizationId = tcOrganizationId ctx, raActor = User_Actor (context_user ctx), raAction = action,
      raTargetType = targetType, raTargetId = Some targetId, raResult = res, raErrorCode = None,
      raRequestId = requestId, raMetadata = meta\<rparr>"

subsection \<open>discover-sitemaps\<close>

definition discover_start ::
  "tx_env \<Rightarrow> auth_session \<Rightarrow> string \<Rightarrow> string \<Rightarrow> string option \<Rightarrow> tenant_db
     \<Rightarrow> (sitemap_body reply + tenant_context \<times> domain_row) \<times> tenant_db" where
  "discover_start env auth organizationId domainId requestId db =
     (case requireOrganizationPermission auth db organizationId sitemap_discover of
        Inl e \<Rightarrow> (Inl (sendAppError e), db)
      | Inr ctx \<Rightarrow>
          (case assertDomainVerifiedForSitemap (getDomainForOrganization db (tcOrganizationId ctx) domainId) of
             Inl code \<Rightarrow> (Inl (App_Reply code), db)
           | Inr d \<Rightarrow>
               (case recordAuditEvent env
                       (started_event ctx Sitemap_Discovery_Started ''domain'' (dmId d) Audit_Success requestId None) db of
                  (Inl e, db1) \<Rightarrow> (Inl (sendAppError e), db1)
                | (Inr _, db1) \<Rightarrow> (Inr (ctx, d), db1))))"

text \<open>The scan of the model always returns: the source's own \<open>catch\<close> around it is for other throws.\<close>

definition discover_finish ::
  "tx_env \<Rightarrow> id_source \<Rightarrow> tenant_context \<Rightarrow> domain_row \<Rightarrow> upsert_source_input list \<times> bool \<Rightarrow> string option \<Rightarrow> tenant_db
     \<Rightarrow> sitemap_body reply \<times> tenant_db" where
  "discover_finish env ids ctx d scan requestId db =
     reply_of (\<lambda>rows. Reply 200 (Sources_Found (map (\<lambda>s. (ssId s, ssUrl s, ssType s, ssStatus s)) rows) (snd scan)))
       (persistSitemapDiscovery env ids (tcOrganizationId ctx) (dmId d) (fst scan) (context_user ctx) requestId db)"

definition post_discover_sitemaps ::
  "tx_env \<Rightarrow> tx_env \<Rightarrow> id_source \<Rightarrow> sitemap_net \<Rightarrow> (tenant_db \<Rightarrow> tenant_db) \<Rightarrow> auth_session \<Rightarrow> string \<Rightarrow> string \<Rightarrow> string option
     \<Rightarrow> tenant_db \<Rightarrow> sitemap_body reply \<times> tenant_db" where
  "post_discover_sitemaps env env' ids net meanwhile auth organizationId domainId requestId db =
     (case discover_start env auth organizationId domainId requestId db of
        (Inl reply, db1) \<Rightarrow> (reply, db1)
      | (Inr (ctx, d), db1) \<Rightarrow>
          discover_finish env' ids ctx d (scanForSitemapCandidates net d) requestId (meanwhile db1))"

subsection \<open>fetch\<close>

record fetch_task =
  ftContext :: tenant_context
  ftSource :: sitemap_source_row
  ftDomain :: domain_row
  ftBudget :: nat

definition fetch_start ::
  "tx_env \<Rightarrow> auth_session \<Rightarrow> string \<Rightarrow> string \<Rightarrow> string option \<Rightarrow> tenant_db \<Rightarrow> (sitemap_body reply + fetch_task) \<times> tenant_db" where
  "fetch_start env auth organizationId sourceId requestId db =
     (case requireOrganizationPermission auth db organizationId sitemap_fetch of
        Inl e \<Rightarrow> (Inl (sendAppError e), db)
      | Inr ctx \<Rightarrow>
          (case getSitemapSourceForOrganization db (tcOrganizationId ctx) sourceId of
             None \<Rightarrow> (Inl (App_Reply SITEMAP_SOURCE_NOT_FOUND), db)
           | Some source \<Rightarrow>
               (case getDomainForOrganization db (tcOrganizationId ctx) (ssDomainId source) of
                  None \<Rightarrow> (Inl (App_Reply DOMAIN_NOT_FOUND), db)
                | Some d \<Rightarrow>
                    (if dmStatus d \<noteq> Domain_Verified then (Inl (App_Reply DOMAIN_NOT_VERIFIED), db)
                     else case recordAuditEvent env
                            (started_event ctx Sitemap_Fetch_Started ''sitemap_source'' (ssId source) Audit_Success requestId
                               (Some [(''sitemapType'', Meta_String (source_type_name (ssType source)))])) db of
                       (Inl e, db1) \<Rightarrow> (Inl (sendAppError e), db1)
                     | (Inr _, db1) \<Rightarrow>
                         (Inr \<lparr>ftContext = ctx, ftSource = source, ftDomain = d,
                               ftBudget = maxTotalUrlsPerDomain - countByDomain db1 (dmId d)\<rparr>, db1)))))"

definition fetch_network :: "sitemap_net \<Rightarrow> fetch_task \<Rightarrow> sitemap_error + sitemap_fetch_node" where
  "fetch_network net task =
     fst (buildSitemapFetchTree net (dmNormalizedHostname (ftDomain task)) 0 (ssNormalizedUrl (ftSource task))
            (top_state (ftBudget task)))"

definition fetch_finish ::
  "tx_env \<Rightarrow> id_source \<Rightarrow> fetch_task \<Rightarrow> sitemap_error + sitemap_fetch_node \<Rightarrow> string option \<Rightarrow> tenant_db
     \<Rightarrow> sitemap_body reply \<times> tenant_db" where
  "fetch_finish env ids task result requestId db =
     (let ctx = ftContext task; source = ftSource task
      in case result of
           Inl err \<Rightarrow>
             reply_of (\<lambda>_. App_Reply (case err of Sitemap_App code \<Rightarrow> code | _ \<Rightarrow> SITEMAP_FETCH_FAILED))
               (persistSitemapFetchFailure env (tcOrganizationId ctx) (ssId source) (ssType source) (errorCodeFor err)
                  (context_user ctx) requestId db)
         | Inr tree \<Rightarrow>
             reply_of (\<lambda>n. Reply 200 (Sitemap_Fetched (ssId source) n))
               (persistSitemapFetch env ids (tcOrganizationId ctx) (dmId (ftDomain task)) (ssId source) (ssType source) tree
                  (context_user ctx) requestId db))"

definition post_sitemap_fetch ::
  "tx_env \<Rightarrow> tx_env \<Rightarrow> id_source \<Rightarrow> sitemap_net \<Rightarrow> (tenant_db \<Rightarrow> tenant_db) \<Rightarrow> auth_session \<Rightarrow> string \<Rightarrow> string \<Rightarrow> string option
     \<Rightarrow> tenant_db \<Rightarrow> sitemap_body reply \<times> tenant_db" where
  "post_sitemap_fetch env env' ids net meanwhile auth organizationId sourceId requestId db =
     (case fetch_start env auth organizationId sourceId requestId db of
        (Inl reply, db1) \<Rightarrow> (reply, db1)
      | (Inr task, db1) \<Rightarrow> fetch_finish env' ids task (fetch_network net task) requestId (meanwhile db1))"

subsection \<open>The parts are confined to their organization\<close>

lemma context_org: "requireOrganizationPermission auth db org p = Inr ctx \<Longrightarrow> tcOrganizationId ctx = org"
  using permission_Inr by blast

lemma started_org [simp]: "raOrganizationId (started_event ctx a tt ti res req m) = tcOrganizationId ctx"
  by (simp add: started_event_def)

lemma audited_start_scoped:
  "db_ok db \<Longrightarrow> recordAuditEvent env i db = (r, db1) \<Longrightarrow> raOrganizationId i = org \<Longrightarrow> scoped org db db1"
  using record_audit_scoped [of db i env] by simp

lemma discover_start_scoped: "db_ok db \<Longrightarrow> scoped org db (snd (discover_start env auth org d req db))"
  unfolding discover_start_def
  by (auto simp: scoped_refl context_org intro: audited_start_scoped split: sum.splits prod.splits)

lemma fetch_start_scoped: "db_ok db \<Longrightarrow> scoped org db (snd (fetch_start env auth org sid req db))"
  unfolding fetch_start_def
  by (auto simp: scoped_refl context_org intro: audited_start_scoped split: sum.splits prod.splits option.splits)

text \<open>What the start has established: the user may, and source and domain are the organization's.\<close>

lemma fetch_start_Inr:
  assumes "fetch_start env auth org sid req db = (Inr task, db1)"
  shows "tcOrganizationId (ftContext task) = org \<and> may db org (context_user (ftContext task)) sitemap_fetch
    \<and> ssId (ftSource task) = sid \<and> ftSource task \<in> set (dbSources db) \<and> domain_in db org (ssDomainId (ftSource task))
    \<and> ftDomain task \<in> set (dbDomains db) \<and> dmId (ftDomain task) = ssDomainId (ftSource task) \<and> dmStatus (ftDomain task) = Domain_Verified
    \<and> ftBudget task = maxTotalUrlsPerDomain - countByDomain db1 (dmId (ftDomain task))"
proof -
  obtain ctx source d where c: "requireOrganizationPermission auth db org sitemap_fetch = Inr ctx"
    and s: "getSitemapSourceForOrganization db (tcOrganizationId ctx) sid = Some source"
    and d: "getDomainForOrganization db (tcOrganizationId ctx) (ssDomainId source) = Some d" "dmStatus d = Domain_Verified"
    and t: "task = \<lparr>ftContext = ctx, ftSource = source, ftDomain = d,
                     ftBudget = maxTotalUrlsPerDomain - countByDomain db1 (dmId d)\<rparr>"
    using assms unfolding fetch_start_def by (auto split: sum.splits prod.splits option.splits if_splits)
  have "ssId source = sid \<and> source \<in> set (dbSources db) \<and> domain_in db org (ssDomainId source)"
    using s context_org [OF c] by (auto simp: getSitemapSourceForOrganization_def find_Some_iff)
  moreover have "dmId d = ssDomainId source \<and> d \<in> set (dbDomains db)"
    using d(1) by (auto simp: getDomainForOrganization_def find_Some_iff)
  ultimately show ?thesis using permission_Inr [OF c] d(2) t by simp
qed

subsection \<open>The commit of a fetch\<close>

definition audited_as :: "tenant_db \<Rightarrow> tenant_db \<Rightarrow> string \<Rightarrow> audit_action \<Rightarrow> string \<Rightarrow> string \<Rightarrow> bool" where
  "audited_as db db' org action targetId actor \<longleftrightarrow> (\<exists>row. dbAudit db' = dbAudit db @ [row] \<and> aeOrganizationId row = org
     \<and> aeAction row = action \<and> aeTargetId row = Some targetId \<and> aeActor row = \<lparr>actorUserId = Some actor, actorApiKeyId = None\<rparr>)"

lemma finish_user_event:
  assumes "finish_audited env (user_event org actor req action tt ti) meta x db = (Inr y, db', a)"
  shows "y = x \<and> audited_as db db' org action ti actor \<and> db' = db\<lparr>dbAudit := dbAudit db'\<rparr>"
  using finish_audited_Inr [OF assms] by (auto simp: audited_as_def audit_row_def user_event_def)

lemma count_audit_urls [simp]: "countByDomain (count_audit a r db) d = countByDomain db d"
  "found now d (count_audit a r db) = found now d db" "audited_as db0 (count_audit a r db) org act ti actor = audited_as db0 db org act ti actor"
  by (simp_all add: countByDomain_def found_def audited_as_def)

lemma audit_column_urls: "db' = db\<lparr>dbAudit := t\<rparr> \<Longrightarrow> countByDomain db' d = countByDomain db d \<and> found now d db' = found now d db"
  by (simp add: countByDomain_def found_def)

lemma persist_fetch_Inr:
  assumes run: "persistSitemapFetch env ids org did sid type tree actor req db = (Inr n, db')"
    and ok: "db_ok db" "domain_in db org did" "owns_source db org sid"
  shows "n = countDiscoveredUrls tree \<and> scoped org db db' \<and> countByDomain db' did \<le> countByDomain db did + n
    \<and> puNormalizedUrl ` set (tree_urls tree) \<subseteq> found (txNow env) did db'
    \<and> audited_as db db' org (fetch_action (node_outcome tree)) sid actor"
proof -
  let ?ev = "user_event org actor req (fetch_action (node_outcome tree)) ''sitemap_source'' sid"
  let ?meta = "Some (buildAuditMetadata (fetch_meta type tree))"
  obtain db1 a where b: "(case persistNode env ids did sid tree (db, 0) of
         Inl e \<Rightarrow> (Inl e, db, None)
       | Inr s \<Rightarrow> finish_audited env ?ev ?meta (countDiscoveredUrls tree) (fst s)) = (Inr n, db1, a)"
    and db': "db' = count_audit a Audit_Success db1"
    using run unfolding persistSitemapFetch_def audited_Inr by blast
  obtain s where s: "persistNode env ids did sid tree (db, 0) = Inr s"
    and f: "finish_audited env ?ev ?meta (countDiscoveredUrls tree) (fst s) = (Inr n, db1, a)"
    using b by (auto split: sum.splits)
  have p: "persisted org did (txNow env) (length (tree_urls tree)) (puNormalizedUrl ` set (tree_urls tree)) db (fst s)"
    using tree_persists(1) [OF s] ok by simp
  note fin = finish_user_event [OF f]
  have "scoped org db db1" by (rule scoped_finish [OF f]) (use p in \<open>simp_all add: persisted_def\<close>)
  moreover have "dbAudit (fst s) = dbAudit db" using p unfolding persisted_def only_sitemaps_def by (metis tenant_db.select_convs(10) tenant_db.surjective tenant_db.update_convs(6,7))
  ultimately show ?thesis
    using fin p audit_column_urls [of db1 "dbAudit db1" "fst s" did "txNow env"]
    by (simp add: db' persisted_def count_is_length audited_as_def)
qed

text \<open>
  C8. The commit of a fetch is all or nothing, and confined. When it fails, no table has changed.
  When it succeeds, every page of the tree is in the table of the domain with the time of the
  fetch, the domain has at most that many more pages, the audit log has one more row that says
  what was done to which source by whom, and nothing of another organization has changed.
\<close>

theorem sitemap_fetch_persisted:
  assumes "persistSitemapFetch env ids org did sid type tree actor req db = (r, db')"
    and "db_ok db" "domain_in db org did" "owns_source db org sid"
  shows "(\<forall>e. r = Inl e \<longrightarrow> tables_of db' = tables_of db)
    \<and> (\<forall>n. r = Inr n \<longrightarrow> n = countDiscoveredUrls tree
         \<and> puNormalizedUrl ` set (tree_urls tree) \<subseteq> found (txNow env) did db'
         \<and> countByDomain db' did \<le> countByDomain db did + n
         \<and> audited_as db db' org (fetch_action (node_outcome tree)) sid actor)
    \<and> db_ok db' \<and> (\<forall>B. B \<noteq> org \<longrightarrow> org_view B db' = org_view B db)"
proof (cases r)
  case (Inl e)
  then obtain a where "db' = count_audit a Audit_Failure db"
    using assms(1) unfolding persistSitemapFetch_def by (auto simp: audited_Inl)
  then show ?thesis using Inl assms(2) by simp
next
  case (Inr n)
  from persist_fetch_Inr [OF assms(1) [unfolded Inr] assms(2-4)] Inr show ?thesis by (simp add: scoped_def)
qed

subsection \<open>A whole fetch\<close>

lemma fetch_finish_scoped:
  assumes "db_ok db" "tcOrganizationId (ftContext task) = org" "domain_in db org (dmId (ftDomain task))"
    "owns_source db org (ssId (ftSource task))"
  shows "scoped org db (snd (fetch_finish env ids task result req db))"
proof (cases result)
  case (Inl err)
  have "persisted org d now 0 {} db (set_source (ssId (ftSource task)) (failed_source (txNow env) (errorCodeFor err)) db)" for d now
    using assms(1,4) by (rule set_source_persists) (simp add: failed_source_def source_key_def)
  then have f: "scoped org db (set_source (ssId (ftSource task)) (failed_source (txNow env) (errorCodeFor err)) db)"
    by (simp add: persisted_def)
  have "scoped org db (snd (persistSitemapFetchFailure env org (ssId (ftSource task)) (ssType (ftSource task)) (errorCodeFor err)
      (context_user (ftContext task)) req db))"
    unfolding persistSitemapFetchFailure_def
    by (rule audited_finish_scoped [OF assms(1),
          where chg = "set_source (ssId (ftSource task)) (failed_source (txNow env) (errorCodeFor err))", OF f]) simp
  then show ?thesis unfolding fetch_finish_def Let_def Inl sum.case snd_reply_of assms(2) .
next
  case (Inr tree)
  let ?run = "persistSitemapFetch env ids org (dmId (ftDomain task)) (ssId (ftSource task)) (ssType (ftSource task)) tree
                (context_user (ftContext task)) req db"
  have "scoped org db (snd ?run)"
  proof (cases "fst ?run")
    case (Inl e)
    then have "?run = (Inl e, snd ?run)" by (metis prod.collapse)
    then obtain a where "snd ?run = count_audit a Audit_Failure db"
      unfolding persistSitemapFetch_def audited_Inl by blast
    with assms(1) show ?thesis by (simp add: scoped_refl)
  next
    case (Inr n)
    then have "?run = (Inr n, snd ?run)" by (metis prod.collapse)
    from persist_fetch_Inr [OF this assms(1,3,4)] show ?thesis by blast
  qed
  then show ?thesis using Inr assms(2) by (simp add: fetch_finish_def Let_def)
qed

text \<open>
  What the requests between the two parts are taken to keep: the tables are well formed, and the
  domain and the source still belong to the organization. Nothing in the program deletes a
  project row, a domain or a source, or moves it.
\<close>

definition keeps_site :: "string \<Rightarrow> tenant_db \<Rightarrow> tenant_db \<Rightarrow> bool" where
  "keeps_site org db db' \<longleftrightarrow> db_ok db' \<and> (\<forall>d. domain_in db org d \<longrightarrow> domain_in db' org d)
     \<and> (\<forall>s. owns_source db org s \<longrightarrow> owns_source db' org s)"

lemma start_same_site:
  assumes "fetch_start env auth org sid req db = (r, db1)"
  shows "domain_in db1 = domain_in db \<and> dbSources db1 = dbSources db \<and> dbUrls db1 = dbUrls db"
proof -
  have "db1 = db \<or> (\<exists>i x. recordAuditEvent env i db = (x, db1))"
    using assms unfolding fetch_start_def by (auto split: sum.splits prod.splits option.splits if_splits)
  then have "db1 = db \<or> (\<exists>i. db1 = snd (recordAuditEvent env i db))" by (metis snd_conv)
  moreover have "domain_in (snd (recordAuditEvent env i db)) = domain_in db
      \<and> dbSources (snd (recordAuditEvent env i db)) = dbSources db \<and> dbUrls (snd (recordAuditEvent env i db)) = dbUrls db" for i
  proof -
    have *: "tables_of (snd (recordAuditEvent env i db)) = tables_of (db\<lparr>dbAudit := dbAudit (snd (recordAuditEvent env i db))\<rparr>)"
      by (rule record_audit_tables)
    have "domain_in x = domain_in y \<and> dbSources x = dbSources y \<and> dbUrls x = dbUrls y"
      if "tables_of x = tables_of (y\<lparr>dbAudit := t\<rparr>)" for x y :: tenant_db and t
      using that by (cases x; cases y) (auto simp: tables_of_def domain_in_def project_in_def fun_eq_iff)
    from this [OF *] show ?thesis .
  qed
  ultimately show ?thesis by auto
qed

lemma send_is_error: "sendAppError e \<noteq> Reply n b"
  by (cases e) (simp_all add: sendAppError_def)

lemma fetch_start_replies: "fetch_start env auth org sid req db = (Inl reply, d) \<Longrightarrow> reply \<noteq> Reply n b"
  unfolding fetch_start_def using send_is_error by (fastforce split: sum.splits prod.splits option.splits if_splits)


definition demo_source :: sitemap_source_row where
  "demo_source =
     \<lparr>ssId = ''s2'', ssDomainId = ''d2'', ssUrl = ''https://a.example/i'', ssNormalizedUrl = ''https://a.example/i'',
      ssType = Source_Sitemap_Index, ssStatus = Source_Pending, ssLastFetchedAt = None, ssLastHttpStatus = None,
      ssLastErrorCode = None, ssEtag = None, ssLastModified = None, ssDiscoveredUrlCount = 0, ssCreatedAt = 0, ssUpdatedAt = 0\<rparr>"

definition demo_site_db :: tenant_db where
  "demo_site_db = demo_db\<lparr>dbDomains := map (\<lambda>d. d\<lparr>dmNormalizedHostname := ''a.example'', dmStatus := Domain_Verified\<rparr>) (dbDomains demo_db),
     dbSources := [demo_source]\<rparr>"

definition demo_ids :: id_source where
  "demo_ids n = ''id'' @ show_nat n"

lemma demo_site_ok: "db_ok demo_site_db"
  by (simp add: db_ok_def demo_site_db_def demo_db_def demo_project_def unique_on_def hostname_unique_def has_user_def)

lemma demo_site_owned: "domain_in demo_site_db ''o2'' ''d2''" "owns_source demo_site_db ''o2'' ''s2''"
proof -
  show d: "domain_in demo_site_db ''o2'' ''d2''"
    by (simp add: domain_in_def project_in_def demo_site_db_def demo_db_def demo_project_def)
  then show "owns_source demo_site_db ''o2'' ''s2''"
    by (simp add: owns_source_def demo_site_db_def demo_source_def)
qed

lemma demo_persisted:
  "fst (persistSitemapFetch demo_tx demo_ids ''o2'' ''d2'' ''s2'' Source_Sitemap_Index demo_tree ''u2'' None demo_site_db) = Inr 1"
  "map ssStatus (dbSources (snd (persistSitemapFetch demo_tx demo_ids ''o2'' ''d2'' ''s2'' Source_Sitemap_Index demo_tree ''u2'' None demo_site_db)))
     = [Source_Success, Source_Success, Source_Failed]"
  by code_simp+

lemma sitemap_fetch_persisted_witness:
  "''https://a.example/p'' \<in> found 1000 ''d2''
      (snd (persistSitemapFetch demo_tx demo_ids ''o2'' ''d2'' ''s2'' Source_Sitemap_Index demo_tree ''u2'' None demo_site_db))"
proof -
  obtain db' where r: "persistSitemapFetch demo_tx demo_ids ''o2'' ''d2'' ''s2'' Source_Sitemap_Index demo_tree ''u2'' None demo_site_db = (Inr 1, db')"
    using demo_persisted(1) by (metis prod.collapse)
  have "puNormalizedUrl ` set (tree_urls demo_tree) \<subseteq> found (txNow demo_tx) ''d2'' db'"
    using sitemap_fetch_persisted [OF r demo_site_ok demo_site_owned] by blast
  moreover have "''https://a.example/p'' \<in> puNormalizedUrl ` set (tree_urls demo_tree)"
    by (simp add: demo_tree_def tree_urls_def outcome_urls_def)
  moreover have "txNow demo_tx = 1000" by (simp add: demo_tx_def)
  ultimately show ?thesis unfolding r by auto
qed

definition demo_fetch_run :: "sitemap_body reply \<times> tenant_db" where
  "demo_fetch_run = post_sitemap_fetch demo_tx (demo_tx\<lparr>txAuditId := ''audit2''\<rparr>) demo_ids demo_sitemap_net id
     (Some (Some None, Some \<lparr>auUserId = ''u2'', auEmail = ''b@x.org''\<rparr>)) ''o2'' ''s2'' None demo_site_db"

lemma demo_keeps: "db_ok d \<Longrightarrow> keeps_site org d (id d)"
  by (simp add: keeps_site_def)

lemma demo_started:
  "fetch_start demo_tx (Some (Some None, Some \<lparr>auUserId = ''u2'', auEmail = ''b@x.org''\<rparr>)) ''o2'' ''s2'' None demo_site_db = (Inr task, db1)
     \<Longrightarrow> ftBudget task > 0 \<and> ftSource task = demo_source \<and> dmNormalizedHostname (ftDomain task) = ''a.example''"
proof -
  assume st: "fetch_start demo_tx (Some (Some None, Some \<lparr>auUserId = ''u2'', auEmail = ''b@x.org''\<rparr>)) ''o2'' ''s2'' None demo_site_db = (Inr task, db1)"
  note info = fetch_start_Inr [OF st] and same = start_same_site [OF st]
  have "ftSource task = demo_source" using info by (simp add: demo_site_db_def)
  moreover have "dmNormalizedHostname (ftDomain task) = ''a.example''" using info by (auto simp: demo_site_db_def)
  moreover have "ftBudget task = 200000"
    using info same by (simp add: countByDomain_def demo_site_db_def demo_db_def maxTotalUrlsPerDomain_def)
  ultimately show ?thesis by simp
qed

definition demo_fetcher :: tenant_context where
  "demo_fetcher = \<lparr>tcSession = \<lparr>scUserId = ''u2'', scEmail = ''b@x.org'', scActiveOrganizationId = None\<rparr>,
     tcOrganizationId = ''o2'', tcRole = ''admin''\<rparr>"

definition demo_started_db :: tenant_db where
  "demo_started_db = snd (recordAuditEvent demo_tx
     (started_event demo_fetcher Sitemap_Fetch_Started ''sitemap_source'' ''s2'' Audit_Success None
        (Some [(''sitemapType'', Meta_String ''sitemap_index'')])) demo_site_db)"

lemma demo_starts:
  "\<exists>task. fetch_start demo_tx (Some (Some None, Some \<lparr>auUserId = ''u2'', auEmail = ''b@x.org''\<rparr>)) ''o2'' ''s2'' None demo_site_db
     = (Inr task, demo_started_db) \<and> ftContext task = demo_fetcher \<and> dmId (ftDomain task) = ''d2''"
proof -
  have c: "requireOrganizationPermission (Some (Some None, Some \<lparr>auUserId = ''u2'', auEmail = ''b@x.org''\<rparr>)) demo_site_db ''o2'' sitemap_fetch = Inr demo_fetcher"
    by code_simp
  have s: "getSitemapSourceForOrganization demo_site_db ''o2'' ''s2'' = Some demo_source" by code_simp
  have d: "map_option dmId (getDomainForOrganization demo_site_db ''o2'' ''d2'') = Some ''d2''"
    "map_option dmStatus (getDomainForOrganization demo_site_db ''o2'' ''d2'') = Some Domain_Verified"
    by code_simp+
  have e: "fst (recordAuditEvent demo_tx (started_event demo_fetcher Sitemap_Fetch_Started ''sitemap_source'' ''s2'' Audit_Success None
      (Some [(''sitemapType'', Meta_String ''sitemap_index'')])) demo_site_db) = Inr ()"
    by code_simp
  then have r: "recordAuditEvent demo_tx (started_event demo_fetcher Sitemap_Fetch_Started ''sitemap_source'' ''s2'' Audit_Success None
      (Some [(''sitemapType'', Meta_String ''sitemap_index'')])) demo_site_db = (Inr (), demo_started_db)"
    unfolding demo_started_db_def by (metis prod.collapse)
  obtain dm where "getDomainForOrganization demo_site_db ''o2'' ''d2'' = Some dm" "dmId dm = ''d2''" "dmStatus dm = Domain_Verified"
    using d by (cases "getDomainForOrganization demo_site_db ''o2'' ''d2''") simp_all
  then show ?thesis
    using s r by (simp add: fetch_start_def c) (simp add: demo_fetcher_def demo_source_def)
qed

lemma demo_commit:
  "fst (persistSitemapFetch (demo_tx\<lparr>txAuditId := ''audit2''\<rparr>) demo_ids ''o2'' ''d2'' ''s2'' Source_Sitemap_Index demo_tree ''u2'' None demo_started_db)
     = Inr 1"
  by code_simp

lemma demo_fetch_reply: "fst demo_fetch_run = Reply 200 (Sitemap_Fetched ''s2'' 1)"
proof -
  obtain task where st: "fetch_start demo_tx (Some (Some None, Some \<lparr>auUserId = ''u2'', auEmail = ''b@x.org''\<rparr>)) ''o2'' ''s2'' None demo_site_db
      = (Inr task, demo_started_db)" and t: "ftContext task = demo_fetcher" "dmId (ftDomain task) = ''d2''"
    using demo_starts by blast
  note d = demo_started [OF st]
  have n: "fetch_network demo_sitemap_net task = Inr demo_tree"
    using demo_fetch [of "ftBudget task"] d by (simp add: fetch_network_def demo_source_def)
  obtain db' where c: "persistSitemapFetch (demo_tx\<lparr>txAuditId := ''audit2''\<rparr>) demo_ids ''o2'' ''d2'' ''s2'' Source_Sitemap_Index demo_tree ''u2'' None
      demo_started_db = (Inr 1, db')"
    using demo_commit by (metis prod.collapse)
  have f: "tcOrganizationId demo_fetcher = ''o2''" "context_user demo_fetcher = ''u2''" "ssId demo_source = ''s2''"
    "ssType demo_source = Source_Sitemap_Index"
    by (simp_all add: demo_fetcher_def context_user_def demo_source_def)
  show ?thesis
    by (simp only: demo_fetch_run_def post_sitemap_fetch_def st n prod.case sum.case fetch_finish_def Let_def t d f id_apply c reply_of_def fst_conv)
qed


subsection \<open>What the source rows and the audit log do not say\<close>

text \<open>A failed fetch is recorded with the result success.\<close>

lemma failed_fetch_is_a_success:
  assumes "persistSitemapFetchFailure env org sid type code actor req db = (Inr u, db')"
  shows "aeAction (last (dbAudit db')) = Sitemap_Fetch_Failed \<and> aeResult (last (dbAudit db')) = Audit_Success"
  using assms unfolding persistSitemapFetchFailure_def
  by (auto simp: audited_Inr audit_row_def user_event_def dest!: finish_audited_Inr)

text \<open>A source that is fetched after a failure keeps the error code of the failure.\<close>

lemma success_keeps_error_code: "ssLastErrorCode (fetched_source now n (failed_source t code s)) = Some code"
  by (simp add: fetched_source_def failed_source_def)

text \<open>
  An index that lists itself: its own row is the row of the failed leaf below it, so it ends as
  failed although the fetch is audited as completed.
\<close>

lemma self_listing_index_ends_failed:
  "map (\<lambda>s. (ssStatus s, ssLastErrorCode s)) (dbSources (snd (persistSitemapFetch demo_tx demo_ids ''o2'' ''d2'' ''s2'' Source_Sitemap_Index
      (Fetch_Node ''https://a.example/i'' ''https://a.example/i'' (Node_Success [])
         [Fetch_Node ''https://a.example/i'' ''https://a.example/i'' (Node_Failed ''SITEMAP_LIMIT_EXCEEDED'') []])
      ''u2'' None demo_site_db)))
    = [(Source_Failed, Some ''SITEMAP_LIMIT_EXCEEDED'')]"
  by code_simp

end
