(* ===== verification/RenderRoute.thy ===== *)
theory RenderRoute
  imports ApiKeys Access UrlSecurity RateLimiter
begin

section \<open>The render endpoint\<close>

text \<open>
  src/routes/render.ts and src/services/render-api-key-auth-service.ts: from the header of a
  request to the call of \<open>renderUrl\<close>, with every refusal on the way. Better Auth's
  \<open>verifyApiKey\<close>, zod's tests for UUIDs and URLs, the URL parser and the renderer are arguments.
  The three reads of the database happen at three moments, each with the database of its own.
  Log lines are left out; the label counted by \<open>incrementRenderResult\<close> is kept.
\<close>

subsection \<open>Keys\<close>

record verified_key =
  vkId :: string
  vkReferenceId :: string
  vkMetadata :: "json option"
  vkExpiresAt :: "time_ms option"

record verify_answer =
  vaValid :: bool
  vaKey :: "verified_key option"
  vaErrorCode :: "string option"

record render_key_scope =
  rkApiKeyId :: string
  rkScopeOrganizationId :: string
  rkScopeProjectId :: string
  rkScopeCreatedByUserId :: string
  rkScopeExpiresAt :: "time_ms option"

definition mapVerifyErrorCode :: "string option \<Rightarrow> app_error_code" where
  "mapVerifyErrorCode code =
     (if code = Some ''KEY_EXPIRED'' then API_KEY_EXPIRED
      else if code = Some ''KEY_DISABLED'' then API_KEY_REVOKED
      else if code = Some ''RATE_LIMIT_EXCEEDED'' \<or> code = Some ''USAGE_EXCEEDED'' then RATE_LIMITED
      else API_KEY_INVALID)"

text \<open>The verifier may also throw: \<open>None\<close>.\<close>

definition verifyRenderApiKey ::
  "cursor_codec \<Rightarrow> (string \<Rightarrow> verify_answer option) \<Rightarrow> string \<Rightarrow> tenant_error + render_key_scope" where
  "verifyRenderApiKey cd verifyApiKey rawKey =
     (case verifyApiKey rawKey of
        None \<Rightarrow> Inl Auth_Error
      | Some result \<Rightarrow>
          (case (if vaValid result then vaKey result else None) of
             None \<Rightarrow> Inl (App (mapVerifyErrorCode (vaErrorCode result)))
           | Some k \<Rightarrow>
               (case parseAndValidateMetadata cd (vkMetadata k) of
                  None \<Rightarrow> Inl (App API_KEY_METADATA_INVALID)
                | Some m \<Rightarrow>
                    (if truthy (kmRevokedAt m) \<or> truthy (kmRotatedToKeyId m) then Inl (App API_KEY_REVOKED)
                     else Inr \<lparr>rkApiKeyId = vkId k, rkScopeOrganizationId = vkReferenceId k,
                               rkScopeProjectId = kmProjectId m, rkScopeCreatedByUserId = kmCreatedByUserId m,
                               rkScopeExpiresAt = vkExpiresAt k\<rparr>))))"

subsection \<open>Requests and replies\<close>

text \<open>A header of a request is a string or, in the type of the framework, an array of strings.\<close>

datatype header_value = One_Header string | Header_List "string list"

record render_request =
  rqHeaders :: "string \<Rightarrow> header_value option"
  rqBody :: "json option"
  rqQuery :: "string \<Rightarrow> string list option"
  rqIp :: string
  rqId :: string

definition RENDER_KEY_HEADER :: string where "RENDER_KEY_HEADER = ''x-render-api-key''"
definition MAX_RENDER_KEY_HEADER_LENGTH :: nat where "MAX_RENDER_KEY_HEADER_LENGTH = 512"
definition RENDER_KEY_PREFIX :: string where "RENDER_KEY_PREFIX = ''pr_live_''"

record render_result =
  rrUrl :: string
  rrFinalUrl :: string
  rrStatusCode :: "int option"
  rrTitle :: string
  rrHtml :: string
  rrRenderTimeMs :: int
  rrRenderedAt :: string

datatype render_reply =
    Rendered render_result
  | Render_Refused nat string string
  | Render_Limited int
  | Render_Unavailable capacity_error
  | Render_Failed thrown
  | Render_Thrown tenant_error

definition renderErrorResponse :: "app_error_code \<Rightarrow> render_reply" where
  "renderErrorResponse code =
     (if code \<in> {API_KEY_INVALID, API_KEY_EXPIRED, API_KEY_REVOKED, API_KEY_METADATA_INVALID}
      then Render_Refused 401 ''API_KEY_INVALID'' ''Invalid API key''
      else if code = RATE_LIMITED then Render_Refused 429 ''RATE_LIMITED'' ''Too many requests''
      else if code = ORGANIZATION_SUSPENDED then Render_Refused 403 ''ORGANIZATION_SUSPENDED'' ''Forbidden''
      else if code = PROJECT_SUSPENDED then Render_Refused 403 ''PROJECT_SUSPENDED'' ''Forbidden''
      else if code \<in> {ORGANIZATION_NOT_FOUND, PROJECT_NOT_FOUND, DOMAIN_NOT_FOUND}
      then Render_Refused 404 ''DOMAIN_NOT_FOUND'' ''Not found''
      else if code = DOMAIN_NOT_VERIFIED then Render_Refused 409 ''DOMAIN_NOT_VERIFIED'' ''Domain not verified''
      else if code = URL_DOMAIN_MISMATCH then Render_Refused 400 ''URL_DOMAIN_MISMATCH'' ''Invalid render URL''
      else if code = INVALID_RENDER_URL then Render_Refused 400 ''INVALID_RENDER_URL'' ''Invalid render URL''
      else Render_Refused 400 ''bad_request'' ''Bad request'')"

datatype render_label =
    Label_Success | Label_Render_Error | Label_Validation_Error | Label_Queue_Full | Label_Queue_Timeout
  | Label_Capacity_Closed | Label_Invalid_Key | Label_Expired_Key | Label_Revoked_Key | Label_Malformed_Metadata
  | Label_Rate_Limited | Label_Organization_Suspended | Label_Project_Suspended | Label_Domain_Not_Verified
  | Label_Domain_Mismatch

definition metricsLabelForCode :: "app_error_code \<Rightarrow> render_label" where
  "metricsLabelForCode code =
     (if code = API_KEY_INVALID then Label_Invalid_Key
      else if code = API_KEY_EXPIRED then Label_Expired_Key
      else if code = API_KEY_REVOKED then Label_Revoked_Key
      else if code = API_KEY_METADATA_INVALID then Label_Malformed_Metadata
      else if code = RATE_LIMITED then Label_Rate_Limited
      else if code = ORGANIZATION_SUSPENDED then Label_Organization_Suspended
      else if code = PROJECT_SUSPENDED then Label_Project_Suspended
      else if code = DOMAIN_NOT_VERIFIED then Label_Domain_Not_Verified
      else if code = URL_DOMAIN_MISMATCH then Label_Domain_Mismatch
      else Label_Validation_Error)"

fun capacity_label :: "capacity_error \<Rightarrow> render_label" where
  "capacity_label RENDER_QUEUE_FULL = Label_Queue_Full"
| "capacity_label RENDER_QUEUE_TIMEOUT = Label_Queue_Timeout"
| "capacity_label RENDER_CAPACITY_CLOSED = Label_Capacity_Closed"

subsection \<open>Credentials\<close>

fun json_truthy :: "json \<Rightarrow> bool" where
  "json_truthy Json_Null = False"
| "json_truthy (Json_Bool b) = b"
| "json_truthy (Json_Number n) = (n \<noteq> 0)"
| "json_truthy (Json_String s) = (s \<noteq> [])"
| "json_truthy _ = True"

text \<open>\<open>body \<and> (k in body ...)\<close>: the operator \<open>in\<close> throws for a text, a number or a boolean.\<close>

definition body_names_key :: "json option \<Rightarrow> tenant_error + bool" where
  "body_names_key body =
     (case body of
        None \<Rightarrow> Inr False
      | Some j \<Rightarrow>
          (if \<not> json_truthy j then Inr False
           else case j of
                  Json_Object obj \<Rightarrow> Inr (list_ex (\<lambda>k. map_of obj k \<noteq> None) [''apiKey'', ''key'', ''x-render-api-key''])
                | Json_Array _ \<Rightarrow> Inr False
                | _ \<Rightarrow> Inl Type_Error))"

definition render_credentials :: "render_request \<Rightarrow> tenant_error + string" where
  "render_credentials req =
     (case rqHeaders req RENDER_KEY_HEADER of
        Some (One_Header v) \<Rightarrow>
          (if v = [] \<or> length v > MAX_RENDER_KEY_HEADER_LENGTH \<or> \<not> starts_with v RENDER_KEY_PREFIX
           then Inl (App API_KEY_INVALID)
           else if rqHeaders req ''x-api-key'' \<noteq> None then Inl (App API_KEY_INVALID)
           else and_then (body_names_key (rqBody req)) (\<lambda>named.
             if named \<or> rqQuery req ''apiKey'' \<noteq> None then Inl (App API_KEY_INVALID) else Inr v))
      | _ \<Rightarrow> Inl (App API_KEY_INVALID))"

subsection \<open>Authorization\<close>

text \<open>What the endpoint takes from outside, and the moments of one request.\<close>

record render_env =
  reCodec :: cursor_codec
  reVerifyApiKey :: "string \<Rightarrow> verify_answer option"
  reIsUuid :: "string \<Rightarrow> bool"
  reIsUrl :: "string \<Rightarrow> bool"
  reParseUrl :: "string \<Rightarrow> url option"
  reAuditing :: bool
  reTx :: tx_env

record render_moments =
  rmIpNow :: time_ms
  rmOrganizationDb :: tenant_db
  rmProjectDb :: tenant_db
  rmDomainDb :: tenant_db
  rmKeyNow :: time_ms

record render_body =
  rbDomainId :: string
  rbUrl :: string

definition renderBodySchema :: "render_env \<Rightarrow> json option \<Rightarrow> render_body option" where
  "renderBodySchema env body =
     (case body of
        None \<Rightarrow> None
      | Some j \<Rightarrow>
          (case (json_field j ''domainId'', z_string 0 2048 (json_field j ''url'')) of
             (Some (Json_String d), Some u) \<Rightarrow>
               (if reIsUuid env d \<and> reIsUrl env u then Some \<lparr>rbDomainId = d, rbUrl = u\<rparr> else None)
           | _ \<Rightarrow> None))"

definition check_organization :: "tenant_db \<Rightarrow> render_key_scope \<Rightarrow> tenant_error + unit" where
  "check_organization db scope =
     (case getOrganizationStatus db (rkScopeOrganizationId scope) of
        None \<Rightarrow> Inl (App ORGANIZATION_NOT_FOUND)
      | Some status \<Rightarrow> (if status = Organization_Suspended then Inl (App ORGANIZATION_SUSPENDED) else Inr ()))"

definition check_project :: "tenant_db \<Rightarrow> render_key_scope \<Rightarrow> tenant_error + unit" where
  "check_project db scope =
     (case getProjectForOrganization db (rkScopeOrganizationId scope) (rkScopeProjectId scope) of
        None \<Rightarrow> Inl (App PROJECT_NOT_FOUND)
      | Some p \<Rightarrow> (if pjStatus p = Project_Suspended then Inl (App PROJECT_SUSPENDED) else Inr ()))"

definition check_domain :: "tenant_db \<Rightarrow> render_key_scope \<Rightarrow> string \<Rightarrow> tenant_error + domain_row" where
  "check_domain db scope domainId =
     (case getDomainForOrganizationProject db (rkScopeOrganizationId scope) (rkScopeProjectId scope) domainId of
        None \<Rightarrow> Inl (App DOMAIN_NOT_FOUND)
      | Some d \<Rightarrow> (if dmStatus d \<noteq> Domain_Verified then Inl (App DOMAIN_NOT_VERIFIED) else Inr d))"

definition check_url :: "render_env \<Rightarrow> string \<Rightarrow> domain_row \<Rightarrow> tenant_error + normalized_target_url" where
  "check_url env u d =
     (case normalizeTargetUrl (reParseUrl env) u (dmNormalizedHostname d) of
        Inl reason \<Rightarrow> Inl (App (if reason = Host_Mismatch then URL_DOMAIN_MISMATCH else INVALID_RENDER_URL))
      | Inr n \<Rightarrow> Inr n)"

definition render_target ::
  "render_env \<Rightarrow> render_moments \<Rightarrow> render_request \<Rightarrow> render_key_scope \<Rightarrow> tenant_error + domain_row \<times> normalized_target_url" where
  "render_target env mo req scope =
     and_then (check_organization (rmOrganizationDb mo) scope) (\<lambda>_.
     and_then (check_project (rmProjectDb mo) scope) (\<lambda>_.
     case renderBodySchema env (rqBody req) of
       None \<Rightarrow> Inl (App INVALID_RENDER_URL)
     | Some b \<Rightarrow>
         and_then (check_domain (rmDomainDb mo) scope (rbDomainId b)) (\<lambda>d.
         and_then (check_url env (rbUrl b) d) (\<lambda>n. Inr (d, n)))))"

subsection \<open>Refusals\<close>

record render_state =
  rsDb :: tenant_db
  rsInvalidKey :: rate_limiter
  rsValidKey :: rate_limiter
  rsResults :: "render_label list"

definition count_result :: "render_label \<Rightarrow> render_state \<Rightarrow> render_state" where
  "count_result l st = st\<lparr>rsResults := rsResults st @ [l]\<rparr>"

text \<open>The codes of \<open>AUDITABLE_REJECTION_CODES\<close>, as they are written.\<close>

fun auditable_rejection :: "app_error_code \<Rightarrow> string option" where
  "auditable_rejection ORGANIZATION_NOT_FOUND = Some ''ORGANIZATION_NOT_FOUND''"
| "auditable_rejection ORGANIZATION_SUSPENDED = Some ''ORGANIZATION_SUSPENDED''"
| "auditable_rejection PROJECT_NOT_FOUND = Some ''PROJECT_NOT_FOUND''"
| "auditable_rejection PROJECT_SUSPENDED = Some ''PROJECT_SUSPENDED''"
| "auditable_rejection DOMAIN_NOT_FOUND = Some ''DOMAIN_NOT_FOUND''"
| "auditable_rejection DOMAIN_NOT_VERIFIED = Some ''DOMAIN_NOT_VERIFIED''"
| "auditable_rejection URL_DOMAIN_MISMATCH = Some ''URL_DOMAIN_MISMATCH''"
| "auditable_rejection _ = None"

definition rejection_event :: "render_key_scope \<Rightarrow> string \<Rightarrow> string \<Rightarrow> record_audit_input" where
  "rejection_event scope code requestId =
     \<lparr>raOrganizationId = rkScopeOrganizationId scope, raActor = Api_Key_Actor (rkApiKeyId scope),
      raAction = Render_Authorization_Rejected, raTargetType = ''domain'', raTargetId = None,
      raResult = Audit_Failure, raErrorCode = Some code, raRequestId = Some requestId,
      raMetadata = Some [(''reasonCode'', Meta_String code)]\<rparr>"

text \<open>A failed audit write is caught; the reply is decided before it.\<close>

definition render_reject ::
  "render_env \<Rightarrow> render_key_scope option \<Rightarrow> app_error_code \<Rightarrow> string \<Rightarrow> render_state \<Rightarrow> render_reply \<times> render_state" where
  "render_reject env scope code requestId st =
     (let st1 = count_result (metricsLabelForCode code) st
      in (renderErrorResponse code,
          case (scope, auditable_rejection code) of
            (Some s, Some name) \<Rightarrow>
              (if reAuditing env
               then st1\<lparr>rsDb := snd (recordAuditEvent (reTx env) (rejection_event s name requestId) (rsDb st1))\<rparr>
               else st1)
          | _ \<Rightarrow> st1))"

definition render_error ::
  "render_env \<Rightarrow> render_key_scope option \<Rightarrow> tenant_error \<Rightarrow> string \<Rightarrow> render_state \<Rightarrow> render_reply \<times> render_state" where
  "render_error env scope err requestId st =
     (case err of App code \<Rightarrow> render_reject env scope code requestId st | _ \<Rightarrow> (Render_Thrown err, st))"

record authorized_render =
  arScope :: render_key_scope
  arDomain :: domain_row
  arUrl :: normalized_target_url

text \<open>Everything before \<open>renderUrl\<close>: a reply, or what is going to be rendered and for whom.\<close>

definition render_authorize ::
  "render_env \<Rightarrow> render_moments \<Rightarrow> render_request \<Rightarrow> render_state \<Rightarrow> (render_reply + authorized_render) \<times> render_state" where
  "render_authorize env mo req st =
     (case render_credentials req of
        Inl e \<Rightarrow> apfst Inl (render_error env None e (rqId req) st)
      | Inr headerValue \<Rightarrow>
          (let (ipDecision, ipl) = rl_check (rsInvalidKey st) (rqIp req) (rmIpNow mo);
               st1 = st\<lparr>rsInvalidKey := ipl\<rparr>
           in if \<not> allowed ipDecision
              then (Inl (Render_Limited (retryAfterSeconds ipDecision)), count_result Label_Rate_Limited st1)
              else case verifyRenderApiKey (reCodec env) (reVerifyApiKey env) headerValue of
                Inl e \<Rightarrow> apfst Inl (render_error env None e (rqId req) st1)
              | Inr scope \<Rightarrow>
                  (case render_target env mo req scope of
                     Inl e \<Rightarrow> apfst Inl (render_error env (Some scope) e (rqId req) st1)
                   | Inr (domain, normalized) \<Rightarrow>
                       (let (keyDecision, kl) = rl_check (rsValidKey st1) (rkApiKeyId scope) (rmKeyNow mo);
                            st2 = st1\<lparr>rsValidKey := kl\<rparr>
                        in if \<not> allowed keyDecision
                           then (Inl (Render_Limited (retryAfterSeconds keyDecision)), count_result Label_Rate_Limited st2)
                           else (Inr \<lparr>arScope = scope, arDomain = domain, arUrl = normalized\<rparr>, st2)))))"

definition post_render ::
  "render_env \<Rightarrow> render_moments \<Rightarrow> (string \<Rightarrow> thrown + render_result) \<Rightarrow> render_request \<Rightarrow> render_state
     \<Rightarrow> render_reply \<times> render_state" where
  "post_render env mo renderUrl req st =
     (case render_authorize env mo req st of
        (Inl reply, st1) \<Rightarrow> (reply, st1)
      | (Inr a, st1) \<Rightarrow>
          (case renderUrl (ntNormalizedUrl (arUrl a)) of
             Inr result \<Rightarrow> (Rendered result, count_result Label_Success st1)
           | Inl (Capacity_Error e) \<Rightarrow> (Render_Unavailable e, count_result (capacity_label e) st1)
           | Inl err \<Rightarrow> (Render_Failed err, count_result Label_Render_Error st1)))"

subsection \<open>What an authorized render has\<close>

lemma verify_key_Inr:
  "verifyRenderApiKey cd verify key = Inr scope \<Longrightarrow>
     \<exists>r k m. verify key = Some r \<and> vaValid r \<and> vaKey r = Some k \<and> parseAndValidateMetadata cd (vkMetadata k) = Some m
       \<and> \<not> truthy (kmRevokedAt m) \<and> \<not> truthy (kmRotatedToKeyId m)
       \<and> rkApiKeyId scope = vkId k \<and> rkScopeOrganizationId scope = vkReferenceId k \<and> rkScopeProjectId scope = kmProjectId m"
  by (auto simp: verifyRenderApiKey_def split: option.splits if_splits)

lemma verify_key_Inl:
  "verifyRenderApiKey cd verify key = Inl e \<Longrightarrow>
     e \<in> {Auth_Error, App API_KEY_INVALID, App API_KEY_EXPIRED, App API_KEY_REVOKED, App RATE_LIMITED, App API_KEY_METADATA_INVALID}"
  by (auto simp: verifyRenderApiKey_def mapVerifyErrorCode_def split: option.splits if_splits)

lemma body_names_key_Inl: "body_names_key body = Inl e \<Longrightarrow> e = Type_Error"
  unfolding body_names_key_def by (cases body) (auto split: json.splits if_splits)

text \<open>The credentials, seen from the header.\<close>

lemma credentials_header:
  "render_credentials req \<in> {Inl (App API_KEY_INVALID), Inl Type_Error}
   \<or> (\<exists>v. render_credentials req = Inr v \<and> rqHeaders req RENDER_KEY_HEADER = Some (One_Header v)
        \<and> starts_with v RENDER_KEY_PREFIX \<and> length v \<le> MAX_RENDER_KEY_HEADER_LENGTH
        \<and> rqHeaders req ''x-api-key'' = None \<and> rqQuery req ''apiKey'' = None)"
proof (cases "rqHeaders req RENDER_KEY_HEADER")
  case (Some h)
  show ?thesis
  proof (cases h)
    case (One_Header v)
    show ?thesis
    proof (cases "body_names_key (rqBody req)")
      case (Inl e)
      with body_names_key_Inl [OF Inl] Some One_Header show ?thesis by (simp add: render_credentials_def)
    qed (use Some One_Header in \<open>simp add: render_credentials_def\<close>)
  qed (use Some in \<open>simp add: render_credentials_def\<close>)
qed (simp add: render_credentials_def)

lemma credentials_Inr:
  assumes "render_credentials req = Inr v"
  shows "rqHeaders req RENDER_KEY_HEADER = Some (One_Header v)" "starts_with v RENDER_KEY_PREFIX"
    "length v \<le> MAX_RENDER_KEY_HEADER_LENGTH" "rqHeaders req ''x-api-key'' = None" "rqQuery req ''apiKey'' = None"
  using credentials_header [of req] unfolding assms
  by (safe; assumption)+

lemma credentials_Inl:
  assumes "render_credentials req = Inl e"
  shows "e \<in> {Type_Error, App API_KEY_INVALID}"
  using credentials_header [of req] unfolding assms by (elim disjE exE) auto

lemma check_organization_Inr:
  assumes "check_organization db scope = Inr u"
  shows "\<exists>r \<in> set (dbOrganizations db). ogId r = rkScopeOrganizationId scope \<and> ogStatus r = Organization_Active"
proof (cases "find (\<lambda>r. ogId r = rkScopeOrganizationId scope) (dbOrganizations db)")
  case (Some r)
  then have "r \<in> set (dbOrganizations db)" "ogId r = rkScopeOrganizationId scope" by (auto simp: find_Some_iff)
  moreover have "ogStatus r = Organization_Active"
    using assms Some by (cases "ogStatus r") (simp_all add: check_organization_def getOrganizationStatus_def)
  ultimately show ?thesis by blast
qed (use assms in \<open>simp add: check_organization_def getOrganizationStatus_def\<close>)

lemma check_project_Inr:
  assumes "check_project db scope = Inr u"
  shows "\<exists>p \<in> set (dbProjects db). pjId p = rkScopeProjectId scope \<and> pjOrganizationId p = rkScopeOrganizationId scope
       \<and> pjStatus p = Project_Active"
proof (cases "getProjectForOrganization db (rkScopeOrganizationId scope) (rkScopeProjectId scope)")
  case (Some p)
  then have "p \<in> set (dbProjects db)" "pjId p = rkScopeProjectId scope" "pjOrganizationId p = rkScopeOrganizationId scope"
    "pjStatus p \<noteq> Project_Deleted"
    by (auto simp: getProjectForOrganization_def find_Some_iff)
  moreover have "pjStatus p \<noteq> Project_Suspended" using assms Some by (auto simp: check_project_def)
  ultimately show ?thesis by (cases "pjStatus p") auto
qed (use assms in \<open>simp add: check_project_def\<close>)

lemma check_domain_Inr:
  "check_domain db scope k = Inr d \<Longrightarrow>
     d \<in> set (dbDomains db) \<and> dmId d = k \<and> dmProjectId d = rkScopeProjectId scope
     \<and> project_in db (rkScopeOrganizationId scope) (dmProjectId d) \<and> dmStatus d = Domain_Verified"
  by (auto simp: check_domain_def getDomainForOrganizationProject_def find_Some_iff split: option.splits if_splits)

lemma normalized_target:
  "normalizeTargetUrl parse raw host = Inr n \<Longrightarrow>
     \<exists>u. parse raw = Some u \<and> uProtocol u = ''https:'' \<and> uUsername u = [] \<and> uPassword u = [] \<and> uPort u \<in> {[], ''443''}
       \<and> normalizeHostname (uHostname u) = host \<and> ntNormalizedUrl n = ''https://'' @ host @ uPathname u @ uSearch u"
  by (auto simp: normalizeTargetUrl_def and_then_Inr_iff Let_def split: option.splits if_splits)

lemma check_url_Inr:
  "check_url env raw d = Inr n \<Longrightarrow> normalizeTargetUrl (reParseUrl env) raw (dmNormalizedHostname d) = Inr n"
  by (auto simp: check_url_def split: sum.splits)

lemma target_Inr:
  "render_target env mo req scope = Inr (d, n) \<Longrightarrow>
     \<exists>b. renderBodySchema env (rqBody req) = Some b \<and> check_organization (rmOrganizationDb mo) scope = Inr ()
       \<and> check_project (rmProjectDb mo) scope = Inr () \<and> check_domain (rmDomainDb mo) scope (rbDomainId b) = Inr d
       \<and> check_url env (rbUrl b) d = Inr n"
  by (auto simp: render_target_def and_then_Inr_iff split: option.splits)

lemma target_Inl: "render_target env mo req scope = Inl e \<Longrightarrow> \<exists>c. e = App c"
  by (auto simp: render_target_def and_then_def check_organization_def check_project_def check_domain_def check_url_def
      split: option.splits sum.splits if_splits)

lemma authorize_Inr:
  assumes "render_authorize env mo req st = (Inr a, st')"
  obtains key where "render_credentials req = Inr key" "rl_admits (rsInvalidKey st) (rqIp req) (rmIpNow mo)"
    "verifyRenderApiKey (reCodec env) (reVerifyApiKey env) key = Inr (arScope a)"
    "render_target env mo req (arScope a) = Inr (arDomain a, arUrl a)"
    "rl_admits (rsValidKey st) (rkApiKeyId (arScope a)) (rmKeyNow mo)"
proof -
  obtain key where key: "render_credentials req = Inr key"
    using assms by (cases "render_credentials req") (simp_all add: render_authorize_def apfst_def map_prod_def split: prod.splits)
  obtain d1 l1 where ip: "rl_check (rsInvalidKey st) (rqIp req) (rmIpNow mo) = (d1, l1)" by fastforce
  have a1: "allowed d1"
    using assms key ip by (cases "allowed d1") (simp_all add: render_authorize_def)
  obtain scope where scope: "verifyRenderApiKey (reCodec env) (reVerifyApiKey env) key = Inr scope"
    using assms key ip a1 by (cases "verifyRenderApiKey (reCodec env) (reVerifyApiKey env) key")
      (auto simp: render_authorize_def apfst_def map_prod_def split: prod.splits)
  obtain d n where target: "render_target env mo req scope = Inr (d, n)"
    using assms key ip a1 scope by (cases "render_target env mo req scope")
      (auto simp: render_authorize_def apfst_def map_prod_def split: prod.splits)
  obtain d2 l2 where valid: "rl_check (rsValidKey st) (rkApiKeyId scope) (rmKeyNow mo) = (d2, l2)" by fastforce
  have "allowed d2 \<and> a = \<lparr>arScope = scope, arDomain = d, arUrl = n\<rparr>"
    using assms key ip a1 scope target valid by (cases "allowed d2") (simp_all add: render_authorize_def)
  with key ip a1 scope target valid that show ?thesis
    using rl_check_allowed [of "rsInvalidKey st" "rqIp req" "rmIpNow mo"]
      rl_check_allowed [of "rsValidKey st" "rkApiKeyId scope" "rmKeyNow mo"] by simp
qed


subsection \<open>What a refusal says and does\<close>

definition render_verdict :: "render_env \<Rightarrow> render_moments \<Rightarrow> render_request \<Rightarrow> render_state \<Rightarrow> render_reply + authorized_render" where
  "render_verdict env mo req st = fst (render_authorize env mo req st)"

lemma render_error_reply:
  "fst (render_error (env\<lparr>reAuditing := on, reTx := tx\<rparr>) scope e req st) = fst (render_error env scope e req' st')"
  by (cases e) (simp_all add: render_error_def render_reject_def Let_def)

lemma render_error_limiters [simp]:
  "rsValidKey (snd (render_error env scope e req st)) = rsValidKey st"
  "rsInvalidKey (snd (render_error env scope e req st)) = rsInvalidKey st"
  by (cases e; simp add: render_error_def render_reject_def Let_def count_result_def split: option.splits)+

text \<open>The audit row of a refusal, if there is one.\<close>

definition rejection_row :: "render_key_scope \<Rightarrow> audit_event \<Rightarrow> bool" where
  "rejection_row scope row \<longleftrightarrow> aeOrganizationId row = rkScopeOrganizationId scope
     \<and> aeActor row = \<lparr>actorUserId = None, actorApiKeyId = Some (rkApiKeyId scope)\<rparr>
     \<and> aeAction row = Render_Authorization_Rejected \<and> aeResult row = Audit_Failure \<and> aeTargetId row = None"

definition refusal_recorded :: "render_key_scope option \<Rightarrow> tenant_db \<Rightarrow> tenant_db \<Rightarrow> bool" where
  "refusal_recorded scope db db' \<longleftrightarrow> (tables_of db' = tables_of db
     \<or> (\<exists>s row. scope = Some s \<and> rejection_row s row \<and> tables_of db' = tables_of (db\<lparr>dbAudit := dbAudit db @ [row]\<rparr>)))"

lemma record_rejection:
  "refusal_recorded (Some s) db (snd (recordAuditEvent env (rejection_event s code req) db))"
proof (cases "buildAuditMetadata [(''reasonCode'', Meta_String code)]")
  case (Inl e)
  then show ?thesis by (simp add: recordAuditEvent_def rejection_event_def refusal_recorded_def)
next
  case (Inr m)
  let ?i = "\<lparr>caOrganizationId = rkScopeOrganizationId s, caActor = \<lparr>actorUserId = None, actorApiKeyId = Some (rkApiKeyId s)\<rparr>,
    caAction = Render_Authorization_Rejected, caTargetType = ''domain'', caTargetId = None, caResult = Audit_Failure,
    caErrorCode = Some code, caRequestId = Some req, caMetadata = Some m\<rparr>"
  have rec: "recordAuditEvent env (rejection_event s code req) db = createAuditEvent env ?i db"
    using Inr by (simp add: recordAuditEvent_def rejection_event_def)
  show ?thesis
  proof (cases "insertAuditEventRow env ?i db")
    case (Inl e)
    then show ?thesis by (simp add: rec createAuditEvent_def refusal_recorded_def)
  next
    case (Inr d)
    then have "d = db\<lparr>dbAudit := dbAudit db @ [audit_row env ?i]\<rparr>" by (simp add: insertAudit_Inr)
    moreover have "rejection_row s (audit_row env ?i)" by (simp add: rejection_row_def audit_row_def)
    ultimately show ?thesis using Inr by (auto simp: rec createAuditEvent_def refusal_recorded_def)
  qed
qed

lemma render_error_recorded: "refusal_recorded scope (rsDb st) (rsDb (snd (render_error env scope e req st)))"
  using record_rejection
  by (cases e) (auto simp: render_error_def render_reject_def Let_def count_result_def refusal_recorded_def split: option.splits)

definition refusal_reply :: "render_reply \<Rightarrow> bool" where
  "refusal_reply reply \<longleftrightarrow>
     (case reply of
        Render_Refused s _ _ \<Rightarrow> s \<in> {400, 401, 403, 404, 409, 429}
      | Render_Limited wait \<Rightarrow> 1 \<le> wait
      | Render_Thrown e \<Rightarrow> e \<in> {Type_Error, Auth_Error}
      | _ \<Rightarrow> False)"

lemma render_error_refusal:
  "(\<exists>c. e = App c) \<or> e \<in> {Type_Error, Auth_Error} \<Longrightarrow> refusal_reply (fst (render_error env scope e req st))"
  by (auto simp: render_error_def render_reject_def renderErrorResponse_def refusal_reply_def Let_def)

text \<open>The three stages at which a request can be refused.\<close>

lemma authorize_cases:
  obtains (Credentials) e where "render_credentials req = Inl e"
      "render_authorize env mo req st = apfst Inl (render_error env None e (rqId req) st)"
  | (Throttled) key where "render_credentials req = Inr key"
      "\<not> allowed (fst (rl_check (rsInvalidKey st) (rqIp req) (rmIpNow mo)))"
      "render_authorize env mo req st
        = (Inl (Render_Limited (retryAfterSeconds (fst (rl_check (rsInvalidKey st) (rqIp req) (rmIpNow mo))))),
           count_result Label_Rate_Limited st)"
  | (Key) key e st1 where "render_credentials req = Inr key"
      "verifyRenderApiKey (reCodec env) (reVerifyApiKey env) key = Inl e" "rsDb st1 = rsDb st" "rsValidKey st1 = rsValidKey st"
      "render_authorize env mo req st = apfst Inl (render_error env None e (rqId req) st1)"
  | (Target) key scope e st1 where "render_credentials req = Inr key"
      "verifyRenderApiKey (reCodec env) (reVerifyApiKey env) key = Inr scope"
      "render_target env mo req scope = Inl e" "rsDb st1 = rsDb st" "rsValidKey st1 = rsValidKey st"
      "render_authorize env mo req st = apfst Inl (render_error env (Some scope) e (rqId req) st1)"
  | (Spent) key scope st1 where "render_credentials req = Inr key"
      "verifyRenderApiKey (reCodec env) (reVerifyApiKey env) key = Inr scope" "rsDb st1 = rsDb st" "rsValidKey st1 = rsValidKey st"
      "\<not> allowed (fst (rl_check (rsValidKey st) (rkApiKeyId scope) (rmKeyNow mo)))"
      "render_authorize env mo req st
        = (Inl (Render_Limited (retryAfterSeconds (fst (rl_check (rsValidKey st) (rkApiKeyId scope) (rmKeyNow mo))))), st1)"
  | (Authorized) a st1 where "render_authorize env mo req st = (Inr a, st1)"
proof (cases "render_credentials req")
  case (Inl e)
  then show ?thesis by (rule Credentials) (simp add: render_authorize_def Inl)
next
  case (Inr key)
  note key = Inr
  obtain d1 l1 where ip: "rl_check (rsInvalidKey st) (rqIp req) (rmIpNow mo) = (d1, l1)" by fastforce
  let ?st1 = "st\<lparr>rsInvalidKey := l1\<rparr>"
  show ?thesis
  proof (cases "allowed d1")
    case False
    then have "l1 = rsInvalidKey st" using rl_check_denied_state [of "rsInvalidKey st" "rqIp req" "rmIpNow mo"] ip by simp
    then show ?thesis using False key ip by (intro Throttled) (simp_all add: render_authorize_def)
  next
    case True
    show ?thesis
    proof (cases "verifyRenderApiKey (reCodec env) (reVerifyApiKey env) key")
      case (Inl e)
      show ?thesis by (rule Key [OF key Inl, of ?st1]) (use True key ip Inl in \<open>simp_all add: render_authorize_def\<close>)
    next
      case (Inr scope)
      note scope = Inr
      show ?thesis
      proof (cases "render_target env mo req scope")
        case (Inl e)
        show ?thesis
          by (rule Target [OF key scope Inl, of ?st1]) (use True key ip scope Inl in \<open>simp_all add: render_authorize_def\<close>)
      next
        case (Inr t)
        obtain d n where t: "t = (d, n)" by fastforce
        obtain d2 l2 where vk: "rl_check (rsValidKey st) (rkApiKeyId scope) (rmKeyNow mo) = (d2, l2)" by fastforce
        show ?thesis
        proof (cases "allowed d2")
          case True2: True
          show ?thesis by (rule Authorized) (use True True2 key ip scope Inr t vk in \<open>simp add: render_authorize_def\<close>)
        next
          case False
          then have "l2 = rsValidKey st"
            using rl_check_denied_state [of "rsValidKey st" "rkApiKeyId scope" "rmKeyNow mo"] vk by simp
          then show ?thesis
            using True False key ip scope Inr t vk
            by (intro Spent [OF key scope, of "count_result Label_Rate_Limited (?st1\<lparr>rsValidKey := l2\<rparr>)"])
              (simp_all add: render_authorize_def count_result_def)
        qed
      qed
    qed
  qed
qed

text \<open>No verdict depends on whether refusals are audited, or on how an audit write ends.\<close>

lemma verdict_without_audit:
  "render_verdict (env\<lparr>reAuditing := on, reTx := tx\<rparr>) mo req st = render_verdict env mo req st"
proof -
  let ?e = "env\<lparr>reAuditing := on, reTx := tx\<rparr>"
  have fields: "reIsUuid ?e = reIsUuid env" "reIsUrl ?e = reIsUrl env" "reParseUrl ?e = reParseUrl env" by simp_all
  have target: "render_target ?e mo req scope = render_target env mo req scope" for scope
    unfolding render_target_def renderBodySchema_def check_url_def fields ..
  have err: "fst (render_error ?e scope e r s) = fst (render_error env scope e r s)" for scope e r s
    by (rule render_error_reply)
  have codec: "reCodec ?e = reCodec env" "reVerifyApiKey ?e = reVerifyApiKey env" by simp_all
  show ?thesis
    unfolding render_verdict_def render_authorize_def codec target
    by (simp add: err Let_def split: prod.split sum.split)
qed

text \<open>
  C3. What a refusal says and does. A refused request never reaches the renderer; the answer has
  one of six statuses, asks to wait at least a second or is a throw; it is the same whether or not
  the refusal is audited and whether or not the audit write succeeds; it takes nothing from the
  budget of the key; the tables stay as they are but for at most one row of the audit log, for
  the organization of a key that did verify; and whatever is wrong with the key itself, the answer
  is the same 401.
\<close>

theorem render_refusals:
  assumes "render_authorize env mo req st = (Inl reply, st')"
  shows "post_render env mo f req st = (reply, st') \<and> refusal_reply reply \<and> rsValidKey st' = rsValidKey st
    \<and> render_verdict (env\<lparr>reAuditing := on, reTx := tx\<rparr>) mo req st = Inl reply
    \<and> (\<exists>scope. refusal_recorded scope (rsDb st) (rsDb st')
         \<and> (\<forall>s. scope = Some s \<longrightarrow> (\<exists>key. render_credentials req = Inr key
              \<and> verifyRenderApiKey (reCodec env) (reVerifyApiKey env) key = Inr s)))
    \<and> (\<forall>key c. render_credentials req = Inr key \<longrightarrow> allowed (fst (rl_check (rsInvalidKey st) (rqIp req) (rmIpNow mo)))
         \<longrightarrow> verifyRenderApiKey (reCodec env) (reVerifyApiKey env) key = Inl (App c) \<longrightarrow> c \<noteq> RATE_LIMITED
         \<longrightarrow> reply = Render_Refused 401 ''API_KEY_INVALID'' ''Invalid API key'')"
    (is "?post \<and> ?reply \<and> ?valid \<and> ?verdict \<and> ?recorded \<and> ?key")
proof (intro conjI)
  show ?post by (simp add: post_render_def assms)
  show ?verdict unfolding verdict_without_audit by (simp add: render_verdict_def assms)
  have "?reply \<and> ?valid \<and> ?recorded \<and> ?key"
  proof (cases rule: authorize_cases [of req env mo st])
    case (Credentials e)
    then have r: "reply = fst (render_error env None e (rqId req) st)" "st' = snd (render_error env None e (rqId req) st)"
      using assms by (simp_all add: prod_eq_iff)
    have "refusal_reply reply" unfolding r by (rule render_error_refusal) (use credentials_Inl [OF Credentials(1)] in auto)
    with Credentials(1) r render_error_recorded [of None] show ?thesis by auto
  next
    case (Throttled key)
    then have r: "reply = Render_Limited (retryAfterSeconds (fst (rl_check (rsInvalidKey st) (rqIp req) (rmIpNow mo))))"
      "st' = count_result Label_Rate_Limited st"
      using assms by simp_all
    have "refusal_reply reply" using Throttled(2) by (auto simp: r refusal_reply_def rl_check_live split: option.splits if_splits)
    with Throttled r show ?thesis by (auto simp: count_result_def refusal_recorded_def)
  next
    case (Key key e st1)
    then have r: "reply = fst (render_error env None e (rqId req) st1)" "st' = snd (render_error env None e (rqId req) st1)"
      using assms by (simp_all add: prod_eq_iff)
    note e = verify_key_Inl [OF Key(2)]
    have "refusal_reply reply" unfolding r by (rule render_error_refusal) (use e in auto)
    moreover have "?key"
      using Key(1,2) e by (auto simp: r render_error_def render_reject_def renderErrorResponse_def Let_def)
    ultimately show ?thesis using Key r render_error_recorded [of None "st1"] by auto
  next
    case (Target key scope e st1)
    then have r: "reply = fst (render_error env (Some scope) e (rqId req) st1)" "st' = snd (render_error env (Some scope) e (rqId req) st1)"
      using assms by (simp_all add: prod_eq_iff)
    have "refusal_reply reply" unfolding r by (rule render_error_refusal) (use target_Inl [OF Target(3)] in auto)
    with Target r render_error_recorded [of "Some scope" st1] show ?thesis by auto
  next
    case (Spent key scope st1)
    then have r: "reply = Render_Limited (retryAfterSeconds (fst (rl_check (rsValidKey st) (rkApiKeyId scope) (rmKeyNow mo))))" "st' = st1"
      using assms by simp_all
    have "refusal_reply reply" using Spent(5) by (auto simp: r refusal_reply_def rl_check_live split: option.splits if_splits)
    with Spent r show ?thesis by (auto simp: refusal_recorded_def)
  next
    case (Authorized a st1)
    with assms show ?thesis by simp
  qed
  then show ?reply ?valid ?recorded ?key by blast+
qed

subsection \<open>An example, and three oddities\<close>

definition demo_render_db :: tenant_db where
  "demo_render_db = demo_db\<lparr>dbProjects := [(demo_project ''p2'' ''o2'')\<lparr>pjId := demo_uuid\<rparr>],
     dbDomains := [\<lparr>dmId = ''d2'', dmProjectId = demo_uuid, dmHostname = ''b.org'', dmNormalizedHostname = ''b.org'',
       dmStatus = Domain_Verified, dmVerificationMethod = Dns_Txt, dmVerificationTokenHash = ''h'', dmVerifiedAt = Some 0,
       dmLastVerificationAttemptAt = Some 0, dmVerificationFailureCount = 0, dmCreatedAt = 0, dmUpdatedAt = 0\<rparr>]\<rparr>"

definition demo_render_env :: render_env where
  "demo_render_env =
     \<lparr>reCodec = demo_codec,
      reVerifyApiKey = (\<lambda>key. Some (if key = ''pr_live_s'' then
        \<lparr>vaValid = True, vaKey = Some \<lparr>vkId = ''k1'', vkReferenceId = ''o2'', vkMetadata = akMetadata demo_key, vkExpiresAt = None\<rparr>,
         vaErrorCode = None\<rparr> else \<lparr>vaValid = False, vaKey = None, vaErrorCode = Some ''KEY_NOT_FOUND''\<rparr>)),
      reIsUuid = (\<lambda>_. True), reIsUrl = (\<lambda>_. True),
      reParseUrl = (\<lambda>_. Some \<lparr>uProtocol = ''https:'', uUsername = [], uPassword = [], uHostname = ''b.org'', uPort = [],
        uPathname = ''/x'', uSearch = [], uHash = []\<rparr>),
      reAuditing = True, reTx = demo_tx\<rparr>"

definition demo_moments :: render_moments where
  "demo_moments = \<lparr>rmIpNow = 0, rmOrganizationDb = demo_render_db, rmProjectDb = demo_render_db, rmDomainDb = demo_render_db, rmKeyNow = 1\<rparr>"

definition demo_request :: "string \<Rightarrow> render_request" where
  "demo_request domain =
     \<lparr>rqHeaders = (\<lambda>h. if h = ''x-render-api-key'' then Some (One_Header ''pr_live_s'') else None),
      rqBody = Some (Json_Object [(''domainId'', Json_String domain), (''url'', Json_String ''https://b.org/x'')]),
      rqQuery = (\<lambda>_. None), rqIp = ''10.0.0.1'', rqId = ''req''\<rparr>"

definition demo_render_state :: render_state where
  "demo_render_state = \<lparr>rsDb = demo_render_db, rsInvalidKey = createRateLimiter 60000 5, rsValidKey = createRateLimiter 60000 5, rsResults = []\<rparr>"

definition demo_page :: render_result where
  "demo_page = \<lparr>rrUrl = ''https://b.org/x'', rrFinalUrl = ''https://b.org/x'', rrStatusCode = Some 200, rrTitle = ''x'', rrHtml = ''<p>x'',
     rrRenderTimeMs = 10, rrRenderedAt = ''''\<rparr>"

lemma demo_rendered:
  "fst (post_render demo_render_env demo_moments (\<lambda>_. Inr demo_page) (demo_request ''d2'') demo_render_state) = Rendered demo_page"
  "fst (post_render demo_render_env demo_moments (\<lambda>_. Inl (Capacity_Error RENDER_QUEUE_FULL)) (demo_request ''d2'') demo_render_state)
     = Render_Unavailable RENDER_QUEUE_FULL"
  by code_simp+


definition demo_refused :: "(render_reply + authorized_render) \<times> render_state" where
  "demo_refused = render_authorize demo_render_env demo_moments (demo_request ''d9'') demo_render_state"

lemma demo_refused_reply: "fst demo_refused = Inl (Render_Refused 404 ''DOMAIN_NOT_FOUND'' ''Not found'')"
  by code_simp

theorem render_refusals_witness:
  "refusal_reply (Render_Refused 404 ''DOMAIN_NOT_FOUND'' ''Not found'') \<and> rsValidKey (snd demo_refused) = rsValidKey demo_render_state
   \<and> map aeErrorCode (dbAudit (rsDb (snd demo_refused))) = [Some ''DOMAIN_NOT_FOUND'']"
proof -
  have "render_authorize demo_render_env demo_moments (demo_request ''d9'') demo_render_state
      = (Inl (Render_Refused 404 ''DOMAIN_NOT_FOUND'' ''Not found''), snd demo_refused)"
    using demo_refused_reply unfolding demo_refused_def by (simp add: prod_eq_iff)
  from render_refusals [OF this, of undefined demo_tx True]
  have "refusal_reply (Render_Refused 404 ''DOMAIN_NOT_FOUND'' ''Not found'')" "rsValidKey (snd demo_refused) = rsValidKey demo_render_state"
    by blast+
  moreover have "map aeErrorCode (dbAudit (rsDb (snd demo_refused))) = [Some ''DOMAIN_NOT_FOUND'']"
    by code_simp
  ultimately show ?thesis by blast
qed

text \<open>The limiter of invalid attempts counts the valid ones too.\<close>

lemma valid_render_uses_invalid_budget:
  assumes "render_authorize env mo req st = (Inr a, st')"
  shows "rsInvalidKey st' = snd (rl_check (rsInvalidKey st) (rqIp req) (rmIpNow mo))"
  using assms
  by (auto simp: render_authorize_def Let_def apfst_def map_prod_def split: sum.splits prod.splits if_splits)

text \<open>A body that is a text makes the operator \<open>in\<close> throw, before any limiter is asked.\<close>

lemma text_body_crashes:
  assumes "rqHeaders req RENDER_KEY_HEADER = Some (One_Header v)" "starts_with v RENDER_KEY_PREFIX"
    "length v \<le> MAX_RENDER_KEY_HEADER_LENGTH" "rqHeaders req ''x-api-key'' = None" "rqBody req = Some (Json_String (c # s))"
  shows "render_authorize env mo req st = (Inl (Render_Thrown Type_Error), st)"
proof -
  have "v \<noteq> []" using assms(2) by (auto simp: RENDER_KEY_PREFIX_def)
  moreover have "body_names_key (rqBody req) = Inl Type_Error" using assms(5) by (simp add: body_names_key_def)
  ultimately have "render_credentials req = Inl Type_Error" using assms(1-4) by (simp add: render_credentials_def)
  then show ?thesis by (simp add: render_authorize_def render_error_def)
qed

text \<open>When Better Auth's own limit for the key is reached, the 429 comes without \<open>Retry-After\<close>.\<close>

lemma key_limit_without_retry_after:
  assumes "render_credentials req = Inr key" "rl_admits (rsInvalidKey st) (rqIp req) (rmIpNow mo)"
    and "reVerifyApiKey env key = Some \<lparr>vaValid = False, vaKey = None, vaErrorCode = Some ''RATE_LIMIT_EXCEEDED''\<rparr>"
  shows "render_verdict env mo req st = Inl (Render_Refused 429 ''RATE_LIMITED'' ''Too many requests'')"
proof -
  have "verifyRenderApiKey (reCodec env) (reVerifyApiKey env) key = Inl (App RATE_LIMITED)"
    using assms(3) by (simp add: verifyRenderApiKey_def mapVerifyErrorCode_def)
  moreover obtain d l where "rl_check (rsInvalidKey st) (rqIp req) (rmIpNow mo) = (d, l)" by fastforce
  moreover from this have "allowed d" using assms(2) rl_check_allowed [of "rsInvalidKey st" "rqIp req" "rmIpNow mo"] by simp
  ultimately show ?thesis
    using assms(1)
    by (simp add: render_verdict_def render_authorize_def Let_def render_error_def render_reject_def renderErrorResponse_def)
qed

end
