(* ===== verification/EnvConfig.thy ===== *)
theory EnvConfig
  imports Origins RateLimiter RenderCapacity
begin

section \<open>The configuration\<close>

text \<open>
  src/config/env.ts and the start of src/server.ts: the environment as the process has it (a map
  from names to texts), the schema field by field, the transformation of the trusted origins and
  the refinement at the end. \<open>Number(text)\<close>, when it is an integer, and the URL parser are the
  functions of an \<open>env_lib\<close>. The fields of the one flat object of the source are grouped in
  records by the part of the program that reads them.
\<close>

type_synonym environment = "string \<Rightarrow> string option"

record env_lib =
  elInteger :: "string \<Rightarrow> int option"
  elParseUrl :: "string \<Rightarrow> url option"

datatype node_env = Development | Test_Env | Production

datatype store_provider = Filesystem_Store | Memory_Store

subsection \<open>Fields\<close>

text \<open>\<open>z.coerce.number().int().min(lo).max(hi).default(d)\<close>; a text that is present is coerced.\<close>

definition env_int :: "env_lib \<Rightarrow> environment \<Rightarrow> string \<Rightarrow> int \<Rightarrow> int \<Rightarrow> int \<Rightarrow> int option" where
  "env_int lib e name lo hi d =
     (case e name of
        None \<Rightarrow> Some d
      | Some s \<Rightarrow> (case elInteger lib s of Some n \<Rightarrow> (if lo \<le> n \<and> n \<le> hi then Some n else None) | None \<Rightarrow> None))"

text \<open>\<open>z.coerce.number().int().positive().default(d)\<close>\<close>

definition env_positive :: "env_lib \<Rightarrow> environment \<Rightarrow> string \<Rightarrow> int \<Rightarrow> int option" where
  "env_positive lib e name d =
     (case e name of
        None \<Rightarrow> Some d
      | Some s \<Rightarrow> (case elInteger lib s of Some n \<Rightarrow> (if n > 0 then Some n else None) | None \<Rightarrow> None))"

definition env_string :: "environment \<Rightarrow> string \<Rightarrow> string \<Rightarrow> string" where
  "env_string e name d = (case e name of None \<Rightarrow> d | Some s \<Rightarrow> s)"

definition env_enum :: "environment \<Rightarrow> string \<Rightarrow> (string \<times> 'a) list \<Rightarrow> 'a \<Rightarrow> 'a option" where
  "env_enum e name names d = (case e name of None \<Rightarrow> Some d | Some s \<Rightarrow> map_of names s)"

text \<open>\<open>z.string().min(n)\<close>, which is required.\<close>

definition env_min_string :: "environment \<Rightarrow> string \<Rightarrow> nat \<Rightarrow> string option" where
  "env_min_string e name n = (case e name of None \<Rightarrow> None | Some s \<Rightarrow> (if n \<le> length s then Some s else None))"

text \<open>\<open>z.string().url().refine(...)\<close>\<close>

definition env_url :: "env_lib \<Rightarrow> environment \<Rightarrow> string \<Rightarrow> (url \<Rightarrow> bool) \<Rightarrow> string option" where
  "env_url lib e name ok =
     (case e name of
        None \<Rightarrow> None
      | Some s \<Rightarrow> (case elParseUrl lib s of None \<Rightarrow> None | Some u \<Rightarrow> (if ok u then Some s else None)))"

definition proxy_url_ok :: "url \<Rightarrow> bool" where
  "proxy_url_ok u \<longleftrightarrow> uProtocol u = ''http:'' \<and> uUsername u = [] \<and> uPassword u = []"

definition proxyUrlSchema :: "env_lib \<Rightarrow> environment \<Rightarrow> string option option" where
  "proxyUrlSchema lib e =
     (if e ''OUTBOUND_PROXY_URL'' = None then Some None
      else map_option Some (env_url lib e ''OUTBOUND_PROXY_URL'' proxy_url_ok))"

definition trusted_proxies :: "environment \<Rightarrow> string list" where
  "trusted_proxies e = filter (\<lambda>s. s \<noteq> []) (map js_trim (js_split (CHR '','') (env_string e ''TRUSTED_PROXY_CIDRS'' [])))"

subsection \<open>The schema\<close>

record server_env =
  evNodeEnv :: node_env
  evHost :: string
  evPort :: int
  evLogLevel :: string
  evTrustedProxyCidrs :: "string list"

record browser_env =
  evRenderTimeoutMs :: int
  evMaxHtmlBytes :: int
  evMaxConcurrentRenders :: int
  evMaxQueuedRenders :: int
  evRenderQueueTimeoutMs :: int
  evOutboundProxyUrl :: "string option"
  evRequireOutboundProxy :: bool

record auth_env =
  evDatabaseUrl :: string
  evBetterAuthSecret :: string
  evBetterAuthBaseUrl :: string

record limit_env =
  evRenderKeyInvalidMax :: int
  evRenderKeyInvalidWindowMs :: int
  evRenderKeyValidMax :: int
  evRenderKeyValidWindowMs :: int
  evLoginMax :: int
  evLoginWindowMs :: int
  evInvitationMax :: int
  evInvitationWindowMs :: int

record store_env =
  evProvider :: store_provider
  evStoreRoot :: "string option"

record env_config =
  evServer :: server_env
  evRender :: browser_env
  evAuth :: auth_env
  evLimits :: limit_env
  evStore :: store_env
  evTrustedOrigins :: "string list"

definition server_schema :: "env_lib \<Rightarrow> environment \<Rightarrow> server_env option" where
  "server_schema lib e =
     Option.bind (env_enum e ''NODE_ENV'' [(''development'', Development), (''test'', Test_Env), (''production'', Production)] Development) (\<lambda>node.
     Option.bind (env_positive lib e ''PORT'' 3000) (\<lambda>port.
       Some \<lparr>evNodeEnv = node, evHost = env_string e ''HOST'' ''0.0.0.0'', evPort = port,
             evLogLevel = env_string e ''LOG_LEVEL'' ''info'', evTrustedProxyCidrs = trusted_proxies e\<rparr>))"

definition render_schema :: "env_lib \<Rightarrow> environment \<Rightarrow> browser_env option" where
  "render_schema lib e =
     Option.bind (env_int lib e ''RENDER_TIMEOUT_MS'' 1000 60000 15000) (\<lambda>timeout.
     Option.bind (env_int lib e ''MAX_HTML_BYTES'' 10000 20000000 5000000) (\<lambda>html.
     Option.bind (env_int lib e ''MAX_CONCURRENT_RENDERS'' 1 50 2) (\<lambda>concurrent.
     Option.bind (env_int lib e ''MAX_QUEUED_RENDERS'' 0 500 20) (\<lambda>queued.
     Option.bind (env_int lib e ''RENDER_QUEUE_TIMEOUT_MS'' 1000 120000 10000) (\<lambda>queueTimeout.
     Option.bind (proxyUrlSchema lib e) (\<lambda>proxy.
     Option.bind (env_enum e ''REQUIRE_OUTBOUND_PROXY'' [(''true'', True), (''false'', False)] False) (\<lambda>required.
       Some \<lparr>evRenderTimeoutMs = timeout, evMaxHtmlBytes = html, evMaxConcurrentRenders = concurrent,
             evMaxQueuedRenders = queued, evRenderQueueTimeoutMs = queueTimeout, evOutboundProxyUrl = proxy,
             evRequireOutboundProxy = required\<rparr>)))))))"

definition auth_schema :: "env_lib \<Rightarrow> environment \<Rightarrow> auth_env option" where
  "auth_schema lib e =
     Option.bind (env_url lib e ''DATABASE_URL'' (\<lambda>u. uProtocol u = ''postgres:'' \<or> uProtocol u = ''postgresql:'')) (\<lambda>db.
     Option.bind (env_min_string e ''BETTER_AUTH_SECRET'' 32) (\<lambda>secret.
     Option.bind (env_url lib e ''BETTER_AUTH_BASE_URL'' (\<lambda>_. True)) (\<lambda>base.
       Some \<lparr>evDatabaseUrl = db, evBetterAuthSecret = secret, evBetterAuthBaseUrl = base\<rparr>)))"

definition limit_schema :: "env_lib \<Rightarrow> environment \<Rightarrow> limit_env option" where
  "limit_schema lib e =
     Option.bind (env_int lib e ''RENDER_KEY_INVALID_RATE_LIMIT_MAX'' 1 1000 20) (\<lambda>im.
     Option.bind (env_int lib e ''RENDER_KEY_INVALID_RATE_LIMIT_WINDOW_MS'' 1000 3600000 60000) (\<lambda>iw.
     Option.bind (env_int lib e ''RENDER_KEY_VALID_RATE_LIMIT_MAX'' 1 10000 120) (\<lambda>vm.
     Option.bind (env_int lib e ''RENDER_KEY_VALID_RATE_LIMIT_WINDOW_MS'' 1000 3600000 60000) (\<lambda>vw.
     Option.bind (env_int lib e ''LOGIN_RATE_LIMIT_MAX'' 1 1000 10) (\<lambda>lm.
     Option.bind (env_int lib e ''LOGIN_RATE_LIMIT_WINDOW_MS'' 1000 3600000 60000) (\<lambda>lw.
     Option.bind (env_int lib e ''INVITATION_RATE_LIMIT_MAX'' 1 1000 10) (\<lambda>nm.
     Option.bind (env_int lib e ''INVITATION_RATE_LIMIT_WINDOW_MS'' 1000 3600000 60000) (\<lambda>nw.
       Some \<lparr>evRenderKeyInvalidMax = im, evRenderKeyInvalidWindowMs = iw, evRenderKeyValidMax = vm,
             evRenderKeyValidWindowMs = vw, evLoginMax = lm, evLoginWindowMs = lw, evInvitationMax = nm,
             evInvitationWindowMs = nw\<rparr>))))))))"

definition store_schema :: "environment \<Rightarrow> store_env option" where
  "store_schema e =
     map_option (\<lambda>p. \<lparr>evProvider = p, evStoreRoot = e ''CACHE_OBJECT_STORE_ROOT''\<rparr>)
       (env_enum e ''CACHE_OBJECT_STORE_PROVIDER'' [(''filesystem'', Filesystem_Store), (''memory'', Memory_Store)] Memory_Store)"

text \<open>\<open>superRefine\<close>: no issue is added.\<close>

definition store_refined :: "node_env \<Rightarrow> store_env \<Rightarrow> bool" where
  "store_refined node s \<longleftrightarrow>
     \<not> (node = Production \<and> evProvider s = Memory_Store)
     \<and> (evProvider s = Filesystem_Store \<longrightarrow>
          (case evStoreRoot s of None \<Rightarrow> False | Some root \<Rightarrow> root \<noteq> [] \<and> starts_with root ''/''))"

text \<open>
  \<open>envSchema.parse(process.env)\<close>: an issue of a field stops before the transformation, which may
  throw; the refinement comes last.
\<close>

datatype env_error = Env_Issues | Env_Origins trusted_origin_error | Env_Refinement

definition parse_env :: "env_lib \<Rightarrow> environment \<Rightarrow> env_error + env_config" where
  "parse_env lib e =
     (case (server_schema lib e, render_schema lib e, auth_schema lib e, limit_schema lib e, store_schema e,
            env_min_string e ''AUTH_TRUSTED_ORIGINS'' 1) of
        (Some server, Some render, Some auth, Some limits, Some store, Some raw) \<Rightarrow>
          (case parseTrustedOrigins (elParseUrl lib) raw (evNodeEnv server = Production) of
             Inl err \<Rightarrow> Inl (Env_Origins err)
           | Inr origins \<Rightarrow>
               (if store_refined (evNodeEnv server) store
                then Inr \<lparr>evServer = server, evRender = render, evAuth = auth, evLimits = limits, evStore = store,
                          evTrustedOrigins = origins\<rparr>
                else Inl Env_Refinement))
      | _ \<Rightarrow> Inl Env_Issues)"

subsection \<open>The start of the server\<close>

text \<open>\<open>process.exit(1)\<close> before the application is built, when a required proxy is missing.\<close>

definition refuses_to_start :: "env_config \<Rightarrow> bool" where
  "refuses_to_start c \<longleftrightarrow> evRequireOutboundProxy (evRender c) \<and> (evOutboundProxyUrl (evRender c) = None \<or> evOutboundProxyUrl (evRender c) = Some [])"

subsection \<open>What the rest of the program may rely on\<close>

definition between :: "int \<Rightarrow> int \<Rightarrow> int \<Rightarrow> bool" where
  "between lo hi n \<longleftrightarrow> lo \<le> n \<and> n \<le> hi"

lemma env_int_between: "env_int lib e name lo hi d = Some n \<Longrightarrow> between lo hi d \<Longrightarrow> between lo hi n"
  by (auto simp: env_int_def between_def split: option.splits if_splits)

lemma env_positive_pos: "env_positive lib e name d = Some n \<Longrightarrow> 0 < d \<Longrightarrow> 0 < n"
  by (auto simp: env_positive_def split: option.splits if_splits)

lemma env_url_Some: "env_url lib e name ok = Some s \<Longrightarrow> \<exists>u. elParseUrl lib s = Some u \<and> ok u"
  by (auto simp: env_url_def split: option.splits if_splits)

lemma env_min_string_Some: "env_min_string e name n = Some s \<Longrightarrow> n \<le> length s"
  by (auto simp: env_min_string_def split: option.splits if_splits)

text \<open>The type of every group of fields.\<close>

definition server_typed :: "server_env \<Rightarrow> bool" where
  "server_typed s \<longleftrightarrow> 0 < evPort s \<and> (\<forall>c \<in> set (evTrustedProxyCidrs s). c \<noteq> [])"

definition render_typed :: "env_lib \<Rightarrow> browser_env \<Rightarrow> bool" where
  "render_typed lib r \<longleftrightarrow> between 1000 60000 (evRenderTimeoutMs r) \<and> between 10000 20000000 (evMaxHtmlBytes r)
     \<and> between 1 50 (evMaxConcurrentRenders r) \<and> between 0 500 (evMaxQueuedRenders r)
     \<and> between 1000 120000 (evRenderQueueTimeoutMs r)
     \<and> (\<forall>p. evOutboundProxyUrl r = Some p \<longrightarrow> (\<exists>u. elParseUrl lib p = Some u \<and> proxy_url_ok u))"

definition auth_typed :: "env_lib \<Rightarrow> auth_env \<Rightarrow> bool" where
  "auth_typed lib a \<longleftrightarrow> 32 \<le> length (evBetterAuthSecret a) \<and> elParseUrl lib (evBetterAuthBaseUrl a) \<noteq> None
     \<and> (\<exists>u. elParseUrl lib (evDatabaseUrl a) = Some u \<and> uProtocol u \<in> {''postgres:'', ''postgresql:''})"

definition limits_typed :: "limit_env \<Rightarrow> bool" where
  "limits_typed l \<longleftrightarrow> between 1 1000 (evRenderKeyInvalidMax l) \<and> between 1 10000 (evRenderKeyValidMax l)
     \<and> between 1 1000 (evLoginMax l) \<and> between 1 1000 (evInvitationMax l)
     \<and> between 1000 3600000 (evRenderKeyInvalidWindowMs l) \<and> between 1000 3600000 (evRenderKeyValidWindowMs l)
     \<and> between 1000 3600000 (evLoginWindowMs l) \<and> between 1000 3600000 (evInvitationWindowMs l)"

definition store_typed :: "node_env \<Rightarrow> store_env \<Rightarrow> bool" where
  "store_typed node s \<longleftrightarrow> (node = Production \<longrightarrow> evProvider s = Filesystem_Store)
     \<and> (evProvider s = Filesystem_Store \<longrightarrow> (\<exists>rest. evStoreRoot s = Some (''/'' @ rest)))"

definition origins_typed :: "env_lib \<Rightarrow> node_env \<Rightarrow> string list \<Rightarrow> bool" where
  "origins_typed lib node os \<longleftrightarrow> os \<noteq> [] \<and> distinct os
     \<and> (\<forall>o' \<in> set os. \<exists>entry u. elParseUrl lib entry = Some u \<and> o' = url_origin u
          \<and> uProtocol u \<in> {''http:'', ''https:''} \<and> (node = Production \<longrightarrow> uProtocol u = ''https:''))"

lemma server_schema_typed: "server_schema lib e = Some s \<Longrightarrow> server_typed s"
  by (auto simp: server_schema_def server_typed_def bind_eq_Some_conv trusted_proxies_def intro: env_positive_pos)

lemma env_int_bindE:
  assumes "Option.bind (env_int lib e name lo hi d) f = Some r" "between lo hi d"
    and "\<And>n. between lo hi n \<Longrightarrow> f n = Some r \<Longrightarrow> thesis"
  shows thesis
  using assms by (cases "env_int lib e name lo hi d") (auto dest: env_int_between)

lemma proxy_typed: "proxyUrlSchema lib e = Some (Some q) \<Longrightarrow> \<exists>u. elParseUrl lib q = Some u \<and> proxy_url_ok u"
  unfolding proxyUrlSchema_def by (auto split: if_splits dest: env_url_Some)

lemma render_schema_typed:
  assumes "render_schema lib e = Some r"
  shows "render_typed lib r"
  using assms unfolding render_schema_def
  apply -
  apply ((erule env_int_bindE, simp add: between_def)+)
  apply (clarsimp simp only: bind_eq_Some_conv)
  apply (auto simp: render_typed_def intro: proxy_typed)
  done

lemma auth_schema_typed: "auth_schema lib e = Some a \<Longrightarrow> auth_typed lib a"
  by (auto simp: auth_schema_def auth_typed_def bind_eq_Some_conv dest!: env_url_Some env_min_string_Some)

lemma limit_schema_typed:
  assumes "limit_schema lib e = Some l"
  shows "limits_typed l"
  using assms unfolding limit_schema_def
  apply -
  apply ((erule env_int_bindE, simp add: between_def)+)
  apply (auto simp: limits_typed_def)
  done

lemma store_refined_typed: "store_refined node s \<Longrightarrow> store_typed node s"
  by (cases "evProvider s") (auto simp: store_refined_def store_typed_def prefix_def split: option.splits)

lemma trusted_origins_typed:
  assumes "parseTrustedOrigins (elParseUrl lib) raw (node = Production) = Inr os"
  shows "origins_typed lib node os"
proof -
  let ?es = "filter (\<lambda>s. length s > 0) (map js_trim (js_split (CHR '','') raw))"
  obtain rs where rs: "parse_trusted_entries (elParseUrl lib) (node = Production) ?es = Inr rs" "os = set_order rs" "?es \<noteq> []"
    using assms by (auto simp: parseTrustedOrigins_def Let_def and_then_Inr_iff split: if_splits)
  note all = parse_trusted_entries_all [OF rs(1)]
  have "\<exists>entry u. elParseUrl lib entry = Some u \<and> o' = url_origin u
      \<and> uProtocol u \<in> {''http:'', ''https:''} \<and> (node = Production \<longrightarrow> uProtocol u = ''https:'')" if mem: "o' \<in> set os" for o'
  proof -
    obtain e where "parse_trusted_entry (elParseUrl lib) (node = Production) e = Inr o'"
      using list_all2_set_right [OF all, of o'] mem rs(2) by auto
    then show ?thesis by (auto simp: parse_trusted_entry_def split: if_splits option.splits)
  qed
  moreover have "os \<noteq> []" using all rs(2,3) by (metis list_all2_Nil2 set_empty set_set_order)
  ultimately show ?thesis using rs(2) by (simp add: origins_typed_def)
qed


definition demo_env_url :: "string \<Rightarrow> url" where
  "demo_env_url protocol = demo_url\<lparr>uProtocol := protocol, uPathname := ''/''\<rparr>"

definition demo_env_lib :: env_lib where
  "demo_env_lib =
     \<lparr>elInteger = (\<lambda>s. if list_all is_digit s then Some (int (read_nat s)) else None),
      elParseUrl = (\<lambda>s. if starts_with s ''postgres://'' then Some (demo_env_url ''postgres:'')
                        else if starts_with s ''https://'' then Some (demo_env_url ''https:'') else None)\<rparr>"

definition demo_environment :: environment where
  "demo_environment = map_of
     [(''NODE_ENV'', ''production''), (''DATABASE_URL'', ''postgres://db/x''), (''BETTER_AUTH_SECRET'', replicate 32 (CHR ''s'')),
      (''BETTER_AUTH_BASE_URL'', ''https://app.test''), (''AUTH_TRUSTED_ORIGINS'', ''https://app.test''),
      (''MAX_CONCURRENT_RENDERS'', ''4''), (''CACHE_OBJECT_STORE_PROVIDER'', ''filesystem''), (''CACHE_OBJECT_STORE_ROOT'', ''/var/cache'')]"

text \<open>Four variables are required; in production without a store root the program does not start.\<close>

lemma demo_configurations:
  "(case parse_env demo_env_lib demo_environment of Inr c \<Rightarrow> Some (evMaxConcurrentRenders (evRender c)) | Inl _ \<Rightarrow> None) = Some 4"
  "parse_env demo_env_lib (demo_environment(''CACHE_OBJECT_STORE_PROVIDER'' := None)) = Inl Env_Refinement"
  "parse_env demo_env_lib (demo_environment(''MAX_CONCURRENT_RENDERS'' \<mapsto> ''51'')) = Inl Env_Issues"
  "parse_env demo_env_lib (demo_environment(''AUTH_TRUSTED_ORIGINS'' \<mapsto> ''*'')) = Inl (Env_Origins Wildcard_Origin)"
  by code_simp+


end
