(* ===== verification/Renderer.thy ===== *)
theory Renderer
  imports RenderRoute EnvConfig
begin

section \<open>Rendering one page\<close>

text \<open>
  src/lib/browser-launch.ts and \<open>renderUrl\<close> of src/services/renderer.ts. Chromium and Playwright
  are a record of what the calls for one page return; the URL validator is an argument, because
  it resolves names anew each time and may answer differently. The browser that is shared by the
  renders is in BrowserPool. The texts of the error messages are left out.
\<close>

subsection \<open>Launch options\<close>

record launch_config =
  lcProxyUrl :: "string option"
  lcSandbox :: bool
  lcEnforceSandboxOnLinux :: bool

text \<open>\<open>chromiumSandbox\<close> is true or absent.\<close>

record launch_options =
  loHeadless :: bool
  loArgs :: "string list"
  loChromiumSandbox :: bool
  loProxy :: "string option"

datatype launch_error = Forbidden_Flag string | Sandbox_Required

definition buildLaunchOptions :: "launch_config \<Rightarrow> launch_options" where
  "buildLaunchOptions config =
     \<lparr>loHeadless = True,
      loArgs = [''--disable-dev-shm-usage'', ''--disable-extensions'', ''--disable-background-networking'', ''--no-first-run''],
      loChromiumSandbox = lcSandbox config,
      loProxy = (if truthy (lcProxyUrl config) then lcProxyUrl config else None)\<rparr>"

definition forbidden_flags :: "string list" where
  "forbidden_flags = [''--no-sandbox'', ''--disable-setuid-sandbox'']"

definition assertNoSandboxBypass :: "launch_options \<Rightarrow> launch_error + unit" where
  "assertNoSandboxBypass opts =
     (case find (\<lambda>flag. flag \<in> set (loArgs opts)) forbidden_flags of
        Some flag \<Rightarrow> Inl (Forbidden_Flag flag)
      | None \<Rightarrow> Inr ())"

definition assertSandboxRequiredOnLinux :: "string \<Rightarrow> launch_options \<Rightarrow> launch_error + unit" where
  "assertSandboxRequiredOnLinux platform opts =
     guard_or (\<not> (platform = ''linux'' \<and> \<not> loChromiumSandbox opts)) Sandbox_Required"

text \<open>The options every later launch uses, or the exception at start.\<close>

definition createDefaultLauncher :: "string \<Rightarrow> launch_config \<Rightarrow> launch_error + launch_options" where
  "createDefaultLauncher platform config =
     (let opts = buildLaunchOptions config
      in and_then (assertNoSandboxBypass opts) (\<lambda>_.
         and_then (if lcEnforceSandboxOnLinux config then assertSandboxRequiredOnLinux platform opts else Inr ()) (\<lambda>_.
         Inr opts)))"

text \<open>What the renderer of the service asks for.\<close>

definition renderer_launch_config :: "string \<Rightarrow> browser_env \<Rightarrow> launch_config" where
  "renderer_launch_config platform env =
     \<lparr>lcProxyUrl = evOutboundProxyUrl env, lcSandbox = (platform = ''linux''), lcEnforceSandboxOnLinux = True\<rparr>"

lemma no_sandbox_bypass [simp]: "assertNoSandboxBypass (buildLaunchOptions config) = Inr ()"
  by (simp add: assertNoSandboxBypass_def buildLaunchOptions_def forbidden_flags_def)

text \<open>The launcher of the service can always be built, and on Linux its browsers are sandboxed.\<close>

lemma renderer_launcher:
  "\<exists>opts. createDefaultLauncher platform (renderer_launch_config platform env) = Inr opts
     \<and> (platform = ''linux'' \<longrightarrow> loChromiumSandbox opts) \<and> set forbidden_flags \<inter> set (loArgs opts) = {}
     \<and> loProxy opts = (if truthy (evOutboundProxyUrl env) then evOutboundProxyUrl env else None)"
  by (simp add: createDefaultLauncher_def assertSandboxRequiredOnLinux_def guard_or_def and_then_def Let_def)
    (simp add: renderer_launch_config_def buildLaunchOptions_def forbidden_flags_def)

text \<open>Who demands the sandbox on Linux and does not ask for it gets no launcher.\<close>

lemma sandbox_is_enforced:
  "createDefaultLauncher ''linux'' \<lparr>lcProxyUrl = p, lcSandbox = False, lcEnforceSandboxOnLinux = True\<rparr> = Inl Sandbox_Required"
  by (simp add: createDefaultLauncher_def assertSandboxRequiredOnLinux_def guard_or_def and_then_def Let_def)
    (simp add: buildLaunchOptions_def)

text \<open>In hardened mode no browser connects directly: the proxy is an http one without credentials.\<close>

lemma hardened_mode_uses_proxy:
  assumes "parse_env lib e = Inr c" "evRequireOutboundProxy (evRender c)" "\<not> refuses_to_start c"
  shows "\<exists>opts p. createDefaultLauncher platform (renderer_launch_config platform (evRender c)) = Inr opts
     \<and> loProxy opts = Some p \<and> evOutboundProxyUrl (evRender c) = Some p \<and> p \<noteq> []"
proof -
  obtain p where "evOutboundProxyUrl (evRender c) = Some p" "p \<noteq> []"
    using assms(2,3) by (auto simp: refuses_to_start_def)
  with renderer_launcher [of platform "evRender c"] show ?thesis by (auto simp: truthy_def)
qed

subsection \<open>Requests of the page\<close>

datatype route_action = Abort_Blocked_By_Client | Abort | Continue

datatype url_rejection_reason = Rejected_By_Rule url_rejection | Rejected_Redirect | Rejected_Resource

datatype render_effect =
    Url_Rejection url_rejection_reason
  | Duration_Observed int
  | Context_Closed

type_synonym url_validator = "string \<Rightarrow> url_rejection + url"

text \<open>\<open>hardenContext\<close>: every request of every page of the context goes through this handler.\<close>

definition hardenContext :: "url_validator \<Rightarrow> string \<Rightarrow> string \<Rightarrow> route_action \<times> render_effect list" where
  "hardenContext urlValidator url resourceType =
     (case urlValidator url of
        Inl _ \<Rightarrow> (Abort_Blocked_By_Client, [Url_Rejection Rejected_Resource])
      | Inr _ \<Rightarrow> (if resourceType \<in> {''media'', ''font''} then Abort else Continue, []))"

lemma continued_requests_were_validated:
  "fst (hardenContext urlValidator url resourceType) = Continue \<longleftrightarrow>
     (\<exists>u. urlValidator url = Inr u) \<and> resourceType \<noteq> ''media'' \<and> resourceType \<noteq> ''font''"
  by (auto simp: hardenContext_def split: sum.splits)

subsection \<open>renderUrl\<close>

datatype render_failure =
    Url_Refused url_rejection
  | Redirect_Refused
  | Html_Too_Large nat
  | Playwright_Error string

text \<open>
  What Playwright answers: the browser with its new context, the calls before navigation, the
  navigation with its status, the address of the page when it is checked and when it is
  reported, the content, the title, and the error of \<open>context.close\<close> if it throws.
\<close>

record page_world =
  pwContext :: "string + unit"
  pwPrepare :: "string + unit"
  pwGoto :: "string \<Rightarrow> int \<Rightarrow> string + int option"
  pwLanded :: string
  pwContent :: "string + string"
  pwReported :: string
  pwTitle :: "string + string"
  pwRenderTimeMs :: int
  pwRenderedAt :: string
  pwClose :: "string option"

definition playwright :: "string + 'a \<Rightarrow> render_failure + 'a" where
  "playwright r = (case r of Inl e \<Rightarrow> Inl (Playwright_Error e) | Inr v \<Rightarrow> Inr v)"

text \<open>The block of the \<open>try\<close>: result and what it counted.\<close>

definition render_page ::
  "url_validator \<Rightarrow> int \<Rightarrow> int \<Rightarrow> page_world \<Rightarrow> string \<Rightarrow> (render_failure + render_result) \<times> render_effect list" where
  "render_page urlValidator renderTimeoutMs maxHtmlBytes w safeUrl =
     (case and_then (playwright (pwPrepare w)) (\<lambda>_. playwright (pwGoto w safeUrl renderTimeoutMs)) of
        Inl e \<Rightarrow> (Inl e, [])
      | Inr response \<Rightarrow>
          (case urlValidator (pwLanded w) of
             Inl _ \<Rightarrow> (Inl Redirect_Refused, [Url_Rejection Rejected_Redirect])
           | Inr _ \<Rightarrow>
               (case and_then (playwright (pwContent w)) (\<lambda>html.
                       and_then (guard_or (\<not> int (utf8_length html) > maxHtmlBytes) (Html_Too_Large (utf8_length html))) (\<lambda>_.
                       and_then (playwright (pwTitle w)) (\<lambda>title.
                       Inr \<lparr>rrUrl = safeUrl, rrFinalUrl = pwReported w, rrStatusCode = response, rrTitle = title, rrHtml = html,
                            rrRenderTimeMs = pwRenderTimeMs w, rrRenderedAt = pwRenderedAt w\<rparr>))) of
                  Inl e \<Rightarrow> (Inl e, [])
                | Inr result \<Rightarrow> (Inr result, [Duration_Observed (rrRenderTimeMs result)]))))"

text \<open>The \<open>finally\<close>: an error of \<open>context.close\<close> replaces the outcome.\<close>

definition close_context :: "page_world \<Rightarrow> (render_failure + 'a) \<times> render_effect list \<Rightarrow> (render_failure + 'a) \<times> render_effect list" where
  "close_context w r = ((case pwClose w of Some e \<Rightarrow> Inl (Playwright_Error e) | None \<Rightarrow> fst r), snd r @ [Context_Closed])"

text \<open>\<open>before\<close> and \<open>after\<close> are the validator when the render starts and when the page has loaded.\<close>

definition renderUrl ::
  "url_validator \<Rightarrow> url_validator \<Rightarrow> (url \<Rightarrow> string) \<Rightarrow> browser_env \<Rightarrow> page_world \<Rightarrow> string
     \<Rightarrow> (render_failure + render_result) \<times> render_effect list" where
  "renderUrl before after href env w rawUrl =
     (case before rawUrl of
        Inl r \<Rightarrow> (Inl (Url_Refused r), [Url_Rejection (Rejected_By_Rule r)])
      | Inr safeUrl \<Rightarrow>
          (case pwContext w of
             Inl e \<Rightarrow> (Inl (Playwright_Error e), [])
           | Inr _ \<Rightarrow> close_context w (render_page after (evRenderTimeoutMs env) (evMaxHtmlBytes env) w (href safeUrl))))"

text \<open>The render route sees none of these errors as a capacity error.\<close>

definition thrown_render :: "(render_failure + render_result) \<Rightarrow> thrown + render_result" where
  "thrown_render r = (case r of Inl _ \<Rightarrow> Inl (Other_Error ''Error'') | Inr v \<Rightarrow> Inr v)"

subsection \<open>What a rendered page has passed\<close>

lemma playwright_Inr [simp]: "playwright r = Inr v \<longleftrightarrow> r = Inr v"
  by (cases r) (simp_all add: playwright_def)

lemma render_page_Inr:
  "render_page urlValidator t m w safeUrl = (Inr r, effects) \<Longrightarrow>
     rrUrl r = safeUrl \<and> pwGoto w safeUrl t = Inr (rrStatusCode r) \<and> (\<exists>v. urlValidator (pwLanded w) = Inr v)
       \<and> pwContent w = Inr (rrHtml r) \<and> int (utf8_length (rrHtml r)) \<le> m \<and> pwTitle w = Inr (rrTitle r)
       \<and> rrFinalUrl r = pwReported w \<and> effects = [Duration_Observed (rrRenderTimeMs r)]"
  by (auto simp: render_page_def and_then_Inr_iff guard_or_def split: sum.splits if_splits)

lemma renderUrl_Inr:
  assumes "renderUrl before after href env w rawUrl = (Inr r, effects)"
  obtains u v where "before rawUrl = Inr u" "rrUrl r = href u" "pwGoto w (href u) (evRenderTimeoutMs env) = Inr (rrStatusCode r)"
    "after (pwLanded w) = Inr v" "pwContent w = Inr (rrHtml r)" "int (utf8_length (rrHtml r)) \<le> evMaxHtmlBytes env"
    "effects = [Duration_Observed (rrRenderTimeMs r), Context_Closed]"
proof -
  obtain u where u: "before rawUrl = Inr u" "pwContext w = Inr ()"
    "close_context w (render_page after (evRenderTimeoutMs env) (evMaxHtmlBytes env) w (href u)) = (Inr r, effects)"
    using assms by (auto simp: renderUrl_def split: sum.splits)
  then obtain es where "render_page after (evRenderTimeoutMs env) (evMaxHtmlBytes env) w (href u) = (Inr r, es)"
    "effects = es @ [Context_Closed]"
    by (auto simp: close_context_def prod_eq_iff split: option.splits)
  with u that render_page_Inr show ?thesis by fastforce
qed

text \<open>A context that was opened is closed, once and last, whatever happens in between.\<close>

lemma context_always_closed:
  assumes "before rawUrl = Inr u" "pwContext w = Inr ()"
  shows "\<exists>es. snd (renderUrl before after href env w rawUrl) = es @ [Context_Closed] \<and> Context_Closed \<notin> set es"
  using assms
  by (auto simp: renderUrl_def close_context_def render_page_def split: sum.splits)

text \<open>A URL that is refused opens no context.\<close>

lemma refused_url_opens_nothing:
  "before rawUrl = Inl r \<Longrightarrow>
     renderUrl before after href env w rawUrl = (Inl (Url_Refused r), [Url_Rejection (Rejected_By_Rule r)])"
  by (simp add: renderUrl_def)

text \<open>A refusal is no page.\<close>

lemma refusal_not_rendered: "fst (render_error env scope e req st) \<noteq> Rendered r"
  by (cases e) (simp_all add: render_error_def render_reject_def renderErrorResponse_def Let_def)

lemma authorize_not_rendered: "render_authorize env mo req st \<noteq> (Inl (Rendered r), st1)"
  by (cases rule: authorize_cases [of req env mo st])
    (auto simp: apfst_def map_prod_def refusal_not_rendered split: prod.splits
      dest: arg_cong [of _ _ fst] intro: refusal_not_rendered [THEN notE])


subsection \<open>An example\<close>

definition demo_browser_env :: browser_env where
  "demo_browser_env = \<lparr>evRenderTimeoutMs = 15000, evMaxHtmlBytes = 10000, evMaxConcurrentRenders = 2, evMaxQueuedRenders = 20,
     evRenderQueueTimeoutMs = 10000, evOutboundProxyUrl = None, evRequireOutboundProxy = False\<rparr>"

definition demo_page_world :: "string \<Rightarrow> page_world" where
  "demo_page_world html = \<lparr>pwContext = Inr (), pwPrepare = Inr (), pwGoto = (\<lambda>_ _. Inr (Some 200)), pwLanded = ''https://b.org/x'',
     pwContent = Inr html, pwReported = ''https://b.org/x'', pwTitle = Inr ''x'', pwRenderTimeMs = 10, pwRenderedAt = [], pwClose = None\<rparr>"

abbreviation demo_validator :: url_validator where
  "demo_validator \<equiv> assertSafePublicUrl demo_ip_library (\<lambda>_. Some demo_url) (\<lambda>_. Inr [''255.255.255.255''])"

lemma demo_validated: "demo_validator raw = Inr demo_url"
proof -
  have "\<not> isBlockedHostname (normalizeHostname (uHostname demo_url))"
    unfolding isBlockedHostname_def normalizeHostname_def demo_url_def by code_simp
  moreover have "\<not> isBlockedIp demo_ip_library ''255.255.255.255''"
    by (rule reserved_addresses_pass [OF demo_ip_library_ok])
      (simp_all add: demo_ip_library_def ip_literals_def Let_def)
  ultimately show ?thesis
    by (simp add: assertSafePublicUrl_def Let_def resolveDns_def assertAllowedPort_def) (simp add: demo_url_def)
qed

lemma demo_rendering:
  "renderUrl demo_validator demo_validator (\<lambda>_. ''https://b.org/x'') demo_browser_env (demo_page_world ''<p>x'') raw
     = (Inr demo_page, [Duration_Observed 10, Context_Closed])"
  unfolding renderUrl_def demo_validated demo_page_world_def demo_browser_env_def demo_page_def
  by (simp add: close_context_def render_page_def demo_validated playwright_def utf8_length_def char_code_def guard_or_def and_then_def)


end
