(* ===== verification/BrowserPool.thy ===== *)
theory BrowserPool
  imports Prelude
begin

section \<open>The shared browser\<close>

text \<open>
  \<open>getBrowser\<close>, \<open>handleDisconnected\<close> and \<open>close\<close> of src/services/renderer.ts: one promise of a
  browser that all renders share. Every call is cut at its awaits, so that calls, launches that
  settle, browsers that are lost and \<open>close\<close> interleave. A promise is its position in the list of
  all launches; a call, its number.
\<close>

subsection \<open>State and operations\<close>

datatype launch = Launching | Launch_Failed | Connected | Disconnected

text \<open>Where a call is: at one of the two awaits of \<open>getBrowser\<close>, or returned.\<close>

datatype caller = Awaits_Browser nat | Awaits_Launch nat | Has_Browser nat | Launch_Threw

record browser_pool =
  bpLaunches :: "launch list"
  bpPromise :: "nat option"
  bpClosingIntentionally :: bool
  bpListening :: "nat set"
  bpDisconnects :: nat
  bpCallers :: "nat \<rightharpoonup> caller"
  bpClosers :: "nat list"

definition createRenderer :: browser_pool where
  "createRenderer = \<lparr>bpLaunches = [], bpPromise = None, bpClosingIntentionally = False, bpListening = {}, bpDisconnects = 0,
     bpCallers = Map.empty, bpClosers = []\<rparr>"

definition resetBrowserPromise :: "browser_pool \<Rightarrow> browser_pool" where
  "resetBrowserPromise s = s\<lparr>bpPromise := None\<rparr>"

definition handleDisconnected :: "browser_pool \<Rightarrow> browser_pool" where
  "handleDisconnected s =
     (let s1 = resetBrowserPromise s
      in if \<not> bpClosingIntentionally s1 then s1\<lparr>bpDisconnects := bpDisconnects s1 + 1\<rparr> else s1)"

definition start_launch :: "nat \<Rightarrow> browser_pool \<Rightarrow> browser_pool" where
  "start_launch c s =
     s\<lparr>bpClosingIntentionally := False, bpLaunches := bpLaunches s @ [Launching], bpPromise := Some (length (bpLaunches s)),
       bpCallers := (bpCallers s)(c \<mapsto> Awaits_Launch (length (bpLaunches s)))\<rparr>"

definition getBrowser :: "nat \<Rightarrow> browser_pool \<Rightarrow> browser_pool" where
  "getBrowser c s =
     (case bpPromise s of
        Some p \<Rightarrow> s\<lparr>bpCallers := (bpCallers s)(c \<mapsto> Awaits_Browser p)\<rparr>
      | None \<Rightarrow> start_launch c s)"

text \<open>After the first await: a connected browser is used, anything else is replaced.\<close>

definition resume_browser :: "nat \<Rightarrow> nat \<Rightarrow> browser_pool \<Rightarrow> browser_pool" where
  "resume_browser c p s =
     (if bpLaunches s ! p = Connected then s\<lparr>bpCallers := (bpCallers s)(c \<mapsto> Has_Browser p)\<rparr>
      else start_launch c (resetBrowserPromise s))"

text \<open>After the second one: a failed launch is rethrown, a browser is listened to.\<close>

definition resume_launch :: "nat \<Rightarrow> nat \<Rightarrow> browser_pool \<Rightarrow> browser_pool" where
  "resume_launch c p s =
     (if bpLaunches s ! p = Launch_Failed
      then (resetBrowserPromise s)\<lparr>bpCallers := (bpCallers s)(c \<mapsto> Launch_Threw)\<rparr>
      else s\<lparr>bpListening := insert p (bpListening s), bpCallers := (bpCallers s)(c \<mapsto> Has_Browser p)\<rparr>)"

definition launch_settled :: "nat \<Rightarrow> bool \<Rightarrow> browser_pool \<Rightarrow> browser_pool" where
  "launch_settled p ok s = s\<lparr>bpLaunches := (bpLaunches s)[p := (if ok then Connected else Launch_Failed)]\<rparr>"

definition browser_lost :: "nat \<Rightarrow> browser_pool \<Rightarrow> browser_pool" where
  "browser_lost p s =
     (let s1 = s\<lparr>bpLaunches := (bpLaunches s)[p := Disconnected]\<rparr> in if p \<in> bpListening s then handleDisconnected s1 else s1)"

definition pool_close :: "browser_pool \<Rightarrow> browser_pool" where
  "pool_close s =
     (case bpPromise s of
        None \<Rightarrow> s
      | Some p \<Rightarrow> resetBrowserPromise (s\<lparr>bpClosingIntentionally := True, bpClosers := bpClosers s @ [p]\<rparr>))"

definition resume_close :: "nat \<Rightarrow> browser_pool \<Rightarrow> browser_pool" where
  "resume_close p s =
     (let s1 = s\<lparr>bpClosers := remove1 p (bpClosers s)\<rparr> in if bpLaunches s1 ! p = Connected then browser_lost p s1 else s1)"

subsection \<open>Steps\<close>

text \<open>\<open>calm\<close> steps are those in which nothing fails, is lost or is closed.\<close>

inductive pool_step :: "bool \<Rightarrow> browser_pool \<Rightarrow> browser_pool \<Rightarrow> bool" where
  step_enter: "bpCallers s c = None \<Longrightarrow> pool_step calm s (getBrowser c s)"
| step_browser: "bpCallers s c = Some (Awaits_Browser p) \<Longrightarrow> bpLaunches s ! p \<noteq> Launching \<Longrightarrow> pool_step calm s (resume_browser c p s)"
| step_launch: "bpCallers s c = Some (Awaits_Launch p) \<Longrightarrow> bpLaunches s ! p \<noteq> Launching \<Longrightarrow> pool_step calm s (resume_launch c p s)"
| step_settled: "p < length (bpLaunches s) \<Longrightarrow> bpLaunches s ! p = Launching \<Longrightarrow> calm \<longrightarrow> ok \<Longrightarrow> pool_step calm s (launch_settled p ok s)"
| step_lost: "p < length (bpLaunches s) \<Longrightarrow> bpLaunches s ! p = Connected \<Longrightarrow> pool_step False s (browser_lost p s)"
| step_close: "pool_step False s (pool_close s)"
| step_closed: "p \<in> set (bpClosers s) \<Longrightarrow> bpLaunches s ! p \<noteq> Launching \<Longrightarrow> pool_step False s (resume_close p s)"

inductive_cases pool_stepE: "pool_step calm s s'"

lemmas pool_step_cases = pool_stepE [consumes 1, case_names step_enter step_browser step_launch step_settled step_lost step_close step_closed]

definition pool_reachable :: "bool \<Rightarrow> browser_pool \<Rightarrow> bool" where
  "pool_reachable calm s \<longleftrightarrow> rtranclp (pool_step calm) createRenderer s"

lemmas pool_ops =
  getBrowser_def start_launch_def resume_browser_def resume_launch_def launch_settled_def browser_lost_def pool_close_def
  resume_close_def resetBrowserPromise_def handleDisconnected_def Let_def

subsection \<open>Any interleaving\<close>

fun caller_promise :: "caller \<Rightarrow> nat option" where
  "caller_promise (Awaits_Browser p) = Some p"
| "caller_promise (Awaits_Launch p) = Some p"
| "caller_promise (Has_Browser p) = Some p"
| "caller_promise Launch_Threw = None"

fun still_waits :: "caller \<Rightarrow> bool" where
  "still_waits (Awaits_Browser p) \<longleftrightarrow> True"
| "still_waits _ \<longleftrightarrow> False"

definition past_first_await :: "(nat \<rightharpoonup> caller) \<Rightarrow> nat set" where
  "past_first_await f = {c. \<exists>x. f c = Some x \<and> \<not> still_waits x}"

text \<open>References point at launches, and nobody holds a browser that was never launched.\<close>

definition pool_wf :: "browser_pool \<Rightarrow> bool" where
  "pool_wf s \<longleftrightarrow>
     (\<forall>p. bpPromise s = Some p \<longrightarrow> p < length (bpLaunches s))
   \<and> (\<forall>c x p. bpCallers s c = Some x \<longrightarrow> caller_promise x = Some p \<longrightarrow> p < length (bpLaunches s))
   \<and> (\<forall>c p. bpCallers s c = Some (Has_Browser p) \<longrightarrow> bpLaunches s ! p \<in> {Connected, Disconnected})
   \<and> (\<forall>p \<in> set (bpClosers s). p < length (bpLaunches s))"

text \<open>No call launches twice.\<close>

definition pool_count :: "browser_pool \<Rightarrow> bool" where
  "pool_count s \<longleftrightarrow> finite (past_first_await (bpCallers s)) \<and> length (bpLaunches s) \<le> card (past_first_await (bpCallers s))"

lemma wf_start_launch: "pool_wf s \<Longrightarrow> pool_wf (start_launch c s)"
  by (fastforce simp: pool_wf_def start_launch_def nth_append less_Suc_eq split: if_splits)

lemma wf_reset: "pool_wf s \<Longrightarrow> pool_wf (resetBrowserPromise s)"
  by (simp add: pool_wf_def resetBrowserPromise_def)

lemma wf_caller:
  "pool_wf s \<Longrightarrow> (\<forall>p. caller_promise x = Some p \<longrightarrow> p < length (bpLaunches s)) \<Longrightarrow>
     (\<forall>p. x = Has_Browser p \<longrightarrow> bpLaunches s ! p \<in> {Connected, Disconnected}) \<Longrightarrow>
     pool_wf (s\<lparr>bpCallers := (bpCallers s)(c \<mapsto> x)\<rparr>)"
  by (auto simp: pool_wf_def split: if_splits)

lemma wf_update:
  assumes "pool_wf s" "bpLaunches s ! p \<in> {Connected, Disconnected} \<longrightarrow> l \<in> {Connected, Disconnected}"
  shows "pool_wf (s\<lparr>bpLaunches := (bpLaunches s)[p := l]\<rparr>)"
proof (cases "p < length (bpLaunches s)")
  case True
  with assms show ?thesis by (auto simp: pool_wf_def nth_list_update)
qed (use assms(1) in \<open>simp add: list_update_beyond\<close>)

lemma wf_settled: "pool_wf s \<Longrightarrow> bpLaunches s ! p = Launching \<Longrightarrow> pool_wf (launch_settled p ok s)"
  by (simp add: launch_settled_def wf_update)

lemma wf_fields [simp]:
  "pool_wf (s\<lparr>bpDisconnects := n\<rparr>) = pool_wf s" "pool_wf (s\<lparr>bpListening := ps\<rparr>) = pool_wf s"
  "pool_wf (s\<lparr>bpClosingIntentionally := b\<rparr>) = pool_wf s"
  by (simp_all add: pool_wf_def)

lemma wf_lost: "pool_wf s \<Longrightarrow> pool_wf (browser_lost p s)"
  using wf_update [of s p Disconnected] wf_reset
  by (auto simp: browser_lost_def handleDisconnected_def Let_def)

lemma wf_closers: "pool_wf s \<Longrightarrow> set ps \<subseteq> {..<length (bpLaunches s)} \<Longrightarrow> pool_wf (s\<lparr>bpClosers := ps\<rparr>)"
  by (auto simp: pool_wf_def)

lemma settled_cases: "bpLaunches s ! p \<noteq> Launching \<Longrightarrow> bpLaunches s ! p \<noteq> Launch_Failed \<Longrightarrow> bpLaunches s ! p \<in> {Connected, Disconnected}"
  by (cases "bpLaunches s ! p") auto

lemma wf_getBrowser: "pool_wf s \<Longrightarrow> pool_wf (getBrowser c s)"
proof (cases "bpPromise s")
  case (Some p)
  then have "p < length (bpLaunches s)" if wf: "pool_wf s" using wf by (auto simp: pool_wf_def)
  with Some wf_caller [of s "Awaits_Browser p" c] show "pool_wf s \<Longrightarrow> pool_wf (getBrowser c s)" by (simp add: getBrowser_def)
qed (simp add: getBrowser_def wf_start_launch)

lemma wf_close: "pool_wf s \<Longrightarrow> pool_wf (pool_close s)"
  unfolding pool_close_def by (cases "bpPromise s") (auto simp: pool_wf_def resetBrowserPromise_def)

lemma wf_resume_close: "pool_wf s \<Longrightarrow> pool_wf (resume_close p s)"
proof -
  assume wf: "pool_wf s"
  then have "pool_wf (s\<lparr>bpClosers := remove1 p (bpClosers s)\<rparr>)"
    by (intro wf_closers) (auto simp: pool_wf_def dest: notin_set_remove1)
  with wf_lost show ?thesis by (auto simp: resume_close_def Let_def)
qed

lemma wf_resume_launch:
  assumes "pool_wf s" "bpCallers s c = Some (Awaits_Launch p)" "bpLaunches s ! p \<noteq> Launching"
  shows "pool_wf (resume_launch c p s)"
proof -
  have p: "p < length (bpLaunches s)" using assms by (auto simp: pool_wf_def)
  show ?thesis
  proof (cases "bpLaunches s ! p = Launch_Failed")
    case True
    with wf_caller [OF wf_reset [OF assms(1)], of Launch_Threw c] show ?thesis by (simp add: resume_launch_def resetBrowserPromise_def)
  next
    case False
    with p settled_cases [OF assms(3) False] wf_caller [of "s\<lparr>bpListening := insert p (bpListening s)\<rparr>" "Has_Browser p" c] assms(1)
    show ?thesis by (simp add: resume_launch_def)
  qed
qed

lemma wf_resume_browser:
  assumes "pool_wf s" "bpCallers s c = Some (Awaits_Browser p)"
  shows "pool_wf (resume_browser c p s)"
proof -
  have "p < length (bpLaunches s)" using assms by (auto simp: pool_wf_def)
  with assms(1) show ?thesis by (auto simp: resume_browser_def intro!: wf_start_launch wf_reset wf_caller)
qed

lemmas wf_ops = wf_getBrowser wf_resume_browser wf_resume_launch wf_settled wf_lost wf_close wf_resume_close

lemma wf_step: "pool_step calm s s' \<Longrightarrow> pool_wf s \<Longrightarrow> pool_wf s'"
  by (erule pool_stepE) (simp_all add: wf_ops)

text \<open>A call launches when it leaves its first await for good, and only then.\<close>

lemma past_update [simp]:
  "past_first_await (f(c \<mapsto> x)) = (if still_waits x then past_first_await f - {c} else insert c (past_first_await f))"
  by (auto simp: past_first_await_def)

lemma past_start_launch: "past_first_await (bpCallers (start_launch c s)) = insert c (past_first_await (bpCallers s))"
  by (auto simp: start_launch_def past_first_await_def)

lemma count_start_launch: "pool_count s \<Longrightarrow> c \<notin> past_first_await (bpCallers s) \<Longrightarrow> pool_count (start_launch c s)"
  by (simp add: pool_count_def past_start_launch) (simp add: start_launch_def)

lemma count_grows:
  "pool_count s \<Longrightarrow> length (bpLaunches s') = length (bpLaunches s) \<Longrightarrow>
     past_first_await (bpCallers s') \<in> {past_first_await (bpCallers s), insert c (past_first_await (bpCallers s))} \<Longrightarrow> pool_count s'"
  by (auto simp: pool_count_def card_insert_if)

lemma past_handleDisconnected [simp]: "past_first_await (bpCallers (handleDisconnected s)) = past_first_await (bpCallers s)"
  by (simp add: handleDisconnected_def resetBrowserPromise_def Let_def)

lemma launches_handleDisconnected [simp]: "bpLaunches (handleDisconnected s) = bpLaunches s"
  by (simp add: handleDisconnected_def resetBrowserPromise_def Let_def)

lemma count_lost: "pool_count s \<Longrightarrow> pool_count (browser_lost p s)"
  by (erule count_grows [where c = 0]) (simp_all add: browser_lost_def Let_def)

lemma count_step:
  assumes "pool_step calm s s'" "pool_count s"
  shows "pool_count s'"
  using assms(1)
proof (cases rule: pool_step_cases)
  case (step_enter c)
  then have c: "c \<notin> past_first_await (bpCallers s)" by (simp add: past_first_await_def)
  with step_enter assms(2) count_start_launch [of s c] show ?thesis
    by (cases "bpPromise s") (simp_all add: getBrowser_def pool_count_def)
next
  case (step_browser c p)
  then have c: "c \<notin> past_first_await (bpCallers s)" by (simp add: past_first_await_def)
  with step_browser assms(2) count_start_launch [of "resetBrowserPromise s" c] show ?thesis
    by (auto simp: resume_browser_def resetBrowserPromise_def pool_count_def card_insert_if)
next
  case (step_launch c p)
  then have "insert c (past_first_await (bpCallers s)) = past_first_await (bpCallers s)" by (auto simp: past_first_await_def)
  with step_launch assms(2) show ?thesis
    by (simp add: resume_launch_def resetBrowserPromise_def pool_count_def)
next
  case (step_settled p ok)
  with assms(2) show ?thesis by (simp add: launch_settled_def pool_count_def)
next
  case (step_lost p)
  with assms(2) show ?thesis by (simp add: count_lost)
next
  case step_close
  with assms(2) show ?thesis
    by (auto simp: pool_close_def resetBrowserPromise_def pool_count_def split: option.splits)
next
  case (step_closed p)
  have "pool_count (s\<lparr>bpClosers := remove1 p (bpClosers s)\<rparr>)" using assms(2) by (simp add: pool_count_def)
  with step_closed count_lost show ?thesis by (auto simp: resume_close_def Let_def)
qed

interpretation pool: step_system "\<lambda>s. s = createRenderer" "pool_step calm" "\<lambda>s. pool_wf s \<and> pool_count s"
proof unfold_locales
  show "s = createRenderer \<Longrightarrow> pool_wf s \<and> pool_count s" for s
    by (simp add: createRenderer_def pool_wf_def pool_count_def past_first_await_def)
qed (blast intro: wf_step count_step)

lemma pool_invariants: "pool_reachable calm s \<Longrightarrow> pool_wf s \<and> pool_count s"
  by (simp add: pool_reachable_def pool.reachable_inv)

subsection \<open>Nothing goes wrong: one browser for all\<close>

text \<open>Without failures there is no browser yet, or exactly one, which everybody waits for or has.\<close>

definition one_browser :: "browser_pool \<Rightarrow> bool" where
  "one_browser s \<longleftrightarrow>
     (bpLaunches s = [] \<and> bpPromise s = None \<and> bpCallers s = Map.empty
      \<or> (\<exists>l \<in> {Launching, Connected}. bpLaunches s = [l]) \<and> bpPromise s = Some 0
        \<and> (\<forall>c x. bpCallers s c = Some x \<longrightarrow> caller_promise x = Some 0))
     \<and> bpDisconnects s = 0 \<and> bpClosers s = []"

lemma awaited_connected:
  assumes "one_browser s" "bpCallers s c = Some x" "caller_promise x = Some p" "bpLaunches s ! p \<noteq> Launching"
  shows "p = 0 \<and> bpLaunches s = [Connected]"
proof -
  from assms(1,2) obtain l where l: "l \<in> {Launching, Connected}" "bpLaunches s = [l]" "caller_promise x = Some 0"
    unfolding one_browser_def by fastforce
  with assms(3) have "p = 0" by simp
  with l assms(4) show ?thesis by auto
qed

lemma one_browser_step:
  assumes "pool_step True s s'" "one_browser s"
  shows "one_browser s'"
  using assms(1)
proof (cases rule: pool_step_cases)
  case (step_browser c p)
  then have "p = 0" "bpLaunches s = [Connected]" using awaited_connected [OF assms(2)] by simp_all
  with step_browser assms(2) show ?thesis by (auto simp: one_browser_def resume_browser_def)
next
  case (step_launch c p)
  then have "p = 0" "bpLaunches s = [Connected]" using awaited_connected [OF assms(2)] by simp_all
  with step_launch assms(2) show ?thesis by (auto simp: one_browser_def resume_launch_def)
next
  case (step_settled p ok)
  with assms(2) show ?thesis by (auto simp: one_browser_def launch_settled_def)
qed (use assms(2) in \<open>auto simp: one_browser_def getBrowser_def start_launch_def split: if_splits\<close>)

interpretation calm_pool: step_system "\<lambda>s. s = createRenderer" "pool_step True" one_browser
proof unfold_locales
  show "s = createRenderer \<Longrightarrow> one_browser s" for s by (simp add: one_browser_def createRenderer_def)
qed (rule one_browser_step)

lemma calm_one_browser: "pool_reachable True s \<Longrightarrow> one_browser s"
  by (simp add: pool_reachable_def calm_pool.reachable_inv)

text \<open>
  C30. The shared browser. However calls, launches, losses and \<open>close\<close> interleave, a call that
  returned has a browser whose launch had succeeded, and no call launches twice. While no launch
  fails and no browser is lost or closed, at most one is launched, every call that has returned
  has that one, no call has failed, and it is the one \<open>close\<close> would find.
\<close>

theorem renders_share_browser:
  assumes "pool_reachable calm s"
  shows "(\<forall>c p. bpCallers s c = Some (Has_Browser p) \<longrightarrow> p < length (bpLaunches s) \<and> bpLaunches s ! p \<in> {Connected, Disconnected})
    \<and> length (bpLaunches s) \<le> card {c. \<exists>x. bpCallers s c = Some x \<and> \<not> still_waits x}
    \<and> (calm \<longrightarrow> length (bpLaunches s) \<le> 1 \<and> (\<forall>c. bpCallers s c \<noteq> Some Launch_Threw)
         \<and> (\<forall>c p. bpCallers s c = Some (Has_Browser p) \<longrightarrow> p = 0 \<and> bpLaunches s = [Connected] \<and> bpPromise s = Some 0))"
proof (intro conjI impI)
  note inv = pool_invariants [OF assms]
  show held: "\<forall>c p. bpCallers s c = Some (Has_Browser p) \<longrightarrow> p < length (bpLaunches s) \<and> bpLaunches s ! p \<in> {Connected, Disconnected}"
    using inv by (auto simp: pool_wf_def)
  show "length (bpLaunches s) \<le> card {c. \<exists>x. bpCallers s c = Some x \<and> \<not> still_waits x}"
    using inv by (simp add: pool_count_def past_first_await_def)
  assume calm
  with calm_one_browser assms have one: "one_browser s" by simp
  then show "length (bpLaunches s) \<le> 1" "\<forall>c. bpCallers s c \<noteq> Some Launch_Threw" by (fastforce simp: one_browser_def)+
  show "\<forall>c p. bpCallers s c = Some (Has_Browser p) \<longrightarrow> p = 0 \<and> bpLaunches s = [Connected] \<and> bpPromise s = Some 0"
    using one held by (fastforce simp: one_browser_def)
qed

subsection \<open>A launch that fails under waiting calls\<close>

text \<open>Runs are lists of events, each of which must be possible when it is its turn.\<close>

datatype pool_event = Enter nat | Resume nat | Settle nat bool | Lose nat | Close_Pool | Close_Resumed nat

fun pool_do :: "bool \<Rightarrow> pool_event \<Rightarrow> browser_pool \<Rightarrow> browser_pool option" where
  "pool_do calm (Enter c) s = (if bpCallers s c = None then Some (getBrowser c s) else None)"
| "pool_do calm (Resume c) s =
     (case bpCallers s c of
        Some (Awaits_Browser p) \<Rightarrow> if bpLaunches s ! p \<noteq> Launching then Some (resume_browser c p s) else None
      | Some (Awaits_Launch p) \<Rightarrow> if bpLaunches s ! p \<noteq> Launching then Some (resume_launch c p s) else None
      | _ \<Rightarrow> None)"
| "pool_do calm (Settle p ok) s =
     (if p < length (bpLaunches s) \<and> bpLaunches s ! p = Launching \<and> (calm \<longrightarrow> ok) then Some (launch_settled p ok s) else None)"
| "pool_do calm (Lose p) s =
     (if \<not> calm \<and> p < length (bpLaunches s) \<and> bpLaunches s ! p = Connected then Some (browser_lost p s) else None)"
| "pool_do calm Close_Pool s = (if calm then None else Some (pool_close s))"
| "pool_do calm (Close_Resumed p) s =
     (if \<not> calm \<and> p \<in> set (bpClosers s) \<and> bpLaunches s ! p \<noteq> Launching then Some (resume_close p s) else None)"

fun pool_run :: "bool \<Rightarrow> pool_event list \<Rightarrow> browser_pool \<Rightarrow> browser_pool option" where
  "pool_run calm [] s = Some s"
| "pool_run calm (e # es) s = (case pool_do calm e s of Some s' \<Rightarrow> pool_run calm es s' | None \<Rightarrow> None)"

lemma pool_do_step: "pool_do calm e s = Some s' \<Longrightarrow> pool_step calm s s'"
  by (cases e) (auto intro: pool_step.intros split: if_splits option.splits caller.splits)

lemma pool_run_steps: "pool_run calm es s = Some s' \<Longrightarrow> rtranclp (pool_step calm) s s'"
  by (induction es arbitrary: s) (auto dest: pool_do_step intro: converse_rtranclp_into_rtranclp split: option.splits)

text \<open>Two calls that share a browser.\<close>

definition demo_shared :: browser_pool where
  "demo_shared = the (pool_run True [Enter 0, Enter 1, Settle 0 True, Resume 0, Resume 1] createRenderer)"

lemma demo_shared_run: "pool_run True [Enter 0, Enter 1, Settle 0 True, Resume 0, Resume 1] createRenderer = Some demo_shared"
  by (simp add: demo_shared_def pool_ops createRenderer_def)

theorem renders_share_browser_witness:
  "bpCallers demo_shared 1 = Some (Has_Browser 0) \<and> bpLaunches demo_shared = [Connected] \<and> bpPromise demo_shared = Some 0"
proof -
  have has: "bpCallers demo_shared 1 = Some (Has_Browser 0)" by (simp add: demo_shared_def pool_ops createRenderer_def)
  have "pool_reachable True demo_shared" using pool_run_steps [OF demo_shared_run] by (simp add: pool_reachable_def)
  from renders_share_browser [OF this] has show ?thesis by blast
qed

text \<open>
  Three calls wait for one launch, which fails. Resumed in the order of their awaits, the first
  rethrows, the second launches anew, and the third resets the promise of the second before it
  launches too: the browser of the second is running and nobody refers to it, so \<open>close\<close> leaves it.
\<close>

definition orphan_run :: "pool_event list" where
  "orphan_run = [Enter 0, Enter 1, Enter 2, Settle 0 False, Resume 0, Resume 1, Resume 2, Settle 1 True, Settle 2 True, Resume 1, Resume 2,
     Close_Pool, Close_Resumed 2]"

lemma failed_launch_orphans_browser:
  "\<exists>s. pool_run False orphan_run createRenderer = Some s \<and> bpLaunches s = [Launch_Failed, Connected, Disconnected]
     \<and> bpPromise s = None \<and> bpClosers s = [] \<and> pool_close s = s"
  by (simp add: orphan_run_def pool_ops createRenderer_def)

text \<open>When such a browser is lost, the promise of a healthy one is dropped.\<close>

lemma lost_orphan_drops_current:
  "\<exists>s. pool_run False (take 11 orphan_run @ [Lose 1]) createRenderer = Some s
     \<and> bpLaunches s = [Launch_Failed, Disconnected, Connected] \<and> bpPromise s = None"
  by (simp add: orphan_run_def pool_ops createRenderer_def)

end
