(* ===== verification/AuthGateway.thy ===== *)
theory AuthGateway
  imports EnvConfig Access
begin

section \<open>The gateway to Better Auth\<close>

text \<open>
  src/auth/plugin.ts with src/lib/rate-limit-keys.ts and src/lib/security-events.ts: which
  requests under /api/auth reach Better Auth, the two limiters of sign-in attempts and the
  security events. HMAC-SHA256 is a function of secret and value; Better Auth is the response it
  has given. A handler is cut at that call, so that other requests run before the response is
  looked at. The log lines and the counter are one list of events.
\<close>

subsection \<open>Keys of the limiters\<close>

type_synonym hmac = "string \<Rightarrow> string \<Rightarrow> string"

definition hmacDigest :: "hmac \<Rightarrow> string \<Rightarrow> string \<Rightarrow> string" where
  "hmacDigest hmac secret v = hmac secret v"

definition normalizedEmailDigest :: "hmac \<Rightarrow> string \<Rightarrow> string \<Rightarrow> string" where
  "normalizedEmailDigest hmac secret email = hmacDigest hmac secret (js_lower (js_trim email))"

definition invitationTokenDigest :: "hmac \<Rightarrow> string \<Rightarrow> string \<Rightarrow> string" where
  "invitationTokenDigest hmac secret token = hmacDigest hmac secret token"

text \<open>The body, if there is one and it is JSON.\<close>

definition extractLoginEmailKey :: "hmac \<Rightarrow> string \<Rightarrow> json option \<Rightarrow> string option" where
  "extractLoginEmailKey hmac secret body =
     (case body of
        None \<Rightarrow> None
      | Some j \<Rightarrow>
          (case json_field j ''email'' of
             Some (Json_String email) \<Rightarrow> (if email \<noteq> [] then Some (normalizedEmailDigest hmac secret email) else None)
           | _ \<Rightarrow> None))"

subsection \<open>The handler\<close>

datatype auth_security_event = Login_Success | Login_Failure | Logout

record auth_gateway =
  agIpLimiter :: rate_limiter
  agEmailLimiter :: rate_limiter
  agEvents :: "(auth_security_event \<times> string \<times> string option) list"

definition registerAuthHandler :: "limit_env \<Rightarrow> auth_gateway" where
  "registerAuthHandler limits =
     \<lparr>agIpLimiter = createRateLimiter (evLoginWindowMs limits) (evLoginMax limits),
      agEmailLimiter = createRateLimiter (evLoginWindowMs limits) (evLoginMax limits), agEvents = []\<rparr>"

record auth_request =
  aqMethod :: string
  aqPath :: string
  aqIp :: string
  aqBody :: "json option"
  aqId :: string

record auth_response =
  asStatus :: nat
  asHeaders :: "(string \<times> string) list"
  asBody :: string

datatype auth_reply = Sign_Up_Hidden | Login_Limited int | Forwarded_Reply auth_response

definition checkLoginRateLimit ::
  "string \<Rightarrow> string option \<Rightarrow> time_ms \<Rightarrow> auth_gateway \<Rightarrow> (bool \<times> int) \<times> auth_gateway" where
  "checkLoginRateLimit ip emailKey now g =
     (let (d, l) = rl_check (agIpLimiter g) ip now; g1 = g\<lparr>agIpLimiter := l\<rparr>
      in if \<not> allowed d then ((False, retryAfterSeconds d), g1)
         else if \<not> truthy emailKey then ((True, 0), g1)
         else let (d', l') = rl_check (agEmailLimiter g1) (the emailKey) now
              in ((allowed d', retryAfterSeconds d'), g1\<lparr>agEmailLimiter := l'\<rparr>))"

definition is_login :: "auth_request \<Rightarrow> bool" where
  "is_login rq \<longleftrightarrow> aqMethod rq = ''POST'' \<and> aqPath rq = ''sign-in/email''"

text \<open>Up to the call of Better Auth; \<open>Inr\<close> carries the key of the account, if any.\<close>

definition auth_start ::
  "hmac \<Rightarrow> string \<Rightarrow> time_ms \<Rightarrow> auth_request \<Rightarrow> auth_gateway \<Rightarrow> (auth_reply + string option) \<times> auth_gateway" where
  "auth_start hmac secret now rq g =
     (if starts_with (aqPath rq) ''sign-up'' then (Inl Sign_Up_Hidden, g)
      else if is_login rq then
        (let emailKey = extractLoginEmailKey hmac secret (aqBody rq);
             ((ok, retryAfter), g1) = checkLoginRateLimit (aqIp rq) emailKey now g
         in if \<not> ok then (Inl (Login_Limited retryAfter), g1) else (Inr emailKey, g1))
      else (Inr None, g))"

definition recordAuthSecurityEvent :: "auth_security_event \<Rightarrow> string \<Rightarrow> string option \<Rightarrow> auth_gateway \<Rightarrow> auth_gateway" where
  "recordAuthSecurityEvent event requestId errorCode g = g\<lparr>agEvents := agEvents g @ [(event, requestId, errorCode)]\<rparr>"

definition forwarded_headers :: "(string \<times> string) list \<Rightarrow> (string \<times> string) list" where
  "forwarded_headers hs = filter (\<lambda>(k, v). js_lower k \<noteq> ''transfer-encoding'' \<and> js_lower k \<noteq> ''content-length'') hs"

definition auth_finish :: "auth_request \<Rightarrow> string option \<Rightarrow> auth_response \<Rightarrow> auth_gateway \<Rightarrow> auth_reply \<times> auth_gateway" where
  "auth_finish rq emailKey response g =
     (let g1 = (if is_login rq then
                  (if asStatus response = 200 then
                     recordAuthSecurityEvent Login_Success (aqId rq) None
                       (if truthy emailKey then g\<lparr>agEmailLimiter := rl_reset (agEmailLimiter g) (the emailKey)\<rparr> else g)
                   else recordAuthSecurityEvent Login_Failure (aqId rq) (Some (''http_'' @ show_nat (asStatus response))) g)
                else g);
          g2 = (if aqMethod rq = ''POST'' \<and> aqPath rq = ''sign-out'' \<and> asStatus response = 200
                then recordAuthSecurityEvent Logout (aqId rq) None g1 else g1)
      in (Forwarded_Reply (response\<lparr>asHeaders := forwarded_headers (asHeaders response)\<rparr>), g2))"

subsection \<open>Traffic\<close>

text \<open>Requests that arrive and responses of Better Auth, in any order.\<close>

datatype auth_event = Arrives time_ms auth_request | Answered auth_request "string option" auth_response

text \<open>The sign-in attempts that reach Better Auth: from where, for which account, when.\<close>

fun forwarded_logins :: "hmac \<Rightarrow> string \<Rightarrow> auth_gateway \<Rightarrow> auth_event list \<Rightarrow> (string \<times> string option \<times> time_ms) list" where
  "forwarded_logins hmac secret g [] = []"
| "forwarded_logins hmac secret g (Arrives now rq # es) =
     (let (r, g1) = auth_start hmac secret now rq g
      in (case r of Inr emailKey \<Rightarrow> (if is_login rq then [(aqIp rq, emailKey, now)] else []) | Inl _ \<Rightarrow> [])
         @ forwarded_logins hmac secret g1 es)"
| "forwarded_logins hmac secret g (Answered rq emailKey response # es) =
     forwarded_logins hmac secret (snd (auth_finish rq emailKey response g)) es"

fun arrival_times :: "auth_event list \<Rightarrow> time_ms list" where
  "arrival_times [] = []"
| "arrival_times (Arrives now rq # es) = now # arrival_times es"
| "arrival_times (Answered rq k response # es) = arrival_times es"

fun signs_in :: "string \<Rightarrow> auth_event \<Rightarrow> bool" where
  "signs_in key (Answered rq k response) \<longleftrightarrow> is_login rq \<and> k = Some key \<and> asStatus response = 200"
| "signs_in key (Arrives now rq) \<longleftrightarrow> False"

definition times_from :: "string \<Rightarrow> (string \<times> string option \<times> time_ms) list \<Rightarrow> time_ms list" where
  "times_from ip fs = map (\<lambda>(_, _, t). t) (filter (\<lambda>(i, _, _). i = ip) fs)"

definition times_for :: "string \<Rightarrow> (string \<times> string option \<times> time_ms) list \<Rightarrow> time_ms list" where
  "times_for key fs = map (\<lambda>(_, _, t). t) (filter (\<lambda>(_, k, _). k = Some key) fs)"

lemma times_simps [simp]:
  "times_from ip [] = []" "times_from ip ((i, k, t) # fs) = (if i = ip then [t] else []) @ times_from ip fs"
  "times_for key [] = []" "times_for key ((i, k, t) # fs) = (if k = Some key then [t] else []) @ times_for key fs"
  by (simp_all add: times_from_def times_for_def)

text \<open>Two limiters that decide the same for a key, now and later.\<close>

definition same_for :: "string \<Rightarrow> rate_limiter \<Rightarrow> rate_limiter \<Rightarrow> bool" where
  "same_for k a b \<longleftrightarrow> windowMs a = windowMs b \<and> maxAttempts a = maxAttempts b \<and> buckets a k = buckets b k"

lemma same_for_check:
  "same_for k a b \<Longrightarrow> fst (rl_check a k t) = fst (rl_check b k t) \<and> same_for k (snd (rl_check a k t)) (snd (rl_check b k t))"
  unfolding same_for_def using rl_check_own [of a b k t] by simp

lemma same_for_reset: "same_for k b a \<Longrightarrow> k' \<noteq> k \<Longrightarrow> same_for k b (rl_reset a k')"
  by (simp add: same_for_def rl_reset_def)

lemma same_for_refl [simp]: "same_for k a a"
  by (simp add: same_for_def)

text \<open>A start that is no sign-in, or hidden, touches no limiter; a finish touches the account's only.\<close>

lemma start_other: "\<not> is_login rq \<or> starts_with (aqPath rq) ''sign-up'' \<Longrightarrow> snd (auth_start hmac secret now rq g) = g"
  by (auto simp: auth_start_def)

lemma finish_limiters:
  "agIpLimiter (snd (auth_finish rq k resp g)) = agIpLimiter g"
  "agEmailLimiter (snd (auth_finish rq k resp g)) =
     (if is_login rq \<and> asStatus resp = 200 \<and> truthy k then rl_reset (agEmailLimiter g) (the k) else agEmailLimiter g)"
  by (simp_all add: auth_finish_def recordAuthSecurityEvent_def Let_def)

lemma login_path: "is_login rq \<Longrightarrow> \<not> starts_with (aqPath rq) ''sign-up''"
  by (auto simp: is_login_def)

lemma refused_unchanged: "rl_check rl k t = (d, rl') \<Longrightarrow> \<not> allowed d \<Longrightarrow> rl' = rl"
  by (auto simp: rl_check_live split: option.splits if_splits)

lemma start_login:
  assumes "is_login rq" "auth_start hmac secret now rq g = (r, g1)"
  shows "agIpLimiter g1 = snd (rl_check (agIpLimiter g) (aqIp rq) now)
    \<and> (\<forall>k. r = Inr k \<longrightarrow> allowed (fst (rl_check (agIpLimiter g) (aqIp rq) now))
         \<and> (truthy k \<longrightarrow> allowed (fst (rl_check (agEmailLimiter g) (the k) now))
              \<and> agEmailLimiter g1 = snd (rl_check (agEmailLimiter g) (the k) now))
         \<and> (\<not> truthy k \<longrightarrow> agEmailLimiter g1 = agEmailLimiter g))
    \<and> (\<forall>x. r = Inl x \<longrightarrow> agEmailLimiter g1 = agEmailLimiter g)"
  using assms(2) login_path [OF assms(1)] assms(1)
  by (auto simp: auth_start_def checkLoginRateLimit_def Let_def dest: refused_unchanged split: prod.splits if_splits)

text \<open>Both limiters see a part of the arrivals, in order, and grant every attempt that is forwarded.\<close>

lemma forwarded_from:
  "same_for ip b (agIpLimiter g) \<Longrightarrow> sorted (arrival_times es) \<Longrightarrow>
     \<exists>ts. sorted ts \<and> set ts \<subseteq> set (arrival_times es) \<and> subseq (times_from ip (forwarded_logins hmac secret g es)) (allowed_times b ip ts)"
proof (induction es arbitrary: b g)
  case Nil
  show ?case by (rule exI [of _ "[]"]) simp
next
  case (Cons e es)
  show ?case
  proof (cases e)
    case (Answered rq k resp)
    then show ?thesis using Cons.IH [of b "snd (auth_finish rq k resp g)"] Cons.prems by (auto simp: finish_limiters)
  next
    case (Arrives now rq)
    obtain r g1 where st: "auth_start hmac secret now rq g = (r, g1)" by fastforce
    have srt: "sorted (arrival_times es)" "\<forall>t \<in> set (arrival_times es). now \<le> t" using Cons.prems(2) Arrives by auto
    show ?thesis
    proof (cases "is_login rq \<and> aqIp rq = ip")
      case True
      note sl = start_login [OF conjunct1 [OF True] st]
      let ?b = "snd (rl_check b ip now)"
      have same: "same_for ip ?b (agIpLimiter g1)" and ok: "fst (rl_check b ip now) = fst (rl_check (agIpLimiter g) ip now)"
        using same_for_check [OF Cons.prems(1)] sl True by auto
      obtain ts where ts: "sorted ts" "set ts \<subseteq> set (arrival_times es)"
        "subseq (times_from ip (forwarded_logins hmac secret g1 es)) (allowed_times ?b ip ts)"
        using Cons.IH [OF same srt(1)] by blast
      have "subseq (times_from ip (forwarded_logins hmac secret g (e # es))) (allowed_times b ip (now # ts))"
        using st sl ok ts(3) True Arrives by (cases r) (auto intro: subseq_append' list_emb_append2)
      moreover have "sorted (now # ts)" using ts(1,2) srt(2) by auto
      ultimately show ?thesis using ts(2) Arrives by (intro exI [of _ "now # ts"]) auto
    next
      case False
      have same: "same_for ip b (agIpLimiter g1)"
      proof (cases "is_login rq")
        case True
        with False start_login [OF True st] Cons.prems(1) show ?thesis by (simp add: same_for_def rl_check_other)
      next
        case nolog: False
        then show ?thesis using start_other [of rq hmac secret now g] st Cons.prems(1) by auto
      qed
      have "times_from ip (forwarded_logins hmac secret g (e # es)) = times_from ip (forwarded_logins hmac secret g1 es)"
        using st False Arrives by (cases r) auto
      then show ?thesis using Cons.IH [OF same srt(1)] Arrives by auto
    qed
  qed
qed

lemma forwarded_for:
  "key \<noteq> [] \<Longrightarrow> same_for key b (agEmailLimiter g) \<Longrightarrow> sorted (arrival_times es) \<Longrightarrow> \<forall>e \<in> set es. \<not> signs_in key e \<Longrightarrow>
     \<exists>ts. sorted ts \<and> set ts \<subseteq> set (arrival_times es) \<and> subseq (times_for key (forwarded_logins hmac secret g es)) (allowed_times b key ts)"
proof (induction es arbitrary: b g)
  case Nil
  show ?case by (rule exI [of _ "[]"]) simp
next
  case (Cons e es)
  have quiet: "\<forall>e \<in> set es. \<not> signs_in key e" using Cons.prems(4) by simp
  show ?case
  proof (cases e)
    case (Answered rq k resp)
    have "same_for key b (agEmailLimiter (snd (auth_finish rq k resp g)))"
      using Cons.prems(2,4) Answered by (auto simp: finish_limiters truthy_def intro!: same_for_reset)
    then show ?thesis using Cons.IH [of b "snd (auth_finish rq k resp g)"] Cons.prems quiet Answered by auto
  next
    case (Arrives now rq)
    obtain r g1 where st: "auth_start hmac secret now rq g = (r, g1)" by fastforce
    have srt: "sorted (arrival_times es)" "\<forall>t \<in> set (arrival_times es). now \<le> t" using Cons.prems(3) Arrives by auto
    show ?thesis
    proof (cases "is_login rq \<and> r = Inr (Some key)")
      case True
      note sl = start_login [OF conjunct1 [OF True] st]
      let ?b = "snd (rl_check b key now)"
      have same: "same_for key ?b (agEmailLimiter g1)" and ok: "allowed (fst (rl_check b key now))"
        using same_for_check [OF Cons.prems(2)] sl True Cons.prems(1) by (auto simp: truthy_def)
      obtain ts where ts: "sorted ts" "set ts \<subseteq> set (arrival_times es)"
        "subseq (times_for key (forwarded_logins hmac secret g1 es)) (allowed_times ?b key ts)"
        using Cons.IH [OF Cons.prems(1) same srt(1) quiet] by blast
      have "subseq (times_for key (forwarded_logins hmac secret g (e # es))) (allowed_times b key (now # ts))"
        using st ok ts(3) True Arrives by auto
      moreover have "sorted (now # ts)" using ts(1,2) srt(2) by auto
      ultimately show ?thesis using ts(2) Arrives by (intro exI [of _ "now # ts"]) auto
    next
      case False
      have same: "same_for key b (agEmailLimiter g1)"
      proof (cases "is_login rq")
        case True
        note sl = start_login [OF True st]
        show ?thesis
        proof (cases r)
          case (Inr k)
          with sl False True Cons.prems(2) show ?thesis by (cases k) (auto simp: same_for_def rl_check_other truthy_def)
        qed (use sl Cons.prems(2) in auto)
      next
        case nolog: False
        then show ?thesis using start_other [of rq hmac secret now g] st Cons.prems(2) by auto
      qed
      have "times_for key (forwarded_logins hmac secret g (e # es)) = times_for key (forwarded_logins hmac secret g1 es)"
        using st False Arrives by (cases r) auto
      then show ?thesis using Cons.IH [OF Cons.prems(1) same srt(1) quiet] Arrives by auto
    qed
  qed
qed

text \<open>
  No window holds more forwarded attempts than the limiter allows: for an address always, for an
  account while no sign-in to it succeeds.
\<close>

lemma in_window_subseq: "subseq xs ys \<Longrightarrow> in_window a w xs \<le> in_window a w ys"
  unfolding in_window_def by (drule subseq_filter [of _ _ "\<lambda>t. a \<le> t \<and> t < a + w"]) (auto dest: list_emb_length)

lemma limiter_window_typed:
  assumes "limits_typed limits" "sorted ts"
    and "subseq xs (allowed_times (createRateLimiter (evLoginWindowMs limits) (evLoginMax limits)) k ts)"
  shows "in_window a (evLoginWindowMs limits) xs \<le> 2 * evLoginMax limits - 1"
  using granted_any_window [OF rl_inv_create _ _ assms(2), of "evLoginWindowMs limits" "evLoginMax limits" a k]
    in_window_subseq [OF assms(3), of a "evLoginWindowMs limits"] assms(1)
  by (simp add: createRateLimiter_def limits_typed_def between_def)

text \<open>
  C32. Whatever mix of requests arrives at the gateway and whatever Better Auth answers, no window
  of the configured length holds more than 2 * max - 1 sign-in attempts from one address that
  reach Better Auth, and no more than that for one account, however many addresses they come from,
  as long as no sign-in to the account succeeds.
\<close>

theorem login_attempts_bounded:
  assumes typed: "limits_typed limits" and sorted: "sorted (arrival_times es)"
    and key: "key \<noteq> []" and quiet: "\<forall>e \<in> set es. \<not> signs_in key e"
  shows "in_window a (evLoginWindowMs limits) (times_from ip (forwarded_logins hmac secret (registerAuthHandler limits) es)) \<le> 2 * evLoginMax limits - 1
    \<and> in_window a (evLoginWindowMs limits) (times_for key (forwarded_logins hmac secret (registerAuthHandler limits) es)) \<le> 2 * evLoginMax limits - 1"
proof -
  let ?l = "createRateLimiter (evLoginWindowMs limits) (evLoginMax limits)"
  have start: "agIpLimiter (registerAuthHandler limits) = ?l" "agEmailLimiter (registerAuthHandler limits) = ?l"
    by (simp_all add: registerAuthHandler_def)
  show ?thesis
    using forwarded_from [of ip ?l "registerAuthHandler limits" es hmac secret] sorted start
      forwarded_for [of key ?l "registerAuthHandler limits" es hmac secret, OF key _ sorted quiet] limiter_window_typed [OF typed]
    by (metis same_for_refl)
qed

text \<open>Sign-up is never forwarded; every other request that is no sign-in is.\<close>

lemma sign_up_hidden: "starts_with (aqPath rq) ''sign-up'' \<Longrightarrow> auth_start hmac secret now rq g = (Inl Sign_Up_Hidden, g)"
  by (simp add: auth_start_def)

lemma start_outcome:
  "fst (auth_start hmac secret now rq g) = Inl Sign_Up_Hidden \<longleftrightarrow> starts_with (aqPath rq) ''sign-up''"
  "fst (auth_start hmac secret now rq g) = Inl (Login_Limited s) \<Longrightarrow> is_login rq"
  by (auto simp: auth_start_def Let_def split: prod.splits if_splits)

text \<open>A sign-in that succeeds gives the account its whole allowance back.\<close>

lemma success_resets_account:
  "is_login rq \<Longrightarrow> asStatus resp = 200 \<Longrightarrow> key \<noteq> [] \<Longrightarrow> buckets (agEmailLimiter (snd (auth_finish rq (Some key) resp g))) key = None"
  by (simp add: finish_limiters rl_reset_def truthy_def)

text \<open>The spelling of an address does not open a second bucket.\<close>

lemma spelling_shares_bucket:
  "js_lower (js_trim e) = js_lower (js_trim e') \<Longrightarrow> normalizedEmailDigest hmac secret e = normalizedEmailDigest hmac secret e'"
  by (simp add: normalizedEmailDigest_def)

text \<open>
  Attempts on one account with a limit of two per second. The third is refused by the limiter of
  the address, the fourth, from elsewhere, by the one of the account; after the window both pass.
\<close>

definition demo_attempt :: "string \<Rightarrow> auth_request" where
  "demo_attempt ip = \<lparr>aqMethod = ''POST'', aqPath = ''sign-in/email'', aqIp = ip,
     aqBody = Some (Json_Object [(''email'', Json_String '' Ann@x.org'')]), aqId = ''r''\<rparr>"

definition demo_limits :: limit_env where
  "demo_limits = \<lparr>evRenderKeyInvalidMax = 20, evRenderKeyInvalidWindowMs = 60000, evRenderKeyValidMax = 120,
     evRenderKeyValidWindowMs = 60000, evLoginMax = 2, evLoginWindowMs = 1000, evInvitationMax = 10, evInvitationWindowMs = 60000\<rparr>"

definition demo_traffic :: "auth_event list" where
  "demo_traffic = [Arrives 1 (demo_attempt ''a''), Answered (demo_attempt ''a'') (Some ''ann@x.org'') \<lparr>asStatus = 401, asHeaders = [], asBody = []\<rparr>,
     Arrives 2 (demo_attempt ''a''), Arrives 3 (demo_attempt ''a''), Arrives 4 (demo_attempt ''b''), Arrives 1005 (demo_attempt ''b'')]"

lemma demo_forwarded:
  "forwarded_logins (\<lambda>s v. v) ''s'' (registerAuthHandler demo_limits) demo_traffic
     = [(''a'', Some ''ann@x.org'', 1), (''a'', Some ''ann@x.org'', 2), (''b'', Some ''ann@x.org'', 1005)]"
  by code_simp

theorem login_attempts_bounded_witness:
  "in_window 1 1000 (times_from ''a'' (forwarded_logins (\<lambda>s v. v) ''s'' (registerAuthHandler demo_limits) demo_traffic)) \<le> 3
   \<and> in_window 1 1000 (times_for ''ann@x.org'' (forwarded_logins (\<lambda>s v. v) ''s'' (registerAuthHandler demo_limits) demo_traffic)) \<le> 3
   \<and> times_for ''ann@x.org'' (forwarded_logins (\<lambda>s v. v) ''s'' (registerAuthHandler demo_limits) demo_traffic) = [1, 2, 1005]"
proof -
  have typed: "limits_typed demo_limits" by (simp add: limits_typed_def between_def demo_limits_def)
  have sorted: "sorted (arrival_times demo_traffic)" by (simp add: demo_traffic_def)
  have quiet: "\<forall>e \<in> set demo_traffic. \<not> signs_in ''ann@x.org'' e" by (simp add: demo_traffic_def)
  from login_attempts_bounded [OF typed sorted _ quiet, of 1 "''a''" "\<lambda>s v. v" "''s''"] show ?thesis
    by (simp add: demo_forwarded) (simp add: demo_limits_def)
qed

end
