(* ===== verification/Shell.thy ===== *)
theory Shell
  imports AuthGateway RenderRoute
begin

section \<open>The application around the routes\<close>

text \<open>
  src/app.ts, src/db/client.ts, src/db/readiness.ts and the routes health, metrics and
  legacy-migrated: request ids, the origins CORS admits, the readiness of the service with its
  cached ping of the database, who may read the metrics, and the endpoints that are gone. The
  plugins (helmet, the global rate limit) and the logger are libraries that are only configured.
\<close>

subsection \<open>Request ids\<close>

definition request_id_char :: "char \<Rightarrow> bool" where
  "request_id_char c \<longleftrightarrow> is_lower c \<or> is_upper c \<or> is_digit c \<or> c = CHR ''_'' \<or> c = CHR ''-''"

definition REQUEST_ID_PATTERN :: "string \<Rightarrow> bool" where
  "REQUEST_ID_PATTERN s \<longleftrightarrow> 1 \<le> length s \<and> length s \<le> 64 \<and> list_all request_id_char s"

definition genReqId :: "string \<Rightarrow> header_value option \<Rightarrow> string" where
  "genReqId uuid header =
     (case header of Some (One_Header clientId) \<Rightarrow> if REQUEST_ID_PATTERN clientId then clientId else uuid | _ \<Rightarrow> uuid)"

text \<open>Whatever the client sends, the id is safe to log and to echo.\<close>

lemma request_ids_are_tokens: "REQUEST_ID_PATTERN uuid \<Longrightarrow> REQUEST_ID_PATTERN (genReqId uuid header)"
  by (auto simp: genReqId_def split: option.splits header_value.splits)

subsection \<open>CORS\<close>

definition cors_origin :: "(string \<Rightarrow> url option) \<Rightarrow> string list \<Rightarrow> string option \<Rightarrow> bool" where
  "cors_origin parse_url trustedOrigins origin =
     (if \<not> truthy origin then True
      else let normalized = normalizeOriginForComparison parse_url (the origin)
           in truthy normalized \<and> the normalized \<in> set trustedOrigins)"

text \<open>An origin that is sent passes CORS exactly when it passes the check of mutating requests.\<close>

lemma cors_and_csrf_agree:
  assumes "req_method \<in> set MUTATING_METHODS" "origin \<noteq> []"
  shows "cors_origin parse_url trusted (Some origin) \<longleftrightarrow> checkOrigin parse_url trusted req_method (Some origin) = Inr ()"
proof -
  have "n \<noteq> []" if eq: "normalizeOriginForComparison parse_url origin = Some n" for n
    using eq by (auto simp: normalizeOriginForComparison_def url_origin_def split: option.splits if_splits)
  with assms show ?thesis
    by (auto simp: cors_origin_def checkOrigin_def truthy_def Let_def split: option.splits)
qed

subsection \<open>The ping of the database\<close>

definition CACHE_MS :: int where "CACHE_MS = 3000"
definition PING_TIMEOUT_MS :: int where "PING_TIMEOUT_MS = 1000"

text \<open>The race of the query and the timer; a query settles after a delay, well or badly, or never.\<close>

definition db_ping :: "int \<Rightarrow> (int \<times> bool) option \<Rightarrow> int \<times> bool" where
  "db_ping timeoutMs query =
     (case query of Some (delay, ok) \<Rightarrow> if delay < timeoutMs then (delay, ok) else (timeoutMs, False) | None \<Rightarrow> (timeoutMs, False))"

lemma ping_ends: "0 \<le> timeoutMs \<Longrightarrow> fst (db_ping timeoutMs query) \<le> timeoutMs"
  by (auto simp: db_ping_def split: option.splits)

lemma ping_true: "snd (db_ping timeoutMs query) \<longleftrightarrow> (\<exists>delay < timeoutMs. query = Some (delay, True))"
  by (auto simp: db_ping_def split: option.splits if_splits)

record readiness =
  rdLastCheckedAt :: time_ms
  rdLastResult :: bool
  rdInFlight :: bool

definition createDbReadinessCheck :: readiness where
  "createDbReadinessCheck = \<lparr>rdLastCheckedAt = 0, rdLastResult = False, rdInFlight = False\<rparr>"

text \<open>A check answers from the cache, waits for the ping in flight, or starts one.\<close>

datatype ready_answer = Cached bool | Joins_Ping | Starts_Ping

definition checkDatabaseReady :: "time_ms \<Rightarrow> readiness \<Rightarrow> ready_answer \<times> readiness" where
  "checkDatabaseReady now r =
     (if now - rdLastCheckedAt r < CACHE_MS then (Cached (rdLastResult r), r)
      else if rdInFlight r then (Joins_Ping, r)
      else (Starts_Ping, r\<lparr>rdInFlight := True\<rparr>))"

definition ping_done :: "time_ms \<Rightarrow> bool \<Rightarrow> readiness \<Rightarrow> readiness" where
  "ping_done now ok r = r\<lparr>rdLastResult := ok, rdLastCheckedAt := now, rdInFlight := False\<rparr>"

text \<open>Polls and pings that settle, in any order; a ping settles only when one is in flight.\<close>

datatype ready_event = Polled time_ms | Ping_Settled time_ms bool

fun ready_times :: "ready_event list \<Rightarrow> time_ms list" where
  "ready_times [] = []"
| "ready_times (Polled t # es) = t # ready_times es"
| "ready_times (Ping_Settled t ok # es) = t # ready_times es"

fun pings_started :: "readiness \<Rightarrow> ready_event list \<Rightarrow> time_ms list" where
  "pings_started r [] = []"
| "pings_started r (Polled t # es) =
     (if fst (checkDatabaseReady t r) = Starts_Ping then [t] else []) @ pings_started (snd (checkDatabaseReady t r)) es"
| "pings_started r (Ping_Settled t ok # es) = (if rdInFlight r then pings_started (ping_done t ok r) es else pings_started r es)"

text \<open>The answers from the cache, each with the last result before it and its moment.\<close>

fun cached_answers :: "readiness \<Rightarrow> ready_event list \<Rightarrow> (time_ms \<times> bool \<times> time_ms) list" where
  "cached_answers r [] = []"
| "cached_answers r (Polled t # es) =
     (case fst (checkDatabaseReady t r) of Cached b \<Rightarrow> [(t, b, rdLastCheckedAt r)] | _ \<Rightarrow> [])
     @ cached_answers (snd (checkDatabaseReady t r)) es"
| "cached_answers r (Ping_Settled t ok # es) = (if rdInFlight r then cached_answers (ping_done t ok r) es else cached_answers r es)"

text \<open>However often the probe is polled, two pings start at least three seconds apart.\<close>

lemma pings_after:
  "sorted (ready_times es) \<Longrightarrow> \<forall>t \<in> set (ready_times es). lo \<le> t \<Longrightarrow> rdInFlight r \<or> lo \<le> rdLastCheckedAt r \<Longrightarrow>
     sorted_wrt (\<lambda>s t. s + CACHE_MS \<le> t) (pings_started r es) \<and> (\<forall>t \<in> set (pings_started r es). lo + CACHE_MS \<le> t)"
proof (induction es arbitrary: r lo)
  case (Cons e es)
  have rest: "sorted (ready_times es)" "\<forall>t \<in> set (ready_times es). lo \<le> t" using Cons.prems(1,2) by (cases e; auto)+
  show ?case
  proof (cases e)
    case (Polled t)
    then have t: "\<forall>t' \<in> set (ready_times es). t \<le> t'" using Cons.prems(1) by simp
    show ?thesis
    proof (cases "fst (checkDatabaseReady t r) = Starts_Ping")
      case True
      then have fl: "\<not> rdInFlight r" "rdLastCheckedAt r + CACHE_MS \<le> t" "rdInFlight (snd (checkDatabaseReady t r))"
        by (auto simp: checkDatabaseReady_def split: if_splits)
      have "lo + CACHE_MS \<le> t" using fl Cons.prems(3) by simp
      moreover from this have "lo \<le> t" by (simp add: CACHE_MS_def)
      ultimately show ?thesis
        using Cons.IH [OF rest(1) t, of "snd (checkDatabaseReady t r)"] fl True Polled by fastforce
    next
      case False
      then have "snd (checkDatabaseReady t r) = r" by (auto simp: checkDatabaseReady_def split: if_splits)
      with False Polled Cons.IH [OF rest Cons.prems(3)] show ?thesis by simp
    qed
  next
    case (Ping_Settled t ok)
    then have "lo \<le> t" using Cons.prems(2) by simp
    then show ?thesis
      using Cons.IH [OF rest, of r] Cons.IH [OF rest, of "ping_done t ok r"] Cons.prems(3) Ping_Settled by (simp add: ping_done_def)
  qed
qed simp

lemma pings_are_spaced:
  assumes "sorted (ready_times es)" "\<forall>t \<in> set (ready_times es). 0 \<le> t"
  shows "sorted_wrt (\<lambda>s t. s + CACHE_MS \<le> t) (pings_started createDbReadinessCheck es)"
  using pings_after [OF assms] by (simp add: createDbReadinessCheck_def)

text \<open>An answer from the cache is less than three seconds old, and one of a ping that has settled.\<close>

lemma cached_answers_recent:
  "(t, b, at) \<in> set (cached_answers r es) \<Longrightarrow>
     t < at + CACHE_MS \<and> (Ping_Settled at b \<in> set es \<or> (b = rdLastResult r \<and> at = rdLastCheckedAt r))"
proof (induction r es rule: cached_answers.induct)
  case (2 r t' es)
  have "rdLastResult (snd (checkDatabaseReady t' r)) = rdLastResult r" "rdLastCheckedAt (snd (checkDatabaseReady t' r)) = rdLastCheckedAt r"
    by (simp_all add: checkDatabaseReady_def)
  with 2 show ?case by (auto simp: checkDatabaseReady_def split: if_splits)
next
  case (3 r t' ok es)
  then show ?case by (cases "rdInFlight r") (auto simp: ping_done_def)
qed simp

subsection \<open>Readiness\<close>

record 'v app_state =
  apCapacity :: "'v capacity"
  apShuttingDown :: bool
  apReadiness :: readiness

definition markShuttingDown :: "'v app_state \<Rightarrow> 'v app_state" where
  "markShuttingDown a = a\<lparr>apShuttingDown := True\<rparr>"

definition onClose :: "'v app_state \<Rightarrow> 'v app_state" where
  "onClose a = a\<lparr>apShuttingDown := True, apCapacity := cap_close (apCapacity a)\<rparr>"

text \<open>What is asked before the database is.\<close>

definition ready_before_database :: "browser_env \<Rightarrow> 'v app_state \<Rightarrow> bool" where
  "ready_before_database env a \<longleftrightarrow>
     \<not> closed (apCapacity a) \<and> \<not> apShuttingDown a \<and> (\<not> evRequireOutboundProxy env \<or> truthy (evOutboundProxyUrl env))"

datatype health_reply = Alive | Ready | Not_Ready | Waits_For_Ping

fun health_status :: "health_reply \<Rightarrow> nat option" where
  "health_status Alive = Some 200"
| "health_status Ready = Some 200"
| "health_status Not_Ready = Some 503"
| "health_status Waits_For_Ping = None"

definition get_livez :: "'v app_state \<Rightarrow> health_reply" where
  "get_livez a = Alive"

definition readyz_of :: "bool \<Rightarrow> health_reply" where
  "readyz_of ready = (if \<not> ready then Not_Ready else Ready)"

definition get_readyz :: "browser_env \<Rightarrow> time_ms \<Rightarrow> 'v app_state \<Rightarrow> health_reply \<times> 'v app_state" where
  "get_readyz env now a =
     (if \<not> ready_before_database env a then (readyz_of False, a)
      else let (answer, r) = checkDatabaseReady now (apReadiness a)
           in ((case answer of Cached b \<Rightarrow> readyz_of b | _ \<Rightarrow> Waits_For_Ping), a\<lparr>apReadiness := r\<rparr>))"

text \<open>
  Once the service is told to stop, every later probe is refused, without asking the database,
  and nothing takes that back.
\<close>

lemma stopping_is_not_ready:
  "apShuttingDown a \<or> closed (apCapacity a) \<Longrightarrow> get_readyz env now a = (Not_Ready, a)"
  by (auto simp: get_readyz_def ready_before_database_def readyz_of_def)

lemma cap_close_closed: "closed (cap_close c)"
proof (cases "closed c")
  case False
  show ?thesis unfolding cap_close_eq [OF False] by (simp add: reportSnapshot_def)
qed (simp add: cap_close_def)

lemma stopping_persists:
  "apShuttingDown (markShuttingDown a)" "apShuttingDown (onClose a)" "closed (apCapacity (onClose a))"
  "apShuttingDown (snd (get_readyz env now a)) = apShuttingDown a" "apCapacity (snd (get_readyz env now a)) = apCapacity a"
  by (simp_all add: markShuttingDown_def onClose_def get_readyz_def cap_close_closed split: prod.splits)

text \<open>A service that requires its proxy and has none is never ready; \<open>server.ts\<close> does not even start it.\<close>

lemma no_proxy_not_ready:
  "parse_env lib e = Inr c \<Longrightarrow> refuses_to_start c \<Longrightarrow> get_readyz (evRender c) now a = (Not_Ready, a)"
  by (auto simp: get_readyz_def ready_before_database_def refuses_to_start_def readyz_of_def truthy_def)

text \<open>A probe that began before the stop still answers ready when its ping returns.\<close>

lemma probe_in_flight_ignores_stop:
  "rdLastCheckedAt (apReadiness a) + CACHE_MS \<le> now \<Longrightarrow> ready_before_database env a \<Longrightarrow> \<not> rdInFlight (apReadiness a) \<Longrightarrow>
     fst (get_readyz env now a) = Waits_For_Ping"
  by (simp add: get_readyz_def checkDatabaseReady_def)

subsection \<open>The metrics route\<close>

text \<open>The regular expression: \<open>172.\<close>, then 16 to 31, then a dot.\<close>

fun octet_16_31 :: "string \<Rightarrow> bool" where
  "octet_16_31 (a # b # p # _) \<longleftrightarrow> p = CHR ''.'' \<and>
     (a = CHR ''1'' \<and> b \<in> set ''6789'' \<or> a = CHR ''2'' \<and> is_digit b \<or> a = CHR ''3'' \<and> b \<in> set ''01'')"
| "octet_16_31 _ \<longleftrightarrow> False"

definition private_172 :: "string \<Rightarrow> bool" where
  "private_172 ip \<longleftrightarrow> starts_with ip ''172.'' \<and> octet_16_31 (drop 4 ip)"

definition isPrivateOrLoopback :: "(string \<Rightarrow> nat) \<Rightarrow> string \<Rightarrow> bool" where
  "isPrivateOrLoopback family ip =
     (if family ip = 4 then
        ip = ''127.0.0.1'' \<or> starts_with ip ''10.'' \<or> starts_with ip ''192.168.'' \<or> private_172 ip
      else if family ip = 6 then ip = ''::1'' \<or> starts_with ip ''fc'' \<or> starts_with ip ''fd''
      else False)"

datatype metrics_reply = Metrics_Forbidden | Metrics_Text string

definition get_metrics :: "(string \<Rightarrow> nat) \<Rightarrow> string \<Rightarrow> string option \<Rightarrow> metrics_reply" where
  "get_metrics family metrics_text remoteAddress =
     (if \<not> isPrivateOrLoopback family (case remoteAddress of None \<Rightarrow> [] | Some ip \<Rightarrow> ip) then Metrics_Forbidden
      else Metrics_Text metrics_text)"

text \<open>The dotted form in which Node reports an IPv4 peer.\<close>

definition ipv4_text :: "nat \<Rightarrow> nat \<Rightarrow> nat \<Rightarrow> nat \<Rightarrow> string" where
  "ipv4_text a b c d = show_nat a @ ''.'' @ show_nat b @ ''.'' @ show_nat c @ ''.'' @ show_nat d"

lemma no_dot: "CHR ''.'' \<notin> set (show_nat n)"
proof -
  have "\<not> is_digit (CHR ''.'')" by code_simp
  then show ?thesis using show_nat_digits [of n] unfolding list_all_iff by blast
qed

lemma prefix_until: "d \<notin> set ys \<Longrightarrow> d \<notin> set xs \<Longrightarrow> prefix (ys @ d # q) (xs @ d # rest) \<longleftrightarrow> xs = ys \<and> prefix q rest"
proof (induction ys arbitrary: xs)
  case Nil
  then show ?case by (cases xs) auto
next
  case (Cons y ys)
  then show ?case by (cases xs) auto
qed

lemma dotted_head:
  "CHR ''.'' \<notin> set p \<Longrightarrow> show_nat n = p \<Longrightarrow> prefix (p @ CHR ''.'' # q) (show_nat a @ CHR ''.'' # rest) \<longleftrightarrow> a = n \<and> prefix q rest"
  using prefix_until [OF _ no_dot] show_nat_inject by metis

lemma digit_char_is: "x < 10 \<Longrightarrow> n < 10 \<Longrightarrow> digit_char x = digit_char n \<longleftrightarrow> x = n"
  by (metis digit_val_digit_char)

lemma digit_chars:
  "CHR ''0'' = digit_char 0" "CHR ''1'' = digit_char 1" "CHR ''2'' = digit_char 2" "CHR ''3'' = digit_char 3"
  "CHR ''6'' = digit_char 6" "CHR ''7'' = digit_char 7" "CHR ''8'' = digit_char 8" "CHR ''9'' = digit_char 9"
  by code_simp+

lemma octet_digits:
  "x < 10 \<Longrightarrow> y < 10 \<Longrightarrow> octet_16_31 (digit_char x # digit_char y # CHR ''.'' # rest) \<longleftrightarrow> 16 \<le> 10 * x + y \<and> 10 * x + y \<le> 31"
  by (simp add: is_digit_digit_char digit_chars digit_char_is) presburger

lemma digit_no_dot: "n < 10 \<Longrightarrow> digit_char n \<noteq> CHR ''.''"
  using is_digit_digit_char [of n] by (auto simp: is_digit_def char_code_def)

lemma show_nat_two: "10 \<le> n \<Longrightarrow> show_nat n = show_nat (n div 10) @ [digit_char (n mod 10)]"
  by (subst show_nat.simps) simp

lemma show_nat_one: "n < 10 \<Longrightarrow> show_nat n = [digit_char n]"
  by (subst show_nat.simps) simp

lemma octet_16_31_iff: "octet_16_31 (show_nat b @ CHR ''.'' # rest) \<longleftrightarrow> 16 \<le> b \<and> b \<le> 31"
proof -
  consider "b < 10" | "10 \<le> b" "b < 100" | "100 \<le> b" by linarith
  then show ?thesis
  proof cases
    case 1
    then show ?thesis by (cases rest) (auto simp: show_nat_one is_digit_def char_code_def)
  next
    case 2
    then have "show_nat b = [digit_char (b div 10), digit_char (b mod 10)]"
      using show_nat_two [of b] show_nat_one [of "b div 10"] by simp
    moreover have "10 * (b div 10) + b mod 10 = b" by simp
    moreover have "b div 10 < 10" "b mod 10 < 10" using 2(2) by simp_all
    ultimately show ?thesis using octet_digits [of "b div 10" "b mod 10" rest] by simp
  next
    case 3
    then have "10 \<le> b" "10 \<le> b div 10" by simp_all
    then have s: "show_nat b = show_nat (b div 10 div 10) @ [digit_char (b div 10 mod 10), digit_char (b mod 10)]"
      using show_nat_two [of b] show_nat_two [of "b div 10"] by simp
    obtain x ys where "show_nat (b div 10 div 10) = x # ys" by (cases "show_nat (b div 10 div 10)") simp_all
    then obtain x y z us where "show_nat b = x # y # z # us" by (cases ys; cases "tl ys") (auto simp: s)
    moreover from this have "z \<noteq> CHR ''.''" using no_dot [of b] by auto
    ultimately show ?thesis using 3 by simp
  qed
qed

text \<open>For IPv4 peers the text tests are the private blocks and the loopback address.\<close>

lemma metrics_private_ranges:
  assumes "family (ipv4_text a b c d) = 4"
  shows "isPrivateOrLoopback family (ipv4_text a b c d) \<longleftrightarrow>
     (a, b, c, d) = (127, 0, 0, 1) \<or> a = 10 \<or> (a = 192 \<and> b = 168) \<or> (a = 172 \<and> 16 \<le> b \<and> b \<le> 31)"
proof -
  let ?r = "show_nat b @ CHR ''.'' # show_nat c @ CHR ''.'' # show_nat d"
  have form: "ipv4_text a b c d = show_nat a @ CHR ''.'' # ?r" by (simp add: ipv4_text_def)
  have n: "show_nat 10 = ''10''" "show_nat 192 = ''192''" "show_nat 168 = ''168''" "show_nat 172 = ''172''"
    by code_simp+
  have m: "show_nat 127 = ''127''" "show_nat 0 = ''0''" "show_nat 1 = ''1''" by code_simp+
  have "starts_with (ipv4_text a b c d) ''10.'' \<longleftrightarrow> a = 10"
    using dotted_head [OF _ n(1), of "[]" a ?r] by (simp add: form)
  moreover have "starts_with (ipv4_text a b c d) ''192.168.'' \<longleftrightarrow> a = 192 \<and> b = 168"
    using dotted_head [OF _ n(2), of "''168.''" a ?r] dotted_head [OF _ n(3), of "[]" b "show_nat c @ CHR ''.'' # show_nat d"]
    by (simp add: form)
  moreover have "private_172 (ipv4_text a b c d) \<longleftrightarrow> a = 172 \<and> 16 \<le> b \<and> b \<le> 31"
  proof -
    have "starts_with (ipv4_text a b c d) ''172.'' \<longleftrightarrow> a = 172"
      using dotted_head [OF _ n(4), of "[]" a ?r] by (simp add: form)
    moreover have "drop 4 (ipv4_text 172 b c d) = ?r" by (simp add: ipv4_text_def n(4))
    ultimately show ?thesis using octet_16_31_iff by (auto simp: private_172_def)
  qed
  moreover have "ipv4_text a b c d = ''127.0.0.1'' \<longleftrightarrow> (a, b, c, d) = (127, 0, 0, 1)"
  proof
    have split: "js_split (CHR ''.'') (ipv4_text a b c d) = [show_nat a, show_nat b, show_nat c, show_nat d]"
      by (simp add: ipv4_text_def js_split_append_sep js_split_no_sep no_dot)
    assume eq: "ipv4_text a b c d = ''127.0.0.1''"
    have "[show_nat a, show_nat b, show_nat c, show_nat d] = js_split (CHR ''.'') ''127.0.0.1''" by (simp only: split [symmetric] eq)
    also have "\<dots> = [show_nat 127, show_nat 0, show_nat 0, show_nat 1]" unfolding m by simp
    finally show "(a, b, c, d) = (127, 0, 0, 1)" by simp
  next
    assume "(a, b, c, d) = (127, 0, 0, 1)"
    moreover have "ipv4_text 127 0 0 1 = ''127.0.0.1''" by code_simp
    ultimately show "ipv4_text a b c d = ''127.0.0.1''" by simp
  qed
  ultimately show ?thesis using assms by (simp add: isPrivateOrLoopback_def)
qed

text \<open>The text test for IPv6 takes 00fc::1, which is written fc::1, for a unique local address.\<close>

lemma short_group_passes: "isPrivateOrLoopback (\<lambda>_. 6) ''fc::1''"
  by (simp add: isPrivateOrLoopback_def)

subsection \<open>Endpoints that are gone\<close>

text \<open>
  The unscoped management routes of src/routes/projects.ts, domains.ts and sitemaps.ts, each with
  the hint it answers. The handler looks at nothing of the request.
\<close>

definition migrated_endpoints :: "((string \<times> string) \<times> string) list" where
  "migrated_endpoints =
     [((''POST'', ''/projects''), ''POST /v1/organizations/:organizationId/projects''),
      ((''GET'', ''/projects''), ''GET /v1/organizations/:organizationId/projects''),
      ((''GET'', ''/projects/:projectId''), ''GET /v1/organizations/:organizationId/projects/:projectId''),
      ((''PATCH'', ''/projects/:projectId''), ''PATCH /v1/organizations/:organizationId/projects/:projectId''),
      ((''DELETE'', ''/projects/:projectId''), ''DELETE /v1/organizations/:organizationId/projects/:projectId''),
      ((''POST'', ''/projects/:projectId/domains''), ''POST /v1/organizations/:organizationId/projects/:projectId/domains''),
      ((''GET'', ''/projects/:projectId/domains''), ''GET /v1/organizations/:organizationId/projects/:projectId/domains''),
      ((''GET'', ''/domains/:domainId''), ''GET /v1/organizations/:organizationId/domains/:domainId''),
      ((''POST'', ''/domains/:domainId/rotate-verification-token''),
        ''POST /v1/organizations/:organizationId/domains/:domainId/rotate-verification-token''),
      ((''POST'', ''/domains/:domainId/verify''), ''POST /v1/organizations/:organizationId/domains/:domainId/verify''),
      ((''POST'', ''/domains/:domainId/discover-sitemaps''),
        ''POST /v1/organizations/:organizationId/domains/:domainId/discover-sitemaps''),
      ((''POST'', ''/sitemap-sources/:sourceId/fetch''),
        ''POST /v1/organizations/:organizationId/domains/:domainId/discover-sitemaps (fetch-by-source-id is not yet available in the tenant-scoped API)'')]"

definition registerMigratedEndpoint :: "string \<Rightarrow> nat \<times> string \<times> string" where
  "registerMigratedEndpoint newRouteHint =
     (410, ''ENDPOINT_MIGRATED'', ''This endpoint has moved. Use the organization-scoped route: '' @ newRouteHint)"

definition legacy_route :: "string \<Rightarrow> string \<Rightarrow> (nat \<times> string \<times> string) option" where
  "legacy_route route_method route_url = map_option registerMigratedEndpoint (map_of migrated_endpoints (route_method, route_url))"

text \<open>Every one of them is gone with the status of the error code, and every hint names a scoped route.\<close>

lemma legacy_routes_are_gone:
  "legacy_route route_method route_url = Some (code, e, m) \<Longrightarrow> code = status_by_code ENDPOINT_MIGRATED \<and> e = ''ENDPOINT_MIGRATED''"
  by (auto simp: legacy_route_def registerMigratedEndpoint_def)

lemma hints_are_scoped:
  "list_all (\<lambda>(_, hint). includes_str hint '' /v1/organizations/:organizationId/'') migrated_endpoints"
  "distinct (map fst migrated_endpoints)"
  by code_simp+

end
