(* ===== verification/Bootstrap.thy ===== *)
theory Bootstrap
  imports Memberships
begin

section \<open>The first owner, and the tenancy migration\<close>

text \<open>
  src/services/bootstrap-owner-service.ts and src/services/tenancy-backfill-service.ts. The
  transaction of the bootstrap reads committed rows only: it is cut between its look at the user
  table and its commit, which the unique columns decide. What Better Auth answers to the sign-up
  and to the new organization is an argument.
\<close>

subsection \<open>The first owner\<close>

definition MIN_OWNER_PASSWORD_LENGTH :: nat where "MIN_OWNER_PASSWORD_LENGTH = 12"

record bootstrap_input =
  biEmail :: string
  biName :: string
  biPassword :: string
  biOrgName :: "string option"
  biOrgSlug :: "string option"

datatype bootstrap_error =
    Email_Or_Name_Missing | Password_Missing | Password_Control_Character | Password_Too_Short
  | User_Table_Not_Empty | Race_Detected | Organization_Creation_Failed | Bootstrap_Failed tenant_error

definition containsControlCharacter :: "string \<Rightarrow> bool" where
  "containsControlCharacter v \<longleftrightarrow>
     list_ex (\<lambda>c. let code = char_code c; isC0 = (code \<le> 31); isDel = (code = 127); isTab = (code = 9)
                  in (isC0 \<and> \<not> isTab) \<or> isDel) v"

definition bootstrap_valid :: "bootstrap_input \<Rightarrow> bootstrap_error + unit" where
  "bootstrap_valid i =
     and_then (guard_or (\<not> (biEmail i = [] \<or> biName i = [])) Email_Or_Name_Missing) (\<lambda>_.
     and_then (guard_or (biPassword i \<noteq> []) Password_Missing) (\<lambda>_.
     and_then (guard_or (\<not> containsControlCharacter (biPassword i)) Password_Control_Character) (\<lambda>_.
     guard_or (\<not> length (biPassword i) < MIN_OWNER_PASSWORD_LENGTH) Password_Too_Short)))"

text \<open>
  Better Auth: the id of the new user, if the sign-up succeeds, and the organization it created
  with the membership it may have added.
\<close>

record bootstrap_auth =
  baUserId :: "string option"
  baOrganization :: "(string \<times> member_row option) option"

definition insert_organization :: "organization_row \<Rightarrow> tenant_db \<Rightarrow> tenant_error + tenant_db" where
  "insert_organization row db =
     (if row_at ogId (dbOrganizations db) (ogId row) \<noteq> None \<or> row_at ogSlug (dbOrganizations db) (ogSlug row) \<noteq> None
      then Inl Auth_Error else Inr (db\<lparr>dbOrganizations := dbOrganizations db @ [row]\<rparr>))"

definition owner_member :: "tx_env \<Rightarrow> string \<Rightarrow> string \<Rightarrow> member_row" where
  "owner_member env userId orgId =
     \<lparr>mbId = member_id userId orgId, mbOrganizationId = orgId, mbUserId = userId, mbRole = ''owner'', mbCreatedAt = txNow env\<rparr>"

definition owner_organization :: "bootstrap_input \<Rightarrow> string \<Rightarrow> string \<Rightarrow> organization_row" where
  "owner_organization i userId orgId =
     \<lparr>ogId = orgId, ogName = (case biOrgName i of Some n \<Rightarrow> n | None \<Rightarrow> biName i @ [CHR 0x27] @ ''s Organization''),
      ogSlug = (case biOrgSlug i of Some s \<Rightarrow> s | None \<Rightarrow> ''org-'' @ take 8 userId), ogStatus = Organization_Active\<rparr>"

text \<open>The role of the creator, whether Better Auth has added it or not.\<close>

definition make_owner :: "tx_env \<Rightarrow> string \<Rightarrow> string \<Rightarrow> tenant_db \<Rightarrow> tenant_error + tenant_db" where
  "make_owner env userId orgId db =
     (if filter (\<lambda>m. mbOrganizationId m = orgId \<and> mbUserId m = userId) (dbMembers db) = []
      then insert_member (owner_member env userId orgId) db
      else Inr (db\<lparr>dbMembers := map (\<lambda>m. if mbOrganizationId m = orgId \<and> mbUserId m = userId then m\<lparr>mbRole := ''owner''\<rparr> else m)
                      (dbMembers db)\<rparr>))"

definition creator_added :: "member_row option \<Rightarrow> tenant_db \<Rightarrow> tenant_error + tenant_db" where
  "creator_added added db = (case added of None \<Rightarrow> Inr db | Some m \<Rightarrow> insert_member m db)"

definition bootstrap_writes ::
  "tx_env \<Rightarrow> bootstrap_auth \<Rightarrow> bootstrap_input \<Rightarrow> tenant_db \<Rightarrow> bootstrap_error + (string \<times> string) \<times> tenant_db" where
  "bootstrap_writes env ba i db =
     (case baUserId ba of
        None \<Rightarrow> Inl (Bootstrap_Failed Auth_Error)
      | Some userId \<Rightarrow>
          (case insert_user \<lparr>usId = userId, usEmail = biEmail i, usName = biName i\<rparr> db of
             Inl e \<Rightarrow> Inl (Bootstrap_Failed e)
           | Inr db1 \<Rightarrow>
               (case baOrganization ba of
                  None \<Rightarrow> Inl Organization_Creation_Failed
                | Some (orgId, added) \<Rightarrow>
                    (case and_then (insert_organization (owner_organization i userId orgId) db1) (\<lambda>db2.
                            and_then (creator_added added db2) (make_owner env userId orgId)) of
                       Inl e \<Rightarrow> Inl (Bootstrap_Failed e)
                     | Inr db3 \<Rightarrow> Inr ((userId, orgId), db3)))))"

text \<open>The look before the transaction and the one inside it.\<close>

definition bootstrap_begin :: "bootstrap_input \<Rightarrow> tenant_db \<Rightarrow> tenant_db \<Rightarrow> bootstrap_error + unit" where
  "bootstrap_begin i before inside =
     and_then (bootstrap_valid i) (\<lambda>_.
     and_then (guard_or (\<not> dbUsers before \<noteq> []) User_Table_Not_Empty) (\<lambda>_.
     guard_or (\<not> dbUsers inside \<noteq> []) Race_Detected))"

text \<open>The commit: all writes or none.\<close>

definition bootstrap_commit ::
  "tx_env \<Rightarrow> bootstrap_auth \<Rightarrow> bootstrap_input \<Rightarrow> tenant_db \<Rightarrow> (bootstrap_error + string \<times> string) \<times> tenant_db" where
  "bootstrap_commit env ba i db =
     (case bootstrap_writes env ba i db of Inl e \<Rightarrow> (Inl e, db) | Inr (r, db') \<Rightarrow> (Inr r, db'))"

definition bootstrapOwner ::
  "tx_env \<Rightarrow> bootstrap_auth \<Rightarrow> bootstrap_input \<Rightarrow> tenant_db \<Rightarrow> (bootstrap_error + string \<times> string) \<times> tenant_db" where
  "bootstrapOwner env ba i db =
     (case bootstrap_begin i db db of Inl e \<Rightarrow> (Inl e, db) | Inr _ \<Rightarrow> bootstrap_commit env ba i db)"

subsection \<open>What a bootstrap leaves\<close>

lemma bootstrap_begin_Inr:
  "bootstrap_begin i before inside = Inr u \<Longrightarrow> bootstrap_valid i = Inr () \<and> dbUsers before = [] \<and> dbUsers inside = []"
  by (auto simp: bootstrap_begin_def and_then_Inr_iff guard_or_def split: if_splits)

lemma bootstrap_valid_Inr:
  "bootstrap_valid i = Inr u \<longleftrightarrow> biEmail i \<noteq> [] \<and> biName i \<noteq> [] \<and> 12 \<le> length (biPassword i) \<and> \<not> containsControlCharacter (biPassword i)"
  by (auto simp: bootstrap_valid_def and_then_Inr_iff guard_or_def MIN_OWNER_PASSWORD_LENGTH_def split: if_splits)

lemma insert_member_keeps:
  "insert_member m db = Inr db' \<Longrightarrow> dbUsers db' = dbUsers db \<and> dbOrganizations db' = dbOrganizations db \<and> dbMembers db' = dbMembers db @ [m]"
  by (auto simp: insert_member_def insert_unique_Inr split: sum.splits if_splits)

lemma make_owner_Inr:
  assumes "make_owner env userId orgId db = Inr db'"
  shows "dbUsers db' = dbUsers db \<and> dbOrganizations db' = dbOrganizations db
    \<and> (\<exists>m \<in> set (dbMembers db'). mbOrganizationId m = orgId \<and> mbUserId m = userId)
    \<and> (\<forall>m \<in> set (dbMembers db'). mbOrganizationId m = orgId \<longrightarrow> mbUserId m = userId \<longrightarrow> mbRole m = ''owner'')"
proof (cases "filter (\<lambda>m. mbOrganizationId m = orgId \<and> mbUserId m = userId) (dbMembers db) = []")
  case True
  then have none: "\<forall>m \<in> set (dbMembers db). \<not> (mbOrganizationId m = orgId \<and> mbUserId m = userId)" by (simp add: filter_empty_conv)
  have "dbMembers db' = dbMembers db @ [owner_member env userId orgId]" "dbUsers db' = dbUsers db" "dbOrganizations db' = dbOrganizations db"
    using assms True insert_member_keeps by (auto simp: make_owner_def)
  with none show ?thesis by (auto simp: owner_member_def)
next
  case False
  then obtain m where m: "m \<in> set (dbMembers db)" "mbOrganizationId m = orgId" "mbUserId m = userId"
    by (auto simp: filter_empty_conv)
  define f where "f x = (if mbOrganizationId x = orgId \<and> mbUserId x = userId then x\<lparr>mbRole := ''owner''\<rparr> else x)" for x :: member_row
  have db': "dbMembers db' = map f (dbMembers db)" "dbUsers db' = dbUsers db" "dbOrganizations db' = dbOrganizations db"
    using False assms by (auto simp: make_owner_def f_def)
  have "f m \<in> set (dbMembers db')" "mbOrganizationId (f m) = orgId" "mbUserId (f m) = userId"
    using m by (simp_all add: db' f_def)
  moreover have "mbRole (f x) = ''owner''" if "mbOrganizationId (f x) = orgId" "mbUserId (f x) = userId" for x
    using that by (auto simp: f_def split: if_splits)
  ultimately show ?thesis using db' by auto
qed

lemma bootstrap_writes_Inr:
  assumes "bootstrap_writes env ba i db = Inr ((userId, orgId), db')"
  shows "dbUsers db' = dbUsers db @ [\<lparr>usId = userId, usEmail = biEmail i, usName = biName i\<rparr>]
    \<and> dbOrganizations db' = dbOrganizations db @ [owner_organization i userId orgId]
    \<and> (\<exists>m \<in> set (dbMembers db'). mbOrganizationId m = orgId \<and> mbUserId m = userId)
    \<and> (\<forall>m \<in> set (dbMembers db'). mbOrganizationId m = orgId \<longrightarrow> mbUserId m = userId \<longrightarrow> mbRole m = ''owner'')"
proof -
  from assms obtain db1 db2 db3 added where w: "insert_user \<lparr>usId = userId, usEmail = biEmail i, usName = biName i\<rparr> db = Inr db1"
    "insert_organization (owner_organization i userId orgId) db1 = Inr db2"
    "creator_added added db2 = Inr db3" "make_owner env userId orgId db3 = Inr db'"
    by (auto simp: bootstrap_writes_def and_then_Inr_iff split: option.splits sum.splits)
  have "dbUsers db3 = dbUsers db2" "dbOrganizations db3 = dbOrganizations db2"
    using w(3) insert_member_keeps by (auto simp: creator_added_def split: option.splits)
  with w(1,2) make_owner_Inr [OF w(4)] show ?thesis
    by (auto simp: insert_user_def insert_organization_def split: if_splits)
qed

text \<open>
  A bootstrap that nothing interrupts works once: it needs an empty user table and a proper
  password, leaves one user who owns the new organization, changes nothing when it fails, and is
  refused ever after.
\<close>

lemma bootstrap_once:
  assumes "bootstrapOwner env ba i db = (Inr (userId, orgId), db')"
  shows "dbUsers db = [] \<and> 12 \<le> length (biPassword i)
    \<and> dbUsers db' = [\<lparr>usId = userId, usEmail = biEmail i, usName = biName i\<rparr>]
    \<and> owner_organization i userId orgId \<in> set (dbOrganizations db')
    \<and> (\<exists>m \<in> set (dbMembers db'). mbOrganizationId m = orgId \<and> mbUserId m = userId \<and> mbRole m = ''owner'')
    \<and> (\<forall>env' ba' i'. \<exists>e. bootstrapOwner env' ba' i' db' = (Inl e, db'))"
proof -
  have b: "bootstrap_begin i db db = Inr ()" "bootstrap_writes env ba i db = Inr ((userId, orgId), db')"
    using assms by (auto simp: bootstrapOwner_def bootstrap_commit_def split: sum.splits)
  note w = bootstrap_writes_Inr [OF b(2)]
  have users: "dbUsers db' \<noteq> []" using w by simp
  have "\<exists>e. bootstrapOwner env' ba' i' db' = (Inl e, db')" for env' ba' i'
  proof (cases "bootstrap_begin i' db' db'")
    case (Inr u)
    with bootstrap_begin_Inr [OF Inr] users show ?thesis by simp
  qed (simp add: bootstrapOwner_def)
  with w bootstrap_begin_Inr [OF b(1)] show ?thesis unfolding bootstrap_valid_Inr by fastforce
qed

lemma failed_bootstrap_changes_nothing: "bootstrapOwner env ba i db = (Inl e, db') \<Longrightarrow> db' = db"
  by (auto simp: bootstrapOwner_def bootstrap_commit_def split: sum.splits)

text \<open>
  Two bootstraps whose transactions overlap both see an empty table. Nothing unique stops the
  second, so there are two first owners.
\<close>

definition empty_db :: tenant_db where
  "empty_db = \<lparr>dbUsers = [], dbOrganizations = [], dbMembers = [], dbProjects = [], dbDomains = [], dbSources = [], dbUrls = [],
     dbInvitations = [], dbApiKeys = [], dbAudit = [], dbAuditMetrics = []\<rparr>"

definition demo_owner :: "string \<Rightarrow> bootstrap_input" where
  "demo_owner email = \<lparr>biEmail = email, biName = email, biPassword = ''correct horse'', biOrgName = None, biOrgSlug = None\<rparr>"

definition demo_bootstrap_auth :: "string \<Rightarrow> string \<Rightarrow> bootstrap_auth" where
  "demo_bootstrap_auth u g = \<lparr>baUserId = Some u, baOrganization = Some (g, None)\<rparr>"

lemma overlapping_bootstraps_both_succeed:
  assumes "txNow env = 0"
  defines "db1 \<equiv> snd (bootstrap_commit env (demo_bootstrap_auth ''u1'' ''g1'') (demo_owner ''a'') empty_db)"
  shows "bootstrap_begin (demo_owner ''a'') empty_db empty_db = Inr ()" "bootstrap_begin (demo_owner ''b'') empty_db empty_db = Inr ()"
    "fst (bootstrap_commit env (demo_bootstrap_auth ''u1'' ''g1'') (demo_owner ''a'') empty_db) = Inr (''u1'', ''g1'')"
    "fst (bootstrap_commit env (demo_bootstrap_auth ''u2'' ''g2'') (demo_owner ''b'') db1) = Inr (''u2'', ''g2'')"
    "map mbRole (dbMembers (snd (bootstrap_commit env (demo_bootstrap_auth ''u2'' ''g2'') (demo_owner ''b'') db1))) = [''owner'', ''owner'']"
proof -
  have valid: "bootstrap_valid (demo_owner x) = Inr ()" if ne: "x \<noteq> []" for x
    using ne by (simp add: bootstrap_valid_Inr demo_owner_def containsControlCharacter_def char_code_def Let_def)
  show "bootstrap_begin (demo_owner ''a'') empty_db empty_db = Inr ()" "bootstrap_begin (demo_owner ''b'') empty_db empty_db = Inr ()"
    using valid by (simp_all add: bootstrap_begin_def empty_db_def guard_or_def and_then_def)
  note defs = bootstrap_commit_def bootstrap_writes_def demo_bootstrap_auth_def demo_owner_def insert_user_def insert_organization_def
    row_at_def owner_organization_def make_owner_def owner_member_def insert_member_def insert_unique_def member_id_def has_org_def has_user_def
    creator_added_def and_then_def db1_def
  show "fst (bootstrap_commit env (demo_bootstrap_auth ''u1'' ''g1'') (demo_owner ''a'') empty_db) = Inr (''u1'', ''g1'')"
    by (simp add: defs) (simp add: empty_db_def)
  show "fst (bootstrap_commit env (demo_bootstrap_auth ''u2'' ''g2'') (demo_owner ''b'') db1) = Inr (''u2'', ''g2'')"
    by (simp add: defs empty_db_def)
  show "map mbRole (dbMembers (snd (bootstrap_commit env (demo_bootstrap_auth ''u2'' ''g2'') (demo_owner ''b'') db1))) = [''owner'', ''owner'']"
    by (simp add: defs empty_db_def)
qed

subsection \<open>The tenancy migration\<close>

text \<open>
  While \<open>projects.organization_id\<close> is still nullable, between its two migrations: a row is an id and
  the organization, if it has one yet. The rows are counted before they are updated.
\<close>

type_synonym legacy_projects = "(string \<times> string option) list"

datatype backfill_error = Invalid_Organization_Id | Organization_Missing

record backfill_result =
  brAffectedRowCount :: nat
  brDryRun :: bool

definition organization_id_ok :: "string \<Rightarrow> bool" where
  "organization_id_ok s \<longleftrightarrow> 1 \<le> length s \<and> length s \<le> 255
     \<and> list_all (\<lambda>c. is_digit c \<or> is_lower c \<or> is_upper c \<or> c = CHR ''_'' \<or> c = CHR ''-'') s"

definition orphans :: "legacy_projects \<Rightarrow> legacy_projects" where
  "orphans ps = filter (\<lambda>(_, g). g = None) ps"

definition countOrphanProjects :: "legacy_projects \<Rightarrow> nat" where
  "countOrphanProjects ps = length (orphans ps)"

text \<open>\<open>seen\<close> is the table when the orphans are looked up, \<open>ps\<close> when they are updated.\<close>

definition backfillProjectsToOrganization ::
  "(string \<Rightarrow> bool) \<Rightarrow> string \<Rightarrow> bool \<Rightarrow> legacy_projects \<Rightarrow> legacy_projects \<Rightarrow> (backfill_error + backfill_result) \<times> legacy_projects" where
  "backfillProjectsToOrganization exists_org organizationId dryRun seen ps =
     (if \<not> organization_id_ok organizationId then (Inl Invalid_Organization_Id, ps)
      else if \<not> exists_org organizationId then (Inl Organization_Missing, ps)
      else if dryRun then (Inr \<lparr>brAffectedRowCount = length (orphans seen), brDryRun = True\<rparr>, ps)
      else if orphans seen = [] then (Inr \<lparr>brAffectedRowCount = 0, brDryRun = False\<rparr>, ps)
      else (Inr \<lparr>brAffectedRowCount = length (orphans ps), brDryRun = False\<rparr>,
            map (\<lambda>(p, g). (p, if g = None then Some organizationId else g)) ps))"

text \<open>
  A backfill assigns orphans to the organization it was told and leaves every other row; a dry
  run and a failure change nothing; it ends without orphans when it saw the table it wrote, and
  reports how many rows it changed.
\<close>

lemma backfill_result:
  assumes "backfillProjectsToOrganization exists_org organizationId dryRun seen ps = (res, ps')"
  shows "map fst ps' = map fst ps" "\<forall>(p, g) \<in> set ps'. (p, g) \<in> set ps \<or> (p, None) \<in> set ps \<and> g = Some organizationId \<and> exists_org organizationId"
    "dryRun \<or> res = Inl e \<Longrightarrow> ps' = ps"
    "seen = ps \<Longrightarrow> res = Inr \<lparr>brAffectedRowCount = n, brDryRun = False\<rparr> \<Longrightarrow> countOrphanProjects ps' = 0 \<and> n = countOrphanProjects ps"
  using assms
  by (auto simp: backfillProjectsToOrganization_def countOrphanProjects_def orphans_def filter_empty_conv split: if_splits)

text \<open>A project that appears after the look, when there were none, stays an orphan: hence the count before the contraction.\<close>

lemma late_orphan_stays:
  "organization_id_ok g \<Longrightarrow> exists_org g \<Longrightarrow> orphans seen = [] \<Longrightarrow>
     backfillProjectsToOrganization exists_org g False seen ps = (Inr \<lparr>brAffectedRowCount = 0, brDryRun = False\<rparr>, ps)"
  by (simp add: backfillProjectsToOrganization_def)

end
