(* ===== verification/UnscopedRepositories.thy ===== *)
theory UnscopedRepositories
  imports SitemapPersistence
begin

section \<open>The unscoped repositories\<close>

text \<open>
  The interfaces of src/repositories/types.ts from before there were organizations, with their
  two providers: PostgreSQL (src/repositories/postgres/postgres-project-repository.ts,
  postgres-domain-repository.ts, postgres-sitemap-repository.ts) and the in-memory doubles of the
  unit tests (src/repositories/fake). The routes that used them answer 410; the tests still run
  against the doubles, so what matters is where the two agree. A \<open>Map\<close> is the list of its values
  in the order of insertion. The time a page was created is the time it was first discovered.
\<close>

definition map_get :: "('r \<Rightarrow> string) \<Rightarrow> 'r list \<Rightarrow> string \<Rightarrow> 'r option" where
  "map_get key t k = row_at key t k"

definition map_set :: "('r \<Rightarrow> string) \<Rightarrow> 'r \<Rightarrow> 'r list \<Rightarrow> 'r list" where
  "map_set key r t = (if row_at key t (key r) = None then t @ [r] else map (\<lambda>x. if key x = key r then r else x) t)"

text \<open>Pages of the doubles: in the order of creation, after the position of the cursor.\<close>

definition find_index :: "('r \<Rightarrow> bool) \<Rightarrow> 'r list \<Rightarrow> int" where
  "find_index P t = (if list_ex P t then int (length (takeWhile (\<lambda>r. \<not> P r) t)) else - 1)"

definition fake_page :: "('r \<Rightarrow> string) \<Rightarrow> ('r \<Rightarrow> time_ms) \<Rightarrow> list_options \<Rightarrow> 'r list \<Rightarrow> 'r page_result" where
  "fake_page idf created options rows =
     (let all = sort_key created rows;
          startIndex = (if truthy (loCursor options) then nat (find_index (\<lambda>r. idf r = the (loCursor options)) all + 1) else 0);
          page = take (loLimit options) (drop startIndex all)
      in \<lparr>prItems = page,
          prNextCursor = (if startIndex + loLimit options < length all then (if page = [] then None else Some (idf (last page))) else None)\<rparr>)"

subsection \<open>Projects\<close>

datatype unscoped_error = Organization_Required | Repository_Error tenant_error

definition pg_createProject ::
  "tx_env \<Rightarrow> string option \<Rightarrow> create_project_input \<Rightarrow> tenant_db \<Rightarrow> (unscoped_error + project_row) \<times> tenant_db" where
  "pg_createProject env organizationId input db =
     (if \<not> truthy organizationId then (Inl Organization_Required, db)
      else let row = new_project env (the organizationId) input
           in case unique_violation_as PROJECT_SLUG_CONFLICT (insert_project row db) of
                Inl e \<Rightarrow> (Inl (Repository_Error e), db)
              | Inr db' \<Rightarrow> (Inr row, db'))"

definition pg_findProjectById :: "tenant_db \<Rightarrow> string \<Rightarrow> project_row option" where
  "pg_findProjectById db k = find (\<lambda>p. pjId p = k) (dbProjects db)"

definition pg_findProjectBySlug :: "tenant_db \<Rightarrow> string \<Rightarrow> project_row option" where
  "pg_findProjectBySlug db slug = find (\<lambda>p. pjSlug p = slug \<and> pjStatus p \<noteq> Project_Deleted) (dbProjects db)"

definition pg_listProjects :: "tenant_db \<Rightarrow> list_options \<Rightarrow> project_row page_result" where
  "pg_listProjects db options = page_by_id pjId options (filter (\<lambda>p. pjStatus p \<noteq> Project_Deleted) (dbProjects db))"

definition pg_updateProject ::
  "tx_env \<Rightarrow> string \<Rightarrow> update_project_input \<Rightarrow> tenant_db \<Rightarrow> (tenant_error + project_row option) \<times> tenant_db" where
  "pg_updateProject env k input db =
     (let (rows, t) = update_where (\<lambda>p. pjId p = k) (patch_project env input) (dbProjects db)
      in if unique_on pjSlug t then (Inr (first_row rows), db\<lparr>dbProjects := t\<rparr>) else (Inl (App PROJECT_SLUG_CONFLICT), db))"

definition deleted_project :: "tx_env \<Rightarrow> project_row \<Rightarrow> project_row" where
  "deleted_project env p = p\<lparr>pjStatus := Project_Deleted, pjUpdatedAt := txNow env\<rparr>"

definition pg_softDeleteProject :: "tx_env \<Rightarrow> string \<Rightarrow> tenant_db \<Rightarrow> project_row option \<times> tenant_db" where
  "pg_softDeleteProject env k db =
     (let (rows, t) = update_where (\<lambda>p. pjId p = k) (deleted_project env) (dbProjects db) in (first_row rows, db\<lparr>dbProjects := t\<rparr>))"

text \<open>The double keeps no organization.\<close>

definition fake_createProject :: "tx_env \<Rightarrow> create_project_input \<Rightarrow> project_row list \<Rightarrow> (tenant_error + project_row) \<times> project_row list" where
  "fake_createProject env input store =
     (case find (\<lambda>p. pjSlug p = cpSlug input \<and> pjStatus p \<noteq> Project_Deleted) store of
        Some _ \<Rightarrow> (Inl (App PROJECT_SLUG_CONFLICT), store)
      | None \<Rightarrow> (let project = new_project env [] input in (Inr project, map_set pjId project store)))"

definition fake_findProjectBySlug :: "project_row list \<Rightarrow> string \<Rightarrow> project_row option" where
  "fake_findProjectBySlug store slug = find (\<lambda>p. pjSlug p = slug \<and> pjStatus p \<noteq> Project_Deleted) store"

definition fake_listProjects :: "project_row list \<Rightarrow> list_options \<Rightarrow> project_row page_result" where
  "fake_listProjects store options = fake_page pjId pjCreatedAt options (filter (\<lambda>p. pjStatus p \<noteq> Project_Deleted) store)"

definition fake_updateProject ::
  "tx_env \<Rightarrow> string \<Rightarrow> update_project_input \<Rightarrow> project_row list \<Rightarrow> (tenant_error + project_row option) \<times> project_row list" where
  "fake_updateProject env k input store =
     (case map_get pjId store k of
        None \<Rightarrow> (Inr None, store)
      | Some project \<Rightarrow>
          (if truthy (upSlug input) \<and> upSlug input \<noteq> Some (pjSlug project)
              \<and> find (\<lambda>p. Some (pjSlug p) = upSlug input \<and> pjId p \<noteq> k \<and> pjStatus p \<noteq> Project_Deleted) store \<noteq> None
           then (Inl (App PROJECT_SLUG_CONFLICT), store)
           else let updated = patch_project env input project in (Inr (Some updated), map_set pjId updated store)))"

definition fake_softDeleteProject :: "tx_env \<Rightarrow> string \<Rightarrow> project_row list \<Rightarrow> project_row option \<times> project_row list" where
  "fake_softDeleteProject env k store =
     (case map_get pjId store k of
        None \<Rightarrow> (None, store)
      | Some project \<Rightarrow> (let updated = deleted_project env project in (Some updated, map_set pjId updated store)))"

text \<open>
  The slug of a deleted project: free for the double, taken for the database, whose index knows
  no status.
\<close>

lemma deleted_slug_differs:
  assumes "dbProjects db = [p]" "pjStatus p = Project_Deleted" "pjSlug p = cpSlug input" "pjId p \<noteq> txNewId env" "has_org db g" "g \<noteq> []"
  shows "fst (fake_createProject env input [p]) = Inr (new_project env [] input)"
    "fst (pg_createProject env (Some g) input db) = Inl (Repository_Error (App PROJECT_SLUG_CONFLICT))"
  using assms
  by (simp_all add: fake_createProject_def pg_createProject_def truthy_def insert_project_def insert_unique_def row_at_def
      new_project_def unique_violation_as_def Let_def)

subsection \<open>Domains\<close>

text \<open>The unique indexes are checked with the insert, the reference to the project after it.\<close>

definition pg_createDomain ::
  "tx_env \<Rightarrow> string \<Rightarrow> create_domain_input \<Rightarrow> tenant_db \<Rightarrow> (tenant_error + domain_row) \<times> tenant_db" where
  "pg_createDomain env projectId input db =
     (let row = new_domain env projectId input
      in case unique_violation_as DOMAIN_ALREADY_EXISTS (insert_domain row db) of
           Inl e \<Rightarrow> (Inl e, db)
         | Inr db' \<Rightarrow> (if list_ex (\<lambda>p. pjId p = projectId) (dbProjects db) then (Inr row, db') else (Inl (Db Foreign_Key_Violation), db)))"

definition pg_findDomainById :: "tenant_db \<Rightarrow> string \<Rightarrow> domain_row option" where
  "pg_findDomainById db k = find (\<lambda>d. dmId d = k) (dbDomains db)"

definition pg_findByNormalizedHostname :: "tenant_db \<Rightarrow> string \<Rightarrow> domain_row option" where
  "pg_findByNormalizedHostname db h = find (\<lambda>d. dmNormalizedHostname d = h \<and> dmStatus d \<noteq> Domain_Suspended) (dbDomains db)"

definition pg_listByProject :: "tenant_db \<Rightarrow> string \<Rightarrow> list_options \<Rightarrow> domain_row page_result" where
  "pg_listByProject db projectId options = page_by_id dmId options (filter (\<lambda>d. dmProjectId d = projectId) (dbDomains db))"

definition repo_result :: "tenant_db \<Rightarrow> tenant_error + 'a \<times> tenant_db \<Rightarrow> (tenant_error + 'a) \<times> tenant_db" where
  "repo_result db r = (case r of Inl e \<Rightarrow> (Inl e, db) | Inr (v, db') \<Rightarrow> (Inr v, db'))"

definition pg_rotateVerificationToken ::
  "tx_env \<Rightarrow> string \<Rightarrow> string \<Rightarrow> tenant_db \<Rightarrow> (tenant_error + domain_row option) \<times> tenant_db" where
  "pg_rotateVerificationToken env k newTokenHash db =
     (case pg_findDomainById db k of
        None \<Rightarrow> (Inr None, db)
      | Some existing \<Rightarrow> repo_result db (update_domain k (rotate_domain env newTokenHash existing) db))"

definition pg_markVerificationAttempt ::
  "tx_env \<Rightarrow> string \<Rightarrow> string option \<Rightarrow> tenant_db \<Rightarrow> (tenant_error + domain_row option) \<times> tenant_db" where
  "pg_markVerificationAttempt env k failureCode db =
     (case pg_findDomainById db k of
        None \<Rightarrow> (Inr None, db)
      | Some existing \<Rightarrow> repo_result db (update_domain k (mark_domain env failureCode existing) db))"

definition fake_createDomain ::
  "tx_env \<Rightarrow> string \<Rightarrow> create_domain_input \<Rightarrow> domain_row list \<Rightarrow> (tenant_error + domain_row) \<times> domain_row list" where
  "fake_createDomain env projectId input store =
     (case find (\<lambda>d. dmNormalizedHostname d = cdNormalizedHostname input \<and> dmStatus d \<noteq> Domain_Suspended) store of
        Some _ \<Rightarrow> (Inl (App DOMAIN_ALREADY_EXISTS), store)
      | None \<Rightarrow> (let domain = new_domain env projectId input in (Inr domain, map_set dmId domain store)))"

definition fake_findDomainById :: "domain_row list \<Rightarrow> string \<Rightarrow> domain_row option" where
  "fake_findDomainById store k = map_get dmId store k"

definition fake_findByNormalizedHostname :: "domain_row list \<Rightarrow> string \<Rightarrow> domain_row option" where
  "fake_findByNormalizedHostname store h = find (\<lambda>d. dmNormalizedHostname d = h \<and> dmStatus d \<noteq> Domain_Suspended) store"

definition fake_listByProject :: "domain_row list \<Rightarrow> string \<Rightarrow> list_options \<Rightarrow> domain_row page_result" where
  "fake_listByProject store projectId options = fake_page dmId dmCreatedAt options (filter (\<lambda>d. dmProjectId d = projectId) store)"

definition fake_change ::
  "(domain_row \<Rightarrow> domain_row \<Rightarrow> domain_row) \<Rightarrow> string \<Rightarrow> domain_row list \<Rightarrow> (tenant_error + domain_row option) \<times> domain_row list" where
  "fake_change f k store =
     (case map_get dmId store k of
        None \<Rightarrow> (Inr None, store)
      | Some domain \<Rightarrow> (let updated = f domain domain in (Inr (Some updated), map_set dmId updated store)))"

definition fake_rotateVerificationToken ::
  "tx_env \<Rightarrow> string \<Rightarrow> string \<Rightarrow> domain_row list \<Rightarrow> (tenant_error + domain_row option) \<times> domain_row list" where
  "fake_rotateVerificationToken env k newTokenHash store = fake_change (rotate_domain env newTokenHash) k store"

definition fake_markVerificationAttempt ::
  "tx_env \<Rightarrow> string \<Rightarrow> string option \<Rightarrow> domain_row list \<Rightarrow> (tenant_error + domain_row option) \<times> domain_row list" where
  "fake_markVerificationAttempt env k failureCode store = fake_change (mark_domain env failureCode) k store"

subsection \<open>The interface of the domain repository\<close>

text \<open>
  What a service may rely on, whoever provides it: a new domain is found by its id and its name, a
  name that is in use is refused, and a rotation leaves the domain unverified with the new hash.
\<close>

locale domain_repository =
  fixes create :: "tx_env \<Rightarrow> string \<Rightarrow> create_domain_input \<Rightarrow> 's \<Rightarrow> (tenant_error + domain_row) \<times> 's"
    and find_by_id :: "'s \<Rightarrow> string \<Rightarrow> domain_row option"
    and find_by_hostname :: "'s \<Rightarrow> string \<Rightarrow> domain_row option"
    and rotate :: "tx_env \<Rightarrow> string \<Rightarrow> string \<Rightarrow> 's \<Rightarrow> (tenant_error + domain_row option) \<times> 's"
    and ok :: "'s \<Rightarrow> bool"
  assumes create_found: "ok s \<Longrightarrow> find_by_id s (txNewId env) = None \<Longrightarrow> create env p i s = (Inr d, s') \<Longrightarrow>
      ok s' \<and> find_by_id s' (txNewId env) = Some d \<and> find_by_hostname s' (cdNormalizedHostname i) = Some d
        \<and> dmVerificationTokenHash d = cdVerificationTokenHash i \<and> dmStatus d = Domain_Pending"
    and create_taken: "ok s \<Longrightarrow> find_by_id s (txNewId env) = None \<Longrightarrow> find_by_hostname s (cdNormalizedHostname i) \<noteq> None \<Longrightarrow>
      create env p i s = (Inl (App DOMAIN_ALREADY_EXISTS), s)"
    and rotate_found: "ok s \<Longrightarrow> find_by_id s k = Some d \<Longrightarrow>
      \<exists>s' d'. rotate env k h s = (Inr (Some d'), s') \<and> ok s' \<and> find_by_id s' k = Some d' \<and> dmVerificationTokenHash d' = h
        \<and> dmStatus d' \<noteq> Domain_Verified"
    and rotate_missing: "find_by_id s k = None \<Longrightarrow> rotate env k h s = (Inr None, s)"
begin

text \<open>A name is registered once, by whichever project comes first.\<close>

lemma first_come:
  assumes "ok s" "find_by_id s (txNewId env) = None" "create env p i s = (Inr d, s')"
    and "find_by_id s' (txNewId env') = None" "cdNormalizedHostname i' = cdNormalizedHostname i"
  shows "create env' p' i' s' = (Inl (App DOMAIN_ALREADY_EXISTS), s')"
  using create_found [OF assms(1-3)] create_taken [of s' env' i' p'] assms(4,5) by simp

text \<open>A new domain whose token is rotated needs a proof of the new token.\<close>

lemma created_then_rotated:
  assumes "ok s" "find_by_id s (txNewId env) = None" "create env p i s = (Inr d, s')"
  shows "\<exists>s'' d'. rotate env' (txNewId env) h s' = (Inr (Some d'), s'') \<and> find_by_id s'' (txNewId env) = Some d'
    \<and> dmVerificationTokenHash d' = h \<and> dmStatus d' \<noteq> Domain_Verified"
  using create_found [OF assms] rotate_found [of s' "txNewId env"] by metis

end

text \<open>Facts on tables of domains, under their two indexes.\<close>

definition domains_ok :: "domain_row list \<Rightarrow> bool" where
  "domains_ok t \<longleftrightarrow> unique_on dmId t \<and> hostname_unique t"

lemma map_set_update:
  assumes "unique_on key t" "row_at key t k = Some r" "key (f r) = k"
  shows "map_set key (f r) t = snd (update_where (\<lambda>x. key x = k) f t)"
proof -
  have "x = r" if mem: "x \<in> set t" "key x = k" for x
    using unique_onD [OF assms(1) mem(1)] row_at_SomeD [OF assms(2)] mem(2) by metis
  with assms(2,3) show ?thesis by (auto simp: map_set_def update_where_def)
qed

lemma hostname_taken:
  "hostname_unique t \<Longrightarrow> dmStatus r \<noteq> Domain_Suspended \<Longrightarrow>
     hostname_unique (t @ [r]) \<longleftrightarrow> find (\<lambda>d. dmNormalizedHostname d = dmNormalizedHostname r \<and> dmStatus d \<noteq> Domain_Suspended) t = None"
  unfolding hostname_unique_def unique_on_def find_None_iff by (auto simp: image_iff)

lemma hostname_unique_update:
  assumes "hostname_unique t" "\<And>d. d \<in> set t \<Longrightarrow> dmId d = k \<Longrightarrow> dmNormalizedHostname (f d) = dmNormalizedHostname d
      \<and> (dmStatus (f d) = Domain_Suspended \<longleftrightarrow> dmStatus d = Domain_Suspended)"
  shows "hostname_unique (snd (update_where (\<lambda>d. dmId d = k) f t))"
proof -
  have "map dmNormalizedHostname (filter (\<lambda>d. dmStatus d \<noteq> Domain_Suspended) (snd (update_where (\<lambda>d. dmId d = k) f t)))
      = map dmNormalizedHostname (filter (\<lambda>d. dmStatus d \<noteq> Domain_Suspended) t)"
    using assms(2) by (induction t) (auto simp: update_where_def)
  with assms(1) show ?thesis by (simp add: hostname_unique_def unique_on_def)
qed

lemma find_id_update:
  assumes "row_at dmId t k = Some r" "\<And>d. dmId (f d) = dmId d"
  shows "row_at dmId (snd (update_where (\<lambda>d. dmId d = k) f t)) k = Some (f r)"
  using assms row_at_SomeD [OF assms(1)] by (simp add: row_at_update)

text \<open>A change of the row of an id that keeps its name and does not touch suspension.\<close>

lemma update_domain_ok:
  assumes "domains_ok (dbDomains db)" "row_at dmId (dbDomains db) k = Some r" "\<And>d. dmId (f d) = dmId d"
    and "dmNormalizedHostname (f r) = dmNormalizedHostname r" "dmStatus (f r) = Domain_Suspended \<longleftrightarrow> dmStatus r = Domain_Suspended"
  shows "update_domain k f db = Inr (Some (f r), db\<lparr>dbDomains := map_set dmId (f r) (dbDomains db)\<rparr>)"
    and "domains_ok (map_set dmId (f r) (dbDomains db))" and "row_at dmId (map_set dmId (f r) (dbDomains db)) k = Some (f r)"
proof -
  have u: "unique_on dmId (dbDomains db)" "hostname_unique (dbDomains db)" using assms(1) by (simp_all add: domains_ok_def)
  have r: "r \<in> set (dbDomains db)" "dmId r = k" using row_at_SomeD [OF assms(2)] by auto
  have "d = r" if mem: "d \<in> set (dbDomains db)" "dmId d = k" for d using unique_onD [OF u(1) mem(1) r(1)] mem(2) r(2) by simp
  then have h: "hostname_unique (snd (update_where (\<lambda>d. dmId d = k) f (dbDomains db)))"
    using assms(4,5) by (intro hostname_unique_update [OF u(2)]) auto
  have s: "map_set dmId (f r) (dbDomains db) = snd (update_where (\<lambda>d. dmId d = k) f (dbDomains db))"
    by (rule map_set_update [OF u(1) assms(2)]) (use assms(3) r in simp)
  have "first_row (fst (update_where (\<lambda>d. dmId d = k) f (dbDomains db))) = Some (f r)"
    using assms(2) by (simp add: update_where_first row_at_def)
  with h show "update_domain k f db = Inr (Some (f r), db\<lparr>dbDomains := map_set dmId (f r) (dbDomains db)\<rparr>)"
    by (auto simp: update_domain_def s Let_def split: prod.splits)
  show "domains_ok (map_set dmId (f r) (dbDomains db))"
    unfolding s domains_ok_def using h unique_on_updateI [of dmId f, OF assms(3) u(1)] by simp
  show "row_at dmId (map_set dmId (f r) (dbDomains db)) k = Some (f r)"
    unfolding s by (rule find_id_update [OF assms(2,3)])
qed

lemma rotate_domain_keeps:
  "dmId (rotate_domain env h e d) = dmId d" "dmNormalizedHostname (rotate_domain env h e d) = dmNormalizedHostname d"
  "dmVerificationTokenHash (rotate_domain env h e d) = h" "dmStatus (rotate_domain env h e d) \<noteq> Domain_Verified"
  "dmStatus (rotate_domain env h d d) = Domain_Suspended \<longleftrightarrow> dmStatus d = Domain_Suspended"
  by (auto simp: rotate_domain_def Let_def)

lemma mark_domain_keeps:
  "dmId (mark_domain env c e d) = dmId d" "dmNormalizedHostname (mark_domain env c e d) = dmNormalizedHostname d"
  "dmStatus (mark_domain env c d d) \<noteq> Domain_Suspended"
  by (auto simp: mark_domain_def split: option.splits)

subsection \<open>Both providers\<close>

text \<open>An insert under the indexes, when the drawn id is new.\<close>

lemma insert_domain_new:
  assumes "domains_ok (dbDomains db)" "row_at dmId (dbDomains db) (dmId r) = None" "dmStatus r \<noteq> Domain_Suspended"
  shows "insert_domain r db =
    (if find (\<lambda>d. dmNormalizedHostname d = dmNormalizedHostname r \<and> dmStatus d \<noteq> Domain_Suspended) (dbDomains db) = None
     then Inr (db\<lparr>dbDomains := dbDomains db @ [r]\<rparr>) else Inl (Db Unique_Violation))"
  using assms hostname_taken [of "dbDomains db" r] by (simp add: insert_domain_def insert_unique_def domains_ok_def)

lemma new_domain_fields:
  "dmId (new_domain env p i) = txNewId env" "dmNormalizedHostname (new_domain env p i) = cdNormalizedHostname i"
  "dmStatus (new_domain env p i) = Domain_Pending" "dmVerificationTokenHash (new_domain env p i) = cdVerificationTokenHash i"
  by (simp_all add: new_domain_def)

lemma find_snoc: "find P (t @ [r]) = (case find P t of Some x \<Rightarrow> Some x | None \<Rightarrow> if P r then Some r else None)"
  by (induction t) auto

lemma appended_ok:
  assumes "domains_ok t" "row_at dmId t (dmId r) = None" "dmStatus r \<noteq> Domain_Suspended"
    and "find (\<lambda>d. dmNormalizedHostname d = dmNormalizedHostname r \<and> dmStatus d \<noteq> Domain_Suspended) t = None"
  shows "domains_ok (t @ [r])" "row_at dmId (t @ [r]) (dmId r) = Some r"
    "find (\<lambda>d. dmNormalizedHostname d = dmNormalizedHostname r \<and> dmStatus d \<noteq> Domain_Suspended) (t @ [r]) = Some r"
  using assms hostname_taken [of t r] unique_on_append_at [of dmId t r]
  by (simp_all add: domains_ok_def row_at_append find_snoc split: option.splits)

text \<open>Creating: the double does what the database does, for a project that exists.\<close>

lemma pg_create_cases:
  assumes "domains_ok (dbDomains db)" "row_at dmId (dbDomains db) (txNewId env) = None"
  shows "pg_createDomain env p i db =
    (if pg_findByNormalizedHostname db (cdNormalizedHostname i) \<noteq> None then (Inl (App DOMAIN_ALREADY_EXISTS), db)
     else if list_ex (\<lambda>q. pjId q = p) (dbProjects db)
     then (Inr (new_domain env p i), db\<lparr>dbDomains := dbDomains db @ [new_domain env p i]\<rparr>)
     else (Inl (Db Foreign_Key_Violation), db))"
  using insert_domain_new [of db "new_domain env p i"] assms
  by (simp add: pg_createDomain_def pg_findByNormalizedHostname_def new_domain_fields unique_violation_as_def Let_def)

lemma fake_create_cases:
  assumes "row_at dmId store (txNewId env) = None"
  shows "fake_createDomain env p i store =
    (if fake_findByNormalizedHostname store (cdNormalizedHostname i) \<noteq> None then (Inl (App DOMAIN_ALREADY_EXISTS), store)
     else (Inr (new_domain env p i), store @ [new_domain env p i]))"
  using assms
  by (auto simp: fake_createDomain_def fake_findByNormalizedHostname_def map_set_def new_domain_fields Let_def split: option.splits)

lemma pg_find_id: "pg_findDomainById db k = row_at dmId (dbDomains db) k"
  by (simp add: pg_findDomainById_def row_at_def)

lemma fake_find_id: "fake_findDomainById store k = row_at dmId store k"
  by (simp add: fake_findDomainById_def map_get_def)

lemma pg_rotate_found:
  assumes "domains_ok (dbDomains db)" "row_at dmId (dbDomains db) k = Some d"
  shows "pg_rotateVerificationToken env k h db =
    (Inr (Some (rotate_domain env h d d)), db\<lparr>dbDomains := map_set dmId (rotate_domain env h d d) (dbDomains db)\<rparr>)"
  using assms update_domain_ok(1) [OF assms, of "rotate_domain env h d"]
  by (simp add: pg_rotateVerificationToken_def pg_find_id repo_result_def rotate_domain_keeps)

interpretation pg_domains: domain_repository pg_createDomain pg_findDomainById pg_findByNormalizedHostname pg_rotateVerificationToken
  "\<lambda>db. domains_ok (dbDomains db)"
proof unfold_locales
  fix db :: tenant_db and env :: tx_env and p and i :: create_domain_input and d db'
  assume ok: "domains_ok (dbDomains db)" and new: "pg_findDomainById db (txNewId env) = None"
    and made: "pg_createDomain env p i db = (Inr d, db')"
  note id = new [unfolded pg_find_id]
  from made pg_create_cases [OF ok id, of p i] have d: "d = new_domain env p i" "dbDomains db' = dbDomains db @ [d]"
    "pg_findByNormalizedHostname db (cdNormalizedHostname i) = None"
    by (auto split: if_splits)
  with ok id appended_ok [of "dbDomains db" d] show "domains_ok (dbDomains db') \<and> pg_findDomainById db' (txNewId env) = Some d
      \<and> pg_findByNormalizedHostname db' (cdNormalizedHostname i) = Some d
      \<and> dmVerificationTokenHash d = cdVerificationTokenHash i \<and> dmStatus d = Domain_Pending"
    by (simp add: pg_find_id pg_findByNormalizedHostname_def new_domain_fields)
next
  fix db :: tenant_db and env :: tx_env and p and i :: create_domain_input
  assume "domains_ok (dbDomains db)" "pg_findDomainById db (txNewId env) = None"
    "pg_findByNormalizedHostname db (cdNormalizedHostname i) \<noteq> None"
  then show "pg_createDomain env p i db = (Inl (App DOMAIN_ALREADY_EXISTS), db)" by (simp add: pg_create_cases pg_find_id)
next
  fix db :: tenant_db and env :: tx_env and k h d
  assume ok: "domains_ok (dbDomains db)" and "pg_findDomainById db k = Some d"
  then have d: "row_at dmId (dbDomains db) k = Some d" by (simp add: pg_find_id)
  note u = update_domain_ok [OF ok d, of "rotate_domain env h d", OF rotate_domain_keeps(1,2,5)]
  show "\<exists>db' d'. pg_rotateVerificationToken env k h db = (Inr (Some d'), db') \<and> domains_ok (dbDomains db')
      \<and> pg_findDomainById db' k = Some d' \<and> dmVerificationTokenHash d' = h \<and> dmStatus d' \<noteq> Domain_Verified"
    using u(2,3) by (simp add: pg_rotate_found [OF ok d] pg_find_id rotate_domain_keeps)
next
  fix db :: tenant_db and env :: tx_env and k h
  assume "pg_findDomainById db k = None"
  then show "pg_rotateVerificationToken env k h db = (Inr None, db)" by (simp add: pg_rotateVerificationToken_def)
qed

text \<open>
  The double is the database, as far as the table of domains goes: same answers and same rows for
  every operation on a table that keeps its indexes, for a project that exists. Attempts on a
  suspended domain are left out, because they lift the suspension: the index may then refuse what
  the double accepts.
\<close>

lemma fake_change_update:
  assumes "domains_ok (dbDomains db)" "row_at dmId (dbDomains db) k = Some d" "\<And>x. dmId (f d x) = dmId x"
    and "dmNormalizedHostname (f d d) = dmNormalizedHostname d" "dmStatus (f d d) = Domain_Suspended \<longleftrightarrow> dmStatus d = Domain_Suspended"
  shows "fake_change f k (dbDomains db) = apsnd dbDomains (repo_result db (update_domain k (f d) db))"
  using update_domain_ok(1) [OF assms(1,2), of "f d", OF assms(3-5)] assms(2)
  by (simp add: fake_change_def map_get_def repo_result_def Let_def)

lemma doubles_agree:
  assumes "domains_ok (dbDomains db)"
  shows "fake_findDomainById (dbDomains db) k = pg_findDomainById db k"
    "fake_findByNormalizedHostname (dbDomains db) h = pg_findByNormalizedHostname db h"
    "row_at dmId (dbDomains db) (txNewId env) = None \<Longrightarrow> list_ex (\<lambda>q. pjId q = p) (dbProjects db) \<Longrightarrow>
       fake_createDomain env p i (dbDomains db) = apsnd dbDomains (pg_createDomain env p i db)"
    "fake_rotateVerificationToken env k h (dbDomains db) = apsnd dbDomains (pg_rotateVerificationToken env k h db)"
    "\<forall>d. pg_findDomainById db k = Some d \<longrightarrow> dmStatus d \<noteq> Domain_Suspended \<Longrightarrow>
       fake_markVerificationAttempt env k c (dbDomains db) = apsnd dbDomains (pg_markVerificationAttempt env k c db)"
proof -
  show "fake_findDomainById (dbDomains db) k = pg_findDomainById db k" by (simp add: fake_find_id pg_find_id)
  show hostname: "fake_findByNormalizedHostname (dbDomains db) h = pg_findByNormalizedHostname db h" for h
    by (simp add: fake_findByNormalizedHostname_def pg_findByNormalizedHostname_def)
  show "fake_createDomain env p i (dbDomains db) = apsnd dbDomains (pg_createDomain env p i db)"
    if id: "row_at dmId (dbDomains db) (txNewId env) = None" and p: "list_ex (\<lambda>q. pjId q = p) (dbProjects db)"
    using p by (simp add: pg_create_cases [OF assms id] fake_create_cases [OF id] hostname)
  show "fake_rotateVerificationToken env k h (dbDomains db) = apsnd dbDomains (pg_rotateVerificationToken env k h db)"
  proof (cases "row_at dmId (dbDomains db) k")
    case (Some d)
    then show ?thesis
      using fake_change_update [OF assms Some, of "rotate_domain env h", OF rotate_domain_keeps(1,2,5)]
      by (simp add: fake_rotateVerificationToken_def pg_rotateVerificationToken_def pg_find_id)
  qed (simp add: fake_rotateVerificationToken_def fake_change_def map_get_def pg_rotateVerificationToken_def pg_find_id)
  show "fake_markVerificationAttempt env k c (dbDomains db) = apsnd dbDomains (pg_markVerificationAttempt env k c db)"
    if active: "\<forall>d. pg_findDomainById db k = Some d \<longrightarrow> dmStatus d \<noteq> Domain_Suspended"
  proof (cases "row_at dmId (dbDomains db) k")
    case (Some d)
    then have "dmStatus d \<noteq> Domain_Suspended" using active by (simp add: pg_find_id)
    then have "dmStatus (mark_domain env c d d) = Domain_Suspended \<longleftrightarrow> dmStatus d = Domain_Suspended"
      using mark_domain_keeps(3) [of env c d] by simp
    with Some fake_change_update [OF assms Some, of "mark_domain env c", OF mark_domain_keeps(1,2)] show ?thesis
      by (simp add: fake_markVerificationAttempt_def pg_markVerificationAttempt_def pg_find_id)
  qed (simp add: fake_markVerificationAttempt_def fake_change_def map_get_def pg_markVerificationAttempt_def pg_find_id)
qed

lemma fake_create_db:
  "fake_createDomain env p i store = (r, store') \<Longrightarrow> domains_ok store \<Longrightarrow> row_at dmId store (txNewId env) = None \<Longrightarrow>
     store' = store \<and> r = Inl (App DOMAIN_ALREADY_EXISTS) \<or> r = Inr (new_domain env p i) \<and> store' = store @ [new_domain env p i]
       \<and> fake_findByNormalizedHostname store (cdNormalizedHostname i) = None"
  by (auto simp: fake_create_cases split: if_splits)

interpretation fake_domains: domain_repository fake_createDomain fake_findDomainById fake_findByNormalizedHostname
  fake_rotateVerificationToken domains_ok
proof unfold_locales
  fix store :: "domain_row list" and env :: tx_env and p and i :: create_domain_input and d store'
  assume ok: "domains_ok store" and "fake_findDomainById store (txNewId env) = None"
    and made: "fake_createDomain env p i store = (Inr d, store')"
  then have id: "row_at dmId store (txNewId env) = None" by (simp add: fake_find_id)
  from fake_create_db [OF made ok id] have d: "d = new_domain env p i" "store' = store @ [d]"
    "fake_findByNormalizedHostname store (cdNormalizedHostname i) = None"
    by auto
  with ok id appended_ok [of store d] show "domains_ok store' \<and> fake_findDomainById store' (txNewId env) = Some d
      \<and> fake_findByNormalizedHostname store' (cdNormalizedHostname i) = Some d
      \<and> dmVerificationTokenHash d = cdVerificationTokenHash i \<and> dmStatus d = Domain_Pending"
    by (simp add: fake_find_id fake_findByNormalizedHostname_def new_domain_fields)
next
  fix store :: "domain_row list" and env :: tx_env and p and i :: create_domain_input
  assume "domains_ok store" "fake_findDomainById store (txNewId env) = None"
    "fake_findByNormalizedHostname store (cdNormalizedHostname i) \<noteq> None"
  then show "fake_createDomain env p i store = (Inl (App DOMAIN_ALREADY_EXISTS), store)" by (simp add: fake_create_cases fake_find_id)
next
  fix store :: "domain_row list" and env :: tx_env and k h d
  assume ok: "domains_ok store" and "fake_findDomainById store k = Some d"
  then have d: "row_at dmId store k = Some d" by (simp add: fake_find_id)
  let ?db = "undefined\<lparr>dbDomains := store\<rparr> :: tenant_db"
  note u = update_domain_ok [of ?db k d "rotate_domain env h d", OF _ _ rotate_domain_keeps(1,2,5)]
  show "\<exists>store' d'. fake_rotateVerificationToken env k h store = (Inr (Some d'), store') \<and> domains_ok store'
      \<and> fake_findDomainById store' k = Some d' \<and> dmVerificationTokenHash d' = h \<and> dmStatus d' \<noteq> Domain_Verified"
    using u(2,3) ok d by (simp add: fake_rotateVerificationToken_def fake_change_def map_get_def fake_find_id rotate_domain_keeps Let_def)
next
  fix store :: "domain_row list" and env :: tx_env and k h
  assume "fake_findDomainById store k = None"
  then show "fake_rotateVerificationToken env k h store = (Inr None, store)"
    by (simp add: fake_rotateVerificationToken_def fake_change_def map_get_def fake_find_id)
qed

text \<open>An attempt on a suspended domain lifts the suspension, in both providers and in the tenant repository.\<close>

lemma attempt_lifts_suspension:
  "dmStatus d = Domain_Suspended \<Longrightarrow> dmStatus (mark_domain env c d d) = (if c = None then Domain_Verified else Domain_Failed)"
  by (auto simp: mark_domain_def split: option.splits)

subsection \<open>Sitemap sources and discovered pages\<close>

definition pg_upsertSource :: "tx_env \<Rightarrow> string \<Rightarrow> upsert_source_input \<Rightarrow> tenant_db \<Rightarrow> (tenant_error + sitemap_source_row) \<times> tenant_db" where
  "pg_upsertSource env domainId input db =
     (case upsert_source (new_source env domainId input) (\<lambda>s. s\<lparr>ssUpdatedAt := txNow env\<rparr>) db of
        Inl e \<Rightarrow> (Inl e, db)
      | Inr (row, db') \<Rightarrow>
          (if list_ex (\<lambda>d. dmId d = domainId) (dbDomains db) then (Inr row, db') else (Inl (Db Foreign_Key_Violation), db)))"

definition pg_findSourceById :: "tenant_db \<Rightarrow> string \<Rightarrow> sitemap_source_row option" where
  "pg_findSourceById db k = find (\<lambda>s. ssId s = k) (dbSources db)"

definition pg_listSourcesByDomain :: "tenant_db \<Rightarrow> string \<Rightarrow> sitemap_source_row list" where
  "pg_listSourcesByDomain db domainId = filter (\<lambda>s. ssDomainId s = domainId) (dbSources db)"

definition pg_recordFetchResult :: "tx_env \<Rightarrow> string \<Rightarrow> fetch_result_input \<Rightarrow> tenant_db \<Rightarrow> sitemap_source_row option \<times> tenant_db" where
  "pg_recordFetchResult env k input db =
     (let (rows, t) = update_where (\<lambda>s. ssId s = k) (record_fetch env input) (dbSources db) in (first_row rows, db\<lparr>dbSources := t\<rparr>))"

definition fake_upsertSource :: "tx_env \<Rightarrow> string \<Rightarrow> upsert_source_input \<Rightarrow> sitemap_source_row list \<Rightarrow> sitemap_source_row \<times> sitemap_source_row list" where
  "fake_upsertSource env domainId input store =
     (case find (\<lambda>s. ssDomainId s = domainId \<and> ssNormalizedUrl s = usNormalizedUrl input) store of
        Some existing \<Rightarrow> (existing, store)
      | None \<Rightarrow> (let source = new_source env domainId input in (source, map_set ssId source store)))"

text \<open>\<open>a ?? b\<close>: the first that is neither null nor undefined.\<close>

definition coalesce :: "'a option option \<Rightarrow> 'a option \<Rightarrow> 'a option" where
  "coalesce a b = (case a of Some (Some v) \<Rightarrow> Some v | _ \<Rightarrow> b)"

definition fake_record_fetch :: "tx_env \<Rightarrow> fetch_result_input \<Rightarrow> sitemap_source_row \<Rightarrow> sitemap_source_row" where
  "fake_record_fetch env i s =
     s\<lparr>ssStatus := frStatusSet i, ssLastFetchedAt := Some (txNow env),
       ssLastHttpStatus := coalesce (frLastHttpStatus i) (ssLastHttpStatus s),
       ssLastErrorCode := coalesce (frLastErrorCode i) None,
       ssEtag := coalesce (frEtag i) (ssEtag s), ssLastModified := coalesce (frLastModified i) (ssLastModified s),
       ssDiscoveredUrlCount := case_option (ssDiscoveredUrlCount s) id (frDiscoveredUrlCount i), ssUpdatedAt := txNow env\<rparr>"

definition fake_recordFetchResult ::
  "tx_env \<Rightarrow> string \<Rightarrow> fetch_result_input \<Rightarrow> sitemap_source_row list \<Rightarrow> sitemap_source_row option \<times> sitemap_source_row list" where
  "fake_recordFetchResult env k input store =
     (case map_get ssId store k of
        None \<Rightarrow> (None, store)
      | Some source \<Rightarrow> (let updated = fake_record_fetch env input source in (Some updated, map_set ssId updated store)))"

definition fake_refresh_url :: "time_ms \<Rightarrow> upsert_url_input \<Rightarrow> discovered_url_row \<Rightarrow> discovered_url_row" where
  "fake_refresh_url now input r =
     r\<lparr>duSitemapSourceId := uuSitemapSourceId input, duLastmod := coalesce (Some (uuLastmod input)) (duLastmod r),
       duPriority := coalesce (Some (uuPriority input)) (duPriority r),
       duChangefreq := coalesce (Some (uuChangefreq input)) (duChangefreq r), duLastDiscoveredAt := now, duUpdatedAt := now\<rparr>"

text \<open>The ids drawn for the new records, one per input.\<close>

fun fake_upsertMany :: "time_ms \<Rightarrow> (upsert_url_input \<times> string) list \<Rightarrow> discovered_url_row list \<Rightarrow> nat \<times> discovered_url_row list" where
  "fake_upsertMany now [] store = (0, store)"
| "fake_upsertMany now ((input, i) # rest) store =
     (let store1 = (case find (\<lambda>u. duDomainId u = uuDomainId input \<and> duNormalizedUrl u = uuNormalizedUrl input) store of
                      Some existing \<Rightarrow> map_set duId (fake_refresh_url now input existing) store
                    | None \<Rightarrow> map_set duId (new_url now i input) store);
          (count, store2) = fake_upsertMany now rest store1
      in (count + 1, store2))"

definition fake_countByDomain :: "discovered_url_row list \<Rightarrow> string \<Rightarrow> nat" where
  "fake_countByDomain store domainId = length (filter (\<lambda>u. duDomainId u = domainId) store)"

definition fake_listUrlsByDomain :: "discovered_url_row list \<Rightarrow> string \<Rightarrow> list_options \<Rightarrow> discovered_url_row page_result" where
  "fake_listUrlsByDomain store domainId options = fake_page duId duFirstDiscoveredAt options (filter (\<lambda>u. duDomainId u = domainId) store)"

lemma fake_upsertMany_counts: "fst (fake_upsertMany now inputs store) = length inputs"
  by (induction now inputs store rule: fake_upsertMany.induct) (auto simp: Let_def split: prod.splits)

text \<open>The counts agree; what a source or a page keeps does not.\<close>

lemma counts_agree: "fake_countByDomain (dbUrls db) domainId = countByDomain db domainId"
  by (simp add: fake_countByDomain_def countByDomain_def)

lemma recovered_source_differs:
  assumes "frLastErrorCode i = None"
  shows "ssLastErrorCode (fake_record_fetch env i s) = None" "ssLastErrorCode (record_fetch env i s) = ssLastErrorCode s"
  using assms by (simp_all add: fake_record_fetch_def record_fetch_def coalesce_def)

lemma refound_page_differs:
  assumes "uuLastmod input = None"
  shows "duLastmod (fake_refresh_url now input r) = duLastmod r" "duLastmod (refresh_url now input r) = None"
  using assms by (simp_all add: fake_refresh_url_def refresh_url_def coalesce_def)

lemma refound_source_differs:
  assumes "row_at source_key (dbSources db) (domainId, usNormalizedUrl input) = Some s" "list_ex (\<lambda>d. dmId d = domainId) (dbDomains db)"
  shows "fst (fake_upsertSource env domainId input (dbSources db)) = s"
    "fst (pg_upsertSource env domainId input db) = Inr (s\<lparr>ssUpdatedAt := txNow env\<rparr>)"
proof -
  have "find (\<lambda>s. ssDomainId s = domainId \<and> ssNormalizedUrl s = usNormalizedUrl input) (dbSources db) = Some s"
    using assms(1) by (simp add: row_at_def source_key_def)
  then show "fst (fake_upsertSource env domainId input (dbSources db)) = s" by (simp add: fake_upsertSource_def)
  have "source_key (new_source env domainId input) = (domainId, usNormalizedUrl input)" by (simp add: source_key_def new_source_def)
  with assms show "fst (pg_upsertSource env domainId input db) = Inr (s\<lparr>ssUpdatedAt := txNow env\<rparr>)"
    by (simp add: pg_upsertSource_def upsert_source_def)
qed

text \<open>
  What an organization sees through the scoped repository is what the unscoped one holds, as long
  as it is the organization's own.
\<close>

lemma scoped_is_unscoped:
  assumes "db_ok db"
  shows "getProjectForOrganization db org k =
      (case pg_findProjectById db k of Some p \<Rightarrow> if pjOrganizationId p = org \<and> pjStatus p \<noteq> Project_Deleted then Some p else None | None \<Rightarrow> None)"
    "getDomainForOrganization db org k =
      (case pg_findDomainById db k of Some d \<Rightarrow> if project_in db org (dmProjectId d) then Some d else None | None \<Rightarrow> None)"
    "getSitemapSourceForOrganization db org k =
      (case pg_findSourceById db k of Some s \<Rightarrow> if domain_in db org (ssDomainId s) then Some s else None | None \<Rightarrow> None)"
proof -
  have u: "unique_on pjId (dbProjects db)" "unique_on dmId (dbDomains db)" "unique_on ssId (dbSources db)"
    using assms by (simp_all add: db_ok_def)
  show "getProjectForOrganization db org k =
      (case pg_findProjectById db k of Some p \<Rightarrow> if pjOrganizationId p = org \<and> pjStatus p \<noteq> Project_Deleted then Some p else None | None \<Rightarrow> None)"
    using find_key_cond [OF u(1), of k "\<lambda>p. pjOrganizationId p = org \<and> pjStatus p \<noteq> Project_Deleted"]
    by (simp add: getProjectForOrganization_def pg_findProjectById_def row_at_def)
  show "getDomainForOrganization db org k =
      (case pg_findDomainById db k of Some d \<Rightarrow> if project_in db org (dmProjectId d) then Some d else None | None \<Rightarrow> None)"
    using find_key_cond [OF u(2), of k "\<lambda>d. project_in db org (dmProjectId d)"]
    by (simp add: getDomainForOrganization_def pg_findDomainById_def row_at_def)
  show "getSitemapSourceForOrganization db org k =
      (case pg_findSourceById db k of Some s \<Rightarrow> if domain_in db org (ssDomainId s) then Some s else None | None \<Rightarrow> None)"
    using find_key_cond [OF u(3), of k "\<lambda>s. domain_in db org (ssDomainId s)"]
    by (simp add: getSitemapSourceForOrganization_def pg_findSourceById_def row_at_def)
qed

end
