(* ===== verification/Spec2Isabelle.thy ===== *)
theory Spec2Isabelle
  imports RenderCapacity CacheStorage DomainVerification SitemapRoutes Renderer BrowserPool Shell Bootstrap UnscopedRepositories
begin

text \<open>
  A verification library for the multi-tenant prerender service under src/src: a Fastify server
  that renders pages of verified domains in Chromium for crawlers, with organizations, projects,
  domains, API keys, sitemaps, an audit log and a cache of rendered pages.

  \<^bold>\<open>The program.\<close> A request comes in through app.ts. Sign-in goes to the gateway of auth/plugin.ts
  and from there to Better Auth. The management routes of routes/organizations.ts run behind one
  origin check, look up the session and the membership, check a permission and then call services
  and the tenant repository, whose writes are transactions that carry their audit row. POST
  /v1/render checks a project key, two limiters, the organization, the project, the domain and the
  URL, waits for a slot of the capacity controller and renders with the shared browser. Sitemaps
  are discovered and fetched over one HTTP client that validates every hop, and committed as one
  transaction. The cache (metadata rows, object store, storage service) is complete but not called
  by a route yet.

  \<^bold>\<open>Foundations.\<close> Prelude has the JavaScript string operations, decimal numbers, \<open>and_then\<close> for
  fallible steps and the interface \<open>step_system\<close> of everything that lives on the event loop. Sql
  has statements over tables that are lists of rows. AppErrors has lib/app-error.ts and
  lib/errors.ts.

  \<^bold>\<open>Limits and capacity.\<close> RateLimiter: lib/rate-limiter.ts and the limiter and guard of
  domain-verification-service.ts, two providers of the interface \<open>attempt_limiter\<close>. RenderCapacity:
  services/render-capacity.ts, one function per operation of the closure, every interleaving of
  calls, settlements, timers and \<open>close\<close> by \<open>cap_step\<close>.

  \<^bold>\<open>Cache.\<close> CacheKeys: lib/cache-storage-key.ts, cache-identity.ts, render-profile.ts. CachePolicy:
  cache-policy.ts, cache-state.ts, cache-object-limits.ts, html-content-hash.ts,
  html-compression.ts. ObjectStore: the interface \<open>html_object_store\<close>, its extension
  \<open>readable_store\<close>, and both implementations, which interpret them. CacheRepository: the table and
  its operations, interpreting \<open>generation_store\<close>. CacheStorage: cache-storage-service.ts, cut at its
  awaits, and any number of writers at once.

  \<^bold>\<open>URLs and origins.\<close> UrlSecurity: lib/url-security.ts, url-normalize.ts, domain-normalize.ts and
  the redirect loop of safe-http-client.ts. Origins: slug.ts, trusted-origins.ts, csrf.ts.

  \<^bold>\<open>Tenancy.\<close> AuditLog: lib/audit-events.ts, the audit repository and service. Permissions:
  auth/permissions.ts. TenantDb: the rows of db/schema.ts, the audited transaction and the
  interface \<open>tenant_scoped\<close>. TenantRepository: repositories/postgres/tenant-repository.ts, one
  definition per operation. TenantIsolation and TenantAudit: what all of them guarantee. ApiKeys:
  api-key-repository.ts and api-key-service.ts. Access: auth/session.ts and tenant-context.ts.
  Memberships: members, invitations and routes/onboarding.ts. Domains and DomainVerification:
  tokens, DNS and file checks, and the verify handler. Management and ManagementGate: the other
  handlers of routes/organizations.ts, and two properties of all of them at once.

  \<^bold>\<open>Sitemaps.\<close> SitemapParser: lib/sitemap-parser.ts and robots-parser.ts. SitemapFetch:
  sitemap-discovery-service.ts and sitemap-fetch-service.ts. SitemapPersistence:
  sitemap-persistence-repository.ts. SitemapRoutes: both handlers, from the request to the commit.

  \<^bold>\<open>Rendering.\<close> RenderRoute: routes/render.ts and render-api-key-auth-service.ts. BrowserPool and
  Renderer: services/renderer.ts and lib/browser-launch.ts.

  \<^bold>\<open>The process.\<close> EnvConfig: config/env.ts and the check in server.ts. AuthGateway: auth/plugin.ts,
  rate-limit-keys.ts, security-events.ts. Shell: request ids, CORS, readiness, metrics and the
  endpoints that are gone. Bootstrap: the first owner and the tenancy backfill.
  UnscopedRepositories: the repositories from before there were organizations and the in-memory
  doubles of the unit tests, which agree on domains and differ elsewhere; the interface
  \<open>domain_repository\<close> is interpreted by both.
\<close>

text \<open>
  \<^bold>\<open>How code becomes definitions.\<close> A TypeScript interface is a record, a union of literals a
  datatype; a function keeps its name and the order of its checks. An exception or an early return
  is the left side of a sum. An operation that changes state returns the new state; a handler
  returns its reply and the new database. Time, drawn ids and answers from outside are arguments,
  one per moment at which the code asks for them.

  \<^bold>\<open>Awaits.\<close> Where something can happen between two awaits that matters, the operation is cut there:
  the capacity controller, the cache writers, invitations, key rotation and revocation, domain
  verification, the sign-in gateway, the shared browser, the readiness ping, the bootstrap
  transaction, and the network phase of the sitemap handlers. The parts are the steps of an
  inductive relation or of a run over a list of events, so that the properties hold for every
  interleaving. Everything else is one step: a tenant operation reads and writes at one moment, and
  the three reads of the render route are at three moments.

  \<^bold>\<open>Parameters.\<close> The URL parser, ipaddr.js and \<open>net.isIP\<close>, DNS, the TLS request, SHA-256 and HMAC,
  node:zlib, sax, Date, base64url, zod's tests of numbers, UUIDs and addresses, Better Auth and
  Playwright are arguments. What is assumed of them is a named predicate with an instance that
  satisfies it (\<open>ip_library_ok\<close>, \<open>zlib_ok\<close>, \<open>codec_ok\<close>, \<open>sax_ok\<close>), each stating documented behaviour.

  \<^bold>\<open>Bounds.\<close> No definition has fuel. Loops are structural, or have a measure: \<open>drainQueue\<close> the length
  of the queue, \<open>safeFetch_loop\<close> the redirects that are left, \<open>buildSitemapFetchTree\<close> the levels that
  are left, which the depth limit of the source gives. Addresses are 32 and 128 bit words, bytes 8
  bit words; JavaScript numbers are integers where the code keeps them below 2^53, and cache
  generations are rounded where it does not.

  \<^bold>\<open>What the lemmas show.\<close> Safety of the two gates: who gets a page and what a refusal says
  (RenderRoute), from the request to the page (Renderer), who changes what (ManagementGate), no
  cross-tenant effect (TenantIsolation), a change exactly when there is an audit row (TenantAudit).
  Invariants over all interleavings: capacity bounds and exactly-once (RenderCapacity), ready rows
  have their objects (CacheStorage), owners and invitations (Memberships), keys (ApiKeys), domains
  that were proven (DomainVerification), one browser (BrowserPool). Bounds: limiters (RateLimiter,
  AuthGateway), the sitemap fetch (SitemapFetch), redirects (UrlSecurity). Round trips: storage keys,
  commit and read, sitemap documents. Equivalence and refinement: the address policy as number
  ranges, the metrics peers as private blocks, the cache repository as a map. Types: every
  configuration the server starts with (EnvConfig). Error behaviour: refusals, failed requests
  change nothing, atomic put.

  \<^bold>\<open>Where the code does not do what it says\<close> a lemma shows the run: two writers of one page lose it,
  a cursor skips rows of one millisecond, a cancelled invitation is accepted, a rotated token
  verifies, a text body crashes the render route, a failed sitemap fetch is recorded as a success, a
  failed launch leaves a browser behind, two bootstraps both succeed, among others.

  \<^bold>\<open>Not modelled.\<close> The wiring of \<open>buildApp\<close>, the logger, helmet and the global rate limit are
  configuration of libraries; lib/metrics.ts is one call of prom-client per method and decides
  nothing; auth/auth.ts configures Better Auth; the tables that only Better Auth touches, the command
  line wrappers under src/scripts and the tests. Log lines are left out,
  and so are metrics except where a model keeps the label it counts. Code units above 255 are
  outside the model of strings, except in HTML bodies, which CachePolicy has as scalar values.
\<close>

end
